(* ===== verification/Prelude.thy ===== *)
theory Prelude
  imports Main "HOL-Library.Word" "HOL-Library.AList"
begin

text \<open>
  Shared vocabulary of the development: outcomes of C++ code (a value, a C++ exception, undefined
  behaviour, or fuel exhausted), procedures that pass a state and keep it when they raise, the
  preservation predicate used for every invariant proof, unsigned 64-bit size arithmetic, and the
  decimal rendering of integers that \<open>std::to_string\<close> produces.
\<close>

named_theorems keeps_intros "rules that decompose a preservation goal along a procedure"

named_theorems proc_defs "the combinators of procedures"

section \<open>Outcomes and procedures\<close>

text \<open>
  \<open>CppExc m\<close> is an exception derived from \<open>std::exception\<close> whose \<open>what()\<close> is \<open>m\<close>;
  \<open>Undefined m\<close> marks a read or conversion that C++ leaves undefined; \<open>OutOfFuel\<close> says
  that the model's fuel did not suffice and makes no claim about the code.
\<close>

datatype exn = CppExc string | Undefined string | OutOfFuel

datatype 'a outcome = Ok 'a | Raise exn

type_synonym ('s, 'a) proc = "'s \<Rightarrow> 'a outcome \<times> 's"

definition ret :: "'a \<Rightarrow> ('s, 'a) proc" where
  "ret x = (\<lambda>s. (Ok x, s))"

definition raise :: "exn \<Rightarrow> ('s, 'a) proc" where
  "raise e = (\<lambda>s. (Raise e, s))"

definition throw :: "string \<Rightarrow> ('s, 'a) proc" where
  "throw m = raise (CppExc m)"

definition undefined_behaviour :: "string \<Rightarrow> ('s, 'a) proc" where
  "undefined_behaviour m = raise (Undefined m)"

definition bindE :: "('s, 'a) proc \<Rightarrow> ('a \<Rightarrow> ('s, 'b) proc) \<Rightarrow> ('s, 'b) proc" where
  "bindE m f = (\<lambda>s. case m s of (Ok x, s') \<Rightarrow> f x s' | (Raise e, s') \<Rightarrow> (Raise e, s'))"

definition seqE :: "('s, 'a) proc \<Rightarrow> ('s, 'b) proc \<Rightarrow> ('s, 'b) proc" where
  "seqE m n = bindE m (\<lambda>_. n)"

definition reads :: "('s \<Rightarrow> 'a) \<Rightarrow> ('s, 'a) proc" where
  "reads f = (\<lambda>s. (Ok (f s), s))"

definition modify :: "('s \<Rightarrow> 's) \<Rightarrow> ('s, unit) proc" where
  "modify f = (\<lambda>s. (Ok (), f s))"

definition lift_out :: "'a outcome \<Rightarrow> ('s, 'a) proc" where
  "lift_out r = (\<lambda>s. (r, s))"

text \<open>The same sequencing for results without a state, and over a list of them.\<close>

fun bind_outcome :: "'a outcome \<Rightarrow> ('a \<Rightarrow> 'b outcome) \<Rightarrow> 'b outcome" where
  "bind_outcome (Ok x) f = f x"
| "bind_outcome (Raise e) f = Raise e"

fun sequence_outcomes :: "'a outcome list \<Rightarrow> 'a list outcome" where
  "sequence_outcomes [] = Ok []"
| "sequence_outcomes (r # rs) =
     bind_outcome r (\<lambda>x. bind_outcome (sequence_outcomes rs) (\<lambda>xs. Ok (x # xs)))"

lemma bind_outcome_eq_Ok:
  "bind_outcome r f = Ok y \<longleftrightarrow> (\<exists>x. r = Ok x \<and> f x = Ok y)"
  by (cases r) auto

declare ret_def [proc_defs] raise_def [proc_defs] throw_def [proc_defs]
  undefined_behaviour_def [proc_defs] bindE_def [proc_defs] seqE_def [proc_defs]
  reads_def [proc_defs] modify_def [proc_defs] lift_out_def [proc_defs]

lemma ret_apply [simp]: "ret x s = (Ok x, s)"
  by (simp add: ret_def)

lemma reads_apply [simp]: "reads f s = (Ok (f s), s)"
  by (simp add: reads_def)

lemma modify_apply [simp]: "modify f s = (Ok (), f s)"
  by (simp add: modify_def)

lemma raise_apply [simp]: "raise e s = (Raise e, s)"
  by (simp add: raise_def)

lemma throw_apply [simp]: "throw m s = (Raise (CppExc m), s)"
  by (simp add: throw_def)

lemma undefined_behaviour_apply [simp]: "undefined_behaviour m s = (Raise (Undefined m), s)"
  by (simp add: undefined_behaviour_def)

lemma lift_out_apply [simp]: "lift_out r s = (r, s)"
  by (simp add: lift_out_def)

lemma bindE_Ok [simp]: "m s = (Ok x, s') \<Longrightarrow> bindE m f s = f x s'"
  by (simp add: bindE_def)

lemma bindE_Raise [simp]: "m s = (Raise e, s') \<Longrightarrow> bindE m f s = (Raise e, s')"
  by (simp add: bindE_def)

lemma seqE_Ok [simp]: "m s = (Ok x, s') \<Longrightarrow> seqE m n s = n s'"
  by (simp add: seqE_def)

lemma seqE_Raise [simp]: "m s = (Raise e, s') \<Longrightarrow> seqE m n s = (Raise e, s')"
  by (simp add: seqE_def)

lemma bindE_ret [simp]: "bindE (ret x) f = f x"
  by (simp add: bindE_def ret_def)

lemma bindE_assoc: "bindE (bindE m f) g = bindE m (\<lambda>x. bindE (f x) g)"
  by (rule ext) (simp add: bindE_def split: prod.splits outcome.splits)

lemma bindE_eq_OkE:
  assumes "bindE m f s = (Ok y, t)"
  obtains x s' where "m s = (Ok x, s')" "f x s' = (Ok y, t)"
  using assms by (auto simp: bindE_def split: prod.splits outcome.splits)

section \<open>Preservation\<close>

text \<open>
  \<open>keeps P m\<close>: whatever the outcome of \<open>m\<close> (a value, an exception, undefined behaviour), the
  state it leaves satisfies \<open>P\<close> when the state it started from did.
\<close>

definition keeps :: "('s \<Rightarrow> bool) \<Rightarrow> ('s, 'a) proc \<Rightarrow> bool" where
  "keeps P m \<longleftrightarrow> (\<forall>s. P s \<longrightarrow> P (snd (m s)))"

lemma keepsI: "(\<And>s. P s \<Longrightarrow> P (snd (m s))) \<Longrightarrow> keeps P m"
  by (simp add: keeps_def)

lemma keepsD: "keeps P m \<Longrightarrow> P s \<Longrightarrow> m s = (r, s') \<Longrightarrow> P s'"
  by (metis keeps_def snd_conv)

lemma keeps_ret [keeps_intros]: "keeps P (ret x)"
  by (simp add: keeps_def)

lemma keeps_raise [keeps_intros]: "keeps P (raise e)"
  by (simp add: keeps_def)

lemma keeps_throw [keeps_intros]: "keeps P (throw m)"
  by (simp add: keeps_def)

lemma keeps_undefined_behaviour [keeps_intros]: "keeps P (undefined_behaviour m)"
  by (simp add: keeps_def)

lemma keeps_reads [keeps_intros]: "keeps P (reads f)"
  by (simp add: keeps_def)

lemma keeps_lift_out [keeps_intros]: "keeps P (lift_out r)"
  by (simp add: keeps_def)

lemma keeps_modify: "(\<And>s. P s \<Longrightarrow> P (f s)) \<Longrightarrow> keeps P (modify f)"
  by (simp add: keeps_def)

lemma keeps_bindE [keeps_intros]:
  "keeps P m \<Longrightarrow> (\<And>x. keeps P (f x)) \<Longrightarrow> keeps P (bindE m f)"
  unfolding keeps_def bindE_def
  by (simp split: prod.splits outcome.splits) (metis snd_conv)

lemma keeps_seqE [keeps_intros]: "keeps P m \<Longrightarrow> keeps P n \<Longrightarrow> keeps P (seqE m n)"
  unfolding seqE_def by (intro keeps_intros)

lemma keeps_if [keeps_intros]: "(b \<Longrightarrow> keeps P m) \<Longrightarrow> (\<not> b \<Longrightarrow> keeps P n) \<Longrightarrow> keeps P (if b then m else n)"
  by simp

lemma keeps_case_option [keeps_intros]:
  "keeps P m \<Longrightarrow> (\<And>x. keeps P (f x)) \<Longrightarrow> keeps P (case o' of None \<Rightarrow> m | Some x \<Rightarrow> f x)"
  by (cases o') auto

lemma keeps_case_list [keeps_intros]:
  "keeps P m \<Longrightarrow> (\<And>x y. keeps P (f x y)) \<Longrightarrow> keeps P (case xs of [] \<Rightarrow> m | x # y \<Rightarrow> f x y)"
  by (cases xs) auto

lemma keeps_case_prod [keeps_intros]:
  "(\<And>x y. keeps P (f x y)) \<Longrightarrow> keeps P (case p of (x, y) \<Rightarrow> f x y)"
  by (cases p) auto

lemma keeps_Let [keeps_intros]: "(\<And>x. keeps P (f x)) \<Longrightarrow> keeps P (let x = e in f x)"
  by (simp add: Let_def)

text \<open>Repeating a procedure a fixed number of times, collecting what it returns.\<close>

fun timesE :: "nat \<Rightarrow> ('s, 'a) proc \<Rightarrow> ('s, 'a list) proc" where
  "timesE 0 m = ret []"
| "timesE (Suc n) m = bindE m (\<lambda>x. bindE (timesE n m) (\<lambda>xs. ret (x # xs)))"

fun forE :: "'a list \<Rightarrow> ('a \<Rightarrow> ('s, unit) proc) \<Rightarrow> ('s, unit) proc" where
  "forE [] f = ret ()"
| "forE (x # xs) f = seqE (f x) (forE xs f)"

lemma keeps_timesE [keeps_intros]: "keeps P m \<Longrightarrow> keeps P (timesE n m)"
  by (induction n) (auto intro!: keeps_intros)

lemma keeps_forE [keeps_intros]: "(\<And>x. keeps P (f x)) \<Longrightarrow> keeps P (forE xs f)"
  by (induction xs) (auto intro!: keeps_intros)

section \<open>Unordered containers\<close>

text \<open>
  \<open>std::unordered_map\<close> is an association list with distinct keys; its order stands for the
  unspecified iteration order. \<open>operator[]\<close> assignment is \<open>AList.update\<close>, \<open>erase\<close> is
  \<open>AList.delete\<close>, and \<open>emplace\<close> keeps an entry that is already there.
\<close>

definition emplace :: "'k \<Rightarrow> 'v \<Rightarrow> ('k \<times> 'v) list \<Rightarrow> ('k \<times> 'v) list" where
  "emplace k v m = (if map_of m k = None then m @ [(k, v)] else m)"

lemma map_of_emplace [simp]:
  "map_of (emplace k v m) = (if map_of m k = None then (map_of m)(k \<mapsto> v) else map_of m)"
proof (cases "map_of m k")
  case None
  then have "map_of (m @ [(k, v)]) x = ((map_of m)(k \<mapsto> v)) x" for x
    by (auto simp: map_add_def split: option.splits)
  with None show ?thesis by (auto simp: emplace_def)
qed (simp add: emplace_def)

lemma distinct_keys_emplace [simp]:
  "distinct (map fst m) \<Longrightarrow> distinct (map fst (emplace k v m))"
  by (auto simp: emplace_def map_of_eq_None_iff)

lemma keys_map_of: "k \<in> fst ` set m \<longleftrightarrow> map_of m k \<noteq> None"
  by (simp add: map_of_eq_None_iff)

lemma keys_emplace [simp]: "fst ` set (emplace k v m) = insert k (fst ` set m)"
  by (auto simp only: keys_map_of map_of_emplace set_eq_iff insert_iff fun_upd_apply split: if_splits)

lemma keys_update [simp]: "fst ` set (AList.update k v m) = insert k (fst ` set m)"
  by (simp add: set_eq_iff keys_map_of update_conv' del: not_None_eq)

section \<open>Sizes\<close>

text \<open>Subtraction of \<open>size_t\<close> values wraps modulo \<open>2 ^ 64\<close>.\<close>

definition size_modulus :: nat where
  "size_modulus = 2 ^ 64"

definition size_sub :: "nat \<Rightarrow> nat \<Rightarrow> nat" where
  "size_sub a b = (if b \<le> a then a - b else size_modulus + a - b)"

lemma size_sub_le [simp]: "b \<le> a \<Longrightarrow> size_sub a b = a - b"
  by (simp add: size_sub_def)

text \<open>Evaluation stays in binary.\<close>

lemma size_sub_code [code]:
  "size_sub a b = (if b \<le> a then a - b else nat (2 ^ 64 + int a - int b))"
proof -
  have "size_modulus + a - b = nat (int (size_modulus + a) - int b)" by simp
  also have "\<dots> = nat (2 ^ 64 + int a - int b)" by (simp add: size_modulus_def)
  finally show ?thesis by (simp only: size_sub_def)
qed

lemma size_sub_wrap: "a < b \<Longrightarrow> b \<le> size_modulus \<Longrightarrow> size_sub a b = size_modulus - (b - a)"
  by (simp add: size_sub_def)

section \<open>Decimal rendering\<close>

definition digit_char :: "nat \<Rightarrow> char" where
  "digit_char d = char_of (48 + d)"

fun show_nat :: "nat \<Rightarrow> string" where
  "show_nat n = (if n < 10 then [digit_char n] else show_nat (n div 10) @ [digit_char (n mod 10)])"

declare show_nat.simps [simp del]

definition show_int :: "int \<Rightarrow> string" where
  "show_int i = (if i < 0 then CHR ''-'' # show_nat (nat (- i)) else show_nat (nat i))"

definition digit_value :: "char \<Rightarrow> nat" where
  "digit_value c = of_char c - 48"

definition is_digit :: "char \<Rightarrow> bool" where
  "is_digit c \<longleftrightarrow> 48 \<le> (of_char c :: nat) \<and> (of_char c :: nat) \<le> 57"

definition read_nat :: "string \<Rightarrow> nat" where
  "read_nat s = foldl (\<lambda>a c. 10 * a + digit_value c) 0 s"

text \<open>Executable equations over binary integers: evaluation never counts in unary.\<close>

fun show_digits :: "int \<Rightarrow> string" where
  "show_digits i = (if i < 10 then [digit_char (nat i)]
     else show_digits (i div 10) @ [digit_char (nat (i mod 10))])"

declare show_digits.simps [simp del]

lemma show_digits_nat: "0 \<le> i \<Longrightarrow> show_digits i = show_nat (nat i)"
proof (induction i rule: show_digits.induct)
  case (1 i)
  then show ?case
    by (cases "i < 10") (simp_all add: show_digits.simps [of i] show_nat.simps [of "nat i"]
        nat_div_distrib nat_mod_distrib nat_less_iff)
qed

lemma show_nat_code [code]: "show_nat n = show_digits (int n)"
  by (simp add: show_digits_nat)

lemma show_int_code [code]:
  "show_int i = (if i < 0 then CHR ''-'' # show_digits (- i) else show_digits i)"
  by (simp add: show_int_def show_digits_nat)

lemma of_char_digit_char [simp]: "d < 10 \<Longrightarrow> (of_char (digit_char d) :: nat) = 48 + d"
  by (simp add: digit_char_def)

lemma digit_value_digit_char [simp]: "d < 10 \<Longrightarrow> digit_value (digit_char d) = d"
  by (simp add: digit_value_def)

lemma is_digit_digit_char [simp]: "d < 10 \<Longrightarrow> is_digit (digit_char d)"
  by (simp add: is_digit_def)

lemma read_show_nat [simp]: "read_nat (show_nat n) = n"
proof (induction n rule: show_nat.induct)
  case (1 n)
  show ?case
  proof (cases "n < 10")
    case True
    then show ?thesis by (simp add: show_nat.simps [of n] read_nat_def)
  next
    case False
    with "1.IH" have "read_nat (show_nat (n div 10)) = n div 10" by simp
    with False show ?thesis
      by (simp add: show_nat.simps [of n] read_nat_def)
  qed
qed

lemma show_nat_inject [simp]: "show_nat a = show_nat b \<longleftrightarrow> a = b"
  by (metis read_show_nat)

lemma show_nat_digits: "c \<in> set (show_nat n) \<Longrightarrow> is_digit c"
proof (induction n rule: show_nat.induct)
  case (1 n)
  then show ?case
    by (cases "n < 10") (auto simp: show_nat.simps [of n])
qed

lemma show_nat_nonempty [simp]: "show_nat n \<noteq> []"
  by (subst show_nat.simps) simp

lemma minus_not_digit [simp]: "\<not> is_digit (CHR ''-'')"
  by (simp add: is_digit_def)

lemma show_nat_not_minus [simp]: "show_nat n \<noteq> CHR ''-'' # xs"
  using show_nat_digits [of "CHR ''-''" n] by auto

lemma show_int_inject [simp]: "show_int a = show_int b \<longleftrightarrow> a = b"
  by (auto simp: show_int_def dest: sym)

text \<open>Evaluation unfolds a procedure only once it is applied to a state.\<close>

declare
  ret_def [THEN fun_cong, code]
  raise_def [THEN fun_cong, code]
  throw_def [THEN fun_cong, code]
  undefined_behaviour_def [THEN fun_cong, code]
  bindE_def [THEN fun_cong, code]
  seqE_def [THEN fun_cong, code]
  reads_def [THEN fun_cong, code]
  modify_def [THEN fun_cong, code]
  lift_out_def [THEN fun_cong, code]
  timesE.simps [THEN fun_cong, code]
  forE.simps [THEN fun_cong, code]

end
