(* ===== verification/WaitGraph.thy ===== *)
theory WaitGraph
  imports Prelude "HOL-Library.AList"
begin

text \<open>
  The wait-for graph of \<open>SharedRuntime\<close> (src/src/vm/runtime/SharedRuntimeSync.cpp): an unordered
  map from a thread to the unordered set of threads it waits for. An unordered container is an
  association list (a list for a set) whose order stands for the unspecified iteration order; the
  search below is shown to decide reachability, so its answer does not depend on that order.
\<close>

named_theorems graph_simps "facts about the edges of the wait graph"

type_synonym graph = "(nat \<times> nat list) list"

definition succs :: "graph \<Rightarrow> nat \<Rightarrow> nat list" where
  "succs g n = (case map_of g n of None \<Rightarrow> [] | Some ds \<Rightarrow> ds)"

definition edges :: "graph \<Rightarrow> (nat \<times> nat) set" where
  "edges g = {(a, b). b \<in> set (succs g a)}"

lemma edges_iff [graph_simps]: "(a, b) \<in> edges g \<longleftrightarrow> b \<in> set (succs g a)"
  by (simp add: edges_def)

lemma edges_nil [simp]: "edges [] = {}"
  by (simp add: edges_def succs_def)

section \<open>The search\<close>

text \<open>
  The loop of \<open>WouldIntroduceCycleLocked\<close>. The C++ vector \<open>stack\<close> is kept top first, so pushing
  the successors in iteration order puts the last one on top.
\<close>

definition nodes_of :: "graph \<Rightarrow> nat set" where
  "nodes_of g = fst ` set g"

lemma finite_nodes_of [simp]: "finite (nodes_of g)"
  by (simp add: nodes_of_def)

lemma succs_outside [simp]: "n \<notin> nodes_of g \<Longrightarrow> succs g n = []"
  by (auto simp: succs_def nodes_of_def split: option.splits dest: map_of_SomeD
      intro: rev_image_eqI)

function dfs_loop :: "graph \<Rightarrow> nat \<Rightarrow> nat list \<Rightarrow> nat list \<Rightarrow> bool" where
  "dfs_loop g from_id [] visited = False"
| "dfs_loop g from_id (current # stack) visited =
     (if current \<in> set visited then dfs_loop g from_id stack visited
      else if current = from_id then True
      else dfs_loop g from_id (rev (succs g current) @ stack) (current # visited))"
  by pat_completeness auto
termination
proof (relation "inv_image (finite_psubset <*lex*> less_than)
    (\<lambda>(g, f, stack, visited). (nodes_of g - set visited, length stack))", goal_cases)
  case 1
  then show ?case by (intro wf_inv_image wf_lex_prod wf_finite_psubset wf_less_than)
next
  case (2 g f current stack visited)
  then show ?case by simp
next
  case (3 g f current stack visited)
  then show ?case
    by (cases "current \<in> nodes_of g") (auto simp: finite_psubset_def)
qed

definition would_introduce_cycle :: "graph \<Rightarrow> nat \<Rightarrow> nat \<Rightarrow> bool" where
  "would_introduce_cycle g from_id to_id =
     (if from_id = to_id then True else dfs_loop g from_id [to_id] [])"

text \<open>\<open>HasCycleLocked\<close> asks the question for every edge of the graph.\<close>

definition has_cycle :: "graph \<Rightarrow> bool" where
  "has_cycle g = (\<exists>(n, deps) \<in> set g. \<exists>dep \<in> set deps. would_introduce_cycle g n dep)"

lemma dfs_loop_sound:
  "dfs_loop g f stack visited \<Longrightarrow> \<exists>x \<in> set stack. (x, f) \<in> (edges g)\<^sup>*"
proof (induction g f stack visited rule: dfs_loop.induct)
  case (1 g f visited)
  then show ?case by simp
next
  case (2 g f current stack visited)
  show ?case
  proof (cases "current \<in> set visited \<or> current = f")
    case True
    with 2 show ?thesis by (auto split: if_splits)
  next
    case False
    with 2 obtain x where x: "x \<in> set (succs g current) \<union> set stack" "(x, f) \<in> (edges g)\<^sup>*"
      by auto
    then show ?thesis
      by (auto simp: edges_iff intro: converse_rtrancl_into_rtrancl)
  qed
qed

lemma closed_rtrancl: "r `` X \<subseteq> X \<Longrightarrow> r\<^sup>* `` X = X"
  by (rule Image_closed_trancl)

lemma dfs_loop_complete:
  "\<not> dfs_loop g f stack visited \<Longrightarrow> f \<notin> set visited \<Longrightarrow>
   edges g `` set visited \<subseteq> set visited \<union> set stack \<Longrightarrow>
   f \<notin> (edges g)\<^sup>* `` (set visited \<union> set stack)"
proof (induction g f stack visited rule: dfs_loop.induct)
  case (1 g f visited)
  then show ?case by (simp add: closed_rtrancl)
next
  case (2 g f current stack visited)
  show ?case
  proof (cases "current \<in> set visited")
    case True
    with 2 have "f \<notin> (edges g)\<^sup>* `` (set visited \<union> set stack)" by auto
    with True show ?thesis by auto
  next
    case False
    with 2 have ne: "current \<noteq> f"
      and no: "\<not> dfs_loop g f (rev (succs g current) @ stack) (current # visited)"
      by (auto split: if_splits)
    have "f \<notin> (edges g)\<^sup>* ``
        (set (current # visited) \<union> set (rev (succs g current) @ stack))"
      using 2 False ne no by (intro "2.IH"(2)) (auto simp: edges_iff)
    then show ?thesis by auto
  qed
qed

lemma dfs_loop_iff: "dfs_loop g f [t] [] \<longleftrightarrow> (t, f) \<in> (edges g)\<^sup>*"
proof
  assume "dfs_loop g f [t] []"
  from dfs_loop_sound [OF this] show "(t, f) \<in> (edges g)\<^sup>*" by simp
next
  assume "(t, f) \<in> (edges g)\<^sup>*"
  then show "dfs_loop g f [t] []"
    using dfs_loop_complete [of g f "[t]" "[]"] by (auto simp del: dfs_loop.simps)
qed

lemma would_introduce_cycle_iff:
  "would_introduce_cycle g a b \<longleftrightarrow> (b, a) \<in> (edges g)\<^sup>*"
  by (simp add: would_introduce_cycle_def dfs_loop_iff del: dfs_loop.simps)

lemma has_cycle_iff:
  assumes "distinct (map fst g)"
  shows "has_cycle g \<longleftrightarrow> \<not> acyclic (edges g)"
proof
  assume "has_cycle g"
  then obtain n deps d where "(n, deps) \<in> set g" "d \<in> set deps" "(d, n) \<in> (edges g)\<^sup>*"
    by (auto simp: has_cycle_def would_introduce_cycle_iff)
  moreover from this assms have "(n, d) \<in> edges g"
    by (simp add: edges_iff succs_def)
  ultimately show "\<not> acyclic (edges g)"
    by (auto simp: acyclic_def intro: rtrancl_into_trancl2)
next
  assume "\<not> acyclic (edges g)"
  then obtain x where "(x, x) \<in> (edges g)\<^sup>+" by (auto simp: acyclic_def)
  then obtain y where y: "(x, y) \<in> edges g" "(y, x) \<in> (edges g)\<^sup>*"
    by (meson tranclD)
  then obtain ds where "(x, ds) \<in> set g" "y \<in> set ds"
    by (auto simp: edges_iff succs_def split: option.splits intro: map_of_SomeD dest: sym)
  with y(2) show "has_cycle g"
    by (force simp: has_cycle_def would_introduce_cycle_iff)
qed

section \<open>Editing the graph\<close>

definition set_insert :: "'a \<Rightarrow> 'a list \<Rightarrow> 'a list" where
  "set_insert x xs = (if x \<in> set xs then xs else xs @ [x])"

lemma set_set_insert [simp]: "set (set_insert x xs) = insert x (set xs)"
  by (auto simp: set_insert_def)

lemma distinct_set_insert [simp]: "distinct (set_insert x xs) = distinct xs"
  by (simp add: set_insert_def)

definition erase_edges_from :: "nat \<Rightarrow> graph \<Rightarrow> graph" where
  "erase_edges_from t g = AList.delete t g"

definition insert_edge :: "nat \<Rightarrow> nat \<Rightarrow> graph \<Rightarrow> graph" where
  "insert_edge a b g = AList.update a (set_insert b (succs g a)) g"

definition erase_edges_to :: "nat \<Rightarrow> graph \<Rightarrow> graph" where
  "erase_edges_to t g = map (\<lambda>(n, deps). (n, removeAll t deps)) g"

lemma succs_erase_from [graph_simps]:
  "succs (erase_edges_from t g) n = (if n = t then [] else succs g n)"
  by (simp add: succs_def erase_edges_from_def delete_conv')

lemma succs_insert_edge [graph_simps]:
  "succs (insert_edge a b g) n = (if n = a then set_insert b (succs g a) else succs g n)"
  by (simp add: succs_def insert_edge_def update_conv')

lemma succs_erase_to [graph_simps]: "succs (erase_edges_to t g) n = removeAll t (succs g n)"
  by (simp add: succs_def erase_edges_to_def map_of_map split: option.splits)

lemma edges_erase_from [simp]: "edges (erase_edges_from t g) = {(a, b) \<in> edges g. a \<noteq> t}"
  by (auto simp: edges_def graph_simps split: if_splits)

lemma edges_insert_edge [simp]: "edges (insert_edge a b g) = insert (a, b) (edges g)"
  by (auto simp: edges_def graph_simps split: if_splits)

lemma edges_erase_to [simp]: "edges (erase_edges_to t g) = {(a, b) \<in> edges g. b \<noteq> t}"
  by (auto simp: edges_def graph_simps)

lemma distinct_keys_erase_from [simp]:
  "distinct (map fst g) \<Longrightarrow> distinct (map fst (erase_edges_from t g))"
  by (simp add: erase_edges_from_def distinct_delete)

lemma distinct_keys_insert_edge [simp]:
  "distinct (map fst g) \<Longrightarrow> distinct (map fst (insert_edge a b g))"
  by (simp add: insert_edge_def distinct_update)

lemma keys_erase_to [simp]: "map fst (erase_edges_to t g) = map fst g"
  by (simp add: erase_edges_to_def comp_def case_prod_beta)

text \<open>
  Adding an edge and clearing the waiter's edges when that closes a cycle keeps the graph acyclic:
  a new cycle must use the new edge, which leaves the waiter.
\<close>

lemma insert_edge_acyclic:
  assumes "acyclic (edges g)"
  shows "acyclic (edges (let g' = insert_edge a b g
     in if would_introduce_cycle g' a b then erase_edges_from a g' else g'))"
proof (cases "would_introduce_cycle (insert_edge a b g) a b")
  case True
  have "{(x, y) \<in> insert (a, b) (edges g). x \<noteq> a} \<subseteq> edges g" by auto
  with assms True show ?thesis by (auto intro: acyclic_subset)
next
  case False
  then have "(b, a) \<notin> (insert (a, b) (edges g))\<^sup>*"
    by (simp add: would_introduce_cycle_iff)
  then have "(b, a) \<notin> (edges g)\<^sup>*"
    using rtrancl_mono [of "edges g" "insert (a, b) (edges g)"] by auto
  with assms False show ?thesis by (simp add: acyclic_insert)
qed

end
