(* ===== verification/Sync.thy ===== *)
theory Sync
  imports WaitGraph
begin

text \<open>
  Logical threads and mutexes of \<open>SharedRuntime\<close> (src/src/vm/runtime/SharedRuntimeSync.cpp, state
  in SharedRuntime.h): creation, non-blocking lock, unlock, join, finish, deadlock queries and the
  statistics. Every operation runs under \<open>m_syncMutex\<close>, so it is one atomic step on the state.
\<close>

named_theorems sync_simps "unfolding of the synchronisation operations"

section \<open>State\<close>

record thread_state =
  thread_active :: bool
  owned_mutexes :: "nat list"

record sync_stats =
  thread_count :: nat
  mutex_count :: nat
  wait_edge_count :: nat

record sync_state =
  sync_threads :: "(nat \<times> thread_state) list"
  sync_mutexes :: "(nat \<times> nat option) list"
  wait_graph :: graph
  sync_stat :: sync_stats
  next_thread_id :: nat
  next_mutex_id :: nat

definition new_thread_state :: thread_state where
  "new_thread_state = \<lparr>thread_active = True, owned_mutexes = []\<rparr>"

definition main_thread_id :: nat where
  "main_thread_id = 0"

section \<open>Internal operations (the lock is held)\<close>

definition sync_handle_exists :: "sync_state \<Rightarrow> nat \<Rightarrow> bool" where
  "sync_handle_exists s t =
     (case map_of (sync_threads s) t of None \<Rightarrow> False | Some ts \<Rightarrow> thread_active ts)"

definition mutex_exists :: "sync_state \<Rightarrow> nat \<Rightarrow> bool" where
  "mutex_exists s m = (map_of (sync_mutexes s) m \<noteq> None)"

definition recompute_sync_stats :: "sync_state \<Rightarrow> sync_state" where
  "recompute_sync_stats s = s\<lparr>sync_stat :=
     \<lparr>thread_count = length (filter (\<lambda>(t, ts). thread_active ts) (sync_threads s)),
      mutex_count = length (sync_mutexes s),
      wait_edge_count = sum_list (map (\<lambda>(t, deps). length deps) (wait_graph s))\<rparr>\<rparr>"

definition clear_waiting_edges_from :: "nat \<Rightarrow> sync_state \<Rightarrow> sync_state" where
  "clear_waiting_edges_from t s =
     recompute_sync_stats (s\<lparr>wait_graph := erase_edges_from t (wait_graph s)\<rparr>)"

definition add_wait_edge :: "nat \<Rightarrow> nat \<Rightarrow> sync_state \<Rightarrow> sync_state" where
  "add_wait_edge a b s =
     recompute_sync_stats (s\<lparr>wait_graph := insert_edge a b (wait_graph s)\<rparr>)"

section \<open>Public operations\<close>

definition init_sync :: sync_state where
  "init_sync = recompute_sync_stats
     \<lparr>sync_threads = [(main_thread_id, new_thread_state)], sync_mutexes = [], wait_graph = [],
      sync_stat = \<lparr>thread_count = 0, mutex_count = 0, wait_edge_count = 0\<rparr>,
      next_thread_id = 1, next_mutex_id = 1\<rparr>"

definition create_execution_thread :: "sync_state \<Rightarrow> nat \<times> sync_state" where
  "create_execution_thread s =
     (let t = next_thread_id s in
      (t, recompute_sync_stats (s\<lparr>next_thread_id := Suc t,
            sync_threads := emplace t new_thread_state (sync_threads s)\<rparr>)))"

definition create_mutex :: "sync_state \<Rightarrow> nat \<times> sync_state" where
  "create_mutex s =
     (let m = next_mutex_id s in
      (m, recompute_sync_stats (s\<lparr>next_mutex_id := Suc m,
            sync_mutexes := emplace m None (sync_mutexes s)\<rparr>)))"

definition is_thread_active :: "sync_state \<Rightarrow> nat \<Rightarrow> bool" where
  "is_thread_active s t = sync_handle_exists s t"

definition has_mutex :: "sync_state \<Rightarrow> nat \<Rightarrow> bool" where
  "has_mutex s m = mutex_exists s m"

definition mutex_owner :: "sync_state \<Rightarrow> nat \<Rightarrow> nat option" where
  "mutex_owner s m =
     (case map_of (sync_mutexes s) m of None \<Rightarrow> None | Some own \<Rightarrow> own)"

definition is_mutex_locked :: "sync_state \<Rightarrow> nat \<Rightarrow> bool" where
  "is_mutex_locked s m = (mutex_exists s m \<and> mutex_owner s m \<noteq> None)"

definition set_owner :: "nat \<Rightarrow> nat option \<Rightarrow> sync_state \<Rightarrow> sync_state" where
  "set_owner m own s = s\<lparr>sync_mutexes := AList.update m own (sync_mutexes s)\<rparr>"

definition owned_by :: "sync_state \<Rightarrow> nat \<Rightarrow> nat list" where
  "owned_by s t = (case map_of (sync_threads s) t of None \<Rightarrow> [] | Some ts \<Rightarrow> owned_mutexes ts)"

definition set_owned :: "nat \<Rightarrow> nat list \<Rightarrow> sync_state \<Rightarrow> sync_state" where
  "set_owned t ms s = (case map_of (sync_threads s) t of None \<Rightarrow> s
     | Some ts \<Rightarrow> s\<lparr>sync_threads := AList.update t (ts\<lparr>owned_mutexes := ms\<rparr>) (sync_threads s)\<rparr>)"

definition try_lock_mutex :: "nat \<Rightarrow> nat \<Rightarrow> sync_state \<Rightarrow> bool \<times> sync_state" where
  "try_lock_mutex t m s =
     (if \<not> sync_handle_exists s t \<or> \<not> mutex_exists s m then (False, s)
      else case mutex_owner s m of
        None \<Rightarrow> (True, clear_waiting_edges_from t
                  (set_owned t (set_insert m (owned_by s t)) (set_owner m (Some t) s)))
      | Some own \<Rightarrow>
          (let s1 = add_wait_edge t own s in
           if would_introduce_cycle (wait_graph s1) t own
           then (False, clear_waiting_edges_from t s1)
           else (False, s1)))"

definition would_deadlock_on_mutex :: "sync_state \<Rightarrow> nat \<Rightarrow> nat \<Rightarrow> bool" where
  "would_deadlock_on_mutex s t m =
     (if \<not> sync_handle_exists s t \<or> \<not> mutex_exists s m then False
      else case mutex_owner s m of
        None \<Rightarrow> False
      | Some own \<Rightarrow> would_introduce_cycle (wait_graph s) t own)"

definition unlock_mutex :: "nat \<Rightarrow> nat \<Rightarrow> sync_state \<Rightarrow> bool \<times> sync_state" where
  "unlock_mutex t m s =
     (if \<not> sync_handle_exists s t \<or> \<not> mutex_exists s m then (False, s)
      else if mutex_owner s m \<noteq> Some t then (False, s)
      else (True, clear_waiting_edges_from t
             (set_owned t (removeAll m (owned_by s t)) (set_owner m None s))))"

definition assert_no_deadlock :: "sync_state \<Rightarrow> bool" where
  "assert_no_deadlock s = (\<not> has_cycle (wait_graph s))"

definition join_thread :: "nat \<Rightarrow> nat \<Rightarrow> sync_state \<Rightarrow> bool \<times> sync_state" where
  "join_thread a b s =
     (if \<not> sync_handle_exists s a \<or> \<not> sync_handle_exists s b then (False, s)
      else let s1 = add_wait_edge a b s in
        if would_introduce_cycle (wait_graph s1) a b
        then (False, clear_waiting_edges_from a s1)
        else (True, s1))"

text \<open>\<open>FinishThread\<close> resets the owner of every mutex the thread owns, in the set's order.\<close>

definition reset_owner :: "nat \<Rightarrow> sync_state \<Rightarrow> sync_state" where
  "reset_owner m s = (if mutex_exists s m then set_owner m None s else s)"

definition finish_thread :: "nat \<Rightarrow> sync_state \<Rightarrow> bool \<times> sync_state" where
  "finish_thread t s =
     (case map_of (sync_threads s) t of None \<Rightarrow> (False, s)
      | Some ts \<Rightarrow>
         (let s1 = fold reset_owner (owned_mutexes ts) s;
              s2 = s1\<lparr>sync_threads := AList.update t
                     \<lparr>thread_active = False, owned_mutexes = []\<rparr> (sync_threads s1)\<rparr>;
              s3 = clear_waiting_edges_from t s2;
              s4 = s3\<lparr>wait_graph := erase_edges_to t (wait_graph s3)\<rparr>
          in (True, recompute_sync_stats s4)))"

definition get_sync_stats :: "sync_state \<Rightarrow> sync_stats" where
  "get_sync_stats s = sync_stat s"

section \<open>What each field is after an operation\<close>

lemma recompute_fields [simp]:
  "sync_threads (recompute_sync_stats s) = sync_threads s"
  "sync_mutexes (recompute_sync_stats s) = sync_mutexes s"
  "wait_graph (recompute_sync_stats s) = wait_graph s"
  "next_thread_id (recompute_sync_stats s) = next_thread_id s"
  "next_mutex_id (recompute_sync_stats s) = next_mutex_id s"
  by (simp_all add: recompute_sync_stats_def)

lemma clear_waiting_fields [simp]:
  "sync_threads (clear_waiting_edges_from t s) = sync_threads s"
  "sync_mutexes (clear_waiting_edges_from t s) = sync_mutexes s"
  "wait_graph (clear_waiting_edges_from t s) = erase_edges_from t (wait_graph s)"
  "next_thread_id (clear_waiting_edges_from t s) = next_thread_id s"
  "next_mutex_id (clear_waiting_edges_from t s) = next_mutex_id s"
  by (simp_all add: clear_waiting_edges_from_def)

lemma add_wait_edge_fields [simp]:
  "sync_threads (add_wait_edge a b s) = sync_threads s"
  "sync_mutexes (add_wait_edge a b s) = sync_mutexes s"
  "wait_graph (add_wait_edge a b s) = insert_edge a b (wait_graph s)"
  "next_thread_id (add_wait_edge a b s) = next_thread_id s"
  "next_mutex_id (add_wait_edge a b s) = next_mutex_id s"
  by (simp_all add: add_wait_edge_def)

lemma set_owner_fields [simp]:
  "sync_threads (set_owner m w s) = sync_threads s"
  "wait_graph (set_owner m w s) = wait_graph s"
  "next_thread_id (set_owner m w s) = next_thread_id s"
  "next_mutex_id (set_owner m w s) = next_mutex_id s"
  "sync_mutexes (set_owner m w s) = AList.update m w (sync_mutexes s)"
  by (simp_all add: set_owner_def)

lemma set_owned_fields [simp]:
  "sync_mutexes (set_owned t ms s) = sync_mutexes s"
  "wait_graph (set_owned t ms s) = wait_graph s"
  "next_thread_id (set_owned t ms s) = next_thread_id s"
  "next_mutex_id (set_owned t ms s) = next_mutex_id s"
  by (simp_all add: set_owned_def split: option.splits)

section \<open>Lookups after an operation\<close>

lemma mutex_owner_set_owner [simp]:
  "mutex_owner (set_owner m w s) k = (if k = m then w else mutex_owner s k)"
  by (simp add: mutex_owner_def update_conv')

lemma mutex_exists_set_owner [simp]:
  "mutex_exists (set_owner m w s) k = (k = m \<or> mutex_exists s k)"
  by (simp add: mutex_exists_def update_conv')

lemma owned_by_set_owned:
  "map_of (sync_threads s) t \<noteq> None \<Longrightarrow>
   owned_by (set_owned t ms s) k = (if k = t then ms else owned_by s k)"
  by (auto simp: owned_by_def set_owned_def update_conv')

lemma handle_exists_set_owned [simp]:
  "sync_handle_exists (set_owned t ms s) k = sync_handle_exists s k"
  by (auto simp: sync_handle_exists_def set_owned_def update_conv' split: option.splits)

lemma handle_existsD: "sync_handle_exists s t \<Longrightarrow> map_of (sync_threads s) t \<noteq> None"
  by (auto simp: sync_handle_exists_def split: option.splits)

lemma lookups_cong:
  "sync_threads s = sync_threads s' \<Longrightarrow> owned_by s t = owned_by s' t"
  "sync_threads s = sync_threads s' \<Longrightarrow> sync_handle_exists s t = sync_handle_exists s' t"
  "sync_mutexes s = sync_mutexes s' \<Longrightarrow> mutex_owner s m = mutex_owner s' m"
  "sync_mutexes s = sync_mutexes s' \<Longrightarrow> mutex_exists s m = mutex_exists s' m"
  by (simp_all add: owned_by_def sync_handle_exists_def mutex_owner_def mutex_exists_def)

lemma lookups_recompute [simp]:
  "owned_by (recompute_sync_stats s) t = owned_by s t"
  "sync_handle_exists (recompute_sync_stats s) t = sync_handle_exists s t"
  "mutex_owner (recompute_sync_stats s) m = mutex_owner s m"
  "mutex_exists (recompute_sync_stats s) m = mutex_exists s m"
  by (rule lookups_cong, simp)+

lemma lookups_clear [simp]:
  "owned_by (clear_waiting_edges_from a s) t = owned_by s t"
  "sync_handle_exists (clear_waiting_edges_from a s) t = sync_handle_exists s t"
  "mutex_owner (clear_waiting_edges_from a s) m = mutex_owner s m"
  "mutex_exists (clear_waiting_edges_from a s) m = mutex_exists s m"
  by (rule lookups_cong, simp)+

lemma lookups_add_edge [simp]:
  "owned_by (add_wait_edge a b s) t = owned_by s t"
  "sync_handle_exists (add_wait_edge a b s) t = sync_handle_exists s t"
  "mutex_owner (add_wait_edge a b s) m = mutex_owner s m"
  "mutex_exists (add_wait_edge a b s) m = mutex_exists s m"
  by (rule lookups_cong, simp)+

lemma lookups_set_owner [simp]:
  "owned_by (set_owner m w s) t = owned_by s t"
  "sync_handle_exists (set_owner m w s) t = sync_handle_exists s t"
  by (rule lookups_cong, simp)+

lemma lookups_set_owned [simp]:
  "mutex_owner (set_owned t ms s) m = mutex_owner s m"
  "mutex_exists (set_owned t ms s) m = mutex_exists s m"
  by (rule lookups_cong, simp)+

lemma reset_owners_fields [simp]:
  "sync_threads (fold reset_owner ms s) = sync_threads s"
  "wait_graph (fold reset_owner ms s) = wait_graph s"
  "next_thread_id (fold reset_owner ms s) = next_thread_id s"
  "next_mutex_id (fold reset_owner ms s) = next_mutex_id s"
  by (induction ms arbitrary: s) (auto simp: reset_owner_def)

lemma mutex_owner_absent: "\<not> mutex_exists s m \<Longrightarrow> mutex_owner s m = None"
  by (simp add: mutex_exists_def mutex_owner_def)

lemma reset_owner_lookup [simp]:
  "mutex_owner (reset_owner m s) k = (if k = m then None else mutex_owner s k)"
  "mutex_exists (reset_owner m s) k = mutex_exists s k"
  by (auto simp: reset_owner_def mutex_owner_absent)

lemma reset_owners_lookup [simp]:
  "mutex_owner (fold reset_owner ms s) k = (if k \<in> set ms then None else mutex_owner s k)"
  "mutex_exists (fold reset_owner ms s) k = mutex_exists s k"
  by (induction ms arbitrary: s) auto

lemma reset_owners_keys [simp]:
  "fst ` set (sync_mutexes (fold reset_owner ms s)) = fst ` set (sync_mutexes s)"
  using reset_owners_lookup(2) [of ms s]
  by (auto simp: mutex_exists_def map_of_eq_None_iff set_eq_iff)

lemma reset_owners_distinct [simp]:
  "distinct (map fst (sync_mutexes s)) \<Longrightarrow>
   distinct (map fst (sync_mutexes (fold reset_owner ms s)))"
  by (induction ms arbitrary: s) (auto simp: reset_owner_def distinct_update)

lemma recompute_idem [simp]: "recompute_sync_stats (recompute_sync_stats s) = recompute_sync_stats s"
  by (simp add: recompute_sync_stats_def)

lemma recompute_clear [simp]:
  "recompute_sync_stats (clear_waiting_edges_from t s) = clear_waiting_edges_from t s"
  by (simp add: clear_waiting_edges_from_def)

lemma recompute_add_edge [simp]: "recompute_sync_stats (add_wait_edge a b s) = add_wait_edge a b s"
  by (simp add: add_wait_edge_def)

end
