(* ===== verification/SyncInv.thy ===== *)
theory SyncInv
  imports Sync
begin

text \<open>
  The invariant of the synchronisation state, its preservation by every operation, and the
  reachable states. \<open>sync_op\<close> lists the state-changing calls of \<open>SharedRuntime\<close>; any
  interleaving of threads is a sequence of them, because each holds \<open>m_syncMutex\<close>.
\<close>

named_theorems sync_keeps "every synchronisation operation keeps the invariant"

section \<open>The invariant\<close>

definition owners_agree :: "sync_state \<Rightarrow> bool" where
  "owners_agree s \<longleftrightarrow> (\<forall>m t. mutex_owner s m = Some t \<longleftrightarrow> m \<in> set (owned_by s t))"

definition owners_active :: "sync_state \<Rightarrow> bool" where
  "owners_active s \<longleftrightarrow> (\<forall>t. owned_by s t \<noteq> [] \<longrightarrow> sync_handle_exists s t)"

definition waits_active :: "sync_state \<Rightarrow> bool" where
  "waits_active s \<longleftrightarrow>
     (\<forall>a b. (a, b) \<in> edges (wait_graph s) \<longrightarrow> sync_handle_exists s a \<and> sync_handle_exists s b)"

definition sync_keys_ok :: "sync_state \<Rightarrow> bool" where
  "sync_keys_ok s \<longleftrightarrow> distinct (map fst (sync_threads s)) \<and> distinct (map fst (sync_mutexes s))
     \<and> distinct (map fst (wait_graph s))
     \<and> (\<forall>t \<in> fst ` set (sync_threads s). t < next_thread_id s)
     \<and> (\<forall>m \<in> fst ` set (sync_mutexes s). m < next_mutex_id s)"

definition sync_inv :: "sync_state \<Rightarrow> bool" where
  "sync_inv s \<longleftrightarrow> sync_keys_ok s \<and> owners_agree s \<and> owners_active s \<and> waits_active s
     \<and> acyclic (edges (wait_graph s)) \<and> recompute_sync_stats s = s"

lemmas sync_inv_parts = owners_agree_def owners_active_def waits_active_def sync_keys_ok_def

lemma sync_invI:
  assumes "sync_keys_ok s" "owners_agree s" "owners_active s" "waits_active s"
    "acyclic (edges (wait_graph s))" "recompute_sync_stats s = s"
  shows "sync_inv s"
  using assms by (simp add: sync_inv_def)

lemma sync_invE:
  assumes "sync_inv s"
  obtains "sync_keys_ok s" "owners_agree s" "owners_active s" "waits_active s"
    "acyclic (edges (wait_graph s))" "recompute_sync_stats s = s"
  using assms by (simp add: sync_inv_def)

lemma init_sync_inv: "sync_inv init_sync"
  by (rule sync_invI)
    (auto simp: init_sync_def sync_inv_parts main_thread_id_def new_thread_state_def
      mutex_owner_def owned_by_def wf_acyclic)

lemma keys_fresh: "sync_keys_ok s \<Longrightarrow> map_of (sync_threads s) (next_thread_id s) = None"
  "sync_keys_ok s \<Longrightarrow> map_of (sync_mutexes s) (next_mutex_id s) = None"
  by (force simp: sync_keys_ok_def map_of_eq_None_iff)+

section \<open>Preservation\<close>

lemma create_thread_inv [sync_keeps]:
  assumes "sync_inv s" shows "sync_inv (snd (create_execution_thread s))"
  using assms
proof (rule sync_invE)
  assume h: "sync_keys_ok s" "owners_agree s" "owners_active s" "waits_active s"
    "acyclic (edges (wait_graph s))"
  let ?s = "snd (create_execution_thread s)"
  note f = keys_fresh(1) [OF h(1)]
  have lk: "owned_by ?s t = owned_by s t" "mutex_owner ?s m = mutex_owner s m"
    "sync_handle_exists ?s t = (t = next_thread_id s \<or> sync_handle_exists s t)"
    "wait_graph ?s = wait_graph s" for t m
    using f by (auto simp: create_execution_thread_def Let_def owned_by_def mutex_owner_def
        sync_handle_exists_def new_thread_state_def)
  show ?thesis
  proof (rule sync_invI)
    show "sync_keys_ok ?s"
      using h(1) f by (auto simp: create_execution_thread_def Let_def sync_keys_ok_def less_Suc_eq)
  qed (use h in \<open>simp_all add: owners_agree_def owners_active_def waits_active_def lk\<close>,
      simp add: create_execution_thread_def Let_def)
qed

lemma create_mutex_inv [sync_keeps]:
  assumes "sync_inv s" shows "sync_inv (snd (create_mutex s))"
  using assms
proof (rule sync_invE)
  assume h: "sync_keys_ok s" "owners_agree s" "owners_active s" "waits_active s"
    "acyclic (edges (wait_graph s))"
  let ?s = "snd (create_mutex s)"
  note f = keys_fresh(2) [OF h(1)]
  have lk: "owned_by ?s t = owned_by s t" "mutex_owner ?s m = mutex_owner s m"
    "sync_handle_exists ?s t = sync_handle_exists s t"
    "wait_graph ?s = wait_graph s" for t m
    using f by (auto simp: create_mutex_def Let_def owned_by_def mutex_owner_def
        sync_handle_exists_def)
  show ?thesis
  proof (rule sync_invI)
    show "sync_keys_ok ?s"
      using h(1) f by (auto simp: create_mutex_def Let_def sync_keys_ok_def less_Suc_eq)
  qed (use h in \<open>simp_all add: owners_agree_def owners_active_def waits_active_def lk\<close>,
      simp add: create_mutex_def Let_def)
qed

text \<open>Both blocking requests (a contended lock and a join) add an edge the same way.\<close>

definition request_wait :: "nat \<Rightarrow> nat \<Rightarrow> sync_state \<Rightarrow> sync_state" where
  "request_wait a b s = (let s1 = add_wait_edge a b s in
     if would_introduce_cycle (wait_graph s1) a b then clear_waiting_edges_from a s1 else s1)"

lemma request_wait_inv:
  assumes "sync_inv s" "sync_handle_exists s a" "sync_handle_exists s b"
  shows "sync_inv (request_wait a b s)"
  using assms(1)
proof (rule sync_invE)
  assume h: "sync_keys_ok s" "owners_agree s" "owners_active s" "waits_active s"
    "acyclic (edges (wait_graph s))"
  let ?s = "request_wait a b s"
  have lk: "owned_by ?s t = owned_by s t" "mutex_owner ?s m = mutex_owner s m"
    "sync_handle_exists ?s t = sync_handle_exists s t" for t m
    by (auto simp: request_wait_def Let_def)
  have g: "wait_graph ?s = (let g' = insert_edge a b (wait_graph s)
      in if would_introduce_cycle g' a b then erase_edges_from a g' else g')"
    by (simp add: request_wait_def Let_def)
  have sub: "edges (wait_graph ?s) \<subseteq> insert (a, b) (edges (wait_graph s))"
    by (auto simp: g Let_def split: if_splits)
  show ?thesis
  proof (rule sync_invI)
    show "sync_keys_ok ?s"
      using h(1) by (auto simp: request_wait_def Let_def sync_keys_ok_def)
    show "waits_active ?s"
      using h(4) sub assms(2,3) unfolding waits_active_def lk by blast
    show "acyclic (edges (wait_graph ?s))"
      unfolding g by (rule insert_edge_acyclic [OF h(5)])
  qed (use h in \<open>simp_all add: owners_agree_def owners_active_def lk\<close>,
      simp add: request_wait_def Let_def)
qed

lemma take_mutex_inv:
  assumes "sync_inv s" "sync_handle_exists s t" "mutex_exists s m" "mutex_owner s m = None"
  shows "sync_inv (clear_waiting_edges_from t
    (set_owned t (set_insert m (owned_by s t)) (set_owner m (Some t) s)))"
  using assms(1)
proof (rule sync_invE)
  assume h: "sync_keys_ok s" "owners_agree s" "owners_active s" "waits_active s"
    "acyclic (edges (wait_graph s))"
  let ?s = "clear_waiting_edges_from t
    (set_owned t (set_insert m (owned_by s t)) (set_owner m (Some t) s))"
  have known: "map_of (sync_threads (set_owner m (Some t) s)) t \<noteq> None"
    using handle_existsD [OF assms(2)] by simp
  have lk: "owned_by ?s k = (if k = t then set_insert m (owned_by s t) else owned_by s k)"
    "mutex_owner ?s j = (if j = m then Some t else mutex_owner s j)"
    "sync_handle_exists ?s k = sync_handle_exists s k" for k j
    using owned_by_set_owned [OF known] by simp_all
  show ?thesis
  proof (rule sync_invI)
    from known obtain ts where ts: "map_of (sync_threads s) t = Some ts" by auto
    then have kt: "t \<in> fst ` set (sync_threads s)" by (simp add: keys_map_of)
    have km: "m \<in> fst ` set (sync_mutexes s)"
      using assms(3) by (simp add: mutex_exists_def keys_map_of)
    show "sync_keys_ok ?s"
      using h(1) ts kt km
      by (auto simp: sync_keys_ok_def set_owned_def distinct_update)
    show "owners_agree ?s"
      using h(2) assms(4) unfolding owners_agree_def lk by auto (metis option.distinct(1))
    show "owners_active ?s"
      using h(3) assms(2) unfolding owners_active_def lk by auto
    show "waits_active ?s"
      using h(4) unfolding waits_active_def lk by auto
    show "acyclic (edges (wait_graph ?s))"
      using h(5) by (auto elim: acyclic_subset)
  qed simp
qed

lemma release_mutex_inv:
  assumes "sync_inv s" "sync_handle_exists s t" "mutex_exists s m" "mutex_owner s m = Some t"
  shows "sync_inv (clear_waiting_edges_from t
    (set_owned t (removeAll m (owned_by s t)) (set_owner m None s)))"
  using assms(1)
proof (rule sync_invE)
  assume h: "sync_keys_ok s" "owners_agree s" "owners_active s" "waits_active s"
    "acyclic (edges (wait_graph s))"
  let ?s = "clear_waiting_edges_from t
    (set_owned t (removeAll m (owned_by s t)) (set_owner m None s))"
  have known: "map_of (sync_threads (set_owner m None s)) t \<noteq> None"
    using handle_existsD [OF assms(2)] by simp
  have lk: "owned_by ?s k = (if k = t then removeAll m (owned_by s t) else owned_by s k)"
    "mutex_owner ?s j = (if j = m then None else mutex_owner s j)"
    "sync_handle_exists ?s k = sync_handle_exists s k" for k j
    using owned_by_set_owned [OF known] by simp_all
  show ?thesis
  proof (rule sync_invI)
    from known obtain ts where ts: "map_of (sync_threads s) t = Some ts" by auto
    then have kt: "t \<in> fst ` set (sync_threads s)" by (simp add: keys_map_of)
    have km: "m \<in> fst ` set (sync_mutexes s)"
      using assms(3) by (simp add: mutex_exists_def keys_map_of)
    show "sync_keys_ok ?s"
      using h(1) ts kt km
      by (auto simp: sync_keys_ok_def set_owned_def distinct_update)
    have only: "m \<in> set (owned_by s k) \<Longrightarrow> k = t" for k
      using h(2) assms(4) unfolding owners_agree_def by (metis option.inject)
    show "owners_agree ?s"
      using h(2) only unfolding owners_agree_def lk by auto
    show "owners_active ?s"
      using h(3) assms(2) unfolding owners_active_def lk by auto
    show "waits_active ?s"
      using h(4) unfolding waits_active_def lk by auto
    show "acyclic (edges (wait_graph ?s))"
      using h(5) by (auto elim: acyclic_subset)
  qed simp
qed

lemma owner_exists: "sync_inv s \<Longrightarrow> mutex_owner s m = Some t \<Longrightarrow> sync_handle_exists s t"
  by (auto simp: sync_inv_def owners_agree_def owners_active_def)
    (metis empty_iff list.set(1))

lemma try_lock_inv [sync_keeps]:
  assumes "sync_inv s" shows "sync_inv (snd (try_lock_mutex t m s))"
proof (cases "sync_handle_exists s t \<and> mutex_exists s m")
  case False
  with assms show ?thesis by (auto simp: try_lock_mutex_def)
next
  case True
  show ?thesis
  proof (cases "mutex_owner s m")
    case None
    with True take_mutex_inv [OF assms] show ?thesis by (simp add: try_lock_mutex_def)
  next
    case (Some own)
    then have "snd (try_lock_mutex t m s) = request_wait t own s"
      using True by (simp add: try_lock_mutex_def request_wait_def Let_def)
    with request_wait_inv [OF assms] True owner_exists [OF assms Some] show ?thesis by simp
  qed
qed

lemma unlock_inv [sync_keeps]:
  "sync_inv s \<Longrightarrow> sync_inv (snd (unlock_mutex t m s))"
  using release_mutex_inv [of s t m] by (auto simp: unlock_mutex_def)

lemma join_inv [sync_keeps]:
  assumes "sync_inv s" shows "sync_inv (snd (join_thread a b s))"
proof (cases "sync_handle_exists s a \<and> sync_handle_exists s b")
  case True
  then have "snd (join_thread a b s) = request_wait a b s"
    by (simp add: join_thread_def request_wait_def Let_def)
  with request_wait_inv [OF assms] True show ?thesis by simp
qed (use assms in \<open>auto simp: join_thread_def\<close>)

lemma finish_inv [sync_keeps]:
  assumes "sync_inv s" shows "sync_inv (snd (finish_thread t s))"
proof (cases "map_of (sync_threads s) t")
  case None
  with assms show ?thesis by (simp add: finish_thread_def)
next
  case (Some ts)
  from assms have h: "sync_keys_ok s" "owners_agree s" "owners_active s" "waits_active s"
    "acyclic (edges (wait_graph s))" by (simp_all add: sync_inv_def)
  let ?s = "snd (finish_thread t s)"
  have ow: "owned_by s t = owned_mutexes ts" by (simp add: owned_by_def Some)
  have lk: "owned_by ?s k = (if k = t then [] else owned_by s k)"
    "mutex_owner ?s j = (if j \<in> set (owned_by s t) then None else mutex_owner s j)"
    "sync_handle_exists ?s k = (k \<noteq> t \<and> sync_handle_exists s k)" for k j
  proof -
    show "owned_by ?s k = (if k = t then [] else owned_by s k)"
      by (simp add: finish_thread_def Some Let_def owned_by_def update_conv')
    show "mutex_owner ?s j = (if j \<in> set (owned_by s t) then None else mutex_owner s j)"
      using reset_owners_lookup(1) [of "owned_mutexes ts" s j] ow
      by (simp add: finish_thread_def Some Let_def mutex_owner_def)
    show "sync_handle_exists ?s k = (k \<noteq> t \<and> sync_handle_exists s k)"
      by (simp add: finish_thread_def Some Let_def sync_handle_exists_def update_conv')
  qed
  have g: "edges (wait_graph ?s) = {(a, b) \<in> edges (wait_graph s). a \<noteq> t \<and> b \<noteq> t}"
    by (auto simp: finish_thread_def Some Let_def)
  show ?thesis
  proof (rule sync_invI)
    from Some have kt: "t \<in> fst ` set (sync_threads s)" by (simp add: keys_map_of)
    have "distinct (map fst (wait_graph ?s))"
      using h(1) by (simp add: finish_thread_def Some Let_def sync_keys_ok_def)
    with h(1) kt show "sync_keys_ok ?s"
      by (auto simp: finish_thread_def Some Let_def sync_keys_ok_def distinct_update)
    show "owners_agree ?s"
      using h(2) unfolding owners_agree_def lk by (auto split: if_splits) (metis option.inject)
    show "owners_active ?s" using h(3) unfolding owners_active_def lk by auto
    show "waits_active ?s" using h(4) unfolding waits_active_def lk g by auto
    show "acyclic (edges (wait_graph ?s))"
      by (rule acyclic_subset [OF h(5)]) (auto simp: g)
  qed (simp add: finish_thread_def Some Let_def)
qed

section \<open>Reachable states\<close>

datatype sync_op = CreateThread | CreateMutex | TryLock nat nat | Unlock nat nat
  | Join nat nat | Finish nat

fun sync_exec :: "sync_op \<Rightarrow> sync_state \<Rightarrow> sync_state" where
  "sync_exec CreateThread s = snd (create_execution_thread s)"
| "sync_exec CreateMutex s = snd (create_mutex s)"
| "sync_exec (TryLock t m) s = snd (try_lock_mutex t m s)"
| "sync_exec (Unlock t m) s = snd (unlock_mutex t m s)"
| "sync_exec (Join a b) s = snd (join_thread a b s)"
| "sync_exec (Finish t) s = snd (finish_thread t s)"

inductive sync_reachable :: "sync_state \<Rightarrow> bool" where
  sync_start: "sync_reachable init_sync"
| sync_step: "sync_reachable s \<Longrightarrow> sync_reachable (sync_exec p s)"

lemma sync_exec_inv: "sync_inv s \<Longrightarrow> sync_inv (sync_exec p s)"
  by (cases p) (simp_all add: sync_keeps)

lemma sync_reachable_inv: "sync_reachable s \<Longrightarrow> sync_inv s"
  by (induction rule: sync_reachable.induct) (auto intro: init_sync_inv sync_exec_inv)

lemma sync_run_reachable: "sync_reachable (fold sync_exec ps init_sync)"
proof (induction ps rule: rev_induct)
  case (snoc p ps)
  then show ?case by (simp add: sync_step)
qed (simp add: sync_start)

section \<open>Properties\<close>

text \<open>C1: in every state reachable by any interleaving of the runtime's thread and mutex calls,
  the wait-for graph has no cycle: \<open>AssertNoDeadlock\<close> answers true. A lock or join request
  that would close a cycle is refused and its edges are withdrawn.\<close>
theorem reachable_never_deadlocked:
  assumes "sync_reachable s"
  shows "assert_no_deadlock s"
  using sync_reachable_inv [OF assms]
  by (simp add: assert_no_deadlock_def has_cycle_iff sync_inv_def sync_keys_ok_def)

definition two_locks_run :: sync_state where
  "two_locks_run = fold sync_exec
     [CreateThread, CreateMutex, CreateMutex, TryLock 0 1, TryLock 1 2, TryLock 0 2, TryLock 1 1]
     init_sync"

theorem reachable_never_deadlocked_witness:
  "sync_reachable two_locks_run \<and> assert_no_deadlock two_locks_run"
proof -
  have "sync_reachable two_locks_run"
    unfolding two_locks_run_def by (rule sync_run_reachable)
  with reachable_never_deadlocked show ?thesis by blast
qed


text \<open>C14: \<open>TryLockMutex\<close> succeeds exactly when the thread is active and the mutex exists and is
  free; success makes the caller the only owner, and failure changes no owner.\<close>
theorem try_lock_spec:
  assumes "try_lock_mutex t m s = (ok, s')"
  shows "(ok \<longleftrightarrow> sync_handle_exists s t \<and> mutex_exists s m \<and> mutex_owner s m = None)
    \<and> mutex_owner s' = (if ok then (mutex_owner s)(m := Some t) else mutex_owner s)"
  using assms
  by (auto simp: try_lock_mutex_def Let_def fun_eq_iff split: if_splits option.splits)

theorem try_lock_spec_witness:
  "(True \<longleftrightarrow> sync_handle_exists (snd (create_mutex init_sync)) 0 \<and>
     mutex_exists (snd (create_mutex init_sync)) 1 \<and>
     mutex_owner (snd (create_mutex init_sync)) 1 = None) \<and>
   mutex_owner (snd (try_lock_mutex 0 1 (snd (create_mutex init_sync)))) =
     (if True then (mutex_owner (snd (create_mutex init_sync)))(1 := Some 0)
      else mutex_owner (snd (create_mutex init_sync)))"
proof -
  have "try_lock_mutex 0 1 (snd (create_mutex init_sync)) =
      (True, snd (try_lock_mutex 0 1 (snd (create_mutex init_sync))))"
    by code_simp
  from try_lock_spec [OF this] show ?thesis .
qed

text \<open>C13: in every reachable state a mutex is in the owned set of at most one thread, that thread
  is the recorded owner of the mutex, and it is active: a finished thread owns nothing.\<close>
theorem mutual_exclusion:
  assumes "sync_reachable s"
    and "m \<in> set (owned_by s t1)" and "m \<in> set (owned_by s t2)"
  shows "t1 = t2 \<and> mutex_owner s m = Some t1 \<and> sync_handle_exists s t1"
proof -
  from sync_reachable_inv [OF assms(1)]
  have agree: "owners_agree s" and act: "owners_active s" by (simp_all add: sync_inv_def)
  from agree assms(2,3) have "mutex_owner s m = Some t1" "mutex_owner s m = Some t2"
    unfolding owners_agree_def by blast+
  moreover have "sync_handle_exists s t1"
    using act assms(2) unfolding owners_active_def by (metis empty_iff list.set(1))
  ultimately show ?thesis by simp
qed

theorem mutual_exclusion_witness:
  "1 = (1::nat) \<and> mutex_owner two_locks_run 2 = Some 1 \<and> sync_handle_exists two_locks_run 1"
proof -
  have r: "sync_reachable two_locks_run"
    unfolding two_locks_run_def by (rule sync_run_reachable)
  have o: "2 \<in> set (owned_by two_locks_run 1)" by code_simp
  show ?thesis by (rule mutual_exclusion [OF r o o])
qed

text \<open>A wait edge outlives the wait. A failed non-blocking lock leaves the edge from the caller
  to the owner, and the owner's unlock does not remove it; so a thread that holds no mutex
  at all is later told that locking would deadlock, although no thread can be waiting for it.\<close>
theorem stale_wait_edge_reports_deadlock:
  "\<exists>s. sync_reachable s \<and> owned_by s 1 = [] \<and> is_mutex_locked s 1 \<and>
     would_deadlock_on_mutex s 1 1"
proof -
  let ?s = "fold sync_exec [CreateThread, CreateMutex, CreateMutex, TryLock 0 1, TryLock 1 2,
    TryLock 0 2, Unlock 1 2] init_sync"
  have "owned_by ?s 1 = [] \<and> is_mutex_locked ?s 1 \<and> would_deadlock_on_mutex ?s 1 1"
    by code_simp
  with sync_run_reachable show ?thesis by blast
qed

end
