(* ===== verification/Contexts.thy ===== *)
theory Contexts
  imports Prelude
begin

text \<open>
  Cancellation contexts of \<open>SharedRuntime\<close> (src/src/vm/runtime/SharedRuntimeChannels.cpp): a
  forest of nodes with a \<open>cancelled\<close> flag, the flag of the process-wide shutdown signal, and the
  worklist that propagates a cancellation to the children.
\<close>

section \<open>State\<close>

record context_node =
  parent_id :: nat
  cancelled :: bool
  signal_aware :: bool
  children :: "nat list"

record context_registry =
  contexts :: "(nat \<times> context_node) list"
  next_context_id :: nat
  background_context_id :: nat
  shutdown_signal_seen :: bool

definition new_context_node :: context_node where
  "new_context_node = \<lparr>parent_id = 0, cancelled = False, signal_aware = False, children = []\<rparr>"

definition init_contexts :: context_registry where
  "init_contexts = \<lparr>contexts = [], next_context_id = 1, background_context_id = 0,
     shutdown_signal_seen = False\<rparr>"

abbreviation node_at :: "context_registry \<Rightarrow> nat \<Rightarrow> context_node option" where
  "node_at r i \<equiv> map_of (contexts r) i"

definition set_node :: "nat \<Rightarrow> context_node \<Rightarrow> context_registry \<Rightarrow> context_registry" where
  "set_node i n r = r\<lparr>contexts := AList.update i n (contexts r)\<rparr>"

section \<open>Operations\<close>

text \<open>\<open>HandleShutdownSignal\<close>, run by the operating system on SIGINT or SIGTERM.\<close>

definition handle_shutdown_signal :: "context_registry \<Rightarrow> context_registry" where
  "handle_shutdown_signal r = r\<lparr>shutdown_signal_seen := True\<rparr>"

definition background_context :: "context_registry \<Rightarrow> nat \<times> context_registry" where
  "background_context r =
     (if background_context_id r = 0 then
        let i = next_context_id r in
        (i, r\<lparr>background_context_id := i, next_context_id := Suc i,
              contexts := emplace i new_context_node (contexts r)\<rparr>)
      else (background_context_id r, r))"

definition set_insert_child :: "nat \<Rightarrow> context_node \<Rightarrow> context_node" where
  "set_insert_child c n =
     n\<lparr>children := (if c \<in> set (children n) then children n else children n @ [c])\<rparr>"

definition add_child_edge :: "nat \<Rightarrow> nat \<Rightarrow> context_registry \<Rightarrow> context_registry" where
  "add_child_edge p c r =
     (case node_at r p of None \<Rightarrow> r | Some n \<Rightarrow> set_node p (set_insert_child c n) r)"

definition shutdown_context :: "context_registry \<Rightarrow> nat \<times> context_registry" where
  "shutdown_context r =
     (let (p, r1) = background_context r;
          i = next_context_id r1;
          child = new_context_node\<lparr>parent_id := p, cancelled := shutdown_signal_seen r1,
                                   signal_aware := True\<rparr>;
          r2 = add_child_edge p i (r1\<lparr>next_context_id := Suc i\<rparr>)
      in (i, r2\<lparr>contexts := emplace i child (contexts r2)\<rparr>))"

text \<open>\<open>None\<close> is the null handle returned for an unknown parent.\<close>

definition create_child_context ::
    "nat \<Rightarrow> context_registry \<Rightarrow> nat option \<times> context_registry" where
  "create_child_context p r =
     (case node_at r p of None \<Rightarrow> (None, r)
      | Some pn \<Rightarrow>
         (let i = next_context_id r;
              child = new_context_node\<lparr>parent_id := p, cancelled := cancelled pn,
                                       signal_aware := signal_aware pn\<rparr>;
              r2 = add_child_edge p i (r\<lparr>next_context_id := Suc i\<rparr>)
          in (Some i, r2\<lparr>contexts := emplace i child (contexts r2)\<rparr>)))"

text \<open>
  The worklist of \<open>CancelContext\<close>; the vector \<open>pending\<close> is kept top first, so the children,
  pushed in the set's order, are visited in reverse.
\<close>

definition live_nodes :: "context_registry \<Rightarrow> nat set" where
  "live_nodes r = {i \<in> fst ` set (contexts r). \<exists>n. node_at r i = Some n \<and> \<not> cancelled n}"

lemma finite_live_nodes [simp]: "finite (live_nodes r)"
  by (simp add: live_nodes_def)

lemma live_nodes_cancel:
  assumes "node_at r i = Some n" "\<not> cancelled n"
  shows "live_nodes (set_node i (n\<lparr>cancelled := True\<rparr>) r) = live_nodes r - {i}" "i \<in> live_nodes r"
  using assms by (auto simp: live_nodes_def set_node_def update_conv' keys_map_of)

function cancel_loop :: "nat list \<Rightarrow> context_registry \<Rightarrow> context_registry" where
  "cancel_loop [] r = r"
| "cancel_loop (current # pending) r =
     (case node_at r current of
        None \<Rightarrow> cancel_loop pending r
      | Some n \<Rightarrow>
          if cancelled n then cancel_loop pending r
          else cancel_loop (rev (children n) @ pending)
                 (set_node current (n\<lparr>cancelled := True\<rparr>) r))"
  by pat_completeness auto

termination
proof (relation "inv_image (finite_psubset <*lex*> less_than)
    (\<lambda>(pending, r). (live_nodes r, length pending))", goal_cases)
  case 1
  then show ?case by (intro wf_inv_image wf_lex_prod wf_finite_psubset wf_less_than)
next
  case (4 current pending r n)
  then show ?case
    using live_nodes_cancel [of r current n] by (auto simp: finite_psubset_def)
qed simp_all

definition cancel_context :: "nat \<Rightarrow> context_registry \<Rightarrow> bool \<times> context_registry" where
  "cancel_context i r =
     (if node_at r i = None then (False, r) else (True, cancel_loop [i] r))"

definition is_context_cancelled :: "context_registry \<Rightarrow> nat \<Rightarrow> bool" where
  "is_context_cancelled r i =
     (case node_at r i of None \<Rightarrow> False
      | Some n \<Rightarrow> cancelled n \<or> (signal_aware n \<and> shutdown_signal_seen r))"

section \<open>The child relation and the set of cancelled nodes\<close>

definition child_rel :: "context_registry \<Rightarrow> (nat \<times> nat) set" where
  "child_rel r = {(p, c). \<exists>n. node_at r p = Some n \<and> c \<in> set (children n)}"

definition cancelled_set :: "context_registry \<Rightarrow> nat set" where
  "cancelled_set r = {i. \<exists>n. node_at r i = Some n \<and> cancelled n}"

lemma child_rel_cancel [simp]:
  "node_at r i = Some n \<Longrightarrow> child_rel (set_node i (n\<lparr>cancelled := b\<rparr>) r) = child_rel r"
  by (auto simp: child_rel_def set_node_def update_conv' split: if_splits)

lemma cancelled_set_cancel [simp]:
  "node_at r i = Some n \<Longrightarrow>
   cancelled_set (set_node i (n\<lparr>cancelled := True\<rparr>) r) = insert i (cancelled_set r)"
  by (auto simp: cancelled_set_def set_node_def update_conv')

lemma known_set_node [simp]:
  "node_at r i = Some n \<Longrightarrow> dom (node_at (set_node i n' r)) = dom (node_at r)"
  by (auto simp: set_node_def update_conv' split: if_splits)

lemma cancel_loop_child_rel [simp]: "child_rel (cancel_loop pending r) = child_rel r"
  by (induction pending r rule: cancel_loop.induct) (auto split: option.splits)

lemma cancel_loop_known [simp]: "dom (node_at (cancel_loop pending r)) = dom (node_at r)"
  by (induction pending r rule: cancel_loop.induct) (auto split: option.splits)

lemma cancel_loop_seen [simp]:
  "shutdown_signal_seen (cancel_loop pending r) = shutdown_signal_seen r"
  by (induction pending r rule: cancel_loop.induct) (auto simp: set_node_def split: option.splits)

text \<open>Only descendants of the worklist become cancelled, and the flag is never withdrawn.\<close>

lemma cancel_loop_sound:
  "cancelled_set (cancel_loop pending r) \<subseteq> cancelled_set r \<union> (child_rel r)\<^sup>* `` set pending"
proof (induction pending r rule: cancel_loop.induct)
  case (1 r)
  then show ?case by simp
next
  case (2 current pending r)
  show ?case
  proof (cases "node_at r current")
    case None
    with 2 show ?thesis by auto
  next
    case (Some n)
    show ?thesis
    proof (cases "cancelled n")
      case True
      with 2 Some show ?thesis by auto
    next
      case False
      have kids: "(child_rel r)\<^sup>* `` set (children n) \<subseteq> (child_rel r)\<^sup>* `` {current}"
        using Some by (auto simp: child_rel_def intro: converse_rtrancl_into_rtrancl)
      from 2(3) [OF Some False] Some False kids show ?thesis by (auto simp: Image_Un)
    qed
  qed
qed

text \<open>
  The worklist is exhaustive: a cancelled node whose children are not all cancelled or still
  pending can only be one that was so before. The nodes of \<open>ex\<close> are exempt.
\<close>

definition children_done :: "nat set \<Rightarrow> nat set \<Rightarrow> context_registry \<Rightarrow> bool" where
  "children_done ex todo r \<longleftrightarrow>
     child_rel r `` (cancelled_set r - ex) \<inter> dom (node_at r) \<subseteq> cancelled_set r \<union> todo"

lemma cancel_loop_complete:
  "children_done ex (set pending) r \<Longrightarrow>
   children_done ex {} (cancel_loop pending r) \<and> cancelled_set r \<subseteq> cancelled_set (cancel_loop pending r)
   \<and> set pending \<inter> dom (node_at r) \<subseteq> cancelled_set (cancel_loop pending r)"
proof (induction pending r rule: cancel_loop.induct)
  case (1 r)
  then show ?case by simp
next
  case (2 current pending r)
  show ?case
  proof (cases "node_at r current")
    case None
    then have "children_done ex (set pending) r"
      using "2.prems" by (auto simp: children_done_def)
    with 2(1) [OF None] None show ?thesis by auto
  next
    case (Some n)
    show ?thesis
    proof (cases "cancelled n")
      case True
      then have "current \<in> cancelled_set r" using Some by (auto simp: cancelled_set_def)
      moreover from this have "children_done ex (set pending) r"
        using "2.prems" by (auto simp: children_done_def)
      ultimately show ?thesis using 2(2) [OF Some True] Some True by auto
    next
      case False
      let ?r = "set_node current (n\<lparr>cancelled := True\<rparr>) r"
      have "children_done ex (set (rev (children n) @ pending)) ?r"
        using "2.prems" Some
        by (simp add: children_done_def) (auto simp: child_rel_def)
      from 2(3) [OF Some False this] Some False show ?thesis by auto
    qed
  qed
qed

section \<open>Reachable registries\<close>

datatype ctx_op = Ctx_Background | Ctx_Shutdown | Ctx_Child nat | Ctx_Cancel nat | Ctx_Signal

fun ctx_exec :: "ctx_op \<Rightarrow> context_registry \<Rightarrow> context_registry" where
  "ctx_exec Ctx_Background r = snd (background_context r)"
| "ctx_exec Ctx_Shutdown r = snd (shutdown_context r)"
| "ctx_exec (Ctx_Child p) r = snd (create_child_context p r)"
| "ctx_exec (Ctx_Cancel i) r = snd (cancel_context i r)"
| "ctx_exec Ctx_Signal r = handle_shutdown_signal r"

inductive ctx_reachable :: "context_registry \<Rightarrow> bool" where
  ctx_start: "ctx_reachable init_contexts"
| ctx_step: "ctx_reachable r \<Longrightarrow> ctx_reachable (ctx_exec c r)"

lemma ctx_run_reachable: "ctx_reachable r \<Longrightarrow> ctx_reachable (fold ctx_exec cs r)"
  by (induction cs arbitrary: r) (auto intro: ctx_step)

text \<open>
  The invariant: identifiers are positive and below the counter, a child is younger than its
  parent and known, the background context is the root, and cancellation is inherited along
  every edge, those out of the background context excepted (see \<open>shutdown_escapes_cancel\<close>).
\<close>

definition ctx_inv :: "context_registry \<Rightarrow> bool" where
  "ctx_inv r \<longleftrightarrow>
     0 < next_context_id r \<and>
     (\<forall>i \<in> dom (node_at r). 0 < i \<and> i < next_context_id r) \<and>
     (\<forall>(p, c) \<in> child_rel r. c \<in> dom (node_at r) \<and> p < c \<and> c \<noteq> background_context_id r) \<and>
     (if background_context_id r = 0 then dom (node_at r) = {}
      else background_context_id r \<in> dom (node_at r)) \<and>
     child_rel r `` (cancelled_set r - {background_context_id r}) \<subseteq> cancelled_set r"

lemma ctx_inv_init: "ctx_inv init_contexts"
  by (auto simp: ctx_inv_def init_contexts_def child_rel_def cancelled_set_def)

lemma background_inv:
  assumes "ctx_inv r"
  shows "ctx_inv (snd (background_context r))"
    "fst (background_context r) = background_context_id (snd (background_context r))"
    "0 < background_context_id (snd (background_context r))"
proof -
  show "fst (background_context r) = background_context_id (snd (background_context r))"
    by (simp add: background_context_def Let_def)
  show "0 < background_context_id (snd (background_context r))"
    using assms by (simp add: background_context_def Let_def ctx_inv_def)
  show "ctx_inv (snd (background_context r))"
  proof (cases "background_context_id r = 0")
    case True
    with assms have empty: "node_at r i = None" for i
      by (auto simp: ctx_inv_def dom_def)
    with True assms show ?thesis
      by (auto simp: background_context_def Let_def ctx_inv_def child_rel_def cancelled_set_def
          new_context_node_def split: if_splits)
  next
    case False
    with assms show ?thesis by (simp add: background_context_def)
  qed
qed

text \<open>Attaching a fresh child to a known parent.\<close>

definition attach_child :: "nat \<Rightarrow> context_node \<Rightarrow> context_registry \<Rightarrow> context_registry" where
  "attach_child p child r =
     (let i = next_context_id r; r2 = add_child_edge p i (r\<lparr>next_context_id := Suc i\<rparr>)
      in r2\<lparr>contexts := emplace i child (contexts r2)\<rparr>)"

lemma attach_child_fields [simp]:
  "next_context_id (attach_child p child r) = Suc (next_context_id r)"
  "background_context_id (attach_child p child r) = background_context_id r"
  "shutdown_signal_seen (attach_child p child r) = shutdown_signal_seen r"
  by (auto simp: attach_child_def add_child_edge_def set_node_def Let_def split: option.splits)

lemma attach_child_nodes:
  assumes "ctx_inv r" "node_at r p = Some pn"
  shows "node_at (attach_child p child r) =
    (node_at r)(p \<mapsto> set_insert_child (next_context_id r) pn, next_context_id r \<mapsto> child)"
proof -
  have "next_context_id r \<notin> dom (node_at r)" "p < next_context_id r"
    using assms by (auto simp: ctx_inv_def)
  with assms(2) show ?thesis
    by (auto simp: attach_child_def add_child_edge_def set_node_def Let_def update_conv' dom_def)
qed

lemma attach_child_inv:
  assumes inv: "ctx_inv r" and p: "node_at r p = Some pn" and kids: "children child = []"
    and canc: "cancelled pn \<Longrightarrow> p \<noteq> background_context_id r \<Longrightarrow> cancelled child"
  shows "ctx_inv (attach_child p child r)"
proof -
  let ?i = "next_context_id r" and ?r = "attach_child p child r"
  note nodes = attach_child_nodes [OF inv p, of child]
  have fresh: "?i \<notin> dom (node_at r)" "p < ?i" "background_context_id r \<noteq> ?i" "?i \<noteq> p"
    using inv p by (auto simp: ctx_inv_def split: if_splits)
  have rel: "child_rel ?r = insert (p, ?i) (child_rel r)"
    using fresh p kids by (auto simp: child_rel_def nodes set_insert_child_def split: if_splits)
  have canc': "cancelled_set ?r = cancelled_set r \<union> (if cancelled child then {?i} else {})"
    using fresh p by (auto simp: cancelled_set_def nodes set_insert_child_def split: if_splits)
  have dom': "dom (node_at ?r) = insert ?i (dom (node_at r))"
    using p by (auto simp: nodes split: if_splits)
  have pc: "p \<in> cancelled_set r \<longleftrightarrow> cancelled pn" using p by (simp add: cancelled_set_def)
  have no: "?i \<notin> Domain (child_rel r)" using fresh by (auto simp: child_rel_def)
  have below: "\<forall>j \<in> dom (node_at r). 0 < j \<and> j < Suc ?i"
    using inv by (auto simp: ctx_inv_def less_Suc_eq)
  show ?thesis
    using inv fresh canc pc no p below unfolding ctx_inv_def rel canc' dom'
    by (auto split: if_splits)
qed

lemma shutdown_as_attach:
  "shutdown_context r =
    (let r1 = snd (background_context r); p = fst (background_context r) in
     (next_context_id r1, attach_child p (new_context_node\<lparr>parent_id := p,
        cancelled := shutdown_signal_seen r1, signal_aware := True\<rparr>) r1))"
  by (simp add: shutdown_context_def attach_child_def Let_def split: prod.splits)

lemma create_child_as_attach:
  "create_child_context p r =
    (case node_at r p of None \<Rightarrow> (None, r)
     | Some pn \<Rightarrow> (Some (next_context_id r), attach_child p (new_context_node\<lparr>parent_id := p,
         cancelled := cancelled pn, signal_aware := signal_aware pn\<rparr>) r))"
  by (simp add: create_child_context_def attach_child_def Let_def split: option.splits)

text \<open>A cancellation leaves identifiers and edges alone and finishes every subtree it enters.\<close>

lemma cancel_loop_fields [simp]:
  "next_context_id (cancel_loop pending r) = next_context_id r"
  "background_context_id (cancel_loop pending r) = background_context_id r"
  by (induction pending r rule: cancel_loop.induct) (auto simp: set_node_def split: option.splits)

declare cancel_loop.simps [simp del]

lemma cancel_context_as_loop:
  "cancel_context i r = (node_at r i \<noteq> None, if node_at r i = None then r else cancel_loop [i] r)"
  by (simp add: cancel_context_def)

lemma cancel_loop_known_iff [simp]:
  "(node_at (cancel_loop pending r) i = None) = (node_at r i = None)"
  using cancel_loop_known [of pending r] by (metis domIff)

lemma cancel_loop_inv:
  assumes "ctx_inv r"
  shows "ctx_inv (cancel_loop [i] r)"
proof -
  let ?bg = "{background_context_id r}"
  have "child_rel r `` (cancelled_set r - ?bg) \<subseteq> cancelled_set r"
    using assms by (simp add: ctx_inv_def)
  then have "children_done ?bg (set [i]) r" by (auto simp: children_done_def)
  from cancel_loop_complete [OF this] have "children_done ?bg {} (cancel_loop [i] r)" by simp
  moreover have "child_rel r `` X \<subseteq> dom (node_at r)" for X
    using assms by (auto simp: ctx_inv_def)
  ultimately have "child_rel r `` (cancelled_set (cancel_loop [i] r) - ?bg)
      \<subseteq> cancelled_set (cancel_loop [i] r)"
    unfolding children_done_def cancel_loop_child_rel cancel_loop_known by blast
  with assms show ?thesis by (auto simp: ctx_inv_def)
qed

lemma ctx_exec_inv:
  assumes "ctx_inv r"
  shows "ctx_inv (ctx_exec c r)"
proof (cases c)
  case Ctx_Background
  with background_inv(1) [OF assms] show ?thesis by simp
next
  case Ctx_Shutdown
  from background_inv(1,3) [OF assms]
  have "\<exists>pn. node_at (snd (background_context r))
      (background_context_id (snd (background_context r))) = Some pn"
    by (auto simp: ctx_inv_def split: if_splits)
  then show ?thesis
    using Ctx_Shutdown background_inv [OF assms]
    by (auto simp: shutdown_as_attach Let_def new_context_node_def intro!: attach_child_inv)
next
  case (Ctx_Child p)
  with assms show ?thesis
    by (auto simp: create_child_as_attach new_context_node_def split: option.splits
        intro!: attach_child_inv)
next
  case (Ctx_Cancel i)
  with assms cancel_loop_inv [OF assms] show ?thesis by (simp add: cancel_context_as_loop)
next
  case Ctx_Signal
  with assms show ?thesis
    by (simp add: handle_shutdown_signal_def ctx_inv_def child_rel_def cancelled_set_def)
qed

lemma ctx_reachable_inv: "ctx_reachable r \<Longrightarrow> ctx_inv r"
  by (induction rule: ctx_reachable.induct) (auto intro: ctx_inv_init ctx_exec_inv)

lemma descendants_not_background:
  assumes "ctx_inv r" "(i, j) \<in> (child_rel r)\<^sup>*" "i \<noteq> background_context_id r"
  shows "j \<noteq> background_context_id r"
  using assms(2,3)
proof (induction rule: rtrancl_induct)
  case (step y z)
  with assms(1) show ?case by (auto simp: ctx_inv_def)
qed simp

lemma cancel_covers_descendants:
  assumes inv: "ctx_inv r" and known: "node_at r i \<noteq> None"
    and root: "i = background_context_id r \<Longrightarrow> i \<notin> cancelled_set r"
  shows "(child_rel r)\<^sup>* `` {i} \<subseteq> cancelled_set (cancel_loop [i] r)"
proof -
  let ?r = "cancel_loop [i] r"
  let ?ex = "if background_context_id r \<in> cancelled_set r then {background_context_id r} else {}"
  have sub: "child_rel r `` X \<subseteq> dom (node_at r)" for X
    using inv by (auto simp: ctx_inv_def)
  have "child_rel r `` (cancelled_set r - ?ex) \<subseteq> cancelled_set r"
    using inv by (auto simp: ctx_inv_def)
  then have "children_done ?ex (set [i]) r" unfolding children_done_def by blast
  note complete = cancel_loop_complete [OF this, unfolded children_done_def cancel_loop_child_rel
      cancel_loop_known]
  have done': "child_rel r `` (cancelled_set ?r - ?ex) \<subseteq> cancelled_set ?r"
    using complete sub by blast
  have "i \<in> cancelled_set ?r"
    using complete known by auto
  have member: "j \<in> cancelled_set ?r" if "(i, j) \<in> (child_rel r)\<^sup>*" for j
    using that
  proof (induction rule: rtrancl_induct)
    case base
    show ?case by fact
  next
    case (step y z)
    have "y \<notin> ?ex"
      using descendants_not_background [OF inv step(1)] root by (cases "i = background_context_id r") auto
    with step done' show ?case by blast
  qed
  show ?thesis by (rule subsetI) (rule member, simp)
qed

section \<open>Properties\<close>

text \<open>C12: cancelling a known context returns true and makes cancelled exactly what was cancelled
  before together with the context and every transitive child of it; the one exception is a
  second cancellation of the background context, which visits nothing.\<close>
theorem cancel_context_exact:
  assumes "ctx_reachable r" "node_at r i \<noteq> None"
    and "i = background_context_id r \<Longrightarrow> i \<notin> cancelled_set r"
  shows "fst (cancel_context i r) \<and>
    cancelled_set (snd (cancel_context i r)) = cancelled_set r \<union> (child_rel r)\<^sup>* `` {i}"
proof -
  note inv = ctx_reachable_inv [OF assms(1)]
  have "cancelled_set r \<subseteq> cancelled_set (cancel_loop [i] r)"
    using cancel_loop_complete [of "UNIV" "[i]" r] by (simp add: children_done_def)
  with cancel_covers_descendants [OF inv assms(2,3)] cancel_loop_sound [of "[i]" r] assms(2)
  show ?thesis by (auto simp: cancel_context_as_loop)
qed

definition family :: context_registry where
  "family = fold ctx_exec [Ctx_Background, Ctx_Child 1, Ctx_Child 2, Ctx_Child 1] init_contexts"

lemma family_reachable: "ctx_reachable family"
  unfolding family_def by (intro ctx_run_reachable ctx_start)

theorem cancel_context_exact_witness:
  "fst (cancel_context 2 family) \<and>
   cancelled_set (snd (cancel_context 2 family)) = cancelled_set family \<union> (child_rel family)\<^sup>* `` {2}"
proof -
  have "node_at family 2 \<noteq> None" "background_context_id family = 1" by code_simp+
  with cancel_context_exact [OF family_reachable, of 2] show ?thesis by simp
qed

text \<open>Cancellation never comes back and a child created later under a cancelled context is
  born cancelled.\<close>
theorem cancellation_is_inherited:
  assumes "create_child_context p r = (Some c, r')" "is_context_cancelled r p" "ctx_reachable r"
  shows "is_context_cancelled r' c"
proof -
  from assms(1,2) obtain pn where p: "node_at r p = Some pn" "c = next_context_id r"
    "r' = attach_child p (new_context_node\<lparr>parent_id := p, cancelled := cancelled pn,
        signal_aware := signal_aware pn\<rparr>) r"
    by (auto simp: create_child_as_attach split: option.splits)
  with assms(2) attach_child_nodes [OF ctx_reachable_inv [OF assms(3)] p(1)] show ?thesis
    by (auto simp: is_context_cancelled_def)
qed

theorem cancellation_is_inherited_witness:
  "is_context_cancelled (snd (create_child_context 2 (snd (cancel_context 1 family)))) 5"
proof (rule cancellation_is_inherited)
  show "create_child_context 2 (snd (cancel_context 1 family)) =
      (Some 5, snd (create_child_context 2 (snd (cancel_context 1 family))))" by code_simp
  show "is_context_cancelled (snd (cancel_context 1 family)) 2" by code_simp
  show "ctx_reachable (snd (cancel_context 1 family))"
    using ctx_step [OF family_reachable, of "Ctx_Cancel 1"] by simp
qed

text \<open>A shutdown context created after the background context was cancelled is live, and
  cancelling the background again does not reach it, although it is its child.\<close>
theorem shutdown_escapes_cancel:
  "\<exists>r. ctx_reachable r \<and> is_context_cancelled r 1 \<and> (1, 2) \<in> child_rel r \<and>
       \<not> is_context_cancelled r 2 \<and> \<not> is_context_cancelled (snd (cancel_context 1 r)) 2"
proof -
  let ?r = "fold ctx_exec [Ctx_Background, Ctx_Cancel 1, Ctx_Shutdown] init_contexts"
  have "case node_at ?r 1 of Some n \<Rightarrow> 2 \<in> set (children n) | None \<Rightarrow> False" by code_simp
  then have "\<exists>n. node_at ?r 1 = Some n \<and> 2 \<in> set (children n)" by (auto split: option.splits)
  then have "(1, 2) \<in> child_rel ?r" by (simp add: child_rel_def)
  moreover have "is_context_cancelled ?r 1" "\<not> is_context_cancelled ?r 2"
    "\<not> is_context_cancelled (snd (cancel_context 1 ?r)) 2" by code_simp+
  moreover have "ctx_reachable ?r" by (intro ctx_run_reachable ctx_start)
  ultimately show ?thesis by blast
qed

end
