(* ===== verification/Float64.thy ===== *)
theory Float64
  imports Prelude
begin

text \<open>
  The C++ type \<open>double\<close> as the source uses it: IEEE 754 binary64 with round-to-nearest-even. A
  finite number is \<open>Finite s m e\<close>, the value \<open>(-1)^s * m * 2^e\<close> with an integral significand
  \<open>0 \<le> m < 2^53\<close>; every operation computes the exact dyadic result and rounds it once. Conversions to
  and from \<open>int64_t\<close> and the default \<open>ostream\<close> rendering (\<open>%g\<close> with six digits) are
  included, because the virtual machine computes all arithmetic in \<open>double\<close>.
\<close>

section \<open>Representation and rounding\<close>

datatype double = NaN | Inf bool | Finite bool int int

fun bitlen :: "int \<Rightarrow> nat" where
  "bitlen n = (if n \<le> 0 then 0 else Suc (bitlen (n div 2)))"

declare bitlen.simps [simp del]

definition min_exponent :: int where
  "min_exponent = - 1074"

definition max_exponent :: int where
  "max_exponent = 971"

definition fzero :: "bool \<Rightarrow> double" where
  "fzero s = Finite s 0 min_exponent"

text \<open>Division of a non-negative integer by \<open>2 ^ k\<close>, rounded to nearest, ties to even.\<close>

definition round_shift :: "int \<Rightarrow> nat \<Rightarrow> int" where
  "round_shift m k =
     (let q = m div 2 ^ k; r = m mod 2 ^ k in
      if 2 * r < 2 ^ k then q
      else if 2 ^ k < 2 * r then q + 1
      else if even q then q else q + 1)"

text \<open>\<open>round_dyadic s m e\<close> is the double nearest to \<open>(-1)^s * m * 2^e\<close>.\<close>

definition round_dyadic :: "bool \<Rightarrow> int \<Rightarrow> int \<Rightarrow> double" where
  "round_dyadic s m e =
     (if m = 0 then fzero s
      else
        let k = max (int (bitlen m) - 53) (min_exponent - e);
            m' = (if k \<le> 0 then m * 2 ^ nat (- k) else round_shift m (nat k));
            (m2, e2) = (if m' = 2 ^ 53 then (2 ^ 52, e + k + 1) else (m', e + k))
        in if max_exponent < e2 then Inf s else Finite s m2 e2)"

definition of_dyadic :: "int \<Rightarrow> int \<Rightarrow> bool \<Rightarrow> double" where
  "of_dyadic m e zero_sign =
     (if m = 0 then fzero zero_sign else round_dyadic (m < 0) \<bar>m\<bar> e)"

definition signed_significand :: "bool \<Rightarrow> int \<Rightarrow> int" where
  "signed_significand s m = (if s then - m else m)"

section \<open>Arithmetic and comparison\<close>

fun fneg :: "double \<Rightarrow> double" where
  "fneg NaN = NaN"
| "fneg (Inf s) = Inf (\<not> s)"
| "fneg (Finite s m e) = Finite (\<not> s) m e"

fun fadd :: "double \<Rightarrow> double \<Rightarrow> double" where
  "fadd NaN y = NaN"
| "fadd x NaN = NaN"
| "fadd (Inf s) (Inf t) = (if s = t then Inf s else NaN)"
| "fadd (Inf s) (Finite _ _ _) = Inf s"
| "fadd (Finite _ _ _) (Inf t) = Inf t"
| "fadd (Finite s m e) (Finite t n f) =
     (let g = min e f;
          total = signed_significand s m * 2 ^ nat (e - g) + signed_significand t n * 2 ^ nat (f - g)
      in of_dyadic total g (s \<and> t))"

definition fsub :: "double \<Rightarrow> double \<Rightarrow> double" where
  "fsub x y = fadd x (fneg y)"

definition is_fzero :: "double \<Rightarrow> bool" where
  "is_fzero x = (case x of Finite s m e \<Rightarrow> m = 0 | _ \<Rightarrow> False)"

fun fmul :: "double \<Rightarrow> double \<Rightarrow> double" where
  "fmul NaN y = NaN"
| "fmul x NaN = NaN"
| "fmul (Inf s) (Inf t) = Inf (s \<noteq> t)"
| "fmul (Inf s) (Finite t n f) = (if n = 0 then NaN else Inf (s \<noteq> t))"
| "fmul (Finite s m e) (Inf t) = (if m = 0 then NaN else Inf (s \<noteq> t))"
| "fmul (Finite s m e) (Finite t n f) = round_dyadic (s \<noteq> t) (m * n) (e + f)"

text \<open>
  Division keeps at least 55 quotient bits and appends a sticky bit, so that the final rounding
  sees on which side of a tie the exact quotient lies.
\<close>

fun fdiv :: "double \<Rightarrow> double \<Rightarrow> double" where
  "fdiv NaN y = NaN"
| "fdiv x NaN = NaN"
| "fdiv (Inf s) (Inf t) = NaN"
| "fdiv (Inf s) (Finite t n f) = Inf (s \<noteq> t)"
| "fdiv (Finite s m e) (Inf t) = fzero (s \<noteq> t)"
| "fdiv (Finite s m e) (Finite t n f) =
     (if n = 0 then (if m = 0 then NaN else Inf (s \<noteq> t))
      else
        let k = 55 + bitlen n; q = (m * 2 ^ k) div n;
            sticky = (if (m * 2 ^ k) mod n = 0 then 0 else 1)
        in round_dyadic (s \<noteq> t) (2 * q + sticky) (e - f - int k - 1))"

fun feq :: "double \<Rightarrow> double \<Rightarrow> bool" where
  "feq (Inf s) (Inf t) = (s = t)"
| "feq (Finite s m e) (Finite t n f) =
     (let g = min e f in
      signed_significand s m * 2 ^ nat (e - g) = signed_significand t n * 2 ^ nat (f - g))"
| "feq _ _ = False"

fun flt :: "double \<Rightarrow> double \<Rightarrow> bool" where
  "flt NaN _ = False"
| "flt _ NaN = False"
| "flt (Inf s) (Inf t) = (s \<and> \<not> t)"
| "flt (Inf s) (Finite _ _ _) = s"
| "flt (Finite _ _ _) (Inf t) = (\<not> t)"
| "flt (Finite s m e) (Finite t n f) =
     (let g = min e f in
      signed_significand s m * 2 ^ nat (e - g) < signed_significand t n * 2 ^ nat (f - g))"

section \<open>Conversions\<close>

definition double_of_int :: "int \<Rightarrow> double" where
  "double_of_int i = of_dyadic i 0 False"

definition double_of_bool :: "bool \<Rightarrow> double" where
  "double_of_bool b = double_of_int (if b then 1 else 0)"

text \<open>
  \<open>static_cast<int64_t>\<close> truncates towards zero; \<open>None\<close> is a value that does not fit, for which
  the conversion is undefined.
\<close>

definition truncate_double :: "double \<Rightarrow> int option" where
  "truncate_double x =
     (case x of
        Finite s m e \<Rightarrow>
          let i = (if 0 \<le> e then signed_significand s (m * 2 ^ nat e)
                   else signed_significand s (m div 2 ^ nat (- e)))
          in if - (2 ^ 63) \<le> i \<and> i < 2 ^ 63 then Some i else None
      | _ \<Rightarrow> None)"

definition double_nonzero :: "double \<Rightarrow> bool" where
  "double_nonzero x = (\<not> feq x (fzero False))"

section \<open>Default stream output\<close>

text \<open>
  \<open>%g\<close> with precision six: \<open>decimal_exponent\<close> finds \<open>X\<close> with \<open>10^X \<le> n/d < 10^(X+1)\<close>,
  the six digits are rounded half to even, trailing zeros are dropped.
\<close>

fun digits_of :: "int \<Rightarrow> int" where
  "digits_of n = (if n < 10 then 1 else 1 + digits_of (n div 10))"

declare digits_of.simps [simp del]

definition div_round_even :: "int \<Rightarrow> int \<Rightarrow> int" where
  "div_round_even n d =
     (let q = n div d; r = n mod d in
      if 2 * r < d then q else if d < 2 * r then q + 1 else if even q then q else q + 1)"

definition decimal_exponent :: "int \<Rightarrow> int \<Rightarrow> int" where
  "decimal_exponent n d =
     (let x = digits_of n - digits_of d in
      if (if 0 \<le> x then d * 10 ^ nat x \<le> n else d \<le> n * 10 ^ nat (- x)) then x else x - 1)"

definition six_digits :: "int \<Rightarrow> int \<Rightarrow> int \<times> int" where
  "six_digits n d =
     (let x = decimal_exponent n d; shift = 5 - x;
          v = (if 0 \<le> shift then div_round_even (n * 10 ^ nat shift) d
               else div_round_even n (d * 10 ^ nat (- shift)))
      in if v = 10 ^ 6 then (10 ^ 5, x + 1) else (v, x))"

definition pad_left :: "nat \<Rightarrow> string \<Rightarrow> string" where
  "pad_left k s = replicate (k - length s) (CHR ''0'') @ s"

definition strip_zeros :: "string \<Rightarrow> string" where
  "strip_zeros s = rev (dropWhile (\<lambda>c. c = CHR ''0'') (rev s))"

definition with_fraction :: "string \<Rightarrow> string \<Rightarrow> string" where
  "with_fraction whole fraction =
     (let f = strip_zeros fraction in if f = [] then whole else whole @ ''.'' @ f)"

definition show_exponent :: "int \<Rightarrow> string" where
  "show_exponent x = (if x < 0 then ''e-'' else ''e+'') @ pad_left 2 (show_int \<bar>x\<bar>)"

definition show_positive :: "int \<Rightarrow> int \<Rightarrow> string" where
  "show_positive n d =
     (let (v, x) = six_digits n d; ds = show_int v in
      if x < - 4 \<or> 6 \<le> x
      then with_fraction (take 1 ds) (drop 1 ds) @ show_exponent x
      else if 0 \<le> x
      then with_fraction (take (nat x + 1) ds) (drop (nat x + 1) ds)
      else with_fraction ''0'' (replicate (nat (- x) - 1) (CHR ''0'') @ ds))"

definition show_double :: "double \<Rightarrow> string" where
  "show_double x =
     (case x of
        NaN \<Rightarrow> ''nan''
      | Inf s \<Rightarrow> (if s then ''-inf'' else ''inf'')
      | Finite s m e \<Rightarrow>
          (if s then ''-'' else '''') @
          (if m = 0 then ''0''
           else if 0 \<le> e then show_positive (m * 2 ^ nat e) 1
           else show_positive m (2 ^ nat (- e))))"

section \<open>Lemmas\<close>

lemma bitlen_0 [simp]: "bitlen 0 = 0"
  by (simp add: bitlen.simps)

lemma bitlen_le_iff: "0 \<le> n \<Longrightarrow> bitlen n \<le> k \<longleftrightarrow> n < 2 ^ k"
proof (induction n arbitrary: k rule: bitlen.induct)
  case (1 n)
  show ?case
  proof (cases "n \<le> 0")
    case True
    with 1 show ?thesis by simp
  next
    case False
    note len = bitlen.simps [of n]
    show ?thesis
    proof (cases k)
      case 0
      with False show ?thesis by (simp add: len)
    next
      case (Suc j)
      have "bitlen (n div 2) \<le> j \<longleftrightarrow> n div 2 < 2 ^ j"
        using 1(1) [OF False, of j] False by simp
      also have "\<dots> \<longleftrightarrow> n < 2 ^ Suc j"
      proof
        assume "n div 2 < 2 ^ j"
        then show "n < 2 ^ Suc j" by simp
      next
        assume "n < 2 ^ Suc j"
        then show "n div 2 < 2 ^ j" by simp
      qed
      finally show ?thesis using False Suc by (simp add: len)
    qed
  qed
qed

lemma fneg_fneg [simp]: "fneg (fneg x) = x"
  by (cases x) simp_all

lemma feq_refl: "feq x x \<longleftrightarrow> x \<noteq> NaN"
  by (cases x) simp_all

text \<open>An integer of at most 53 bits converts without rounding.\<close>

lemma signed_significand_abs [simp]: "signed_significand (i < 0) \<bar>i\<bar> = i"
  by (simp add: signed_significand_def)

lemma double_of_small_int:
  assumes "\<bar>i\<bar> < 2 ^ 53" "i \<noteq> 0"
  shows "double_of_int i =
    (let k = 53 - bitlen \<bar>i\<bar> in Finite (i < 0) (\<bar>i\<bar> * 2 ^ k) (- int k))"
proof -
  let ?k = "53 - bitlen \<bar>i\<bar>"
  have len: "bitlen \<bar>i\<bar> \<le> 53"
    using assms(1) by (subst bitlen_le_iff) simp_all
  then have k: "max (int (bitlen \<bar>i\<bar>) - 53) (min_exponent - 0) = - int ?k"
    by (simp add: min_exponent_def)
  have "\<bar>i\<bar> < 2 ^ bitlen \<bar>i\<bar>" using bitlen_le_iff [of "\<bar>i\<bar>" "bitlen \<bar>i\<bar>"] by simp
  then have "\<bar>i\<bar> * 2 ^ ?k < 2 ^ bitlen \<bar>i\<bar> * 2 ^ ?k" by simp
  also have "\<dots> = 2 ^ 53" using len by (simp flip: power_add)
  finally have "\<bar>i\<bar> * 2 ^ ?k \<noteq> 2 ^ 53" by linarith
  then show ?thesis
    using assms(2) by (simp only: double_of_int_def of_dyadic_def round_dyadic_def Let_def k)
      (simp add: max_exponent_def)
qed

lemma truncate_double_of_small_int:
  assumes "\<bar>i\<bar> < 2 ^ 53"
  shows "truncate_double (double_of_int i) = Some i"
proof (cases "i = 0")
  case True
  then show ?thesis
    by (simp add: double_of_int_def of_dyadic_def fzero_def truncate_double_def min_exponent_def
        signed_significand_def)
next
  case False
  have range: "- (2 ^ 63) \<le> i" "i < 2 ^ 63" using assms by auto
  define k where "k = 53 - bitlen \<bar>i\<bar>"
  have "double_of_int i = Finite (i < 0) (\<bar>i\<bar> * 2 ^ k) (- int k)"
    using double_of_small_int [OF assms False] unfolding k_def Let_def .
  then show ?thesis
    using range by (cases "k = 0") (simp_all add: truncate_double_def)
qed

lemma double_of_small_int_inj:
  assumes "\<bar>i\<bar> < 2 ^ 53" "\<bar>j\<bar> < 2 ^ 53"
  shows "double_of_int i = double_of_int j \<longleftrightarrow> i = j"
  by (metis assms option.inject truncate_double_of_small_int)

end
