(* ===== verification/Values.thy ===== *)
theory Values
  imports Float64 "HOL-Library.Signed_Division"
begin

text \<open>
  The values of the virtual machine and the operations on them (src/src/vm/core/values/Value.h,
  ValueHelper.h, ValueHelper.cpp). \<open>Value\<close> is a variant; its scalar alternatives are carried
  directly, every alternative that is a \<open>shared_ptr\<close> is \<open>VRef\<close> with the alternative's kind and
  an address of the heap, 0 being the null pointer. Strings are immutable and are carried by
  content, \<open>None\<close> being the null string pointer. A closure stored in a \<open>std::function\<close> (pointer
  accessors, iterators) is represented by the data it captures.
\<close>

section \<open>Values and heap objects\<close>

datatype kind =
    K_Function | K_Closure | K_Native | K_Array | K_Instance | K_Enum | K_Pointer | K_Module
  | K_Iterator | K_Thread | K_Mutex | K_Task | K_Channel | K_Context | K_Listener | K_Connection
  | K_HttpRequest | K_StringMap | K_Map | K_MySqlConnection | K_MySqlPool | K_MySqlStatement
  | K_MySqlResult | K_MySqlRow | K_RabbitMqConnection | K_RabbitMqMessage | K_Actor
  | K_ActorMethods | K_Handlers

datatype "value" =
    VNull | VBool bool | VInt "64 word" | VDouble double | VString "string option"
  | VRef kind nat

record chunk =
  chunk_code :: "8 word list"
  chunk_constants :: "value list"

record function_obj =
  fn_name :: string
  fn_chunk :: chunk
  fn_arity :: int
  fn_min_arity :: int
  fn_variadic :: bool
  capture_names :: "string list"

text \<open>
  A native function: \<open>native_key\<close> names the C++ callable; \<open>fast_slots\<close> lists the \<open>n\<close> for
  which \<open>invoke<n>\<close> is set, \<open>general_slot\<close> says whether \<open>invoke\<close> is.
\<close>

record native_obj =
  native_name :: string
  native_key :: string
  native_arity :: int
  native_variadic :: bool
  fast_slots :: "nat list"
  general_slot :: bool

datatype pointer_target =
    Target_Local nat
  | Target_Global string
  | Target_Element nat nat
  | Target_Field nat nat
  | Target_Upvalue nat
  | Target_Cell "value" bool nat

datatype iterator =
    Iter_Array nat nat
  | Iter_Take nat int
  | Iter_Drop nat int bool
  | Iter_Transform nat nat nat
  | Iter_Reverse nat "value list" bool int
  | Iter_Filter nat nat nat

datatype mailbox_kind = Mail_Send | Mail_Query

record mailbox_item =
  item_kind :: mailbox_kind
  item_method :: string
  item_args :: "value list"
  item_request :: nat

record query_result =
  query_ready :: bool
  query_value :: "value"
  query_error :: string

record actor_obj =
  actor_type :: string
  actor_state :: nat
  actor_methods :: nat
  mailbox :: "mailbox_item list"
  pending_queries :: "(nat \<times> query_result) list"
  actor_failures :: "string list"
  actor_runtime_id :: nat
  actor_stopping :: bool
  next_request_id :: nat

text \<open>
  \<open>Obj_Handle\<close> is the id of a thread, mutex, task, channel or context; \<open>Obj_Socket\<close> the port of a
  listener or connection; \<open>Obj_Sized\<close>, \<open>Obj_Open\<close> and \<open>Obj_Message\<close> keep of the database and
  message-queue objects what printing reads.
\<close>

datatype hobj =
    Obj_Function function_obj
  | Obj_Closure nat "value list"
  | Obj_Native native_obj
  | Obj_Array "value list"
  | Obj_Instance "value list"
  | Obj_Enum int "value list"
  | Obj_Pointer pointer_target string
  | Obj_Module string bool "(string \<times> value) list"
  | Obj_Iterator iterator
  | Obj_Handle nat
  | Obj_Socket nat
  | Obj_Request string string
  | Obj_StringMap "(string \<times> string option) list"
  | Obj_Map "(string \<times> value \<times> value) list"
  | Obj_Sized nat
  | Obj_Open bool
  | Obj_Message "64 word"
  | Obj_Actor actor_obj
  | Obj_Methods "(string \<times> value) list"
  | Obj_Handlers "(string \<times> value) list"

type_synonym heap = "nat \<Rightarrow> hobj option"

definition null :: nat where
  "null = 0"

definition is_kind :: "kind \<Rightarrow> value \<Rightarrow> bool" where
  "is_kind k v = (case v of VRef k' a \<Rightarrow> k' = k | _ \<Rightarrow> False)"

definition is_string :: "value \<Rightarrow> bool" where
  "is_string v = (case v of VString s \<Rightarrow> True | _ \<Rightarrow> False)"

definition vint :: "int \<Rightarrow> value" where
  "vint i = VInt (word_of_int i)"

definition vstr :: "string \<Rightarrow> value" where
  "vstr s = VString (Some s)"

section \<open>Names and printing\<close>

definition kind_type_name :: "kind \<Rightarrow> string" where
  "kind_type_name k = (case k of
      K_Function \<Rightarrow> ''function''
    | K_Closure \<Rightarrow> ''closure''
    | K_Native \<Rightarrow> ''native_function''
    | K_Module \<Rightarrow> ''module''
    | K_Thread \<Rightarrow> ''thread''
    | K_Mutex \<Rightarrow> ''mutex''
    | K_Task \<Rightarrow> ''task''
    | K_Channel \<Rightarrow> ''channel''
    | K_Context \<Rightarrow> ''context''
    | K_Listener \<Rightarrow> ''listener''
    | K_Connection \<Rightarrow> ''connection''
    | K_HttpRequest \<Rightarrow> ''http_request''
    | K_StringMap \<Rightarrow> ''string_store''
    | K_Map \<Rightarrow> ''map''
    | K_MySqlConnection \<Rightarrow> ''mysql_connection''
    | K_MySqlPool \<Rightarrow> ''mysql_pool''
    | K_MySqlStatement \<Rightarrow> ''mysql_statement''
    | K_MySqlResult \<Rightarrow> ''mysql_result''
    | K_MySqlRow \<Rightarrow> ''mysql_row''
    | K_RabbitMqConnection \<Rightarrow> ''rabbitmq_connection''
    | K_RabbitMqMessage \<Rightarrow> ''rabbitmq_message''
    | _ \<Rightarrow> ''unknown'')"

fun get_type_name :: "value \<Rightarrow> string" where
  "get_type_name VNull = ''void''"
| "get_type_name (VBool _) = ''bool''"
| "get_type_name (VInt _) = ''int64''"
| "get_type_name (VDouble _) = ''float64''"
| "get_type_name (VString _) = ''string''"
| "get_type_name (VRef k _) = kind_type_name k"

text \<open>The stream output of a raw pointer; the heap address stands for the machine address.\<close>

definition hex_digit :: "nat \<Rightarrow> char" where
  "hex_digit d = (if d < 10 then digit_char d else char_of (87 + d))"

fun show_hex :: "nat \<Rightarrow> string" where
  "show_hex n = (if n < 16 then [hex_digit n] else show_hex (n div 16) @ [hex_digit (n mod 16)])"

declare show_hex.simps [simp del]

definition show_address :: "nat \<Rightarrow> string" where
  "show_address a = (if a = null then ''0'' else ''0x'' @ show_hex a)"

definition angle :: "string \<Rightarrow> string \<Rightarrow> string" where
  "angle tag body = ''<'' @ tag @ '' '' @ body @ ''>''"

definition function_name :: "heap \<Rightarrow> nat \<Rightarrow> string" where
  "function_name h a = (case h a of Some (Obj_Function f) \<Rightarrow> fn_name f | _ \<Rightarrow> ''anonymous'')"

fun join_strings :: "string \<Rightarrow> string list \<Rightarrow> string" where
  "join_strings sep [] = []"
| "join_strings sep [s] = s"
| "join_strings sep (s # t # ss) = s @ sep @ join_strings sep (t # ss)"

text \<open>
  \<open>show_handle\<close> covers the alternatives that \<open>PrintValue\<close> brackets with their type name; a null
  pointer prints \<open>null\<close>, a null database or queue connection \<open>closed\<close>.
\<close>

fun show_handle :: "heap \<Rightarrow> kind \<Rightarrow> nat \<Rightarrow> string" where
  "show_handle h k a = angle (kind_type_name k)
     (case h a of
        Some (Obj_Handle i) \<Rightarrow> show_nat i
      | Some (Obj_Socket p) \<Rightarrow> show_nat p
      | Some (Obj_Request m p) \<Rightarrow> m @ '' '' @ p
      | Some (Obj_StringMap m) \<Rightarrow> show_nat (length m)
      | Some (Obj_Map m) \<Rightarrow> show_nat (length m)
      | Some (Obj_Sized n) \<Rightarrow> show_nat n
      | Some (Obj_Message t) \<Rightarrow> show_int (sint t)
      | Some (Obj_Open b) \<Rightarrow>
          (if k = K_MySqlStatement then (if b then ''ready'' else ''closed'')
           else (if b then ''open'' else ''closed''))
      | _ \<Rightarrow> (if k \<in> {K_MySqlConnection, K_MySqlStatement, K_RabbitMqConnection} then ''closed''
              else ''null''))"

definition print_ref :: "(value \<Rightarrow> string outcome) \<Rightarrow> heap \<Rightarrow> kind \<Rightarrow> nat \<Rightarrow> string outcome" where
  "print_ref pr h k a = (case k of
      K_Function \<Rightarrow> Ok (angle ''fn'' (function_name h a))
    | K_Closure \<Rightarrow> Ok (angle ''closure''
         (case h a of Some (Obj_Closure f _) \<Rightarrow> function_name h f | _ \<Rightarrow> ''anonymous''))
    | K_Native \<Rightarrow> Ok (angle ''native''
         (case h a of Some (Obj_Native n) \<Rightarrow> native_name n | _ \<Rightarrow> ''anonymous''))
    | K_Array \<Rightarrow> (case h a of
            Some (Obj_Array es) \<Rightarrow> bind_outcome (sequence_outcomes (map pr es))
              (\<lambda>ss. Ok (''['' @ join_strings '', '' ss @ '']''))
          | _ \<Rightarrow> Raise (Undefined ''null array''))
    | K_Instance \<Rightarrow> Ok ''{struct}''
    | K_Enum \<Rightarrow> (case h a of Some (Obj_Enum t _) \<Rightarrow> Ok (''variant('' @ show_int t @ '')'')
          | _ \<Rightarrow> Raise (Undefined ''null enum''))
    | K_Pointer \<Rightarrow> Ok (case h a of Some (Obj_Pointer _ name) \<Rightarrow> name | _ \<Rightarrow> ''nullptr'')
    | K_Module \<Rightarrow> Ok (angle ''module''
         (case h a of Some (Obj_Module name _ _) \<Rightarrow> name | _ \<Rightarrow> ''anonymous''))
    | K_Iterator \<Rightarrow> Ok (show_address a)
    | K_Actor \<Rightarrow> Ok (show_address a)
    | K_ActorMethods \<Rightarrow> Ok (show_address a)
    | K_Handlers \<Rightarrow> Ok (show_address a)
    | _ \<Rightarrow> Ok (show_handle h k a))"

text \<open>\<open>PrintValue\<close> recurses through arrays; the fuel bounds their nesting.\<close>

fun print_value :: "nat \<Rightarrow> heap \<Rightarrow> value \<Rightarrow> string outcome" where
  "print_value n h VNull = Ok ''null''"
| "print_value n h (VBool b) = Ok (if b then ''true'' else ''false'')"
| "print_value n h (VInt i) = Ok (show_int (sint i))"
| "print_value n h (VDouble d) = Ok (show_double d)"
| "print_value n h (VString s) = Ok (case s of None \<Rightarrow> ''null'' | Some t \<Rightarrow> t)"
| "print_value 0 h (VRef k a) =
     (if k = K_Array then Raise OutOfFuel else print_ref (\<lambda>_. Raise OutOfFuel) h k a)"
| "print_value (Suc n) h (VRef k a) = print_ref (print_value n h) h k a"

definition print_fuel :: nat where
  "print_fuel = 64"

definition to_string :: "heap \<Rightarrow> value \<Rightarrow> string outcome" where
  "to_string h v = print_value print_fuel h v"

section \<open>Conversions\<close>

text \<open>\<open>PrimitiveValue\<close>: the alternatives that \<open>static_cast<double>\<close> accepts.\<close>

fun primitive_double :: "value \<Rightarrow> double option" where
  "primitive_double (VBool b) = Some (double_of_bool b)"
| "primitive_double (VInt i) = Some (double_of_int (sint i))"
| "primitive_double (VDouble d) = Some d"
| "primitive_double _ = None"

definition bad_variant_access :: exn where
  "bad_variant_access = CppExc ''bad variant access''"

fun as_bool :: "value \<Rightarrow> bool outcome" where
  "as_bool (VBool b) = Ok b"
| "as_bool (VInt i) = Ok (i \<noteq> 0)"
| "as_bool (VDouble d) = Ok (double_nonzero d)"
| "as_bool _ = Raise bad_variant_access"

definition cast_int64 :: "double \<Rightarrow> int outcome" where
  "cast_int64 d = (case truncate_double d of Some i \<Rightarrow> Ok i
     | None \<Rightarrow> Raise (Undefined ''double out of the range of int64_t''))"

fun as_int64 :: "value \<Rightarrow> int outcome" where
  "as_int64 (VBool b) = Ok (if b then 1 else 0)"
| "as_int64 (VInt i) = Ok (sint i)"
| "as_int64 (VDouble d) = cast_int64 d"
| "as_int64 _ = Raise bad_variant_access"

fun as_double :: "value \<Rightarrow> double outcome" where
  "as_double v = (case primitive_double v of Some d \<Rightarrow> Ok d | None \<Rightarrow> Raise bad_variant_access)"

section \<open>Arithmetic\<close>

definition binary_arithmetic ::
    "(double \<Rightarrow> double \<Rightarrow> double outcome) \<Rightarrow> value \<Rightarrow> value \<Rightarrow> value outcome" where
  "binary_arithmetic op l r =
     (case (primitive_double l, primitive_double r) of
        (Some a, Some b) \<Rightarrow> bind_outcome (op a b) (\<lambda>d. Ok (VDouble d))
      | _ \<Rightarrow> Raise (CppExc (''Arithmetic type mismatch: '' @ get_type_name l @ '' and ''
               @ get_type_name r)))"

definition unary_arithmetic :: "(double \<Rightarrow> double) \<Rightarrow> value \<Rightarrow> value outcome" where
  "unary_arithmetic op v =
     (case primitive_double v of
        Some a \<Rightarrow> Ok (VDouble (op a))
      | None \<Rightarrow> Raise (CppExc (''Unary arithmetic not supported for type: '' @ get_type_name v)))"

definition value_add :: "heap \<Rightarrow> value \<Rightarrow> value \<Rightarrow> value outcome" where
  "value_add h l r =
     (if is_string l \<or> is_string r
      then bind_outcome (to_string h l) (\<lambda>s. bind_outcome (to_string h r) (\<lambda>t. Ok (vstr (s @ t))))
      else binary_arithmetic (\<lambda>a b. Ok (fadd a b)) l r)"

definition value_subtract :: "value \<Rightarrow> value \<Rightarrow> value outcome" where
  "value_subtract = binary_arithmetic (\<lambda>a b. Ok (fsub a b))"

definition value_multiply :: "value \<Rightarrow> value \<Rightarrow> value outcome" where
  "value_multiply = binary_arithmetic (\<lambda>a b. Ok (fmul a b))"

definition value_divide :: "value \<Rightarrow> value \<Rightarrow> value outcome" where
  "value_divide = binary_arithmetic (\<lambda>a b.
     if feq b (fzero False) then Raise (CppExc ''Division by zero'') else Ok (fdiv a b))"

definition int64_min :: int where
  "int64_min = - (2 ^ 63)"

text \<open>
  \<open>static_cast<int64_t>\<close> of both operands, then \<open>/\<close> or \<open>%\<close>; the quotient of the smallest
  integer by -1 does not fit and is undefined for both.
\<close>

definition integer_operation ::
    "string \<Rightarrow> string \<Rightarrow> (int \<Rightarrow> int \<Rightarrow> int) \<Rightarrow> value \<Rightarrow> value \<Rightarrow> value outcome" where
  "integer_operation zero_message type_message op l r =
     (if primitive_double l = None \<or> primitive_double r = None
      then Raise (CppExc type_message)
      else bind_outcome (as_int64 r) (\<lambda>b.
             if b = 0 then Raise (CppExc zero_message)
             else bind_outcome (as_int64 l) (\<lambda>a.
               if a = int64_min \<and> b = - 1 then Raise (Undefined ''signed division overflow'')
               else Ok (vint (op a b)))))"

definition value_divide_int :: "value \<Rightarrow> value \<Rightarrow> value outcome" where
  "value_divide_int = integer_operation ''Division by zero''
     ''Integer division requires numeric types'' (\<lambda>a b. a sdiv b)"

definition value_modulo :: "value \<Rightarrow> value \<Rightarrow> value outcome" where
  "value_modulo = integer_operation ''Modulo by zero'' ''Modulo requires numeric types''
     (\<lambda>a b. a smod b)"

definition value_negate :: "value \<Rightarrow> value outcome" where
  "value_negate = unary_arithmetic fneg"

section \<open>Logic and comparison\<close>

definition unary_logic :: "value \<Rightarrow> value outcome" where
  "unary_logic v = bind_outcome (as_bool v) (\<lambda>b. Ok (VBool (\<not> b)))"

definition binary_logic :: "(bool \<Rightarrow> bool \<Rightarrow> bool) \<Rightarrow> value \<Rightarrow> value \<Rightarrow> value outcome" where
  "binary_logic op l r =
     bind_outcome (as_bool l) (\<lambda>a. bind_outcome (as_bool r) (\<lambda>b. Ok (VBool (op a b))))"

definition handle_id :: "heap \<Rightarrow> nat \<Rightarrow> nat option" where
  "handle_id h a = (case h a of Some (Obj_Handle i) \<Rightarrow> Some i | _ \<Rightarrow> None)"

definition same_handle :: "heap \<Rightarrow> nat \<Rightarrow> nat \<Rightarrow> bool" where
  "same_handle h a b = (a = b \<or> (handle_id h a \<noteq> None \<and> handle_id h a = handle_id h b))"

fun value_equal :: "heap \<Rightarrow> value \<Rightarrow> value \<Rightarrow> bool" where
  "value_equal h VNull VNull = True"
| "value_equal h (VBool a) (VBool b) = (a = b)"
| "value_equal h (VInt a) (VInt b) = (a = b)"
| "value_equal h (VDouble a) (VDouble b) = feq a b"
| "value_equal h (VString a) (VString b) = (a = b)"
| "value_equal h (VRef k a) (VRef l b) =
     (k = l \<and> (if k = K_Thread \<or> k = K_Mutex then same_handle h a b else a = b))"
| "value_equal h v w =
     (case (primitive_double v, primitive_double w) of
        (Some a, Some b) \<Rightarrow> feq a b
      | _ \<Rightarrow> False)"

definition binary_comparison :: "(double \<Rightarrow> double \<Rightarrow> bool) \<Rightarrow> value \<Rightarrow> value \<Rightarrow> bool" where
  "binary_comparison op l r =
     (case (primitive_double l, primitive_double r) of
        (Some a, Some b) \<Rightarrow> op a b
      | _ \<Rightarrow> False)"

definition value_greater :: "value \<Rightarrow> value \<Rightarrow> bool" where
  "value_greater = binary_comparison (\<lambda>a b. flt b a)"

definition value_less :: "value \<Rightarrow> value \<Rightarrow> bool" where
  "value_less = binary_comparison flt"

text \<open>Keys of the language's maps, \<open>EncodeMapKey\<close>.\<close>

fun encode_map_key :: "value \<Rightarrow> string option" where
  "encode_map_key (VString s) = Some (''s:'' @ (case s of None \<Rightarrow> '''' | Some t \<Rightarrow> t))"
| "encode_map_key (VInt i) = Some (''i:'' @ show_int (sint i))"
| "encode_map_key (VBool b) = Some (if b then ''b:true'' else ''b:false'')"
| "encode_map_key _ = None"
end
