(* ===== verification/Chunk.thy ===== *)
theory Chunk
  imports Values
begin

text \<open>
  Opcodes and bytecode chunks (src/src/vm/core/OpCode.h, src/src/vm/execution/chunk/Chunk.cpp): the
  byte of every opcode, the size of its operand, the writers of the code vector and the constant
  pool, and the fetch of one instruction as the machine's loop reads it.
\<close>

section \<open>Opcodes\<close>

text \<open>
  \<open>OpCode\<close> is an enumeration with the fixed underlying type \<open>uint8_t\<close>: every byte is a value
  of it, the named ones are these.
\<close>

type_synonym opcode = nat

abbreviation (input) OP_CONSTANT :: opcode where "OP_CONSTANT \<equiv> 1"
abbreviation (input) OP_NEGATE :: opcode where "OP_NEGATE \<equiv> 2"
abbreviation (input) OP_ADD :: opcode where "OP_ADD \<equiv> 3"
abbreviation (input) OP_SUBTRACT :: opcode where "OP_SUBTRACT \<equiv> 4"
abbreviation (input) OP_MULTIPLY :: opcode where "OP_MULTIPLY \<equiv> 5"
abbreviation (input) OP_DIVIDE :: opcode where "OP_DIVIDE \<equiv> 6"
abbreviation (input) OP_EQUAL :: opcode where "OP_EQUAL \<equiv> 7"
abbreviation (input) OP_GREATER :: opcode where "OP_GREATER \<equiv> 8"
abbreviation (input) OP_LESS :: opcode where "OP_LESS \<equiv> 9"
abbreviation (input) OP_NOT :: opcode where "OP_NOT \<equiv> 10"
abbreviation (input) OP_GREATER_EQUAL :: opcode where "OP_GREATER_EQUAL \<equiv> 11"
abbreviation (input) OP_LESS_EQUAL :: opcode where "OP_LESS_EQUAL \<equiv> 12"
abbreviation (input) OP_NOT_EQUAL :: opcode where "OP_NOT_EQUAL \<equiv> 13"
abbreviation (input) OP_JUMP :: opcode where "OP_JUMP \<equiv> 16"
abbreviation (input) OP_JUMP_IF_FALSE :: opcode where "OP_JUMP_IF_FALSE \<equiv> 17"
abbreviation (input) OP_JUMP_IF_TRUE :: opcode where "OP_JUMP_IF_TRUE \<equiv> 18"
abbreviation (input) OP_LOOP :: opcode where "OP_LOOP \<equiv> 19"
abbreviation (input) OP_POP :: opcode where "OP_POP \<equiv> 20"
abbreviation (input) OP_DEFINE_GLOBAL :: opcode where "OP_DEFINE_GLOBAL \<equiv> 32"
abbreviation (input) OP_GET_GLOBAL :: opcode where "OP_GET_GLOBAL \<equiv> 33"
abbreviation (input) OP_SET_GLOBAL :: opcode where "OP_SET_GLOBAL \<equiv> 34"
abbreviation (input) OP_GET_LOCAL :: opcode where "OP_GET_LOCAL \<equiv> 35"
abbreviation (input) OP_SET_LOCAL :: opcode where "OP_SET_LOCAL \<equiv> 36"
abbreviation (input) OP_GET_UPVALUE :: opcode where "OP_GET_UPVALUE \<equiv> 37"
abbreviation (input) OP_SET_UPVALUE :: opcode where "OP_SET_UPVALUE \<equiv> 38"
abbreviation (input) OP_CALL :: opcode where "OP_CALL \<equiv> 48"
abbreviation (input) OP_CLOSURE :: opcode where "OP_CLOSURE \<equiv> 49"
abbreviation (input) OP_GET_MODULE_MEMBER :: opcode where "OP_GET_MODULE_MEMBER \<equiv> 50"
abbreviation (input) OP_MOD :: opcode where "OP_MOD \<equiv> 64"
abbreviation (input) OP_DIV :: opcode where "OP_DIV \<equiv> 65"
abbreviation (input) OP_AND :: opcode where "OP_AND \<equiv> 66"
abbreviation (input) OP_OR :: opcode where "OP_OR \<equiv> 67"
abbreviation (input) OP_BUILD_ARRAY :: opcode where "OP_BUILD_ARRAY \<equiv> 80"
abbreviation (input) OP_INDEX_GET :: opcode where "OP_INDEX_GET \<equiv> 81"
abbreviation (input) OP_INDEX_SET :: opcode where "OP_INDEX_SET \<equiv> 82"
abbreviation (input) OP_BUILD_MAP :: opcode where "OP_BUILD_MAP \<equiv> 92"
abbreviation (input) OP_BUILD_STRUCT :: opcode where "OP_BUILD_STRUCT \<equiv> 83"
abbreviation (input) OP_MEMBER_GET :: opcode where "OP_MEMBER_GET \<equiv> 84"
abbreviation (input) OP_MEMBER_SET :: opcode where "OP_MEMBER_SET \<equiv> 85"
abbreviation (input) OP_BUILD_ENUM :: opcode where "OP_BUILD_ENUM \<equiv> 86"
abbreviation (input) OP_GET_ENUM_TAG :: opcode where "OP_GET_ENUM_TAG \<equiv> 87"
abbreviation (input) OP_GET_ENUM_ARG :: opcode where "OP_GET_ENUM_ARG \<equiv> 88"
abbreviation (input) OP_BUILD_ACTOR :: opcode where "OP_BUILD_ACTOR \<equiv> 89"
abbreviation (input) OP_ACTOR_SEND :: opcode where "OP_ACTOR_SEND \<equiv> 90"
abbreviation (input) OP_ACTOR_QUERY :: opcode where "OP_ACTOR_QUERY \<equiv> 91"
abbreviation (input) OP_ADDR_LOCAL :: opcode where "OP_ADDR_LOCAL \<equiv> 96"
abbreviation (input) OP_ADDR_GLOBAL :: opcode where "OP_ADDR_GLOBAL \<equiv> 97"
abbreviation (input) OP_ADDR_MEMBER :: opcode where "OP_ADDR_MEMBER \<equiv> 98"
abbreviation (input) OP_ADDR_UPVALUE :: opcode where "OP_ADDR_UPVALUE \<equiv> 101"
abbreviation (input) OP_DEREF_GET :: opcode where "OP_DEREF_GET \<equiv> 99"
abbreviation (input) OP_DEREF_SET :: opcode where "OP_DEREF_SET \<equiv> 100"
abbreviation (input) OP_MAKE_ITER :: opcode where "OP_MAKE_ITER \<equiv> 112"
abbreviation (input) OP_ITER_NEXT :: opcode where "OP_ITER_NEXT \<equiv> 113"
abbreviation (input) OP_ITER_DROP :: opcode where "OP_ITER_DROP \<equiv> 114"
abbreviation (input) OP_ITER_TAKE :: opcode where "OP_ITER_TAKE \<equiv> 115"
abbreviation (input) OP_ITER_REVERSE :: opcode where "OP_ITER_REVERSE \<equiv> 116"
abbreviation (input) OP_ITER_FILTER :: opcode where "OP_ITER_FILTER \<equiv> 117"
abbreviation (input) OP_ITER_TRANSFORM :: opcode where "OP_ITER_TRANSFORM \<equiv> 118"
abbreviation (input) OP_PRINT :: opcode where "OP_PRINT \<equiv> 128"
abbreviation (input) OP_BUILD_HANDLER :: opcode where "OP_BUILD_HANDLER \<equiv> 129"
abbreviation (input) OP_PUSH_HANDLER :: opcode where "OP_PUSH_HANDLER \<equiv> 130"
abbreviation (input) OP_POP_HANDLER :: opcode where "OP_POP_HANDLER \<equiv> 131"
abbreviation (input) OP_EFFECT_INVOKE :: opcode where "OP_EFFECT_INVOKE \<equiv> 132"
abbreviation (input) OP_BEGIN_TXN :: opcode where "OP_BEGIN_TXN \<equiv> 133"
abbreviation (input) OP_END_TXN :: opcode where "OP_END_TXN \<equiv> 134"
abbreviation (input) OP_BUILD_ACTOR_METHODS :: opcode where "OP_BUILD_ACTOR_METHODS \<equiv> 135"
abbreviation (input) OP_DUP :: opcode where "OP_DUP \<equiv> 136"
abbreviation (input) OP_SWAP :: opcode where "OP_SWAP \<equiv> 137"
abbreviation (input) OP_ASSERT :: opcode where "OP_ASSERT \<equiv> 138"
abbreviation (input) OP_RETURN :: opcode where "OP_RETURN \<equiv> 255"

definition all_opcodes :: "opcode list" where
  "all_opcodes =
    [OP_CONSTANT, OP_NEGATE, OP_ADD, OP_SUBTRACT, OP_MULTIPLY, OP_DIVIDE, OP_EQUAL, OP_GREATER,
     OP_LESS, OP_NOT, OP_GREATER_EQUAL, OP_LESS_EQUAL, OP_NOT_EQUAL, OP_JUMP, OP_JUMP_IF_FALSE,
     OP_JUMP_IF_TRUE, OP_LOOP, OP_POP, OP_DEFINE_GLOBAL, OP_GET_GLOBAL, OP_SET_GLOBAL,
     OP_GET_LOCAL, OP_SET_LOCAL, OP_GET_UPVALUE, OP_SET_UPVALUE, OP_CALL, OP_CLOSURE,
     OP_GET_MODULE_MEMBER, OP_MOD, OP_DIV, OP_AND, OP_OR, OP_BUILD_ARRAY, OP_INDEX_GET,
     OP_INDEX_SET, OP_BUILD_MAP, OP_BUILD_STRUCT, OP_MEMBER_GET, OP_MEMBER_SET, OP_BUILD_ENUM,
     OP_GET_ENUM_TAG, OP_GET_ENUM_ARG, OP_BUILD_ACTOR, OP_ACTOR_SEND, OP_ACTOR_QUERY,
     OP_ADDR_LOCAL, OP_ADDR_GLOBAL, OP_ADDR_MEMBER, OP_ADDR_UPVALUE, OP_DEREF_GET, OP_DEREF_SET,
     OP_MAKE_ITER, OP_ITER_NEXT, OP_ITER_DROP, OP_ITER_TAKE, OP_ITER_REVERSE, OP_ITER_FILTER,
     OP_ITER_TRANSFORM, OP_PRINT, OP_BUILD_HANDLER, OP_PUSH_HANDLER, OP_POP_HANDLER,
     OP_EFFECT_INVOKE, OP_BEGIN_TXN, OP_END_TXN, OP_BUILD_ACTOR_METHODS, OP_DUP, OP_SWAP,
     OP_ASSERT, OP_RETURN]"

datatype operand_size = Operand_None | Operand_Uint8 | Operand_Uint16

definition uint16_opcodes :: "opcode list" where
  "uint16_opcodes =
    [OP_JUMP, OP_JUMP_IF_FALSE, OP_JUMP_IF_TRUE, OP_LOOP, OP_CONSTANT, OP_DEFINE_GLOBAL,
     OP_GET_GLOBAL, OP_SET_GLOBAL, OP_CLOSURE, OP_GET_MODULE_MEMBER, OP_ADDR_GLOBAL,
     OP_BUILD_ACTOR, OP_ACTOR_SEND, OP_ACTOR_QUERY, OP_EFFECT_INVOKE, OP_ASSERT]"

definition uint8_opcodes :: "opcode list" where
  "uint8_opcodes =
    [OP_GET_LOCAL, OP_SET_LOCAL, OP_GET_UPVALUE, OP_SET_UPVALUE, OP_CALL, OP_BUILD_ARRAY,
     OP_BUILD_MAP, OP_BUILD_STRUCT, OP_MEMBER_GET, OP_MEMBER_SET, OP_BUILD_ENUM,
     OP_GET_ENUM_ARG, OP_ADDR_LOCAL, OP_ADDR_UPVALUE, OP_ITER_NEXT, OP_BUILD_HANDLER,
     OP_BUILD_ACTOR_METHODS]"

definition get_operand_size :: "opcode \<Rightarrow> operand_size" where
  "get_operand_size op =
     (if op \<in> set uint16_opcodes then Operand_Uint16
      else if op \<in> set uint8_opcodes then Operand_Uint8
      else Operand_None)"

definition opcode_has_operand :: "opcode \<Rightarrow> bool" where
  "opcode_has_operand op = (op \<in> set uint16_opcodes \<or> op \<in> set uint8_opcodes)"

section \<open>Writing code\<close>

definition low_byte :: "nat \<Rightarrow> 8 word" where
  "low_byte n = word_of_nat (n mod 256)"

definition high_byte :: "nat \<Rightarrow> 8 word" where
  "high_byte n = word_of_nat (n div 256 mod 256)"

definition write_opcode :: "opcode \<Rightarrow> chunk \<Rightarrow> chunk" where
  "write_opcode op c = c\<lparr>chunk_code := chunk_code c @ [word_of_nat op]\<rparr>"

text \<open>The operand is a \<open>uint16_t\<close>.\<close>

definition write_operand :: "opcode \<Rightarrow> nat \<Rightarrow> chunk \<Rightarrow> chunk" where
  "write_operand op n c = c\<lparr>chunk_code := chunk_code c @
     (case get_operand_size op of
        Operand_Uint8 \<Rightarrow> [low_byte n]
      | Operand_Uint16 \<Rightarrow> [high_byte n, low_byte n]
      | Operand_None \<Rightarrow> [])\<rparr>"

definition write_jump :: "opcode \<Rightarrow> nat \<Rightarrow> chunk \<Rightarrow> chunk" where
  "write_jump op n c = c\<lparr>chunk_code := chunk_code c @
     [word_of_nat op, high_byte n, low_byte n]\<rparr>"

section \<open>Constants\<close>

fun constant_equals :: "value \<Rightarrow> value \<Rightarrow> bool" where
  "constant_equals VNull VNull = True"
| "constant_equals (VBool a) (VBool b) = (a = b)"
| "constant_equals (VInt a) (VInt b) = (a = b)"
| "constant_equals (VDouble a) (VDouble b) = feq a b"
| "constant_equals (VString a) (VString b) = (a = b)"
| "constant_equals _ _ = False"

fun find_constant :: "value \<Rightarrow> value list \<Rightarrow> nat option" where
  "find_constant v [] = None"
| "find_constant v (w # ws) =
     (if constant_equals w v then Some 0 else map_option Suc (find_constant v ws))"

text \<open>The overflow check comes after the constant was appended.\<close>

definition add_constant :: "value \<Rightarrow> (chunk, nat) proc" where
  "add_constant v = (\<lambda>c.
     case find_constant v (chunk_constants c) of
       Some i \<Rightarrow> (Ok (i mod 65536), c)
     | None \<Rightarrow>
         (let c' = c\<lparr>chunk_constants := chunk_constants c @ [v]\<rparr> in
          if 65536 < length (chunk_constants c')
          then (Raise (CppExc ''Too many constants in chunk''), c')
          else (Ok (length (chunk_constants c)), c')))"

definition write_constant :: "value \<Rightarrow> (chunk, unit) proc" where
  "write_constant v = bindE (add_constant v) (\<lambda>i.
     modify (write_operand OP_CONSTANT i \<circ> write_opcode OP_CONSTANT))"

definition empty_chunk :: chunk where
  "empty_chunk = \<lparr>chunk_code = [], chunk_constants = []\<rparr>"

section \<open>Reading one instruction\<close>

text \<open>
  The head of the loop of \<open>VirtualMachine::Run\<close>: the opcode byte, then the operand. \<open>None\<close> is the
  truncated stream; the position is after the opcode then, as in the code.
\<close>

definition code_byte :: "8 word list \<Rightarrow> nat \<Rightarrow> nat" where
  "code_byte code i = unat (code ! i)"

definition fetch :: "8 word list \<Rightarrow> nat \<Rightarrow> nat \<times> nat option \<times> nat" where
  "fetch code i =
     (let b = code_byte code i; j = Suc i in
      case get_operand_size b of
        Operand_None \<Rightarrow> (b, Some 0, j)
      | Operand_Uint8 \<Rightarrow>
          (if length code < j + 1 then (b, None, j) else (b, Some (code_byte code j), j + 1))
      | Operand_Uint16 \<Rightarrow>
          (if length code < j + 2 then (b, None, j)
           else (b, Some (code_byte code j * 256 + code_byte code (j + 1)), j + 2)))"

section \<open>Lemmas\<close>

lemma opcodes_distinct: "distinct all_opcodes"
  by (simp add: all_opcodes_def)

lemma opcodes_are_bytes: "\<forall>op \<in> set all_opcodes. op < 256"
  by (simp add: all_opcodes_def)

lemma unat_opcode [simp]: "op < 256 \<Longrightarrow> unat (word_of_nat op :: 8 word) = op"
  by (simp add: unat_of_nat)

lemma unat_low_byte [simp]: "unat (low_byte n) = n mod 256"
  by (simp add: low_byte_def unat_of_nat)

lemma unat_high_byte [simp]: "unat (high_byte n) = n div 256 mod 256"
  by (simp add: high_byte_def unat_of_nat)

section \<open>What was written is what is fetched\<close>

definition operand_width :: "opcode \<Rightarrow> nat" where
  "operand_width op = (case get_operand_size op of
     Operand_None \<Rightarrow> 0 | Operand_Uint8 \<Rightarrow> 1 | Operand_Uint16 \<Rightarrow> 2)"

definition stored_operand :: "opcode \<Rightarrow> nat \<Rightarrow> nat" where
  "stored_operand op n = (case get_operand_size op of
     Operand_None \<Rightarrow> 0 | Operand_Uint8 \<Rightarrow> n mod 256 | Operand_Uint16 \<Rightarrow> n mod 65536)"

definition write_instruction :: "opcode \<Rightarrow> nat \<Rightarrow> chunk \<Rightarrow> chunk" where
  "write_instruction op n c = write_operand op n (write_opcode op c)"

lemma two_bytes: "n div 256 mod 256 * 256 + n mod 256 = n mod (65536 :: nat)"
  by (metis add.commute mod_mult2_eq mult.commute numeral_times_numeral semiring_norm(12) semiring_norm(13))

lemma write_instruction_length:
  "length (chunk_code (write_instruction op n c)) = length (chunk_code c) + 1 + operand_width op"
  by (simp add: write_instruction_def write_operand_def write_opcode_def operand_width_def
      split: operand_size.split)

text \<open>C16: every instruction that \<open>Write\<close> and \<open>WriteOperand\<close> append is fetched back by the loop
  of the machine, wherever it stands: the opcode, the operand truncated to its width, and the
  position right after it.\<close>
theorem fetch_written_instruction:
  assumes "op < 256"
  shows "fetch (chunk_code (write_instruction op n c) @ rest) (length (chunk_code c)) =
    (op, Some (stored_operand op n), length (chunk_code c) + 1 + operand_width op)"
  using assms two_bytes [of n]
  by (simp add: fetch_def code_byte_def write_instruction_def write_operand_def write_opcode_def
      stored_operand_def operand_width_def nth_append Let_def split: operand_size.split)

theorem fetch_written_instruction_witness:
  "fetch (chunk_code (write_instruction OP_CONSTANT 770 empty_chunk) @ [5])
     (length (chunk_code empty_chunk)) = (OP_CONSTANT, Some (stored_operand OP_CONSTANT 770), 3)"
  using fetch_written_instruction [of OP_CONSTANT 770 empty_chunk "[5]"]
  by (simp add: operand_width_def get_operand_size_def uint16_opcodes_def empty_chunk_def)

lemma find_constant_Some:
  "find_constant v ws = Some i \<Longrightarrow> i < length ws \<and> constant_equals (ws ! i) v"
  by (induction ws arbitrary: i) (auto split: if_splits)

text \<open>\<open>AddConstant\<close> returns an index of the pool that holds the constant or one equal to it, it
  never moves or removes a constant, and with at most 65536 constants it does not throw.\<close>
theorem add_constant_spec:
  assumes "length (chunk_constants c) < 65536"
  shows "\<exists>i c'. add_constant v c = (Ok i, c') \<and> i < length (chunk_constants c') \<and>
    (chunk_constants c' ! i = v \<or> constant_equals (chunk_constants c' ! i) v) \<and>
    take (length (chunk_constants c)) (chunk_constants c') = chunk_constants c \<and>
    chunk_code c' = chunk_code c"
proof (cases "find_constant v (chunk_constants c)")
  case None
  with assms show ?thesis by (simp add: add_constant_def Let_def)
next
  case (Some i)
  from find_constant_Some [OF Some] assms have "i < 65536" by simp
  with Some find_constant_Some [OF Some] show ?thesis by (simp add: add_constant_def)
qed

theorem add_constant_spec_witness:
  "\<exists>i c'. add_constant (VBool True) empty_chunk = (Ok i, c') \<and> i < length (chunk_constants c') \<and>
    (chunk_constants c' ! i = VBool True \<or> constant_equals (chunk_constants c' ! i) (VBool True)) \<and>
    take (length (chunk_constants empty_chunk)) (chunk_constants c') = chunk_constants empty_chunk \<and>
    chunk_code c' = chunk_code empty_chunk"
  by (rule add_constant_spec) (simp add: empty_chunk_def)

text \<open>Evaluation unfolds a procedure only once it is applied to a state.\<close>

declare
  add_constant_def [THEN fun_cong, code]
  write_constant_def [THEN fun_cong, code]

end
