(* ===== verification/Allocation.thy ===== *)
theory Allocation
  imports Prelude
begin

text \<open>
  The memory pool of \<open>SharedRuntime\<close> (src/src/vm/runtime/SharedRuntimeCore.cpp, \<open>Allocate\<close>,
  \<open>Release\<close>, \<open>GetAllocationStats\<close>): blocks by address and four counters. The address that
  \<open>make_unique<uint8_t[]>\<close> returns is an argument; the allocator promises that it is not the
  address of a live block.
\<close>

record alloc_stats =
  active_allocations :: nat
  active_bytes :: nat
  total_allocations :: nat
  total_bytes :: nat

record alloc_state =
  memory_pool :: "(nat \<times> nat) list"
  allocation_stats :: alloc_stats

definition init_allocs :: alloc_state where
  "init_allocs = \<lparr>memory_pool = [], allocation_stats =
     \<lparr>active_allocations = 0, active_bytes = 0, total_allocations = 0, total_bytes = 0\<rparr>\<rparr>"

definition size_add :: "nat \<Rightarrow> nat \<Rightarrow> nat" where
  "size_add a b = (a + b) mod size_modulus"

definition pool_allocate :: "nat \<Rightarrow> nat \<Rightarrow> alloc_state \<Rightarrow> alloc_state" where
  "pool_allocate p n s =
     (let st = allocation_stats s in
      \<lparr>memory_pool = emplace p n (memory_pool s),
       allocation_stats =
         \<lparr>active_allocations = size_add (active_allocations st) 1,
          active_bytes = size_add (active_bytes st) n,
          total_allocations = size_add (total_allocations st) 1,
          total_bytes = size_add (total_bytes st) n\<rparr>\<rparr>)"

definition pool_release :: "nat \<Rightarrow> alloc_state \<Rightarrow> bool \<times> alloc_state" where
  "pool_release p s =
     (case map_of (memory_pool s) p of
        None \<Rightarrow> (False, s)
      | Some n \<Rightarrow>
          (let st = allocation_stats s in
           (True, \<lparr>memory_pool = AList.delete p (memory_pool s),
             allocation_stats = st\<lparr>active_allocations := size_sub (active_allocations st) 1,
               active_bytes := size_sub (active_bytes st) n\<rparr>\<rparr>)))"

section \<open>The counters describe the pool\<close>

definition pool_bytes :: "alloc_state \<Rightarrow> nat" where
  "pool_bytes s = sum_list (map snd (memory_pool s))"

definition alloc_inv :: "alloc_state \<Rightarrow> bool" where
  "alloc_inv s \<longleftrightarrow> distinct (map fst (memory_pool s)) \<and>
     active_allocations (allocation_stats s) = length (memory_pool s) mod size_modulus \<and>
     active_bytes (allocation_stats s) = pool_bytes s mod size_modulus"

lemma delete_absent: "k \<notin> fst ` set m \<Longrightarrow> AList.delete k m = m"
  by (induction m) auto

lemma delete_present:
  fixes v :: nat
  assumes "distinct (map fst m)" "map_of m k = Some v"
  shows "length m = Suc (length (AList.delete k m))"
    and "sum_list (map snd m) = v + sum_list (map snd (AList.delete k m))"
    and "distinct (map fst (AList.delete k m))"
proof -
  show "length m = Suc (length (AList.delete k m))"
    using assms by (induction m) (auto simp: delete_absent split: if_splits)
  show "sum_list (map snd m) = v + sum_list (map snd (AList.delete k m))"
    using assms by (induction m) (auto simp: delete_absent add.left_commute split: if_splits)
  show "distinct (map fst (AList.delete k m))"
    using assms(1) by (rule distinct_delete)
qed

lemma size_sub_mod: "b \<le> a \<Longrightarrow> b < size_modulus \<Longrightarrow> size_sub (a mod size_modulus) b mod size_modulus
    = (a - b) mod size_modulus"
proof -
  assume le: "b \<le> a" "b < size_modulus"
  let ?m = size_modulus
  obtain q r where a: "a = q * ?m + r" "r < ?m"
    by (metis div_mult_mod_eq mod_less_divisor size_modulus_def zero_less_numeral zero_less_power)
  show ?thesis
  proof (cases "b \<le> r")
    case True
    then have eq: "a - b = q * ?m + (r - b)" using a by simp
    have lt: "r - b < ?m" using a by simp
    have "(a - b) mod ?m = r - b" unfolding eq using lt by (metis mod_less mod_mult_self3)
    moreover have "size_sub (a mod ?m) b = r - b" using a True by simp
    ultimately show ?thesis using lt by simp
  next
    case False
    then obtain p where "q = Suc p" using a le by (cases q) auto
    with False a le have "a - b = p * ?m + (?m + r - b)" by simp
    with False a show ?thesis by (simp add: size_sub_def)
  qed
qed

lemma size_sub_less: "a < size_modulus \<Longrightarrow> b < size_modulus \<Longrightarrow> size_sub a b < size_modulus"
  by (auto simp: size_sub_def)

lemma alloc_inv_init: "alloc_inv init_allocs"
  by (simp add: alloc_inv_def init_allocs_def pool_bytes_def)

lemma alloc_inv_allocate:
  assumes "alloc_inv s" "map_of (memory_pool s) p = None"
  shows "alloc_inv (pool_allocate p n s)"
  using assms
  by (auto simp: alloc_inv_def pool_allocate_def emplace_def pool_bytes_def size_add_def Let_def
      mod_simps map_of_eq_None_iff)

lemma alloc_inv_release:
  assumes inv: "alloc_inv s" and small: "\<forall>(q, k) \<in> set (memory_pool s). k < size_modulus"
  shows "alloc_inv (snd (pool_release p s))"
proof (cases "map_of (memory_pool s) p")
  case None
  with inv show ?thesis by (simp add: pool_release_def)
next
  case (Some n)
  have d: "distinct (map fst (memory_pool s))" using inv by (simp add: alloc_inv_def)
  note del = delete_present [OF d Some]
  have n: "n < size_modulus" using small Some by (auto dest: map_of_SomeD)
  have one: "1 < size_modulus" "0 < size_modulus" by (simp_all add: size_modulus_def)
  have "size_sub (active_allocations (allocation_stats s)) 1
      = length (AList.delete p (memory_pool s)) mod size_modulus"
    using inv size_sub_mod [of 1 "length (memory_pool s)"] one del(1)
      size_sub_less [of "length (memory_pool s) mod size_modulus" 1]
    by (simp add: alloc_inv_def)
  moreover have "size_sub (active_bytes (allocation_stats s)) n
      = sum_list (map snd (AList.delete p (memory_pool s))) mod size_modulus"
    using inv size_sub_mod [of n "pool_bytes s"] n one del(2)
      size_sub_less [of "pool_bytes s mod size_modulus" n]
    by (simp add: alloc_inv_def pool_bytes_def)
  ultimately show ?thesis
    using Some del(3) by (simp add: alloc_inv_def pool_release_def pool_bytes_def Let_def)
qed

section \<open>Reachable pools\<close>

inductive alloc_reachable :: "alloc_state \<Rightarrow> bool" where
  alloc_start: "alloc_reachable init_allocs"
| alloc_allocate: "alloc_reachable s \<Longrightarrow> map_of (memory_pool s) p = None \<Longrightarrow> n < size_modulus \<Longrightarrow>
    alloc_reachable (pool_allocate p n s)"
| alloc_release: "alloc_reachable s \<Longrightarrow> alloc_reachable (snd (pool_release p s))"

lemma alloc_reachable_sizes: "alloc_reachable s \<Longrightarrow> \<forall>(q, k) \<in> set (memory_pool s). k < size_modulus"
proof (induction rule: alloc_reachable.induct)
  case (alloc_release s p)
  then show ?case
    by (auto simp: pool_release_def Let_def AList.delete_eq split: option.splits)
qed (auto simp: init_allocs_def pool_allocate_def emplace_def Let_def)

lemma alloc_reachable_inv: "alloc_reachable s \<Longrightarrow> alloc_inv s"
proof (induction rule: alloc_reachable.induct)
  case (alloc_release s p)
  then show ?case by (intro alloc_inv_release alloc_reachable_sizes)
qed (simp_all add: alloc_inv_init alloc_inv_allocate)

text \<open>C17: the leak counter is exact: while fewer than 2^64 blocks are live, \<open>active_allocations\<close>
  is the number of live blocks, so it is 0 exactly when every allocated block was released, and
  releasing an address twice fails without touching the counters.\<close>
theorem leak_counter_exact:
  assumes "alloc_reachable s" "length (memory_pool s) < size_modulus"
  shows "active_allocations (allocation_stats s) = length (memory_pool s) \<and>
    (active_allocations (allocation_stats s) = 0 \<longleftrightarrow> memory_pool s = []) \<and>
    (let s' = snd (pool_release p s) in pool_release p s' = (False, s'))"
proof -
  note inv = alloc_reachable_inv [OF assms(1)]
  then have "active_allocations (allocation_stats s) = length (memory_pool s)"
    using assms(2) by (simp add: alloc_inv_def)
  moreover have "map_of (memory_pool (snd (pool_release p s))) p = None"
    by (auto simp: pool_release_def Let_def delete_conv' split: option.splits)
  ultimately show ?thesis by (simp add: pool_release_def [of p "snd (pool_release p s)"])
qed

definition two_blocks :: alloc_state where
  "two_blocks = pool_allocate 24 3 (pool_allocate 8 16 init_allocs)"

lemma two_blocks_reachable: "alloc_reachable two_blocks"
  unfolding two_blocks_def
  by (intro alloc_allocate alloc_start)
    (simp_all add: init_allocs_def pool_allocate_def Let_def emplace_def size_modulus_def)

theorem leak_counter_exact_witness:
  "active_allocations (allocation_stats two_blocks) = 2 \<and>
   pool_release 8 (snd (pool_release 8 two_blocks)) = (False, snd (pool_release 8 two_blocks))"
proof -
  have len: "length (memory_pool two_blocks) = 2"
    by (simp add: two_blocks_def pool_allocate_def init_allocs_def emplace_def Let_def)
  then have "length (memory_pool two_blocks) < size_modulus" by (simp add: size_modulus_def)
  from leak_counter_exact [OF two_blocks_reachable this, of 8] len show ?thesis
    by (simp only: Let_def simp_thms)
qed

end
