(* ===== verification/ExecContext.thy ===== *)
theory ExecContext
  imports Values Sync Allocation
begin

text \<open>
  The execution context of the virtual machine (src/src/vm/runtime/ExecutionContext.h,
  ExecutionContextCore.cpp, ExecutionContextFrames.cpp, ExecutionContextEffects.cpp,
  ExecutionContextSync.cpp): value stack, call frames, handler stack, globals, thread-locals, error
  message and the wrappers of the synchronisation runtime, over one state record that also holds
  the heap, the shared runtime and the text written to standard output.
\<close>

named_theorems ctx_simps "unfolding of the operations of the execution context"

section \<open>State\<close>

text \<open>The value stack is bottom first like the vector; frames, transactions and handlers are top
  first. The unordered maps of a transaction are association lists, because committing iterates
  over them; globals and thread-locals are only looked up.\<close>

record frame =
  frame_function :: nat
  frame_closure :: nat
  frame_ip :: nat
  frame_base :: nat
  frame_txn_base :: nat
  frame_handler_base :: nat

record txn =
  txn_mutexes :: "nat list"
  txn_acquired :: "nat list"
  prior_globals :: "(string \<times> value) list"
  pending_globals :: "(string \<times> value) list"
  prior_locals :: "(string \<times> value) list"
  pending_locals :: "(string \<times> value) list"
  prior_arrays :: "(nat \<times> value list) list"
  pending_arrays :: "(nat \<times> value list) list"
  prior_fields :: "(nat \<times> (nat \<times> value) list) list"
  pending_fields :: "(nat \<times> (nat \<times> value) list) list"

record vm_state =
  heap :: "nat \<Rightarrow> hobj option"
  next_address :: nat
  globals :: "string \<Rightarrow> value option"
  thread_locals :: "string \<Rightarrow> value option"
  sync :: sync_state
  allocs :: alloc_state
  current_thread :: nat
  stack :: "value list"
  frames :: "frame list"
  txns :: "txn list"
  handlers :: "nat list"
  error_message :: string
  stdout_text :: string
  active_actor :: nat
  next_actor_id :: nat

type_synonym 'a vm_proc = "(vm_state, 'a) proc"

definition STACK_MAX :: nat where
  "STACK_MAX = 4096"

definition FRAMES_MAX :: nat where
  "FRAMES_MAX = 64"

definition init_state :: vm_state where
  "init_state = \<lparr>heap = (\<lambda>_. None), next_address = 1, globals = (\<lambda>_. None),
     thread_locals = (\<lambda>_. None), sync = init_sync, allocs = init_allocs,
     current_thread = main_thread_id, stack = [], frames = [], txns = [], handlers = [],
     error_message = [], stdout_text = [], active_actor = null, next_actor_id = 1\<rparr>"

text \<open>\<open>make_shared\<close>.\<close>

definition new_object :: "hobj \<Rightarrow> nat vm_proc" where
  "new_object obj = (\<lambda>s. (Ok (next_address s),
     s\<lparr>next_address := Suc (next_address s), heap := (heap s)(next_address s \<mapsto> obj)\<rparr>))"

definition store_object :: "nat \<Rightarrow> hobj \<Rightarrow> unit vm_proc" where
  "store_object a obj = modify (\<lambda>s. s\<lparr>heap := (heap s)(a \<mapsto> obj)\<rparr>)"

section \<open>Errors\<close>

definition has_error :: "vm_state \<Rightarrow> bool" where
  "has_error s = (error_message s \<noteq> [])"

definition raise_error :: "string \<Rightarrow> unit vm_proc" where
  "raise_error m = modify (\<lambda>s. if error_message s = [] then s\<lparr>error_message := m\<rparr> else s)"

definition clear_error :: "unit vm_proc" where
  "clear_error = modify (\<lambda>s. s\<lparr>error_message := []\<rparr>)"

section \<open>Value stack\<close>

definition push_value :: "value \<Rightarrow> unit vm_proc" where
  "push_value v = (\<lambda>s.
     if STACK_MAX \<le> length (stack s) then (Raise (CppExc ''Value stack overflow''), s)
     else (Ok (), s\<lparr>stack := stack s @ [v]\<rparr>))"

lemma push_value_code:
  "push_value v = (\<lambda>s.
     if (4096 :: int) \<le> int (length (stack s)) then (Raise (CppExc ''Value stack overflow''), s)
     else (Ok (), s\<lparr>stack := stack s @ [v]\<rparr>))"
  by (simp add: push_value_def STACK_MAX_def)

definition stack_floor :: "vm_state \<Rightarrow> nat" where
  "stack_floor s = (case frames s of [] \<Rightarrow> 0 | f # fs \<Rightarrow> frame_base f)"

definition pop_value :: "value vm_proc" where
  "pop_value = (\<lambda>s.
     if length (stack s) \<le> stack_floor s then (Raise (CppExc ''Value stack underflow''), s)
     else (Ok (last (stack s)), s\<lparr>stack := butlast (stack s)\<rparr>))"

definition peek_value :: "nat \<Rightarrow> value vm_proc" where
  "peek_value d = (\<lambda>s.
     if length (stack s) \<le> d then (Raise (CppExc ''Peek depth exceeds stack size''), s)
     else (Ok (stack s ! (length (stack s) - 1 - d)), s))"

definition set_at :: "nat \<Rightarrow> value \<Rightarrow> unit vm_proc" where
  "set_at i v = (\<lambda>s.
     if length (stack s) \<le> i then (Raise (CppExc ''Local variable index out of bounds''), s)
     else (Ok (), s\<lparr>stack := (stack s)[i := v]\<rparr>))"

definition get_at :: "nat \<Rightarrow> value vm_proc" where
  "get_at i = (\<lambda>s.
     if length (stack s) \<le> i then (Raise (CppExc ''Local variable index out of bounds''), s)
     else (Ok (stack s ! i), s))"

text \<open>The loops \<open>while (StackSize() > n) PopValue();\<close>, whose pops may hit the frame's floor.\<close>

fun pop_times :: "nat \<Rightarrow> unit vm_proc" where
  "pop_times 0 = ret ()"
| "pop_times (Suc n) = bindE pop_value (\<lambda>_. pop_times n)"

definition pop_down_to :: "nat \<Rightarrow> unit vm_proc" where
  "pop_down_to n = (\<lambda>s. pop_times (length (stack s) - n) s)"

text \<open>\<open>while (i < count) args.push_back(PopValue());\<close>: the popped values, last pushed first.\<close>

definition pop_many :: "nat \<Rightarrow> value list vm_proc" where
  "pop_many n = timesE n pop_value"

definition clear_stack :: "unit vm_proc" where
  "clear_stack = modify (\<lambda>s. s\<lparr>stack := [], frames := [], txns := [], handlers := []\<rparr>)"

section \<open>Call frames\<close>

definition push_frame :: "nat \<Rightarrow> nat \<Rightarrow> nat \<Rightarrow> unit vm_proc" where
  "push_frame fn cl base = (\<lambda>s.
     if FRAMES_MAX \<le> length (frames s)
     then (Raise (CppExc ''Stack overflow (too many frames)''), s)
     else (Ok (), s\<lparr>frames := \<lparr>frame_function = fn, frame_closure = cl, frame_ip = 0,
             frame_base = base, frame_txn_base = length (txns s),
             frame_handler_base = length (handlers s)\<rparr> # frames s\<rparr>))"

definition pop_frame :: "unit vm_proc" where
  "pop_frame = (\<lambda>s. case frames s of
       [] \<Rightarrow> (Raise (CppExc ''Stack underflow (no frames to pop)''), s)
     | f # fs \<Rightarrow> (Ok (), s\<lparr>frames := fs\<rparr>))"

definition current_frame :: "frame vm_proc" where
  "current_frame = (\<lambda>s. case frames s of
       [] \<Rightarrow> (Raise (CppExc ''No active call frame''), s)
     | f # fs \<Rightarrow> (Ok f, s))"

text \<open>Assignment through the reference to the top frame.\<close>

definition update_frame :: "(frame \<Rightarrow> frame) \<Rightarrow> unit vm_proc" where
  "update_frame g = modify (\<lambda>s. case frames s of [] \<Rightarrow> s | f # fs \<Rightarrow> s\<lparr>frames := g f # fs\<rparr>)"

definition set_ip :: "nat \<Rightarrow> unit vm_proc" where
  "set_ip i = update_frame (\<lambda>f. f\<lparr>frame_ip := i\<rparr>)"

definition set_local :: "nat \<Rightarrow> value \<Rightarrow> unit vm_proc" where
  "set_local i v = (\<lambda>s. case frames s of
       [] \<Rightarrow> (Raise (Undefined ''back() of no frames''), s)
     | f # fs \<Rightarrow>
         if length (stack s) \<le> frame_base f + i
         then (Raise (CppExc ''Local index out of bounds''), s)
         else (Ok (), s\<lparr>stack := (stack s)[frame_base f + i := v]\<rparr>))"

definition get_local :: "nat \<Rightarrow> value vm_proc" where
  "get_local i = (\<lambda>s. case frames s of
       [] \<Rightarrow> (Raise (Undefined ''back() of no frames''), s)
     | f # fs \<Rightarrow>
         if length (stack s) \<le> frame_base f + i
         then (Raise (CppExc ''Local index out of bounds''), s)
         else (Ok (stack s ! (frame_base f + i)), s))"

definition set_upvalue :: "nat \<Rightarrow> value \<Rightarrow> unit vm_proc" where
  "set_upvalue i v = bindE current_frame (\<lambda>f s.
     case heap s (frame_closure f) of
       Some (Obj_Closure fn caps) \<Rightarrow>
         if length caps \<le> i then (Raise (CppExc ''Upvalue index out of bounds''), s)
         else (Ok (), s\<lparr>heap := (heap s)(frame_closure f \<mapsto> Obj_Closure fn (caps[i := v]))\<rparr>)
     | _ \<Rightarrow> (Raise (CppExc ''Upvalue index out of bounds''), s))"

definition get_upvalue :: "nat \<Rightarrow> value vm_proc" where
  "get_upvalue i = bindE current_frame (\<lambda>f s.
     case heap s (frame_closure f) of
       Some (Obj_Closure fn caps) \<Rightarrow>
         if length caps \<le> i then (Raise (CppExc ''Upvalue index out of bounds''), s)
         else (Ok (caps ! i), s)
     | _ \<Rightarrow> (Raise (CppExc ''Upvalue index out of bounds''), s))"

section \<open>Globals\<close>

text \<open>The innermost pending write that \<open>sel\<close> finds, as the loops over \<open>rbegin()\<close> do.\<close>

fun find_pending :: "(txn \<Rightarrow> 'v option) \<Rightarrow> txn list \<Rightarrow> 'v option" where
  "find_pending sel [] = None"
| "find_pending sel (t # ts) = (case sel t of Some v \<Rightarrow> Some v | None \<Rightarrow> find_pending sel ts)"

definition update_txn :: "(txn \<Rightarrow> txn) \<Rightarrow> vm_state \<Rightarrow> vm_state" where
  "update_txn g s = (case txns s of [] \<Rightarrow> s | t # ts \<Rightarrow> s\<lparr>txns := g t # ts\<rparr>)"

definition runtime_set_global :: "string \<Rightarrow> value \<Rightarrow> vm_state \<Rightarrow> bool \<times> vm_state" where
  "runtime_set_global x v s =
     (if globals s x = None then (False, s) else (True, s\<lparr>globals := (globals s)(x \<mapsto> v)\<rparr>))"

definition define_global :: "string \<Rightarrow> value \<Rightarrow> unit vm_proc" where
  "define_global x v = modify (\<lambda>s. s\<lparr>globals := (globals s)(x \<mapsto> v)\<rparr>)"

definition get_global :: "string \<Rightarrow> vm_state \<Rightarrow> value option" where
  "get_global x s =
     (case find_pending (\<lambda>t. map_of (pending_globals t) x) (txns s) of
        Some v \<Rightarrow> Some v
      | None \<Rightarrow> globals s x)"

definition record_global :: "string \<Rightarrow> value \<Rightarrow> value option \<Rightarrow> txn \<Rightarrow> txn" where
  "record_global x v prev t =
     t\<lparr>prior_globals := (case prev of Some p \<Rightarrow> emplace x p (prior_globals t)
                         | None \<Rightarrow> prior_globals t),
       pending_globals := AList.update x v (pending_globals t)\<rparr>"

definition set_global :: "string \<Rightarrow> value \<Rightarrow> bool vm_proc" where
  "set_global x v = (\<lambda>s.
     if txns s \<noteq> [] then (Ok True, update_txn (record_global x v (globals s x)) s)
     else (case runtime_set_global x v s of (b, s') \<Rightarrow> (Ok b, s')))"

definition define_thread_local :: "string \<Rightarrow> value \<Rightarrow> unit vm_proc" where
  "define_thread_local x v = modify (\<lambda>s. s\<lparr>thread_locals := (thread_locals s)(x \<mapsto> v)\<rparr>)"

definition get_thread_local :: "string \<Rightarrow> vm_state \<Rightarrow> value option" where
  "get_thread_local x s =
     (case find_pending (\<lambda>t. map_of (pending_locals t) x) (txns s) of
        Some v \<Rightarrow> Some v
      | None \<Rightarrow> thread_locals s x)"

definition record_thread_local :: "string \<Rightarrow> value \<Rightarrow> value \<Rightarrow> txn \<Rightarrow> txn" where
  "record_thread_local x v prev t =
     t\<lparr>prior_locals := emplace x prev (prior_locals t),
       pending_locals := AList.update x v (pending_locals t)\<rparr>"

definition set_thread_local :: "string \<Rightarrow> value \<Rightarrow> bool vm_proc" where
  "set_thread_local x v = (\<lambda>s.
     case thread_locals s x of
       None \<Rightarrow> (Ok False, s)
     | Some prev \<Rightarrow>
         if txns s \<noteq> [] then (Ok True, update_txn (record_thread_local x v prev) s)
         else (Ok True, s\<lparr>thread_locals := (thread_locals s)(x \<mapsto> v)\<rparr>))"

section \<open>Effect handlers\<close>

definition push_handler_map :: "nat \<Rightarrow> unit vm_proc" where
  "push_handler_map a = modify (\<lambda>s. s\<lparr>handlers := a # handlers s\<rparr>)"

definition pop_handler_map :: "bool vm_proc" where
  "pop_handler_map = (\<lambda>s. case handlers s of
       [] \<Rightarrow> seqE (raise_error ''Handler stack underflow'') (ret False) s
     | a # as \<Rightarrow> (Ok True, s\<lparr>handlers := as\<rparr>))"

definition unwind_handlers :: "nat \<Rightarrow> unit vm_proc" where
  "unwind_handlers base = modify (\<lambda>s. s\<lparr>handlers := drop (length (handlers s) - base) (handlers s)\<rparr>)"

definition clear_handlers :: "unit vm_proc" where
  "clear_handlers = modify (\<lambda>s. s\<lparr>handlers := []\<rparr>)"

fun find_handler :: "heap \<Rightarrow> string \<Rightarrow> nat list \<Rightarrow> value option" where
  "find_handler h eff [] = None"
| "find_handler h eff (a # as) =
     (case h a of
        Some (Obj_Handlers m) \<Rightarrow>
          (case map_of m eff of Some v \<Rightarrow> Some v | None \<Rightarrow> find_handler h eff as)
      | _ \<Rightarrow> find_handler h eff as)"

definition resolve_handled_effect :: "string \<Rightarrow> vm_state \<Rightarrow> value" where
  "resolve_handled_effect eff s =
     (case find_handler (heap s) eff (handlers s) of Some v \<Rightarrow> v | None \<Rightarrow> VNull)"

section \<open>Scopes\<close>

text \<open>\<open>Scope\<close>: a chain of maps, innermost first; the context starts with one scope.\<close>

definition SCOPE_DEPTH_MAX :: nat where
  "SCOPE_DEPTH_MAX = 256"

record scope =
  scope_variables :: "(string \<times> value) list"
  is_function_scope :: bool

definition enter_scope :: "bool \<Rightarrow> (scope list, unit) proc" where
  "enter_scope fn = (\<lambda>sc.
     if SCOPE_DEPTH_MAX \<le> length sc then (Raise (CppExc ''Scope depth limit exceeded''), sc)
     else (Ok (), \<lparr>scope_variables = [], is_function_scope = fn\<rparr> # sc))"

definition exit_scope :: "(scope list, unit) proc" where
  "exit_scope = modify tl"

definition scope_set :: "string \<Rightarrow> value \<Rightarrow> scope list \<Rightarrow> scope list" where
  "scope_set x v sc = (case sc of [] \<Rightarrow> []
     | c # cs \<Rightarrow> c\<lparr>scope_variables := AList.update x v (scope_variables c)\<rparr> # cs)"

fun scope_get :: "string \<Rightarrow> scope list \<Rightarrow> value option" where
  "scope_get x [] = None"
| "scope_get x (c # cs) =
     (case map_of (scope_variables c) x of Some v \<Rightarrow> Some v | None \<Rightarrow> scope_get x cs)"

section \<open>Synchronisation wrappers\<close>

definition fail_with :: "string \<Rightarrow> bool vm_proc" where
  "fail_with m = seqE (raise_error m) (ret False)"

definition in_sync :: "(sync_state \<Rightarrow> bool \<times> sync_state) \<Rightarrow> bool vm_proc" where
  "in_sync f = (\<lambda>s. case f (sync s) of (b, y) \<Rightarrow> (Ok b, s\<lparr>sync := y\<rparr>))"

definition context_try_lock :: "nat \<Rightarrow> nat \<Rightarrow> bool vm_proc" where
  "context_try_lock t m = (\<lambda>s.
     if \<not> is_thread_active (sync s) t then fail_with ''Unknown thread handle'' s
     else if \<not> has_mutex (sync s) m then fail_with ''Unknown mutex handle'' s
     else if mutex_owner (sync s) m = Some t
     then fail_with ''Recursive mutex lock is not allowed (self-deadlock)'' s
     else if mutex_owner (sync s) m \<noteq> None \<and> would_deadlock_on_mutex (sync s) t m
     then fail_with ''Deadlock detected while locking mutex'' s
     else bindE (in_sync (try_lock_mutex t m)) (\<lambda>ok s.
       if ok then (Ok True, s)
       else if mutex_owner (sync s) m = None then fail_with ''Mutex lock failed'' s
       else (Ok False, s)) s)"

definition context_unlock :: "nat \<Rightarrow> nat \<Rightarrow> bool vm_proc" where
  "context_unlock t m = (\<lambda>s.
     if \<not> is_thread_active (sync s) t then fail_with ''Unknown thread handle'' s
     else if \<not> has_mutex (sync s) m then fail_with ''Unknown mutex handle'' s
     else if mutex_owner (sync s) m \<noteq> Some t
     then fail_with ''Mutex unlock by non-owner is not allowed'' s
     else bindE (in_sync (unlock_mutex t m)) (\<lambda>ok.
       if ok then ret True else fail_with ''Mutex unlock failed'') s)"

definition context_assert_no_deadlock :: "bool vm_proc" where
  "context_assert_no_deadlock = (\<lambda>s.
     if assert_no_deadlock (sync s) then (Ok True, s) else fail_with ''Deadlock detected'' s)"

definition context_join_thread :: "nat \<Rightarrow> nat \<Rightarrow> bool vm_proc" where
  "context_join_thread a b = bindE (in_sync (join_thread a b))
     (\<lambda>ok. if ok then ret True else fail_with ''Thread join failed'')"

definition context_finish_thread :: "nat \<Rightarrow> bool vm_proc" where
  "context_finish_thread t = bindE (in_sync (finish_thread t))
     (\<lambda>ok. if ok then ret True else fail_with ''Unknown thread handle'')"

declare raise_error_def [ctx_simps] clear_error_def [ctx_simps] fail_with_def [ctx_simps]
  in_sync_def [ctx_simps] context_try_lock_def [ctx_simps] context_unlock_def [ctx_simps]

text \<open>Evaluation unfolds a procedure only once it is applied to a state.\<close>

declare
  new_object_def [THEN fun_cong, code]
  store_object_def [THEN fun_cong, code]
  raise_error_def [THEN fun_cong, code]
  clear_error_def [THEN fun_cong, code]
  pop_value_def [THEN fun_cong, code]
  peek_value_def [THEN fun_cong, code]
  set_at_def [THEN fun_cong, code]
  get_at_def [THEN fun_cong, code]
  pop_times.simps [THEN fun_cong, code]
  pop_down_to_def [THEN fun_cong, code]
  pop_many_def [THEN fun_cong, code]
  clear_stack_def [THEN fun_cong, code]
  push_frame_def [THEN fun_cong, code]
  pop_frame_def [THEN fun_cong, code]
  current_frame_def [THEN fun_cong, code]
  update_frame_def [THEN fun_cong, code]
  set_ip_def [THEN fun_cong, code]
  set_local_def [THEN fun_cong, code]
  get_local_def [THEN fun_cong, code]
  set_upvalue_def [THEN fun_cong, code]
  get_upvalue_def [THEN fun_cong, code]
  define_global_def [THEN fun_cong, code]
  set_global_def [THEN fun_cong, code]
  define_thread_local_def [THEN fun_cong, code]
  set_thread_local_def [THEN fun_cong, code]
  push_handler_map_def [THEN fun_cong, code]
  pop_handler_map_def [THEN fun_cong, code]
  unwind_handlers_def [THEN fun_cong, code]
  clear_handlers_def [THEN fun_cong, code]
  enter_scope_def [THEN fun_cong, code]
  exit_scope_def [THEN fun_cong, code]
  fail_with_def [THEN fun_cong, code]
  in_sync_def [THEN fun_cong, code]
  context_try_lock_def [THEN fun_cong, code]
  context_unlock_def [THEN fun_cong, code]
  context_assert_no_deadlock_def [THEN fun_cong, code]
  context_join_thread_def [THEN fun_cong, code]
  context_finish_thread_def [THEN fun_cong, code]
  push_value_code [THEN fun_cong, code]

end
