(* ===== verification/LockService.thy ===== *)
theory LockService
  imports Prelude
begin

text \<open>
  The interface between transactions and the mutexes of the runtime: what a client that takes a
  list of locks, all or none, relies on. The client loops of \<open>BeginTransaction\<close> and
  \<open>EndTransaction\<close> (src/src/vm/runtime/ExecutionContextTransactions.cpp) are generic in the
  lock and unlock operations and are proved once from the laws.
\<close>

section \<open>The client's loops\<close>

fun release_with :: "(nat \<Rightarrow> ('s, bool) proc) \<Rightarrow> nat list \<Rightarrow> ('s, unit) proc" where
  "release_with unlock [] = ret ()"
| "release_with unlock (m # ms) = bindE (unlock m) (\<lambda>_. release_with unlock ms)"

fun acquire_with :: "(nat \<Rightarrow> ('s, bool) proc) \<Rightarrow> (nat \<Rightarrow> ('s, bool) proc) \<Rightarrow>
    nat list \<Rightarrow> nat set \<Rightarrow> nat list \<Rightarrow> ('s, nat list option) proc" where
  "acquire_with lock unlock [] held acquired = ret (Some acquired)"
| "acquire_with lock unlock (m # ms) held acquired =
     (if m \<in> held then acquire_with lock unlock ms held acquired
      else bindE (lock m) (\<lambda>ok.
        if ok then acquire_with lock unlock ms held (acquired @ [m])
        else seqE (release_with unlock (rev acquired)) (ret None)))"

fun unlock_while :: "(nat \<Rightarrow> ('s, bool) proc) \<Rightarrow> nat list \<Rightarrow> ('s, bool) proc" where
  "unlock_while unlock [] = ret True"
| "unlock_while unlock (m # ms) =
     bindE (unlock m) (\<lambda>ok. if ok then unlock_while unlock ms else ret False)"

section \<open>The contract\<close>

definition owners_without :: "(nat \<Rightarrow> nat option) \<Rightarrow> nat set \<Rightarrow> nat \<Rightarrow> nat option" where
  "owners_without own M = (\<lambda>m. if m \<in> M then None else own m)"

definition owners_with :: "(nat \<Rightarrow> nat option) \<Rightarrow> nat \<Rightarrow> nat set \<Rightarrow> nat \<Rightarrow> nat option" where
  "owners_with own t M = (\<lambda>m. if m \<in> M then Some t else own m)"

lemma owners_without_empty [simp]: "owners_without own {} = own"
  by (simp add: owners_without_def)

lemma owners_with_empty [simp]: "owners_with own t {} = own"
  by (simp add: owners_with_def)

lemma owners_without_with:
  "\<forall>m \<in> M. own m = None \<Longrightarrow> owners_without (owners_with own t M) M = own"
  by (auto simp: owners_without_def owners_with_def fun_eq_iff)

locale lock_service =
  fixes lock :: "nat \<Rightarrow> ('s, bool) proc"
    and unlock :: "nat \<Rightarrow> ('s, bool) proc"
    and owner :: "'s \<Rightarrow> nat \<Rightarrow> nat option"
    and self :: nat
    and ready :: "'s \<Rightarrow> bool"
  assumes lock_law: "ready s \<Longrightarrow> \<exists>ok s'. lock m s = (Ok ok, s') \<and> ready s' \<and>
      (if ok then owner s m = None \<and> owner s' = (owner s)(m \<mapsto> self) else owner s' = owner s)"
    and unlock_law: "ready s \<Longrightarrow> owner s m = Some self \<Longrightarrow>
      \<exists>s'. unlock m s = (Ok True, s') \<and> ready s' \<and> owner s' = (owner s)(m := None)"
begin

lemma release_owned:
  assumes "ready s" "distinct ms" "\<forall>m \<in> set ms. owner s m = Some self"
  shows "\<exists>s'. release_with unlock ms s = (Ok (), s') \<and> ready s' \<and>
    owner s' = owners_without (owner s) (set ms)"
  using assms
proof (induction ms arbitrary: s)
  case Nil
  then show ?case by simp
next
  case (Cons m ms)
  from unlock_law [OF Cons.prems(1)] Cons.prems(3)
  obtain s1 where s1: "unlock m s = (Ok True, s1)" "ready s1" "owner s1 = (owner s)(m := None)"
    by (meson list.set_intros(1))
  have still: "\<forall>k \<in> set ms. owner s1 k = Some self"
    using Cons.prems s1(3) by auto
  from Cons.IH [OF s1(2) _ still] Cons.prems(2)
  obtain s2 where "release_with unlock ms s1 = (Ok (), s2)" "ready s2"
    "owner s2 = owners_without (owner s1) (set ms)"
    by auto
  with s1 show ?case by (auto simp: owners_without_def fun_eq_iff)
qed

lemma unlock_while_owned:
  assumes "ready s" "distinct ms" "\<forall>m \<in> set ms. owner s m = Some self"
  shows "\<exists>s'. unlock_while unlock ms s = (Ok True, s') \<and> ready s' \<and>
    owner s' = owners_without (owner s) (set ms)"
  using assms
proof (induction ms arbitrary: s)
  case Nil
  then show ?case by simp
next
  case (Cons m ms)
  from unlock_law [OF Cons.prems(1)] Cons.prems(3)
  obtain s1 where s1: "unlock m s = (Ok True, s1)" "ready s1" "owner s1 = (owner s)(m := None)"
    by (meson list.set_intros(1))
  have still: "\<forall>k \<in> set ms. owner s1 k = Some self"
    using Cons.prems s1(3) by auto
  from Cons.IH [OF s1(2) _ still] Cons.prems(2)
  obtain s2 where "unlock_while unlock ms s1 = (Ok True, s2)" "ready s2"
    "owner s2 = owners_without (owner s1) (set ms)"
    by auto
  with s1 show ?case by (auto simp: owners_without_def fun_eq_iff)
qed

text \<open>All or nothing: either every missing lock is taken, or the owners are as before.\<close>

lemma acquire_all_or_nothing:
  assumes "ready s" "distinct acquired" "\<forall>m \<in> set acquired. owner s m = Some self"
    "distinct ms" "set ms \<inter> set acquired \<subseteq> held"
  shows "\<exists>r s'. acquire_with lock unlock ms held acquired s = (Ok r, s') \<and> ready s' \<and>
    (case r of
       None \<Rightarrow> owner s' = owners_without (owner s) (set acquired)
     | Some a \<Rightarrow> \<exists>new. a = acquired @ new \<and> distinct a \<and> set new = set ms - held \<and>
         (\<forall>m \<in> set new. owner s m = None) \<and> owner s' = owners_with (owner s) self (set new))"
  using assms
proof (induction ms arbitrary: s acquired)
  case Nil
  then show ?case by (auto simp: exI [of _ "[]"])
next
  case (Cons m ms)
  show ?case
  proof (cases "m \<in> held")
    case True
    have "set ms \<inter> set acquired \<subseteq> held" "distinct ms" using Cons.prems by auto
    moreover have "set (m # ms) - held = set ms - held" using True by auto
    ultimately show ?thesis
      using True Cons.IH [of s acquired] Cons.prems(1-3) by (simp cong: option.case_cong)
  next
    case fresh: False
    from lock_law [OF Cons.prems(1), of m] obtain ok s1 where
      s1: "lock m s = (Ok ok, s1)" "ready s1"
        "if ok then owner s m = None \<and> owner s1 = (owner s)(m \<mapsto> self) else owner s1 = owner s"
      by blast
    show ?thesis
    proof (cases ok)
      case False
      from release_owned [OF s1(2), of "rev acquired"] Cons.prems s1 False
      obtain s2 where "release_with unlock (rev acquired) s1 = (Ok (), s2)" "ready s2"
        "owner s2 = owners_without (owner s) (set acquired)"
        by auto
      with fresh s1 False show ?thesis by simp
    next
      case True
      with s1 have free: "owner s m = None" and own: "owner s1 = (owner s)(m \<mapsto> self)"
        by simp_all
      have "m \<notin> set acquired" using fresh Cons.prems by auto
      then obtain r s2 where
        r: "acquire_with lock unlock ms held (acquired @ [m]) s1 = (Ok r, s2)" "ready s2"
        "case r of
           None \<Rightarrow> owner s2 = owners_without (owner s1) (set (acquired @ [m]))
         | Some a \<Rightarrow> \<exists>new. a = (acquired @ [m]) @ new \<and> distinct a \<and> set new = set ms - held \<and>
             (\<forall>m \<in> set new. owner s1 m = None) \<and> owner s2 = owners_with (owner s1) self (set new)"
        using Cons.IH [OF s1(2), of "acquired @ [m]"] Cons.prems own by fastforce
      show ?thesis
      proof (cases r)
        case None
        with r fresh s1 True free own show ?thesis
          by (auto simp: owners_without_def fun_eq_iff)
      next
        case (Some a)
        with r(3) obtain new where
          n: "a = (acquired @ [m]) @ new" "distinct a" "set new = set ms - held"
            "\<forall>m \<in> set new. owner s1 m = None" "owner s2 = owners_with (owner s1) self (set new)"
          by auto
        have "a = acquired @ (m # new)" "set (m # new) = set (m # ms) - held"
          "\<forall>k \<in> set (m # new). owner s k = None"
          "owner s2 = owners_with (owner s) self (set (m # new))"
          using n own fresh free by (auto simp: owners_with_def fun_eq_iff split: if_splits)
        with n(2) have "\<exists>new. a = acquired @ new \<and> distinct a \<and> set new = set (m # ms) - held \<and>
          (\<forall>k \<in> set new. owner s k = None) \<and> owner s2 = owners_with (owner s) self (set new)"
          by blast
        with r Some fresh s1 True show ?thesis by simp
      qed
    qed
  qed
qed

end

text \<open>Evaluation unfolds a procedure only once it is applied to a state.\<close>

declare
  release_with.simps [THEN fun_cong, code]
  acquire_with.simps [THEN fun_cong, code]
  unlock_while.simps [THEN fun_cong, code]

end
