(* ===== verification/Transactions.thy ===== *)
theory Transactions
  imports ExecContext SyncInv LockService
begin

text \<open>
  Software transactions of the execution context
  (src/src/vm/runtime/ExecutionContextTransactions.cpp): lock acquisition, deferred writes to
  globals, thread-locals, arrays and instances, commit into the parent or into the shared state,
  and rollback.
\<close>

section \<open>Beginning\<close>

definition new_txn :: "nat list \<Rightarrow> nat list \<Rightarrow> txn" where
  "new_txn requested acquired =
     \<lparr>txn_mutexes = requested, txn_acquired = acquired, prior_globals = [], pending_globals = [],
      prior_locals = [], pending_locals = [], prior_arrays = [], pending_arrays = [],
      prior_fields = [], pending_fields = []\<rparr>"

text \<open>\<open>sort\<close> followed by \<open>unique\<close>.\<close>

definition sort_unique :: "nat list \<Rightarrow> nat list" where
  "sort_unique ms = remdups_adj (sort ms)"

definition held_mutexes :: "vm_state \<Rightarrow> nat set" where
  "held_mutexes s = (\<Union>t \<in> set (txns s). set (txn_mutexes t))"

definition release_all :: "nat \<Rightarrow> nat list \<Rightarrow> unit vm_proc" where
  "release_all t = release_with (context_unlock t)"

text \<open>The loop over the requested mutexes, with the release in reverse order on failure.\<close>

definition acquire_all :: "nat \<Rightarrow> nat list \<Rightarrow> nat set \<Rightarrow> nat list \<Rightarrow> nat list option vm_proc" where
  "acquire_all t = acquire_with (context_try_lock t) (context_unlock t)"

text \<open>The ids of the mutex pointers, \<open>None\<close> when one of them is null.\<close>

fun mutex_ids :: "heap \<Rightarrow> nat list \<Rightarrow> nat list option" where
  "mutex_ids h [] = Some []"
| "mutex_ids h (a # as) =
     (case (handle_id h a, mutex_ids h as) of
        (Some i, Some is) \<Rightarrow> Some (i # is)
      | _ \<Rightarrow> None)"

definition begin_transaction :: "nat list \<Rightarrow> bool vm_proc" where
  "begin_transaction mutexes = (\<lambda>s.
     if mutexes = [] then fail_with ''Transaction requires at least one mutex handle'' s
     else case mutex_ids (heap s) mutexes of
       None \<Rightarrow> fail_with ''Expected a mutex handle for transaction'' s
     | Some ids \<Rightarrow>
         (let requested = sort_unique ids in
          bindE (acquire_all (current_thread s) requested (held_mutexes s) []) (\<lambda>r.
            case r of
              None \<Rightarrow> ret False
            | Some acquired \<Rightarrow> seqE (modify (\<lambda>s. s\<lparr>txns := new_txn requested acquired # txns s\<rparr>))
                (ret True)) s))"

section \<open>Committing\<close>

definition append_missing :: "nat list \<Rightarrow> nat list \<Rightarrow> nat list" where
  "append_missing xs ys = fold (\<lambda>y acc. if y \<in> set acc then acc else acc @ [y]) ys xs"

definition emplace_all :: "('k \<times> 'v) list \<Rightarrow> ('k \<times> 'v) list \<Rightarrow> ('k \<times> 'v) list" where
  "emplace_all kvs m = fold (\<lambda>(k, v). emplace k v) kvs m"

definition assign_all :: "('k \<times> 'v) list \<Rightarrow> ('k \<times> 'v) list \<Rightarrow> ('k \<times> 'v) list" where
  "assign_all kvs m = fold (\<lambda>(k, v). AList.update k v) kvs m"

text \<open>\<open>parent.m[key]\<close> creates an empty inner map for a new key.\<close>

definition inner_map :: "('k \<times> ('i \<times> 'v) list) list \<Rightarrow> 'k \<Rightarrow> ('i \<times> 'v) list" where
  "inner_map m k = (case map_of m k of None \<Rightarrow> [] | Some fs \<Rightarrow> fs)"

definition merge_prior_fields ::
    "('k \<times> ('i \<times> 'v) list) list \<Rightarrow> ('k \<times> ('i \<times> 'v) list) list \<Rightarrow> ('k \<times> ('i \<times> 'v) list) list" where
  "merge_prior_fields new m =
     fold (\<lambda>(k, fs) m. AList.update k (emplace_all fs (inner_map m k)) m) new m"

definition merge_pending_fields ::
    "('k \<times> ('i \<times> 'v) list) list \<Rightarrow> ('k \<times> ('i \<times> 'v) list) list \<Rightarrow> ('k \<times> ('i \<times> 'v) list) list" where
  "merge_pending_fields new m =
     fold (\<lambda>(k, fs) m. AList.update k (assign_all fs (inner_map m k)) m) new m"

definition merge_into_parent :: "txn \<Rightarrow> txn \<Rightarrow> txn" where
  "merge_into_parent t p =
     \<lparr>txn_mutexes = append_missing (txn_mutexes p) (txn_mutexes t),
      txn_acquired = append_missing (txn_acquired p) (txn_acquired t),
      prior_globals = emplace_all (prior_globals t) (prior_globals p),
      pending_globals = assign_all (pending_globals t) (pending_globals p),
      prior_locals = emplace_all (prior_locals t) (prior_locals p),
      pending_locals = assign_all (pending_locals t) (pending_locals p),
      prior_arrays = emplace_all (prior_arrays t) (prior_arrays p),
      pending_arrays = assign_all (pending_arrays t) (pending_arrays p),
      prior_fields = merge_prior_fields (prior_fields t) (prior_fields p),
      pending_fields = merge_pending_fields (pending_fields t) (pending_fields p)\<rparr>"

definition store_global :: "string \<times> value \<Rightarrow> vm_state \<Rightarrow> vm_state" where
  "store_global kv s = snd (runtime_set_global (fst kv) (snd kv) s)"

definition store_thread_local :: "string \<times> value \<Rightarrow> vm_state \<Rightarrow> vm_state" where
  "store_thread_local kv s = s\<lparr>thread_locals := (thread_locals s)(fst kv \<mapsto> snd kv)\<rparr>"

definition store_array :: "nat \<times> value list \<Rightarrow> vm_state \<Rightarrow> vm_state" where
  "store_array kv s =
     (if fst kv = null then s else s\<lparr>heap := (heap s)(fst kv \<mapsto> Obj_Array (snd kv))\<rparr>)"

definition assign_fields :: "(nat \<times> value) list \<Rightarrow> value list \<Rightarrow> value list" where
  "assign_fields ivs fs = fold (\<lambda>(i, v) fs. if i < length fs then fs[i := v] else fs) ivs fs"

definition store_fields :: "nat \<times> (nat \<times> value) list \<Rightarrow> vm_state \<Rightarrow> vm_state" where
  "store_fields kv s =
     (case heap s (fst kv) of
        Some (Obj_Instance fs) \<Rightarrow>
          s\<lparr>heap := (heap s)(fst kv \<mapsto> Obj_Instance (assign_fields (snd kv) fs))\<rparr>
      | _ \<Rightarrow> s)"

definition unlock_until_failure :: "nat \<Rightarrow> nat list \<Rightarrow> bool vm_proc" where
  "unlock_until_failure t = unlock_while (context_unlock t)"

definition publish :: "txn \<Rightarrow> vm_state \<Rightarrow> vm_state" where
  "publish t s = fold store_fields (pending_fields t) (fold store_array (pending_arrays t)
     (fold store_thread_local (pending_locals t) (fold store_global (pending_globals t) s)))"

definition end_transaction :: "bool vm_proc" where
  "end_transaction = (\<lambda>s.
     case txns s of
       [] \<Rightarrow> fail_with ''Transaction stack underflow'' s
     | t # p # ts \<Rightarrow> (Ok True, s\<lparr>txns := merge_into_parent t p # ts\<rparr>)
     | [t] \<Rightarrow> unlock_until_failure (current_thread s) (rev (txn_acquired t))
               (publish t (s\<lparr>txns := []\<rparr>)))"

section \<open>Rolling back\<close>

definition restore :: "txn \<Rightarrow> vm_state \<Rightarrow> vm_state" where
  "restore t s = fold store_global (prior_globals t) (fold store_thread_local (prior_locals t)
     (fold store_array (prior_arrays t) (fold store_fields (prior_fields t) s)))"

definition release_quietly :: "nat \<Rightarrow> vm_state \<Rightarrow> vm_state" where
  "release_quietly m s = s\<lparr>sync := snd (unlock_mutex (current_thread s) m (sync s))\<rparr>"

definition unwind_one :: "vm_state \<Rightarrow> vm_state" where
  "unwind_one s = (case txns s of [] \<Rightarrow> s
     | t # ts \<Rightarrow> fold release_quietly (rev (txn_acquired t)) (restore t (s\<lparr>txns := ts\<rparr>)))"

definition unwind_transactions :: "nat \<Rightarrow> unit vm_proc" where
  "unwind_transactions base = modify (\<lambda>s. (unwind_one ^^ (length (txns s) - base)) s)"

section \<open>Arrays\<close>

definition array_elements :: "heap \<Rightarrow> nat \<Rightarrow> value list option" where
  "array_elements h a = (case h a of Some (Obj_Array es) \<Rightarrow> Some es | _ \<Rightarrow> None)"

definition instance_fields :: "heap \<Rightarrow> nat \<Rightarrow> value list option" where
  "instance_fields h a = (case h a of Some (Obj_Instance fs) \<Rightarrow> Some fs | _ \<Rightarrow> None)"

text \<open>What a read of the array sees: the innermost pending copy or the array itself.\<close>

definition visible_array :: "vm_state \<Rightarrow> nat \<Rightarrow> value list option" where
  "visible_array s a =
     (case array_elements (heap s) a of
        None \<Rightarrow> None
      | Some es \<Rightarrow> (case find_pending (\<lambda>t. map_of (pending_arrays t) a) (txns s) of
                     Some p \<Rightarrow> Some p | None \<Rightarrow> Some es))"

definition get_array_size :: "nat \<Rightarrow> vm_state \<Rightarrow> nat option" where
  "get_array_size a s = map_option length (visible_array s a)"

definition get_array_element :: "nat \<Rightarrow> nat \<Rightarrow> vm_state \<Rightarrow> value option" where
  "get_array_element a i s =
     (case visible_array s a of
        None \<Rightarrow> None
      | Some es \<Rightarrow> if i < length es then Some (es ! i) else None)"

definition record_prior_array :: "nat \<Rightarrow> value list \<Rightarrow> txn \<Rightarrow> txn" where
  "record_prior_array a es t = t\<lparr>prior_arrays := emplace a es (prior_arrays t)\<rparr>"

text \<open>The common prelude of the staged writes: snapshot the array, then copy it if this
  transaction has no pending copy yet. The copy is taken from the array itself.\<close>

definition stage_array :: "nat \<Rightarrow> value list \<Rightarrow> txn \<Rightarrow> txn" where
  "stage_array a es t =
     (record_prior_array a es t)\<lparr>pending_arrays := emplace a es (pending_arrays t)\<rparr>"

definition set_pending_array :: "nat \<Rightarrow> value list \<Rightarrow> txn \<Rightarrow> txn" where
  "set_pending_array a es t = t\<lparr>pending_arrays := AList.update a es (pending_arrays t)\<rparr>"

definition pending_copy :: "nat \<Rightarrow> vm_state \<Rightarrow> value list" where
  "pending_copy a s = (case txns s of [] \<Rightarrow> []
     | t # ts \<Rightarrow> (case map_of (pending_arrays t) a of Some p \<Rightarrow> p | None \<Rightarrow> []))"

definition set_array_element :: "nat \<Rightarrow> nat \<Rightarrow> value \<Rightarrow> vm_state \<Rightarrow> bool \<times> vm_state" where
  "set_array_element a i v s =
     (case array_elements (heap s) a of
        None \<Rightarrow> (False, s)
      | Some es \<Rightarrow>
          if txns s \<noteq> [] then
            (let s1 = update_txn (stage_array a es) s; p = pending_copy a s1 in
             if length p \<le> i then (False, s1)
             else (True, update_txn (set_pending_array a (p[i := v])) s1))
          else if length es \<le> i then (False, s)
          else (True, s\<lparr>heap := (heap s)(a \<mapsto> Obj_Array (es[i := v]))\<rparr>))"

definition replace_array :: "nat \<Rightarrow> value list \<Rightarrow> vm_state \<Rightarrow> bool \<times> vm_state" where
  "replace_array a new s =
     (case array_elements (heap s) a of
        None \<Rightarrow> (False, s)
      | Some es \<Rightarrow>
          if txns s \<noteq> [] then
            (True, update_txn (set_pending_array a new \<circ> record_prior_array a es) s)
          else (True, s\<lparr>heap := (heap s)(a \<mapsto> Obj_Array new)\<rparr>))"

definition push_array_element :: "nat \<Rightarrow> value \<Rightarrow> vm_state \<Rightarrow> bool \<times> vm_state" where
  "push_array_element a v s =
     (case array_elements (heap s) a of
        None \<Rightarrow> (False, s)
      | Some es \<Rightarrow>
          if txns s \<noteq> [] then
            (let s1 = update_txn (stage_array a es) s in
             (True, update_txn (set_pending_array a (pending_copy a s1 @ [v])) s1))
          else (True, s\<lparr>heap := (heap s)(a \<mapsto> Obj_Array (es @ [v]))\<rparr>))"

definition pop_array_element :: "nat \<Rightarrow> vm_state \<Rightarrow> value option \<times> vm_state" where
  "pop_array_element a s =
     (case array_elements (heap s) a of
        None \<Rightarrow> (None, s)
      | Some es \<Rightarrow>
          if txns s \<noteq> [] then
            (let s1 = update_txn (stage_array a es) s; p = pending_copy a s1 in
             if p = [] then (None, s1)
             else (Some (last p), update_txn (set_pending_array a (butlast p)) s1))
          else if es = [] then (None, s)
          else (Some (last es), s\<lparr>heap := (heap s)(a \<mapsto> Obj_Array (butlast es))\<rparr>))"

definition record_array_write :: "nat \<Rightarrow> vm_state \<Rightarrow> vm_state" where
  "record_array_write a s =
     (case array_elements (heap s) a of
        None \<Rightarrow> s
      | Some es \<Rightarrow> update_txn (record_prior_array a es) s)"

section \<open>Instances\<close>

definition pending_field :: "nat \<Rightarrow> nat \<Rightarrow> txn \<Rightarrow> value option" where
  "pending_field a i t = map_of (inner_map (pending_fields t) a) i"

definition get_instance_field :: "nat \<Rightarrow> nat \<Rightarrow> vm_state \<Rightarrow> value option" where
  "get_instance_field a i s =
     (case instance_fields (heap s) a of
        None \<Rightarrow> None
      | Some fs \<Rightarrow>
          if length fs \<le> i then None
          else (case find_pending (pending_field a i) (txns s) of
                  Some v \<Rightarrow> Some v | None \<Rightarrow> Some (fs ! i)))"

definition record_field :: "nat \<Rightarrow> nat \<Rightarrow> value \<Rightarrow> txn \<Rightarrow> txn" where
  "record_field a i v t =
     t\<lparr>prior_fields := AList.update a (emplace i v (inner_map (prior_fields t) a)) (prior_fields t)\<rparr>"

definition set_pending_field :: "nat \<Rightarrow> nat \<Rightarrow> value \<Rightarrow> txn \<Rightarrow> txn" where
  "set_pending_field a i v t = t\<lparr>pending_fields :=
     AList.update a (AList.update i v (inner_map (pending_fields t) a)) (pending_fields t)\<rparr>"

definition record_instance_field_write :: "nat \<Rightarrow> nat \<Rightarrow> value \<Rightarrow> vm_state \<Rightarrow> vm_state" where
  "record_instance_field_write a i prev s =
     (if instance_fields (heap s) a = None then s else update_txn (record_field a i prev) s)"

definition set_instance_field :: "nat \<Rightarrow> nat \<Rightarrow> value \<Rightarrow> vm_state \<Rightarrow> bool \<times> vm_state" where
  "set_instance_field a i v s =
     (case instance_fields (heap s) a of
        None \<Rightarrow> (False, s)
      | Some fs \<Rightarrow>
          if length fs \<le> i then (False, s)
          else if txns s \<noteq> [] then
            (True, update_txn (set_pending_field a i v)
                     (record_instance_field_write a i (fs ! i) s))
          else (True, s\<lparr>heap := (heap s)(a \<mapsto> Obj_Instance (fs[i := v]))\<rparr>))"

text \<open>Evaluation unfolds a procedure only once it is applied to a state.\<close>

declare
  release_all_def [THEN fun_cong, code]
  acquire_all_def [THEN fun_cong, code]
  begin_transaction_def [THEN fun_cong, code]
  unlock_until_failure_def [THEN fun_cong, code]
  end_transaction_def [THEN fun_cong, code]
  unwind_transactions_def [THEN fun_cong, code]

end
