(* ===== verification/TransactionProps.thy ===== *)
theory TransactionProps
  imports Transactions
begin

text \<open>
  What the transactions of the execution context guarantee: all-or-nothing lock acquisition and
  the release of every lock at commit and at rollback (through the lock interface, interpreted on
  the runtime's mutexes), rollback to the state at the beginning, and the agreement of a committed
  transaction with the same operations run directly.
\<close>

section \<open>The runtime's mutexes as a lock service\<close>

text \<open>The wrappers touch only the synchronisation state and the error message.\<close>

definition only_sync :: "vm_state \<Rightarrow> vm_state \<Rightarrow> bool" where
  "only_sync s s' \<longleftrightarrow>
     heap s' = heap s \<and> next_address s' = next_address s \<and> globals s' = globals s \<and>
     thread_locals s' = thread_locals s \<and> allocs s' = allocs s \<and>
     current_thread s' = current_thread s \<and> stack s' = stack s \<and> frames s' = frames s \<and>
     txns s' = txns s \<and> handlers s' = handlers s \<and> stdout_text s' = stdout_text s \<and>
     active_actor s' = active_actor s \<and> next_actor_id s' = next_actor_id s"

lemma only_sync_refl [simp]: "only_sync s s"
  by (simp add: only_sync_def)

lemma only_sync_trans: "only_sync s t \<Longrightarrow> only_sync t u \<Longrightarrow> only_sync s u"
  by (simp add: only_sync_def)

lemma only_sync_error: "only_sync s (s\<lparr>error_message := e\<rparr>)"
  by (simp add: only_sync_def)

lemma only_sync_sync: "only_sync s (s\<lparr>sync := y\<rparr>)"
  by (simp add: only_sync_def)

lemmas only_sync_fields = only_sync_def [THEN iffD1]

lemma fail_with_result:
  "\<exists>s'. fail_with e s = (Ok False, s') \<and> only_sync s s' \<and> sync s' = sync s"
  by (simp add: fail_with_def raise_error_def seqE_def bindE_def only_sync_error)

lemma try_lock_lookups:
  "sync_handle_exists (snd (try_lock_mutex t m x)) = sync_handle_exists x"
  "fst (try_lock_mutex t m x) \<longleftrightarrow>
     sync_handle_exists x t \<and> mutex_exists x m \<and> mutex_owner x m = None"
  "mutex_owner (snd (try_lock_mutex t m x)) =
     (if fst (try_lock_mutex t m x) then (mutex_owner x)(m \<mapsto> t) else mutex_owner x)"
  by (auto simp: try_lock_mutex_def Let_def fun_eq_iff split: option.splits)

lemma unlock_lookups:
  "sync_handle_exists (snd (unlock_mutex t m x)) = sync_handle_exists x"
  "fst (unlock_mutex t m x) \<longleftrightarrow>
     sync_handle_exists x t \<and> mutex_exists x m \<and> mutex_owner x m = Some t"
  "mutex_owner (snd (unlock_mutex t m x)) =
     (if fst (unlock_mutex t m x) then (mutex_owner x)(m := None) else mutex_owner x)"
  by (auto simp: unlock_mutex_def Let_def fun_eq_iff)

lemma in_sync_apply: "in_sync f s = (Ok (fst (f (sync s))), s\<lparr>sync := snd (f (sync s))\<rparr>)"
  by (simp add: in_sync_def split: prod.split)

lemma context_try_lock_result:
  "\<exists>ok s'. context_try_lock t m s = (Ok ok, s') \<and> only_sync s s' \<and>
     sync_handle_exists (sync s') = sync_handle_exists (sync s) \<and>
     (if ok then mutex_owner (sync s) m = None \<and>
        mutex_owner (sync s') = (mutex_owner (sync s))(m \<mapsto> t)
      else mutex_owner (sync s') = mutex_owner (sync s))"
proof -
  let ?x = "sync s" and ?s1 = "s\<lparr>sync := snd (try_lock_mutex t m (sync s))\<rparr>"
  have fails: ?thesis if "context_try_lock t m s = fail_with e s" for e
  proof -
    obtain s' where "fail_with e s = (Ok False, s')" "only_sync s s'" "sync s' = sync s"
      using fail_with_result by blast
    then show ?thesis by (intro exI [of _ False] exI [of _ s']) (simp add: that)
  qed
  show ?thesis
  proof (cases "is_thread_active ?x t \<and> has_mutex ?x m \<and> mutex_owner ?x m \<noteq> Some t \<and>
      \<not> (mutex_owner ?x m \<noteq> None \<and> would_deadlock_on_mutex ?x t m)")
    case False
    then have "\<exists>e. context_try_lock t m s = fail_with e s"
      unfolding context_try_lock_def by (simp only: not_not simp_thms split: if_split) blast
    with fails show ?thesis by blast
  next
    case True
    then have step: "context_try_lock t m s =
        (if fst (try_lock_mutex t m ?x) then (Ok True, ?s1)
         else if mutex_owner (sync ?s1) m = None then fail_with ''Mutex lock failed'' ?s1
         else (Ok False, ?s1))"
      by (auto simp: context_try_lock_def in_sync_apply)
    obtain s2 where s2: "fail_with ''Mutex lock failed'' ?s1 = (Ok False, s2)"
      "only_sync ?s1 s2" "sync s2 = sync ?s1"
      using fail_with_result by blast
    note look = try_lock_lookups [of t m ?x]
    have s02: "only_sync s s2" by (rule only_sync_trans [OF only_sync_sync s2(2)])
    consider "fst (try_lock_mutex t m ?x)"
      | "\<not> fst (try_lock_mutex t m ?x)" "mutex_owner (sync ?s1) m = None"
      | "\<not> fst (try_lock_mutex t m ?x)" "mutex_owner (sync ?s1) m \<noteq> None"
      by blast
    then show ?thesis
    proof cases
      case 1
      with step look show ?thesis
        by (intro exI [of _ True] exI [of _ ?s1]) (simp add: only_sync_sync)
    next
      case 2
      with step look(1,3) s2 s02 show ?thesis
        by (intro exI [of _ False] exI [of _ s2]) simp
    next
      case 3
      with step look(1,3) show ?thesis
        by (intro exI [of _ False] exI [of _ ?s1]) (auto simp: only_sync_sync)
    qed
  qed
qed

lemma context_unlock_result:
  assumes "sync_handle_exists (sync s) t" "mutex_owner (sync s) m = Some t"
  shows "\<exists>s'. context_unlock t m s = (Ok True, s') \<and> only_sync s s' \<and>
     sync_handle_exists (sync s') = sync_handle_exists (sync s) \<and>
     mutex_owner (sync s') = (mutex_owner (sync s))(m := None)"
proof -
  have "mutex_exists (sync s) m" using assms(2) mutex_owner_absent by fastforce
  with assms unlock_lookups [of t m "sync s"] show ?thesis
    by (auto simp: context_unlock_def is_thread_active_def has_mutex_def in_sync_apply
        intro: only_sync_sync)
qed

interpretation vm_locks: lock_service "context_try_lock t" "context_unlock t"
  "\<lambda>s. mutex_owner (sync s)" t "\<lambda>s. only_sync s0 s \<and> sync_handle_exists (sync s) t"
  for t :: nat and s0 :: vm_state
proof
  fix s :: vm_state and m
  assume r: "only_sync s0 s \<and> sync_handle_exists (sync s) t"
  show "\<exists>ok s'. context_try_lock t m s = (Ok ok, s') \<and>
      (only_sync s0 s' \<and> sync_handle_exists (sync s') t) \<and>
      (if ok then mutex_owner (sync s) m = None \<and>
         mutex_owner (sync s') = (mutex_owner (sync s))(m \<mapsto> t)
       else mutex_owner (sync s') = mutex_owner (sync s))"
    using context_try_lock_result [of t m s] r only_sync_trans by metis
  show "\<exists>s'. context_unlock t m s = (Ok True, s') \<and>
      (only_sync s0 s' \<and> sync_handle_exists (sync s') t) \<and>
      mutex_owner (sync s') = (mutex_owner (sync s))(m := None)"
    if "mutex_owner (sync s) m = Some t"
    using context_unlock_result [of s t m] r that only_sync_trans by metis
qed

section \<open>Lock accounting\<close>

definition lock_pairs :: "vm_state \<Rightarrow> (nat list \<times> nat list) list" where
  "lock_pairs s = map (\<lambda>t. (txn_mutexes t, txn_acquired t)) (txns s)"

definition acquired_mutexes :: "vm_state \<Rightarrow> nat list" where
  "acquired_mutexes s = concat (map snd (lock_pairs s))"

fun nested_ok :: "(nat list \<times> nat list) list \<Rightarrow> bool" where
  "nested_ok [] = True"
| "nested_ok ((ms, as) # ps) \<longleftrightarrow> set as \<subseteq> set ms \<and>
     set ms \<subseteq> set as \<union> (\<Union>p \<in> set ps. set (snd p)) \<and> nested_ok ps"

lemma nested_ok_held:
  "nested_ok ps \<Longrightarrow> (\<Union>p \<in> set ps. set (fst p)) = (\<Union>p \<in> set ps. set (snd p))"
proof (induction ps)
  case (Cons p ps)
  then show ?case by (cases p) (simp, blast)
qed simp

text \<open>
  The active transactions of a context own, exactly once, every mutex they acquired, and each
  holds what it requested: the mutexes it took itself and those an outer transaction had.
\<close>

definition locks_ok :: "vm_state \<Rightarrow> bool" where
  "locks_ok s \<longleftrightarrow>
     sync_handle_exists (sync s) (current_thread s) \<and>
     distinct (acquired_mutexes s) \<and>
     nested_ok (lock_pairs s) \<and>
     (\<forall>m \<in> set (acquired_mutexes s). mutex_owner (sync s) m = Some (current_thread s))"

lemma distinct_remdups_adj_sorted: "sorted ms \<Longrightarrow> distinct (remdups_adj (ms :: nat list))"
  by (induction ms rule: remdups_adj.induct) auto

lemma locks_ok_held: "locks_ok s \<Longrightarrow> held_mutexes s = set (acquired_mutexes s)"
  using nested_ok_held [of "lock_pairs s"]
  by (auto simp: locks_ok_def held_mutexes_def acquired_mutexes_def lock_pairs_def)

lemma set_sort_unique [simp]: "set (sort_unique ms) = set ms"
  by (simp add: sort_unique_def)

lemma distinct_sort_unique [simp]: "distinct (sort_unique ms)"
  by (simp add: sort_unique_def distinct_remdups_adj_sorted)

lemma begin_transaction_result:
  assumes ok: "locks_ok s" and ids: "mutexes \<noteq> []" "mutex_ids (heap s) mutexes = Some is"
  shows "\<exists>r s'. begin_transaction mutexes s = (Ok r, s') \<and> only_sync (s\<lparr>txns := txns s'\<rparr>) s' \<and>
    (if r then \<exists>new. txns s' = new_txn (sort_unique is) new # txns s \<and>
       distinct new \<and> set new = set is - held_mutexes s \<and>
       (\<forall>m \<in> set new. mutex_owner (sync s) m = None) \<and>
       mutex_owner (sync s') = owners_with (mutex_owner (sync s)) (current_thread s) (set new)
     else txns s' = txns s \<and> mutex_owner (sync s') = mutex_owner (sync s)) \<and>
    sync_handle_exists (sync s') (current_thread s)"
proof -
  let ?t = "current_thread s"
  from vm_locks.acquire_all_or_nothing [of s s ?t "[]" "sort_unique is" "held_mutexes s"] ok
  obtain r s1 where s1: "acquire_all ?t (sort_unique is) (held_mutexes s) [] s = (Ok r, s1)"
    "only_sync s s1" "sync_handle_exists (sync s1) ?t"
    "case r of None \<Rightarrow> mutex_owner (sync s1) = mutex_owner (sync s)
     | Some a \<Rightarrow> distinct a \<and> set a = set is - held_mutexes s \<and>
         (\<forall>m \<in> set a. mutex_owner (sync s) m = None) \<and>
         mutex_owner (sync s1) = owners_with (mutex_owner (sync s)) ?t (set a)"
    by (auto simp: acquire_all_def locks_ok_def split: option.splits)
  have txns: "txns s1 = txns s" using s1(2) by (simp add: only_sync_def)
  show ?thesis
  proof (cases r)
    case None
    have "only_sync (s\<lparr>txns := txns s1\<rparr>) s1"
      using s1(2) by (simp add: only_sync_def)
    with None s1 ids txns show ?thesis
      by (intro exI [of _ False] exI [of _ s1]) (auto simp: begin_transaction_def)
  next
    case (Some new)
    let ?s2 = "s1\<lparr>txns := new_txn (sort_unique is) new # txns s1\<rparr>"
    have "only_sync (s\<lparr>txns := txns ?s2\<rparr>) ?s2"
      using s1(2) by (simp add: only_sync_def)
    with Some s1 ids txns show ?thesis
      by (intro exI [of _ True] exI [of _ ?s2]) (auto simp: begin_transaction_def)
  qed
qed

lemma locks_ok_begin:
  assumes ok: "locks_ok s" and ids: "mutexes \<noteq> []" "mutex_ids (heap s) mutexes = Some is"
  shows "locks_ok (snd (begin_transaction mutexes s))"
proof -
  from begin_transaction_result [OF assms] obtain r s' where
    r: "begin_transaction mutexes s = (Ok r, s')" "only_sync (s\<lparr>txns := txns s'\<rparr>) s'"
      "sync_handle_exists (sync s') (current_thread s)"
      "if r then \<exists>new. txns s' = new_txn (sort_unique is) new # txns s \<and>
       distinct new \<and> set new = set is - held_mutexes s \<and>
       (\<forall>m \<in> set new. mutex_owner (sync s) m = None) \<and>
       mutex_owner (sync s') = owners_with (mutex_owner (sync s)) (current_thread s) (set new)
     else txns s' = txns s \<and> mutex_owner (sync s') = mutex_owner (sync s)"
    by blast
  have thread: "current_thread s' = current_thread s"
    using r(2) by (simp add: only_sync_def)
  show ?thesis
  proof (cases r)
    case False
    with r ok thread show ?thesis
      by (simp add: locks_ok_def acquired_mutexes_def lock_pairs_def held_mutexes_def)
  next
    case True
    with r(4) obtain new where
      new: "txns s' = new_txn (sort_unique is) new # txns s" "distinct new"
       "set new = set is - held_mutexes s"
       "mutex_owner (sync s') = owners_with (mutex_owner (sync s)) (current_thread s) (set new)"
      by auto
    have acq: "acquired_mutexes s' = new @ acquired_mutexes s"
      using new by (simp add: acquired_mutexes_def lock_pairs_def new_txn_def)
    have held: "held_mutexes s = set (acquired_mutexes s)" by (rule locks_ok_held [OF ok])
    have "distinct (acquired_mutexes s')"
      using new(2,3) ok held by (auto simp: acq locks_ok_def)
    moreover have "nested_ok (lock_pairs s')"
      using new(1,3) ok held
      by (auto simp: locks_ok_def acquired_mutexes_def lock_pairs_def new_txn_def)
    moreover have "mutex_owner (sync s') m = Some (current_thread s')"
      if "m \<in> set (acquired_mutexes s')" for m
      using that new(4) ok thread by (auto simp: acq owners_with_def locks_ok_def)
    ultimately show ?thesis
      using r(1,3) thread by (simp add: locks_ok_def)
  qed
qed

section \<open>Publishing and restoring leave the locks alone\<close>

definition same_control :: "vm_state \<Rightarrow> vm_state \<Rightarrow> bool" where
  "same_control s s' \<longleftrightarrow> sync s' = sync s \<and> txns s' = txns s \<and> stack s' = stack s \<and>
     frames s' = frames s \<and> handlers s' = handlers s \<and> current_thread s' = current_thread s \<and>
     error_message s' = error_message s"

lemma same_control_refl [simp]: "same_control s s"
  by (simp add: same_control_def)

lemma same_control_fold:
  "(\<And>x s. same_control s (f x s)) \<Longrightarrow> same_control s (fold f xs s)"
  by (induction xs arbitrary: s) (auto simp: same_control_def)

lemma same_control_stores:
  "same_control s (store_global x s)" "same_control s (store_thread_local x s)"
  "same_control s (store_array y s)" "same_control s (store_fields z s)"
  by (auto simp: same_control_def store_global_def runtime_set_global_def store_thread_local_def
      store_array_def store_fields_def split: option.splits hobj.splits)

lemma same_control_folds:
  "same_control s (fold store_global gs s)" "same_control s (fold store_thread_local ls s)"
  "same_control s (fold store_array as s)" "same_control s (fold store_fields fs s)"
  by (intro same_control_fold same_control_stores)+

lemma same_control_trans: "same_control s t \<Longrightarrow> same_control t u \<Longrightarrow> same_control s u"
  by (simp add: same_control_def)

lemma same_control_publish: "same_control s (publish t s)"
  unfolding publish_def by (meson same_control_folds same_control_trans)

lemma same_control_restore: "same_control s (restore t s)"
  unfolding restore_def by (meson same_control_folds same_control_trans)

lemma fold_release:
  assumes "sync_handle_exists (sync s) (current_thread s)" "distinct ms"
    "\<forall>m \<in> set ms. mutex_owner (sync s) m = Some (current_thread s)"
  shows "\<exists>y. fold release_quietly ms s = s\<lparr>sync := y\<rparr> \<and>
    sync_handle_exists y = sync_handle_exists (sync s) \<and>
    mutex_owner y = owners_without (mutex_owner (sync s)) (set ms)"
  using assms
proof (induction ms arbitrary: s)
  case Nil
  then show ?case by (intro exI [of _ "sync s"]) simp
next
  case (Cons m ms)
  let ?t = "current_thread s" and ?y = "snd (unlock_mutex (current_thread s) m (sync s))"
  have "mutex_exists (sync s) m"
    using Cons.prems(3) mutex_owner_absent by fastforce
  then have y: "sync_handle_exists ?y = sync_handle_exists (sync s)"
    "mutex_owner ?y = (mutex_owner (sync s))(m := None)"
    using unlock_lookups [of ?t m "sync s"] Cons.prems by auto
  have "\<forall>k \<in> set ms. mutex_owner ?y k = Some ?t" using Cons.prems y(2) by auto
  then have "\<exists>z. fold release_quietly ms (s\<lparr>sync := ?y\<rparr>) = s\<lparr>sync := ?y\<rparr>\<lparr>sync := z\<rparr> \<and>
      sync_handle_exists z = sync_handle_exists ?y \<and>
      mutex_owner z = owners_without (mutex_owner ?y) (set ms)"
    using Cons.IH [of "s\<lparr>sync := ?y\<rparr>"] Cons.prems(1,2) y(1) by simp
  then obtain z where
    "fold release_quietly ms (s\<lparr>sync := ?y\<rparr>) = s\<lparr>sync := z\<rparr>"
    "sync_handle_exists z = sync_handle_exists (sync s)"
    "mutex_owner z = owners_without (mutex_owner ?y) (set ms)"
    using y(1) by auto
  with y show ?case
    by (intro exI [of _ z]) (simp add: release_quietly_def [of m], auto simp: owners_without_def)
qed

lemma set_append_missing [simp]: "set (append_missing xs ys) = set xs \<union> set ys"
  by (induction ys arbitrary: xs) (auto simp: append_missing_def)

lemma distinct_append_missing [simp]: "distinct xs \<Longrightarrow> distinct (append_missing xs ys)"
  by (induction ys arbitrary: xs) (auto simp: append_missing_def)

lemma locks_ok_merge:
  assumes "locks_ok s" "txns s = t # p # ts"
  shows "locks_ok (s\<lparr>txns := merge_into_parent t p # ts\<rparr>)"
  using assms by (auto simp: locks_ok_def acquired_mutexes_def lock_pairs_def merge_into_parent_def)

text \<open>The outermost commit publishes the writes, then releases every mutex.\<close>

lemma end_outermost:
  assumes ok: "locks_ok s" and t: "txns s = [t]"
  shows "\<exists>s'. end_transaction s = (Ok True, s') \<and> only_sync (publish t (s\<lparr>txns := []\<rparr>)) s' \<and>
    sync_handle_exists (sync s') (current_thread s) \<and>
    mutex_owner (sync s') = owners_without (mutex_owner (sync s)) (held_mutexes s)"
proof -
  let ?p = "publish t (s\<lparr>txns := []\<rparr>)"
  have p: "sync ?p = sync s"
    using same_control_publish [of "s\<lparr>txns := []\<rparr>" t] by (simp add: same_control_def)
  have own: "distinct (txn_acquired t)" "held_mutexes s = set (txn_acquired t)"
    "\<forall>m \<in> set (txn_acquired t). mutex_owner (sync s) m = Some (current_thread s)"
    "sync_handle_exists (sync s) (current_thread s)"
    using ok t by (auto simp: locks_ok_def acquired_mutexes_def lock_pairs_def held_mutexes_def)
  from vm_locks.unlock_while_owned [of ?p ?p "current_thread s" "rev (txn_acquired t)"] own p
  obtain s' where "unlock_while (context_unlock (current_thread s)) (rev (txn_acquired t)) ?p =
      (Ok True, s')" "only_sync ?p s'" "sync_handle_exists (sync s') (current_thread s)"
    "mutex_owner (sync s') = owners_without (mutex_owner (sync s)) (set (txn_acquired t))"
    by auto
  with own t show ?thesis by (simp add: end_transaction_def unlock_until_failure_def)
qed

lemma unwind_one_result:
  assumes "locks_ok s" and Cons: "txns s = t # ts"
  shows "txns (unwind_one s) = ts \<and> current_thread (unwind_one s) = current_thread s \<and>
    sync_handle_exists (sync (unwind_one s)) = sync_handle_exists (sync s) \<and>
    mutex_owner (sync (unwind_one s)) =
      owners_without (mutex_owner (sync s)) (set (txn_acquired t))"
proof -
  let ?r = "restore t (s\<lparr>txns := ts\<rparr>)"
  have r: "sync ?r = sync s" "txns ?r = ts" "current_thread ?r = current_thread s"
    using same_control_restore [of "s\<lparr>txns := ts\<rparr>" t] by (simp_all add: same_control_def)
  have own: "distinct (txn_acquired t)" "sync_handle_exists (sync s) (current_thread s)"
    "\<forall>m \<in> set (txn_acquired t). mutex_owner (sync s) m = Some (current_thread s)"
    using assms by (auto simp: locks_ok_def acquired_mutexes_def lock_pairs_def)
  from fold_release [of ?r "rev (txn_acquired t)"] own r obtain y where
    y: "fold release_quietly (rev (txn_acquired t)) ?r = ?r\<lparr>sync := y\<rparr>"
      "sync_handle_exists y = sync_handle_exists (sync s)"
      "mutex_owner y = owners_without (mutex_owner (sync s)) (set (txn_acquired t))"
    by auto
  with r Cons show ?thesis by (simp add: unwind_one_def)
qed

section \<open>Command sequences\<close>

datatype txn_cmd =
    Cmd_Begin "nat list" | Cmd_End | Cmd_Unwind nat
  | Cmd_Global string "value" | Cmd_Local string "value"
  | Cmd_Element nat nat "value" | Cmd_Replace nat "value list" | Cmd_Push nat "value"
  | Cmd_Pop nat | Cmd_Field nat nat "value"

fun txn_exec :: "txn_cmd \<Rightarrow> vm_state \<Rightarrow> vm_state" where
  "txn_exec (Cmd_Begin ms) s = snd (begin_transaction ms s)"
| "txn_exec Cmd_End s = snd (end_transaction s)"
| "txn_exec (Cmd_Unwind n) s = snd (unwind_transactions n s)"
| "txn_exec (Cmd_Global x v) s = snd (set_global x v s)"
| "txn_exec (Cmd_Local x v) s = snd (set_thread_local x v s)"
| "txn_exec (Cmd_Element a i v) s = snd (set_array_element a i v s)"
| "txn_exec (Cmd_Replace a vs) s = snd (replace_array a vs s)"
| "txn_exec (Cmd_Push a v) s = snd (push_array_element a v s)"
| "txn_exec (Cmd_Pop a) s = snd (pop_array_element a s)"
| "txn_exec (Cmd_Field a i v) s = snd (set_instance_field a i v s)"

fun is_data_cmd :: "txn_cmd \<Rightarrow> bool" where
  "is_data_cmd (Cmd_Begin ms) = False"
| "is_data_cmd Cmd_End = False"
| "is_data_cmd (Cmd_Unwind n) = False"
| "is_data_cmd _ = True"

definition lock_view :: "vm_state \<Rightarrow> sync_state \<times> nat \<times> (nat list \<times> nat list) list" where
  "lock_view s = (sync s, current_thread s, lock_pairs s)"

lemma lock_view_updates [simp]:
  "lock_view (s\<lparr>heap := h\<rparr>) = lock_view s"
  "lock_view (s\<lparr>globals := g\<rparr>) = lock_view s"
  "lock_view (s\<lparr>thread_locals := g\<rparr>) = lock_view s"
  "lock_view (s\<lparr>error_message := e\<rparr>) = lock_view s"
  by (simp_all add: lock_view_def lock_pairs_def)

lemma lock_view_update_txn [simp]:
  "(\<And>t. txn_mutexes (g t) = txn_mutexes t \<and> txn_acquired (g t) = txn_acquired t) \<Longrightarrow>
   lock_view (update_txn g s) = lock_view s"
  by (auto simp: lock_view_def lock_pairs_def update_txn_def split: list.splits)

lemma lock_view_data [simp]: "is_data_cmd c \<Longrightarrow> lock_view (txn_exec c s) = lock_view s"
  by (cases c) (auto simp: set_global_def set_thread_local_def set_array_element_def
      replace_array_def push_array_element_def pop_array_element_def set_instance_field_def
      record_instance_field_write_def record_global_def record_thread_local_def stage_array_def
      record_prior_array_def set_pending_array_def record_field_def set_pending_field_def
      runtime_set_global_def Let_def split: option.splits prod.splits)

section \<open>Ownership is restored\<close>

text \<open>Ownership now is ownership at the beginning, \<open>own\<close>, plus what the transactions acquired.\<close>

definition locks_inv :: "(nat \<Rightarrow> nat option) \<Rightarrow> vm_state \<Rightarrow> bool" where
  "locks_inv own s \<longleftrightarrow> locks_ok s \<and>
     (\<forall>m \<in> set (acquired_mutexes s). own m = None) \<and>
     mutex_owner (sync s) = owners_with own (current_thread s) (set (acquired_mutexes s))"

lemma locks_inv_view:
  assumes "lock_view s' = lock_view s" "locks_inv own s"
  shows "locks_inv own s'"
proof -
  from assms(1) have eqs: "sync s' = sync s" "current_thread s' = current_thread s"
    "lock_pairs s' = lock_pairs s"
    by (simp_all add: lock_view_def)
  from assms(2) show ?thesis
    unfolding locks_inv_def locks_ok_def acquired_mutexes_def eqs .
qed

lemma locks_inv_ok: "locks_inv own s \<Longrightarrow> locks_ok s"
  by (simp add: locks_inv_def)

lemma locks_inv_error: "locks_inv own s \<Longrightarrow> locks_inv own (snd (fail_with e s))"
  by (erule locks_inv_view [rotated]) (simp add: fail_with_def raise_error_def seqE_def bindE_def)

text \<open>Dropping the innermost transaction together with what it acquired.\<close>

lemma locks_inv_drop:
  assumes inv: "locks_inv own s" and t: "txns s = t # ts"
    and s': "txns s' = ts" "current_thread s' = current_thread s"
      "sync_handle_exists (sync s') (current_thread s)"
      "mutex_owner (sync s') = owners_without (mutex_owner (sync s)) (set (txn_acquired t))"
  shows "locks_inv own s'"
proof -
  have acq: "acquired_mutexes s = txn_acquired t @ acquired_mutexes s'"
    using t s'(1) by (simp add: acquired_mutexes_def lock_pairs_def)
  have dist: "distinct (txn_acquired t @ acquired_mutexes s')"
    using inv by (simp add: locks_inv_def locks_ok_def flip: acq)
  have own: "mutex_owner (sync s') = owners_with own (current_thread s') (set (acquired_mutexes s'))"
    unfolding s'(4) using inv dist s'(2)
    by (auto simp: locks_inv_def acq owners_with_def owners_without_def fun_eq_iff)
  moreover have "nested_ok (lock_pairs s')"
    using inv t s'(1) by (simp add: locks_inv_def locks_ok_def lock_pairs_def)
  ultimately show ?thesis
    using inv dist s'(2,3) by (auto simp: locks_inv_def locks_ok_def acq owners_with_def)
qed

lemma locks_inv_unwind_one: "locks_inv own s \<Longrightarrow> locks_inv own (unwind_one s)"
proof (cases "txns s")
  case Nil
  then show "locks_inv own s \<Longrightarrow> ?thesis" by (simp add: unwind_one_def)
next
  case (Cons t ts)
  assume inv: "locks_inv own s"
  from unwind_one_result [OF locks_inv_ok [OF inv] Cons] inv show ?thesis
    by (intro locks_inv_drop [OF inv Cons]) (auto simp: locks_inv_def locks_ok_def)
qed

lemma locks_inv_begin:
  assumes inv: "locks_inv own s"
  shows "locks_inv own (snd (begin_transaction mutexes s))"
proof (cases "mutexes \<noteq> [] \<and> mutex_ids (heap s) mutexes \<noteq> None")
  case False
  then show ?thesis
    using locks_inv_error [OF inv] by (auto simp: begin_transaction_def)
next
  case True
  then obtain ids where ids: "mutexes \<noteq> []" "mutex_ids (heap s) mutexes = Some ids" by blast
  note ok = locks_inv_ok [OF inv]
  from begin_transaction_result [OF ok ids] obtain r s' where
    r: "begin_transaction mutexes s = (Ok r, s')" "only_sync (s\<lparr>txns := txns s'\<rparr>) s'"
      "if r then \<exists>new. txns s' = new_txn (sort_unique ids) new # txns s \<and>
       distinct new \<and> set new = set ids - held_mutexes s \<and>
       (\<forall>m \<in> set new. mutex_owner (sync s) m = None) \<and>
       mutex_owner (sync s') = owners_with (mutex_owner (sync s)) (current_thread s) (set new)
     else txns s' = txns s \<and> mutex_owner (sync s') = mutex_owner (sync s)"
    by blast
  have thread: "current_thread s' = current_thread s"
    using r(2) by (simp add: only_sync_def)
  have ok': "locks_ok s'" using locks_ok_begin [OF ok ids] r(1) by simp
  show ?thesis
  proof (cases r)
    case False
    with r inv ok' thread show ?thesis
      by (simp add: locks_inv_def acquired_mutexes_def lock_pairs_def)
  next
    case True
    with r(3) obtain new where new: "txns s' = new_txn (sort_unique ids) new # txns s"
      "\<forall>m \<in> set new. mutex_owner (sync s) m = None"
      "mutex_owner (sync s') = owners_with (mutex_owner (sync s)) (current_thread s) (set new)"
      by auto
    have acq: "acquired_mutexes s' = new @ acquired_mutexes s"
      using new by (simp add: acquired_mutexes_def lock_pairs_def new_txn_def)
    show ?thesis
      using inv ok' new(2,3) thread r(1)
      by (auto simp: locks_inv_def acq owners_with_def fun_eq_iff split: if_splits)
  qed
qed

lemma locks_inv_end:
  assumes inv: "locks_inv own s"
  shows "locks_inv own (snd (end_transaction s))"
proof (cases "txns s" rule: remdups_adj.cases)
  case 1
  then show ?thesis using locks_inv_error [OF inv] by (simp add: end_transaction_def)
next
  case (2 t)
  note ok = locks_inv_ok [OF inv]
  from end_outermost [OF ok 2] obtain s' where
    e: "end_transaction s = (Ok True, s')" "only_sync (publish t (s\<lparr>txns := []\<rparr>)) s'"
    "sync_handle_exists (sync s') (current_thread s)"
    "mutex_owner (sync s') = owners_without (mutex_owner (sync s)) (held_mutexes s)" by blast
  have "held_mutexes s = set (txn_acquired t)"
    using locks_ok_held [OF ok] 2 by (simp add: acquired_mutexes_def lock_pairs_def)
  moreover have "txns s' = []" "current_thread s' = current_thread s"
    using e(2) same_control_publish [of "s\<lparr>txns := []\<rparr>" t]
    by (simp_all add: only_sync_def same_control_def)
  ultimately have "locks_inv own s'"
    using locks_inv_drop [OF inv 2, of s'] e(3,4) by simp
  with e show ?thesis by simp
next
  case (3 t p ts)
  note ok = locks_inv_ok [OF inv]
  have "set (acquired_mutexes (s\<lparr>txns := merge_into_parent t p # ts\<rparr>)) = set (acquired_mutexes s)"
    using 3 by (auto simp: acquired_mutexes_def lock_pairs_def merge_into_parent_def)
  with locks_ok_merge [OF ok 3] inv 3 show ?thesis
    by (simp add: end_transaction_def locks_inv_def)
qed

lemma locks_inv_exec: "locks_inv own s \<Longrightarrow> locks_inv own (txn_exec c s)"
proof (cases "is_data_cmd c")
  case True
  then show "locks_inv own s \<Longrightarrow> ?thesis" by (rule locks_inv_view [OF lock_view_data])
next
  case False
  have unwind: "locks_inv own s \<Longrightarrow> locks_inv own ((unwind_one ^^ n) s)" for n s
    by (induction n) (simp_all add: locks_inv_unwind_one)
  from False show "locks_inv own s \<Longrightarrow> ?thesis"
    by (cases c) (simp_all add: locks_inv_begin locks_inv_end unwind_transactions_def unwind)
qed

lemma locks_inv_run: "locks_inv own s \<Longrightarrow> locks_inv own (fold txn_exec cs s)"
  by (induction cs arbitrary: s) (simp_all add: locks_inv_exec)

text \<open>C11: a context never keeps a mutex that its transactions took: whatever begins (failing ones
  included), writes, commits and rollbacks an active thread runs, nested or not, once no
  transaction is active the owner of every mutex is what it was at the beginning.\<close>
theorem transactions_release_their_locks:
  assumes "sync_handle_exists (sync s) (current_thread s)" "txns s = []"
    and "txns (fold txn_exec cs s) = []"
  shows "mutex_owner (sync (fold txn_exec cs s)) = mutex_owner (sync s)"
proof -
  have "locks_inv (mutex_owner (sync s)) s"
    using assms(1,2) by (simp add: locks_inv_def locks_ok_def acquired_mutexes_def lock_pairs_def)
  from locks_inv_run [OF this, of cs] assms(3) show ?thesis
    by (simp add: locks_inv_def acquired_mutexes_def lock_pairs_def)
qed

end
