(* ===== verification/Rollback.thy ===== *)
theory Rollback
  imports TransactionProps
begin

text \<open>
  Rollback: inside a transaction every write is deferred and every snapshot that
  \<open>UnwindTransactions\<close> writes back agrees with the shared state, so rolling back leaves the heap,
  the globals and the thread-locals as they were.
\<close>

section \<open>Snapshots agree with the shared state\<close>

type_synonym data = "heap \<times> (string \<Rightarrow> value option) \<times> (string \<Rightarrow> value option)"

definition data_view :: "vm_state \<Rightarrow> data" where
  "data_view s = (heap s, globals s, thread_locals s)"

definition fields_agree :: "heap \<Rightarrow> nat \<times> (nat \<times> value) list \<Rightarrow> bool" where
  "fields_agree h p \<longleftrightarrow> (\<exists>gs. h (fst p) = Some (Obj_Instance gs) \<and>
     (\<forall>q \<in> set (snd p). fst q < length gs \<and> gs ! fst q = snd q))"

fun snapshots_agree :: "data \<Rightarrow> txn \<Rightarrow> bool" where
  "snapshots_agree (h, g, l) t \<longleftrightarrow>
     (\<forall>p \<in> set (prior_globals t). g (fst p) = Some (snd p)) \<and>
     (\<forall>p \<in> set (prior_locals t). l (fst p) = Some (snd p)) \<and>
     (\<forall>p \<in> set (prior_arrays t). h (fst p) = Some (Obj_Array (snd p))) \<and>
     (\<forall>p \<in> set (prior_fields t). fields_agree h p)"

lemma set_emplace: "set (emplace k v m) \<subseteq> insert (k, v) (set m)"
  by (auto simp: emplace_def)

lemma set_update: "set (AList.update k v m) \<subseteq> insert (k, v) (set m)"
  by (induction m) auto

lemma set_emplace_all: "set (emplace_all kvs m) \<subseteq> set kvs \<union> set m"
proof (induction kvs arbitrary: m)
  case (Cons p kvs)
  then show ?case
    using set_emplace [of "fst p" "snd p" m] Cons [of "emplace (fst p) (snd p) m"]
    by (auto simp: emplace_all_def case_prod_beta)
qed (simp add: emplace_all_def)

lemma fold_id: "(\<And>x. x \<in> set xs \<Longrightarrow> f x s = s) \<Longrightarrow> fold f xs s = s"
  by (induction xs) auto

lemma assign_fields_id:
  "(\<And>q. q \<in> set ivs \<Longrightarrow> fst q < length gs \<and> gs ! fst q = snd q) \<Longrightarrow> assign_fields ivs gs = gs"
  unfolding assign_fields_def by (rule fold_id) (auto split: prod.splits intro: list_update_same_conv [THEN iffD2])

lemma restore_id:
  assumes "snapshots_agree (data_view s) t"
  shows "restore t s = s"
proof -
  have "store_fields p s = s" if "p \<in> set (prior_fields t)" for p
    using assms that assign_fields_id [of "snd p"]
    by (fastforce simp: data_view_def fields_agree_def store_fields_def fun_upd_idem)
  moreover have "store_array p s = s" if "p \<in> set (prior_arrays t)" for p
    using assms that by (auto simp: data_view_def store_array_def fun_upd_idem)
  moreover have "store_thread_local p s = s" if "p \<in> set (prior_locals t)" for p
    using assms that by (auto simp: data_view_def store_thread_local_def fun_upd_idem)
  moreover have "store_global p s = s" if "p \<in> set (prior_globals t)" for p
    using assms that
    by (auto simp: data_view_def store_global_def runtime_set_global_def fun_upd_idem)
  ultimately show ?thesis by (simp add: restore_def fold_id)
qed

section \<open>The invariant inside a transaction\<close>

definition inside :: "data \<Rightarrow> vm_state \<Rightarrow> bool" where
  "inside d s \<longleftrightarrow> data_view s = d \<and> (\<forall>t \<in> set (txns s). snapshots_agree d t)"

lemma inside_update_txn:
  assumes "inside d s" "\<And>t. snapshots_agree d t \<Longrightarrow> snapshots_agree d (g t)"
  shows "inside d (update_txn g s)"
  using assms by (auto simp: inside_def update_txn_def data_view_def split: list.splits)

lemma agree_record_global:
  "snapshots_agree (h, g, l) t \<Longrightarrow> snapshots_agree (h, g, l) (record_global x v (g x) t)"
  using set_emplace [of x _ "prior_globals t"]
  by (fastforce simp: record_global_def split: option.splits)

lemma agree_record_local:
  "l x = Some p \<Longrightarrow> snapshots_agree (h, g, l) t \<Longrightarrow>
   snapshots_agree (h, g, l) (record_thread_local x v p t)"
  using set_emplace [of x p "prior_locals t"] by (fastforce simp: record_thread_local_def)

lemma agree_record_array:
  "h a = Some (Obj_Array es) \<Longrightarrow> snapshots_agree (h, g, l) t \<Longrightarrow>
   snapshots_agree (h, g, l) (record_prior_array a es t)"
  using set_emplace [of a es "prior_arrays t"] by (fastforce simp: record_prior_array_def)

lemma agree_pending_array:
  "snapshots_agree d (set_pending_array a es t) = snapshots_agree d t"
  "snapshots_agree d (t\<lparr>pending_arrays := x\<rparr>) = snapshots_agree d t"
  "snapshots_agree d (set_pending_field a i v t) = snapshots_agree d t"
  by (cases d; simp add: set_pending_array_def set_pending_field_def)+

lemma inner_map_agree:
  "\<forall>p \<in> set m. fields_agree h p \<Longrightarrow> h a = Some (Obj_Instance gs) \<Longrightarrow> q \<in> set (inner_map m a) \<Longrightarrow>
   fst q < length gs \<and> gs ! fst q = snd q"
proof (cases "map_of m a")
  case (Some fs)
  moreover assume "\<forall>p \<in> set m. fields_agree h p" "h a = Some (Obj_Instance gs)" "q \<in> set (inner_map m a)"
  moreover from this Some have "fields_agree h (a, fs)" by (blast dest: map_of_SomeD)
  ultimately show ?thesis by (auto simp: inner_map_def fields_agree_def)
qed (simp add: inner_map_def)

lemma agree_record_field:
  assumes "h a = Some (Obj_Instance gs)" "i < length gs" "snapshots_agree (h, g, l) t"
  shows "snapshots_agree (h, g, l) (record_field a i (gs ! i) t)"
proof -
  let ?m = "emplace i (gs ! i) (inner_map (prior_fields t) a)"
  have "fields_agree h (a, ?m)"
    using assms inner_map_agree [of "prior_fields t" h a gs] set_emplace [of i "gs ! i"]
    by (fastforce simp: fields_agree_def)
  with assms(3) set_update [of a ?m "prior_fields t"] show ?thesis
    by (fastforce simp: record_field_def)
qed

lemma agree_merge_fields:
  "\<forall>p \<in> set m. fields_agree h p \<Longrightarrow> \<forall>p \<in> set new. fields_agree h p \<Longrightarrow>
   p \<in> set (merge_prior_fields new m) \<Longrightarrow> fields_agree h p"
proof (induction new arbitrary: m)
  case (Cons q new)
  obtain a fs where q: "q = (a, fs)" by (cases q)
  then obtain gs where gs: "h a = Some (Obj_Instance gs)"
    "\<forall>q \<in> set fs. fst q < length gs \<and> gs ! fst q = snd q"
    using Cons.prems by (auto simp: fields_agree_def)
  let ?fs = "emplace_all fs (inner_map m a)"
  have "fields_agree h (a, ?fs)"
    using gs inner_map_agree [OF Cons.prems(1) gs(1)] set_emplace_all [of fs "inner_map m a"]
    by (auto simp: fields_agree_def)
  with Cons.prems(1) set_update [of a ?fs m] have "\<forall>p \<in> set (AList.update a ?fs m). fields_agree h p"
    by blast
  with Cons.IH [of "AList.update a ?fs m"] Cons.prems q show ?case
    by (simp add: merge_prior_fields_def)
qed (simp add: merge_prior_fields_def)

lemma agree_merge:
  "snapshots_agree d t \<Longrightarrow> snapshots_agree d p \<Longrightarrow> snapshots_agree d (merge_into_parent t p)"
proof (cases d)
  case (fields h g l)
  assume "snapshots_agree d t" "snapshots_agree d p"
  with fields agree_merge_fields [of "prior_fields p" h "prior_fields t"]
    set_emplace_all [of "prior_globals t" "prior_globals p"]
    set_emplace_all [of "prior_locals t" "prior_locals p"]
    set_emplace_all [of "prior_arrays t" "prior_arrays p"]
  show ?thesis by (simp add: merge_into_parent_def) blast
qed

declare snapshots_agree.simps [simp del]

lemmas agree_intros = agree_record_global agree_record_local agree_record_array agree_record_field

lemma inside_data:
  assumes "inside d s" "txns s \<noteq> []" "is_data_cmd c"
  shows "inside d (txn_exec c s)"
proof -
  have d: "d = (heap s, globals s, thread_locals s)" using assms(1) by (simp add: inside_def data_view_def)
  note upd = inside_update_txn [OF assms(1), unfolded d]
  show ?thesis
    using assms(1,2,3) unfolding d
    by (cases c)
      (auto simp: set_global_def set_thread_local_def set_array_element_def replace_array_def
        push_array_element_def pop_array_element_def set_instance_field_def stage_array_def
        record_instance_field_write_def array_elements_def instance_fields_def Let_def
        agree_pending_array
        split: option.splits hobj.splits intro!: inside_update_txn agree_intros)
qed

text \<open>Beginning, committing into a parent and rolling back keep the invariant.\<close>

lemma begin_new_txn:
  assumes "locks_ok s"
  shows "data_view (snd (begin_transaction ms s)) = data_view s \<and>
    (txns (snd (begin_transaction ms s)) = txns s \<or>
     (\<exists>a b. txns (snd (begin_transaction ms s)) = new_txn a b # txns s))"
proof (cases "ms \<noteq> [] \<and> mutex_ids (heap s) ms \<noteq> None")
  case False
  then show ?thesis
    by (auto simp: begin_transaction_def fail_with_def raise_error_def seqE_def bindE_def data_view_def)
next
  case True
  then obtain ids where "ms \<noteq> []" "mutex_ids (heap s) ms = Some ids" by blast
  from begin_transaction_result [OF assms this] show ?thesis
    by (auto simp: only_sync_def data_view_def split: if_splits) blast
qed

lemma agree_new_txn [simp]: "snapshots_agree d (new_txn a b)"
  by (cases d) (simp add: snapshots_agree.simps new_txn_def)

lemma inside_begin:
  "inside d s \<Longrightarrow> locks_ok s \<Longrightarrow> inside d (snd (begin_transaction ms s))"
  using begin_new_txn [of s ms] by (auto simp: inside_def)

lemma inside_end:
  "inside d s \<Longrightarrow> 2 \<le> length (txns s) \<Longrightarrow> inside d (snd (end_transaction s))"
  by (cases "txns s" rule: remdups_adj.cases)
    (auto simp: end_transaction_def inside_def data_view_def agree_merge)

lemma release_quietly_data [simp]:
  "heap (fold release_quietly ms s) = heap s"
  "globals (fold release_quietly ms s) = globals s"
  "thread_locals (fold release_quietly ms s) = thread_locals s"
  "txns (fold release_quietly ms s) = txns s"
  by (induction ms arbitrary: s) (auto simp: release_quietly_def)

lemma inside_unwind_one:
  assumes "inside d s"
  shows "inside d (unwind_one s) \<and> txns (unwind_one s) = tl (txns s)"
proof (cases "txns s")
  case Nil
  with assms show ?thesis by (simp add: unwind_one_def)
next
  case (Cons t ts)
  let ?s = "s\<lparr>txns := ts\<rparr>"
  have "data_view ?s = d" "snapshots_agree d t" "\<forall>u \<in> set ts. snapshots_agree d u"
    using assms Cons by (auto simp: inside_def data_view_def)
  then have "restore t ?s = ?s" by (intro restore_id) simp
  with Cons assms show ?thesis
    by (auto simp: unwind_one_def inside_def data_view_def)
qed

lemma inside_unwind:
  "inside d s \<Longrightarrow> inside d ((unwind_one ^^ n) s) \<and> txns ((unwind_one ^^ n) s) = drop n (txns s)"
proof (induction n)
  case (Suc n)
  with inside_unwind_one [of d "(unwind_one ^^ n) s"] show ?case
    by (simp add: drop_Suc tl_drop)
qed simp

section \<open>Rolling back\<close>

text \<open>The commands of a run that never commits the outermost transaction.\<close>

fun stays_inside :: "txn_cmd list \<Rightarrow> vm_state \<Rightarrow> bool" where
  "stays_inside [] s = True"
| "stays_inside (c # cs) s \<longleftrightarrow> (if c = Cmd_End then 2 \<le> length (txns s) else True) \<and>
     txns (txn_exec c s) \<noteq> [] \<and> stays_inside cs (txn_exec c s)"

lemma inside_exec:
  assumes "inside d s" "locks_ok s" "txns s \<noteq> []" "if c = Cmd_End then 2 \<le> length (txns s) else True"
  shows "inside d (txn_exec c s)"
proof (cases "is_data_cmd c")
  case False
  with assms show ?thesis
    by (cases c) (auto simp: inside_begin inside_end unwind_transactions_def inside_unwind)
qed (use assms inside_data in blast)

lemma inside_run:
  "inside d s \<Longrightarrow> locks_inv own s \<Longrightarrow> txns s \<noteq> [] \<Longrightarrow> stays_inside cs s \<Longrightarrow>
   inside d (fold txn_exec cs s)"
proof (induction cs arbitrary: s)
  case (Cons c cs)
  with inside_exec [of d s c] locks_inv_exec [of own s c] locks_inv_ok [of own s]
  show ?case by (auto split: if_splits)
qed simp


section \<open>A concrete run\<close>

text \<open>Mutexes 1 and 2, an array, an instance and a global.\<close>

definition demo_state :: vm_state where
  "demo_state = init_state\<lparr>
     sync := snd (create_mutex (snd (create_mutex init_sync))),
     heap := [1 \<mapsto> Obj_Handle 1, 2 \<mapsto> Obj_Handle 2, 3 \<mapsto> Obj_Array [VBool True],
              4 \<mapsto> Obj_Instance [VNull, VNull]],
     globals := [''g'' \<mapsto> VNull], next_address := 5\<rparr>"

definition demo_run :: "txn_cmd list" where
  "demo_run = [Cmd_Push 3 VNull, Cmd_Begin [1, 2], Cmd_Field 4 1 (VBool True), Cmd_End,
     Cmd_Global ''g'' (VBool False), Cmd_Begin [2], Cmd_Unwind 1]"

lemma demo_active: "sync_handle_exists (sync demo_state) (current_thread demo_state)"
  by code_simp

lemma demo_idle: "txns demo_state = []"
  by code_simp


theorem transactions_release_their_locks_witness:
  "mutex_owner (sync (fold txn_exec [Cmd_Begin [1, 2], Cmd_Begin [2], Cmd_End, Cmd_End] demo_state))
   = mutex_owner (sync demo_state)"
proof (rule transactions_release_their_locks [OF demo_active demo_idle])
  show "txns (fold txn_exec [Cmd_Begin [1, 2], Cmd_Begin [2], Cmd_End, Cmd_End] demo_state) = []"
    by code_simp
qed

text \<open>a nested transaction loses its parent's update to an array: its first write copies the
  shared array, not the parent's pending one, and its commit replaces the parent's copy. Pushing
  one element in the outer and one in the inner transaction publishes only the second.\<close>
theorem nested_array_update_is_lost:
  "\<exists>s. array_elements (heap s) 3 = Some [VBool True] \<and> txns s = [] \<and>
     (let s' = fold txn_exec [Cmd_Begin [1], Cmd_Push 3 (VInt 7), Cmd_Begin [2],
                 Cmd_Push 3 (VInt 8), Cmd_End, Cmd_End] s in
      txns s' = [] \<and> array_elements (heap s') 3 = Some [VBool True, VInt 8])"
  by (rule exI [of _ demo_state]) code_simp

end
