(* ===== verification/Commit.thy ===== *)
theory Commit
  imports Rollback
begin

text \<open>
  Commit: a transaction that is not nested publishes exactly what the same commands would have
  written without it. The transaction's deferred writes are an overlay over the shared state; each
  command acts on the overlaid state as it acts directly.
\<close>

section \<open>The overlay, pointwise\<close>

definition overlay :: "('k \<times> 'v) list \<Rightarrow> 'k \<Rightarrow> 'v \<Rightarrow> 'v" where
  "overlay m k v = (case map_of m k of None \<Rightarrow> v | Some w \<Rightarrow> w)"

definition overlay_fields :: "(nat \<times> value) list \<Rightarrow> value list \<Rightarrow> value list" where
  "overlay_fields ivs fs = map (\<lambda>i. overlay ivs i (fs ! i)) [0..<length fs]"

fun overlay_object :: "txn \<Rightarrow> nat \<Rightarrow> hobj \<Rightarrow> hobj" where
  "overlay_object t a (Obj_Array es) = Obj_Array (overlay (pending_arrays t) a es)"
| "overlay_object t a (Obj_Instance fs) = Obj_Instance (overlay_fields (inner_map (pending_fields t) a) fs)"
| "overlay_object t a obj = obj"

definition overlay_data :: "txn \<Rightarrow> vm_state \<Rightarrow> data" where
  "overlay_data t s =
     ((\<lambda>a. map_option (overlay_object t a) (heap s a)),
      (\<lambda>x. map_option (overlay (pending_globals t) x) (globals s x)),
      (\<lambda>x. map_option (overlay (pending_locals t) x) (thread_locals s x)))"

definition txn_wf :: "txn \<Rightarrow> vm_state \<Rightarrow> bool" where
  "txn_wf t s \<longleftrightarrow> heap s null = None \<and>
     distinct (map fst (pending_globals t)) \<and> distinct (map fst (pending_locals t)) \<and>
     distinct (map fst (pending_arrays t)) \<and> distinct (map fst (pending_fields t)) \<and>
     fst ` set (pending_locals t) \<subseteq> dom (thread_locals s) \<and>
     (\<forall>a \<in> fst ` set (pending_arrays t). a \<noteq> null \<and> array_elements (heap s) a \<noteq> None) \<and>
     (\<forall>a \<in> fst ` set (pending_fields t). instance_fields (heap s) a \<noteq> None) \<and>
     (\<forall>p \<in> set (pending_fields t). distinct (map fst (snd p)))"

text \<open>Folding updates with distinct keys is pointwise.\<close>

lemma fold_store_global:
  "distinct (map fst kvs) \<Longrightarrow>
   globals (fold store_global kvs s) = (\<lambda>x. map_option (overlay kvs x) (globals s x))"
proof (induction kvs arbitrary: s)
  case (Cons p kvs)
  then have "map_of kvs (fst p) = None" by (simp add: map_of_eq_None_iff)
  with Cons show ?case
    by (auto simp: store_global_def runtime_set_global_def overlay_def fun_eq_iff option.map_comp
        split: option.splits)
qed (auto simp: overlay_def fun_eq_iff map_option_case split: option.splits)

lemma fold_store_local:
  "distinct (map fst kvs) \<Longrightarrow> thread_locals (fold store_thread_local kvs s) =
     (\<lambda>x. case map_of kvs x of Some v \<Rightarrow> Some v | None \<Rightarrow> thread_locals s x)"
proof (induction kvs arbitrary: s)
  case (Cons p kvs)
  then have "map_of kvs (fst p) = None" by (simp add: map_of_eq_None_iff)
  with Cons show ?case
    by (auto simp: store_thread_local_def fun_eq_iff split: option.splits)
qed simp

lemma fold_store_array:
  "distinct (map fst kvs) \<Longrightarrow> null \<notin> fst ` set kvs \<Longrightarrow> heap (fold store_array kvs s) =
     (\<lambda>a. case map_of kvs a of Some es \<Rightarrow> Some (Obj_Array es) | None \<Rightarrow> heap s a)"
proof (induction kvs arbitrary: s)
  case (Cons p kvs)
  then have "map_of kvs (fst p) = None" by (simp add: map_of_eq_None_iff)
  with Cons show ?case
    by (auto simp: store_array_def fun_eq_iff split: option.splits)
qed simp

lemma assign_fields_overlay:
  "distinct (map fst ivs) \<Longrightarrow> assign_fields ivs fs = overlay_fields ivs fs"
proof (induction ivs arbitrary: fs)
  case Nil
  then show ?case by (simp add: assign_fields_def overlay_fields_def overlay_def map_nth)
next
  case (Cons p ivs)
  obtain i v where p: "p = (i, v)" by (cases p)
  let ?fs = "if i < length fs then fs[i := v] else fs"
  have "map_of ivs i = None" using Cons.prems p by (simp add: map_of_eq_None_iff)
  then have "overlay_fields ivs ?fs = overlay_fields (p # ivs) fs"
    by (auto simp: overlay_fields_def overlay_def p nth_list_update split: option.splits)
  moreover have "assign_fields (p # ivs) fs = assign_fields ivs ?fs"
    by (simp add: assign_fields_def p)
  ultimately show ?case using Cons by simp
qed

lemma fold_store_fields:
  "distinct (map fst kvs) \<Longrightarrow> heap (fold store_fields kvs s) =
     (\<lambda>a. case map_of kvs a of
            None \<Rightarrow> heap s a
          | Some ivs \<Rightarrow> (case heap s a of
                Some (Obj_Instance fs) \<Rightarrow> Some (Obj_Instance (assign_fields ivs fs))
              | obj \<Rightarrow> obj))"
proof (induction kvs arbitrary: s)
  case (Cons p kvs)
  then have "map_of kvs (fst p) = None" by (simp add: map_of_eq_None_iff)
  with Cons show ?case
    by (auto simp: store_fields_def fun_eq_iff split: option.splits hobj.splits)
qed simp

lemma store_global_others [simp]:
  "heap (fold store_global gs s) = heap s" "thread_locals (fold store_global gs s) = thread_locals s"
  by (induction gs arbitrary: s) (auto simp: store_global_def runtime_set_global_def)

lemma store_local_others [simp]:
  "heap (fold store_thread_local ls s) = heap s" "globals (fold store_thread_local ls s) = globals s"
  by (induction ls arbitrary: s) (auto simp: store_thread_local_def)

lemma store_array_others [simp]:
  "globals (fold store_array as s) = globals s"
  "thread_locals (fold store_array as s) = thread_locals s"
  by (induction as arbitrary: s) (auto simp: store_array_def)

lemma store_fields_others [simp]:
  "globals (fold store_fields fs s) = globals s"
  "thread_locals (fold store_fields fs s) = thread_locals s"
  by (induction fs arbitrary: s) (auto simp: store_fields_def split: option.splits hobj.splits)

lemma map_of_distinct_snd:
  "map_of m k = Some v \<Longrightarrow> \<forall>p \<in> set m. P (snd p) \<Longrightarrow> P v"
  by (force dest: map_of_SomeD)

lemma array_elements_None [simp]: "array_elements h a \<noteq> None \<longleftrightarrow> (\<exists>es. h a = Some (Obj_Array es))"
  by (auto simp: array_elements_def split: option.splits hobj.splits)

lemma instance_fields_None [simp]:
  "instance_fields h a \<noteq> None \<longleftrightarrow> (\<exists>fs. h a = Some (Obj_Instance fs))"
  by (auto simp: instance_fields_def split: option.splits hobj.splits)

lemma txn_wf_keys:
  assumes "txn_wf t s"
  shows "map_of (pending_arrays t) a \<noteq> None \<Longrightarrow> \<exists>es. heap s a = Some (Obj_Array es)"
    and "map_of (pending_fields t) a \<noteq> None \<Longrightarrow> \<exists>fs. heap s a = Some (Obj_Instance fs)"
    and "map_of (pending_locals t) x \<noteq> None \<Longrightarrow> thread_locals s x \<noteq> None"
    and "map_of (pending_fields t) a = Some ivs \<Longrightarrow> distinct (map fst ivs)"
proof -
  show "\<exists>es. heap s a = Some (Obj_Array es)" if "map_of (pending_arrays t) a \<noteq> None"
  proof -
    have "a \<in> fst ` set (pending_arrays t)" using that by (rule keys_map_of [THEN iffD2])
    with assms show ?thesis unfolding txn_wf_def array_elements_None by blast
  qed
  show "\<exists>fs. heap s a = Some (Obj_Instance fs)" if "map_of (pending_fields t) a \<noteq> None"
  proof -
    have "a \<in> fst ` set (pending_fields t)" using that by (rule keys_map_of [THEN iffD2])
    with assms show ?thesis unfolding txn_wf_def instance_fields_None by blast
  qed
  show "thread_locals s x \<noteq> None" if "map_of (pending_locals t) x \<noteq> None"
  proof -
    have "x \<in> fst ` set (pending_locals t)" using that by (rule keys_map_of [THEN iffD2])
    with assms show ?thesis unfolding txn_wf_def by blast
  qed
  show "distinct (map fst ivs)" if "map_of (pending_fields t) a = Some ivs"
  proof -
    have "(a, ivs) \<in> set (pending_fields t)" using that by (rule map_of_SomeD)
    with assms show ?thesis unfolding txn_wf_def by (metis snd_conv)
  qed
qed

lemma publish_overlay:
  assumes wf: "txn_wf t s"
  shows "data_view (publish t s) = overlay_data t s"
proof -
  have null: "null \<notin> fst ` set (pending_arrays t)" using wf by (auto simp: txn_wf_def)
  have "heap (publish t s) a = map_option (overlay_object t a) (heap s a)" for a
  proof -
    note arr = txn_wf_keys(1) [OF wf, of a] and inst = txn_wf_keys(2) [OF wf, of a]
      and dist = txn_wf_keys(4) [OF wf, of a]
    have ds: "distinct (map fst (pending_arrays t))" "distinct (map fst (pending_fields t))"
      using wf by (simp_all add: txn_wf_def)
    show ?thesis
      using ds null arr inst dist
      by (cases "heap s a"; cases "the (heap s a)")
        (auto simp: publish_def fold_store_fields fold_store_array overlay_def
          inner_map_def assign_fields_overlay overlay_fields_def map_nth split: option.splits)
  qed
  moreover have "globals (publish t s) = (\<lambda>x. map_option (overlay (pending_globals t) x) (globals s x))"
    using wf by (simp add: publish_def txn_wf_def fold_store_global)
  moreover have "thread_locals (publish t s) =
      (\<lambda>x. map_option (overlay (pending_locals t) x) (thread_locals s x))"
  proof -
    have "thread_locals (publish t s) x = map_option (overlay (pending_locals t) x) (thread_locals s x)"
      for x
      using wf txn_wf_keys(3) [OF wf, of x]
      by (cases "thread_locals s x"; cases "map_of (pending_locals t) x")
        (auto simp: publish_def txn_wf_def fold_store_local overlay_def)
    then show ?thesis by blast
  qed
  ultimately show ?thesis by (simp add: data_view_def overlay_data_def fun_eq_iff)
qed

section \<open>Simulation of the direct run\<close>

definition simulates :: "txn \<Rightarrow> vm_state \<Rightarrow> vm_state \<Rightarrow> bool" where
  "simulates t s d \<longleftrightarrow> txns s = [t] \<and> txns d = [] \<and> txn_wf t s \<and> data_view d = overlay_data t s"

lemma simulates_data:
  assumes "simulates t s d"
  shows "array_elements (heap d) a =
      map_option (overlay (pending_arrays t) a) (array_elements (heap s) a)"
    and "instance_fields (heap d) a =
      map_option (overlay_fields (inner_map (pending_fields t) a)) (instance_fields (heap s) a)"
    and "heap d a = map_option (overlay_object t a) (heap s a)"
    and "globals d x = map_option (overlay (pending_globals t) x) (globals s x)"
    and "thread_locals d x = map_option (overlay (pending_locals t) x) (thread_locals s x)"
proof -
  have h: "heap d a = map_option (overlay_object t a) (heap s a)"
    and "globals d x = map_option (overlay (pending_globals t) x) (globals s x)"
    and "thread_locals d x = map_option (overlay (pending_locals t) x) (thread_locals s x)"
    using assms by (simp_all add: simulates_def data_view_def overlay_data_def)
  then show "heap d a = map_option (overlay_object t a) (heap s a)"
    "globals d x = map_option (overlay (pending_globals t) x) (globals s x)"
    "thread_locals d x = map_option (overlay (pending_locals t) x) (thread_locals s x)" by simp_all
  show "array_elements (heap d) a =
      map_option (overlay (pending_arrays t) a) (array_elements (heap s) a)"
    using h by (auto simp: array_elements_def split: option.splits hobj.splits elim: overlay_object.elims)
  show "instance_fields (heap d) a =
      map_option (overlay_fields (inner_map (pending_fields t) a)) (instance_fields (heap s) a)"
    using h by (auto simp: instance_fields_def split: option.splits hobj.splits elim: overlay_object.elims)
qed

lemma data_view_eqI:
  "(\<And>a. heap d a = map_option (overlay_object t a) (heap s a)) \<Longrightarrow>
   (\<And>x. globals d x = map_option (overlay (pending_globals t) x) (globals s x)) \<Longrightarrow>
   (\<And>x. thread_locals d x = map_option (overlay (pending_locals t) x) (thread_locals s x)) \<Longrightarrow>
   data_view d = overlay_data t s"
  by (simp add: data_view_def overlay_data_def fun_eq_iff)

text \<open>A write to an array ends in one form in either mode: the array has new elements.\<close>

lemma overlay_update [simp]:
  "overlay (AList.update k v m) j = (if j = k then (\<lambda>_. v) else overlay m j)"
  by (auto simp: overlay_def update_conv' fun_eq_iff)

lemma overlay_cong: "map_of m k = map_of n k \<Longrightarrow> overlay m k = overlay n k"
  by (simp add: overlay_def fun_eq_iff)

lemma simulates_array:
  assumes sim: "simulates t s d" and arr: "array_elements (heap s) a = Some es"
    and t': "map_of (pending_arrays t') = (map_of (pending_arrays t))(a \<mapsto> new)"
      "distinct (map fst (pending_arrays t'))"
      "pending_fields t' = pending_fields t" "pending_globals t' = pending_globals t"
      "pending_locals t' = pending_locals t"
    and s': "txns s' = [t']" "data_view s' = data_view s"
    and d': "txns d' = []" "data_view d' = ((heap d)(a \<mapsto> Obj_Array new), globals d, thread_locals d)"
  shows "simulates t' s' d'"
proof -
  have h: "heap s a = Some (Obj_Array es)"
    using arr by (auto simp: array_elements_def split: option.splits hobj.splits)
  have eqs: "heap s' = heap s" "globals s' = globals s" "thread_locals s' = thread_locals s"
    "heap d' = (heap d)(a \<mapsto> Obj_Array new)" "globals d' = globals d" "thread_locals d' = thread_locals d"
    using s' d' by (simp_all add: data_view_def)
  have nn: "a \<noteq> null" using sim h by (auto simp: simulates_def txn_wf_def)
  have keys: "fst ` set (pending_arrays t') = insert a (fst ` set (pending_arrays t))"
    using t'(1) by (auto simp only: set_eq_iff keys_map_of insert_iff fun_upd_apply split: if_splits)
  have pending: "overlay (pending_arrays t') b = (if b = a then (\<lambda>_. new) else overlay (pending_arrays t) b)" for b
    using t'(1) by (auto simp: overlay_def fun_eq_iff)
  have other: "overlay_object t' b obj = (if b = a then (case obj of Obj_Array _ \<Rightarrow> Obj_Array new
      | _ \<Rightarrow> overlay_object t b obj) else overlay_object t b obj)" for b obj
    using t' by (cases obj) (simp_all add: pending)
  have wf: "txn_wf t' s'"
    using sim nn arr t'(2-) unfolding simulates_def txn_wf_def keys eqs by auto
  have "data_view d' = overlay_data t' s'"
  proof (rule data_view_eqI)
    show "heap d' b = map_option (overlay_object t' b) (heap s' b)" for b
      using simulates_data(3) [OF sim, of b] h
      by (cases "b = a"; cases "heap s b") (auto simp: eqs other)
  qed (use simulates_data(4,5) [OF sim] t'(3-) in \<open>simp_all add: eqs\<close>)
  with wf s' d' show ?thesis by (simp add: simulates_def)
qed

text \<open>Each command.\<close>

lemma update_top: "txns s = [t] \<Longrightarrow> update_txn g s = s\<lparr>txns := [g t]\<rparr>"
  by (simp add: update_txn_def)

lemma staged_copy:
  "map_of (emplace a es m) a = Some (overlay m a es)"
  by (simp add: overlay_def split: option.splits)

lemma pending_copy_staged [simp]:
  "pending_copy a (s\<lparr>txns := [stage_array a es t]\<rparr>) = overlay (pending_arrays t) a es"
  by (simp add: pending_copy_def stage_array_def overlay_def split: option.splits)

lemma map_of_stage:
  "(map_of (emplace a es m))(a \<mapsto> p) = (map_of m)(a \<mapsto> p)"
  by (auto simp: fun_eq_iff)

lemma simulates_staged:
  assumes sim: "simulates t s d" and arr: "array_elements (heap s) a = Some es"
  shows "simulates (stage_array a es t) (s\<lparr>txns := [stage_array a es t]\<rparr>) d"
    and "simulates (set_pending_array a new (stage_array a es t))
      (s\<lparr>txns := [set_pending_array a new (stage_array a es t)]\<rparr>)
      (d\<lparr>heap := (heap d)(a \<mapsto> Obj_Array new)\<rparr>)"
    and "simulates (set_pending_array a new (record_prior_array a es t))
      (s\<lparr>txns := [set_pending_array a new (record_prior_array a es t)]\<rparr>)
      (d\<lparr>heap := (heap d)(a \<mapsto> Obj_Array new)\<rparr>)"
proof -
  have dist: "distinct (map fst (pending_arrays t))" and d0: "txns d = []"
    using sim by (simp_all add: simulates_def txn_wf_def)
  have h: "heap d a = Some (Obj_Array (overlay (pending_arrays t) a es))"
    using simulates_data(1) [OF sim, of a] arr
    by (auto simp: array_elements_def split: option.splits hobj.splits)
  have m: "map_of (emplace a es (pending_arrays t)) =
      (map_of (pending_arrays t))(a \<mapsto> overlay (pending_arrays t) a es)"
    by (auto simp: overlay_def fun_eq_iff)
  show "simulates (stage_array a es t) (s\<lparr>txns := [stage_array a es t]\<rparr>) d"
    by (rule simulates_array [OF sim arr, of _ "overlay (pending_arrays t) a es"])
      (use h dist d0 m in \<open>simp_all add: stage_array_def record_prior_array_def data_view_def
        fun_upd_idem\<close>)
  show "simulates (set_pending_array a new (stage_array a es t))
      (s\<lparr>txns := [set_pending_array a new (stage_array a es t)]\<rparr>)
      (d\<lparr>heap := (heap d)(a \<mapsto> Obj_Array new)\<rparr>)"
    by (rule simulates_array [OF sim arr, of _ new])
      (use dist d0 m in \<open>simp_all add: stage_array_def record_prior_array_def data_view_def
        set_pending_array_def update_conv' distinct_update\<close>)
  show "simulates (set_pending_array a new (record_prior_array a es t))
      (s\<lparr>txns := [set_pending_array a new (record_prior_array a es t)]\<rparr>)
      (d\<lparr>heap := (heap d)(a \<mapsto> Obj_Array new)\<rparr>)"
    by (rule simulates_array [OF sim arr, of _ new])
      (use dist d0 in \<open>simp_all add: record_prior_array_def data_view_def
        set_pending_array_def update_conv' distinct_update\<close>)
qed

lemma overlay_fields_length [simp]: "length (overlay_fields ivs fs) = length fs"
  by (simp add: overlay_fields_def)

lemma overlay_fields_update:
  "i < length fs \<Longrightarrow> overlay_fields (AList.update i v ivs) fs = (overlay_fields ivs fs)[i := v]"
  by (rule nth_equalityI) (auto simp: overlay_fields_def nth_list_update)

lemma simulates_field:
  assumes sim: "simulates t s d" and inst: "instance_fields (heap s) a = Some fs" and i: "i < length fs"
  shows "simulates (set_pending_field a i v (record_field a i w t))
    (s\<lparr>txns := [set_pending_field a i v (record_field a i w t)]\<rparr>)
    (d\<lparr>heap := (heap d)(a \<mapsto>
       Obj_Instance ((overlay_fields (inner_map (pending_fields t) a) fs)[i := v]))\<rparr>)"
proof -
  let ?t = "set_pending_field a i v (record_field a i w t)"
  let ?ivs = "AList.update i v (inner_map (pending_fields t) a)"
  have t': "pending_fields ?t = AList.update a ?ivs (pending_fields t)"
    "pending_arrays ?t = pending_arrays t" "pending_globals ?t = pending_globals t"
    "pending_locals ?t = pending_locals t"
    by (simp_all add: set_pending_field_def record_field_def)
  have h: "heap s a = Some (Obj_Instance fs)"
    using inst by (auto simp: instance_fields_def split: option.splits hobj.splits)
  have wf: "txn_wf t s" using sim by (simp add: simulates_def)
  have inner: "inner_map (pending_fields ?t) b = (if b = a then ?ivs else inner_map (pending_fields t) b)" for b
    by (simp add: t' inner_map_def update_conv')
  have other: "overlay_object ?t b = overlay_object t b" if "b \<noteq> a" for b
  proof
    show "overlay_object ?t b obj = overlay_object t b obj" for obj
      using that by (cases obj) (simp_all add: t'(2) inner)
  qed
  have "distinct (map fst (inner_map (pending_fields t) a))"
    using txn_wf_keys(4) [OF wf, of a] by (simp add: inner_map_def split: option.splits)
  then have "distinct (map fst ?ivs)" by (rule distinct_update)
  then have "\<forall>p \<in> set (pending_fields ?t). distinct (map fst (snd p))"
    using wf set_update [of a ?ivs "pending_fields t"] by (auto simp: t' txn_wf_def)
  then have wf': "txn_wf ?t (s\<lparr>txns := [?t]\<rparr>)"
    using wf inst unfolding txn_wf_def t' by (auto simp: distinct_update)
  have "data_view (d\<lparr>heap := (heap d)(a \<mapsto>
      Obj_Instance ((overlay_fields (inner_map (pending_fields t) a) fs)[i := v]))\<rparr>)
      = overlay_data ?t (s\<lparr>txns := [?t]\<rparr>)"
    by (rule data_view_eqI)
      (use simulates_data(3-5) [OF sim] h i in
        \<open>auto simp: t'(2-) other inner overlay_fields_update\<close>)
  with sim wf' show ?thesis by (simp add: simulates_def)
qed

lemma simulates_global:
  assumes sim: "simulates t s d"
  shows "simulates (record_global x v w t) (s\<lparr>txns := [record_global x v w t]\<rparr>)
    (snd (runtime_set_global x v d))"
proof -
  let ?t = "record_global x v w t" and ?d = "snd (runtime_set_global x v d)"
  have t': "pending_globals ?t = AList.update x v (pending_globals t)"
    "pending_arrays ?t = pending_arrays t" "pending_fields ?t = pending_fields t"
    "pending_locals ?t = pending_locals t"
    by (simp_all add: record_global_def)
  have wf': "txn_wf ?t (s\<lparr>txns := [?t]\<rparr>)"
    using sim by (simp add: simulates_def txn_wf_def t' distinct_update)
  have other: "overlay_object ?t b = overlay_object t b" for b
  proof
    show "overlay_object ?t b obj = overlay_object t b obj" for obj
      by (cases obj) (simp_all add: t')
  qed
  have "data_view ?d = overlay_data ?t (s\<lparr>txns := [?t]\<rparr>)"
    by (rule data_view_eqI)
      (use simulates_data(3-5) [OF sim] in \<open>auto simp: runtime_set_global_def t' other
        map_option_case split: option.splits\<close>)
  with sim wf' show ?thesis by (simp add: simulates_def runtime_set_global_def)
qed

lemma simulates_local:
  assumes sim: "simulates t s d" and x: "thread_locals s x = Some w"
  shows "simulates (record_thread_local x v w t) (s\<lparr>txns := [record_thread_local x v w t]\<rparr>)
    (d\<lparr>thread_locals := (thread_locals d)(x \<mapsto> v)\<rparr>)"
proof -
  let ?t = "record_thread_local x v w t"
  have t': "pending_locals ?t = AList.update x v (pending_locals t)"
    "pending_arrays ?t = pending_arrays t" "pending_fields ?t = pending_fields t"
    "pending_globals ?t = pending_globals t"
    by (simp_all add: record_thread_local_def)
  have wf': "txn_wf ?t (s\<lparr>txns := [?t]\<rparr>)"
    using sim x by (auto simp: simulates_def txn_wf_def t' distinct_update)
  have other: "overlay_object ?t b = overlay_object t b" for b
  proof
    show "overlay_object ?t b obj = overlay_object t b obj" for obj
      by (cases obj) (simp_all add: t')
  qed
  have "data_view (d\<lparr>thread_locals := (thread_locals d)(x \<mapsto> v)\<rparr>) = overlay_data ?t (s\<lparr>txns := [?t]\<rparr>)"
    by (rule data_view_eqI)
      (use simulates_data(3-5) [OF sim] x in \<open>auto simp: t' other\<close>)
  with sim wf' show ?thesis by (simp add: simulates_def)
qed

lemma simulates_exec:
  assumes sim: "simulates t s d" and c: "is_data_cmd c"
  shows "\<exists>t'. simulates t' (txn_exec c s) (txn_exec c d)"
proof -
  have top: "txns s = [t]" and d0: "txns d = []" using sim by (simp_all add: simulates_def)
  note upd = update_top [OF top]
  note arr = simulates_data(1) [OF sim] and inst = simulates_data(2) [OF sim]
  note staged = simulates_staged [OF sim]
  show ?thesis
  proof (cases c)
    case (Cmd_Global x v)
    then show ?thesis
      using simulates_global [OF sim, of x v] top d0
      by (auto simp: set_global_def upd split: prod.splits) blast
  next
    case (Cmd_Local x v)
    then show ?thesis
      using simulates_local [OF sim, of x _ v] top d0 sim simulates_data(5) [OF sim, of x]
      by (auto simp: set_thread_local_def upd split: option.splits)
  next
    case (Cmd_Field a i v)
    then show ?thesis
      using simulates_field [OF sim, of a _ i v] top d0 sim inst [of a]
      by (auto simp: set_instance_field_def record_instance_field_write_def upd update_txn_def
          not_le split: option.splits)
  next
    case (Cmd_Replace a vs)
    then show ?thesis
      using staged(3) [of a] top d0 sim arr [of a]
      by (auto simp: replace_array_def upd split: option.splits)
  next
    case (Cmd_Element a i v)
    then show ?thesis
      using staged(1,2) [of a] top d0 sim arr [of a]
      by (auto simp: set_array_element_def upd Let_def update_txn_def split: option.splits)
  next
    case (Cmd_Push a v)
    then show ?thesis
      using staged(2) [of a] top d0 sim arr [of a]
      by (auto simp: push_array_element_def upd Let_def update_txn_def split: option.splits)
  next
    case (Cmd_Pop a)
    then show ?thesis
      using staged(1,2) [of a] top d0 sim arr [of a]
      by (auto simp: pop_array_element_def upd Let_def update_txn_def split: option.splits)
  qed (use c in simp_all)
qed

lemma simulates_run:
  "simulates t s d \<Longrightarrow> \<forall>c \<in> set cs. is_data_cmd c \<Longrightarrow>
   \<exists>t'. simulates t' (fold txn_exec cs s) (fold txn_exec cs d)"
proof (induction cs arbitrary: t s d)
  case (Cons c cs)
  from simulates_exec [OF Cons.prems(1), of c] Cons.prems(2) obtain t' where
    "simulates t' (txn_exec c s) (txn_exec c d)" by auto
  from Cons.IH [OF this] Cons.prems(2) show ?case by simp
qed auto

lemma simulates_begin:
  assumes ok: "locks_ok s" and idle: "txns s = []" and null: "heap s null = None"
    and start: "begin_transaction ms s = (Ok True, s1)"
  shows "\<exists>t. simulates t s1 s"
proof -
  have "ms \<noteq> []" "mutex_ids (heap s) ms \<noteq> None"
    using start by (auto simp: begin_transaction_def fail_with_def seqE_def bindE_def raise_error_def
        split: if_splits option.splits)
  then obtain ids where ids: "mutex_ids (heap s) ms = Some ids" by blast
  from begin_transaction_result [OF ok \<open>ms \<noteq> []\<close> ids] start obtain new where
    t: "txns s1 = [new_txn (sort_unique ids) new]" and "only_sync (s\<lparr>txns := txns s1\<rparr>) s1"
    using idle by (auto simp: only_sync_def)
  then have same: "heap s1 = heap s" "globals s1 = globals s" "thread_locals s1 = thread_locals s"
    by (simp_all add: only_sync_def)
  let ?t = "new_txn (sort_unique ids) new"
  have none: "pending_globals ?t = []" "pending_locals ?t = []" "pending_arrays ?t = []"
    "pending_fields ?t = []" by (simp_all add: new_txn_def)
  have over: "overlay [] = (\<lambda>(k :: 'k) (v :: 'v). v)"
    by (simp add: overlay_def fun_eq_iff)
  have "overlay_object ?t a obj = obj" for a obj
    by (cases obj) (simp_all add: none inner_map_def overlay_fields_def overlay_def map_nth)
  then have "data_view s = overlay_data ?t s1"
    by (intro data_view_eqI) (simp_all add: none same option.map_ident overlay_def cong: option.map_cong)
  moreover have "txn_wf ?t s1" using null by (simp add: txn_wf_def none same)
  ultimately show ?thesis using t idle by (auto simp: simulates_def)
qed

text \<open>C2: commit. A transaction that is not nested, around any writes to globals, thread-locals,
  arrays and instances, succeeds and leaves the heap, the globals and the thread-locals that the
  same writes leave when they run without a transaction, and it gives every mutex back.\<close>
theorem commit_is_direct_execution:
  assumes active: "sync_handle_exists (sync s) (current_thread s)" and idle: "txns s = []"
    and null: "heap s null = None" and start: "begin_transaction ms s = (Ok True, s1)"
    and data: "\<forall>c \<in> set cs. is_data_cmd c"
  shows "\<exists>s2. end_transaction (fold txn_exec cs s1) = (Ok True, s2) \<and>
    heap s2 = heap (fold txn_exec cs s) \<and> globals s2 = globals (fold txn_exec cs s) \<and>
    thread_locals s2 = thread_locals (fold txn_exec cs s) \<and>
    mutex_owner (sync s2) = mutex_owner (sync s)"
proof -
  let ?own = "mutex_owner (sync s)" and ?s = "fold txn_exec cs s1" and ?d = "fold txn_exec cs s"
  have inv: "locks_inv ?own s"
    using active idle by (simp add: locks_inv_def locks_ok_def acquired_mutexes_def lock_pairs_def)
  have s1: "s1 = txn_exec (Cmd_Begin ms) s" using start by simp
  have "locks_inv ?own s1" unfolding s1 by (rule locks_inv_exec [OF inv])
  then have invs: "locks_inv ?own ?s" by (rule locks_inv_run)
  from simulates_begin [OF locks_inv_ok [OF inv] idle null start] obtain t0 where
    "simulates t0 s1 s" by blast
  from simulates_run [OF this data] obtain t where sim: "simulates t ?s ?d" by blast
  then have top: "txns ?s = [t]" by (simp add: simulates_def)
  from end_outermost [OF locks_inv_ok [OF invs] top] obtain s2 where
    e: "end_transaction ?s = (Ok True, s2)" "only_sync (publish t (?s\<lparr>txns := []\<rparr>)) s2" by blast
  have "txn_wf t (?s\<lparr>txns := []\<rparr>)" using sim by (simp add: simulates_def txn_wf_def)
  from publish_overlay [OF this] have "data_view (publish t (?s\<lparr>txns := []\<rparr>)) = data_view ?d"
    using sim by (simp add: simulates_def overlay_data_def)
  moreover have "mutex_owner (sync s2) = ?own"
    using locks_inv_end [OF invs] e top
      same_control_publish [of "?s\<lparr>txns := []\<rparr>" t]
    by (simp add: locks_inv_def acquired_mutexes_def lock_pairs_def only_sync_def same_control_def)
  ultimately show ?thesis using e by (auto simp: only_sync_def data_view_def)
qed

theorem commit_is_direct_execution_witness:
  "\<exists>s2. end_transaction (fold txn_exec [Cmd_Push 3 VNull, Cmd_Field 4 0 (VBool True),
       Cmd_Global ''g'' (VBool False), Cmd_Pop 3] (snd (begin_transaction [2, 1] demo_state)))
     = (Ok True, s2) \<and>
    (let d = fold txn_exec [Cmd_Push 3 VNull, Cmd_Field 4 0 (VBool True),
       Cmd_Global ''g'' (VBool False), Cmd_Pop 3] demo_state in
     heap s2 = heap d \<and> globals s2 = globals d \<and> thread_locals s2 = thread_locals d \<and>
     mutex_owner (sync s2) = mutex_owner (sync demo_state))"
proof -
  have "fst (begin_transaction [2, 1] demo_state) = Ok True" by code_simp
  then have b: "begin_transaction [2, 1] demo_state =
      (Ok True, snd (begin_transaction [2, 1] demo_state))"
    by (metis prod.collapse)
  have n: "heap demo_state null = None" by code_simp
  show ?thesis
    unfolding Let_def by (rule commit_is_direct_execution [OF demo_active demo_idle n b]) simp
qed

end
