(* ===== verification/DataOps.thy ===== *)
theory DataOps
  imports Transactions Chunk
begin

text \<open>
  The data instructions of the virtual machine (src/src/vm/execution/VirtualMachineDataOps.cpp and
  common/VirtualMachineRuntimeSupport.h): building arrays, maps, structs, enums and actors, indexed
  and member access, module members, addresses and dereferencing. Every handler returns the
  integer of the C++ function: 0 for success, -1 after an error was raised.
\<close>

section \<open>Support\<close>

definition lift_heap :: "(heap \<Rightarrow> 'a outcome) \<Rightarrow> 'a vm_proc" where
  "lift_heap f = (\<lambda>s. (f (heap s), s))"

definition stateful :: "(vm_state \<Rightarrow> 'a \<times> vm_state) \<Rightarrow> 'a vm_proc" where
  "stateful f = (\<lambda>s. case f s of (x, s') \<Rightarrow> (Ok x, s'))"

definition function_at :: "heap \<Rightarrow> nat \<Rightarrow> function_obj option" where
  "function_at h a = (case h a of Some (Obj_Function f) \<Rightarrow> Some f | _ \<Rightarrow> None)"

text \<open>\<open>Detail::Fail\<close> names the current function when it has a name.\<close>

definition decorate :: "string \<Rightarrow> vm_state \<Rightarrow> string" where
  "decorate m s = (case frames s of
       [] \<Rightarrow> m
     | f # fs \<Rightarrow> (case function_at (heap s) (frame_function f) of
          None \<Rightarrow> m
        | Some fn \<Rightarrow> if fn_name fn = [] then m else m @ '' [in '' @ fn_name fn @ '']''))"

definition fail :: "string \<Rightarrow> int vm_proc" where
  "fail m = bindE (reads (decorate m)) (\<lambda>d. seqE (raise_error d) (ret (- 1)))"

definition read_string_constant :: "value list \<Rightarrow> nat \<Rightarrow> string option vm_proc" where
  "read_string_constant consts i =
     (if length consts \<le> i
      then seqE (fail ''Constant index out of bounds'') (ret None)
      else bindE (lift_heap (\<lambda>h. to_string h (consts ! i))) (\<lambda>t. ret (Some t)))"

definition push_ok :: "value \<Rightarrow> int vm_proc" where
  "push_ok v = seqE (push_value v) (ret 0)"

text \<open>The constants of the function in the current frame.\<close>

definition current_function :: "function_obj vm_proc" where
  "current_function = bindE current_frame (\<lambda>f s.
     case function_at (heap s) (frame_function f) of
       None \<Rightarrow> (Raise (Undefined ''null function''), s)
     | Some fn \<Rightarrow> (Ok fn, s))"

definition fn_code :: "function_obj \<Rightarrow> 8 word list" where
  "fn_code fn = chunk_code (fn_chunk fn)"

definition fn_constants :: "function_obj \<Rightarrow> value list" where
  "fn_constants fn = chunk_constants (fn_chunk fn)"

section \<open>Building\<close>

definition build_array :: "nat \<Rightarrow> int vm_proc" where
  "build_array n = bindE (pop_many n) (\<lambda>vs.
     bindE (new_object (Obj_Array (rev vs))) (\<lambda>a. push_ok (VRef K_Array a)))"

fun build_entries ::
    "nat \<Rightarrow> (string \<times> value \<times> value) list \<Rightarrow> (string \<times> value \<times> value) list option vm_proc" where
  "build_entries 0 m = ret (Some m)"
| "build_entries (Suc n) m =
     bindE pop_value (\<lambda>v. bindE pop_value (\<lambda>k.
       case encode_map_key k of
         None \<Rightarrow> seqE (fail ''Map keys must be string, int, or bool'') (ret None)
       | Some e \<Rightarrow> build_entries n (AList.update e (k, v) m)))"

definition build_map :: "nat \<Rightarrow> int vm_proc" where
  "build_map n = bindE (build_entries n []) (\<lambda>r. case r of
       None \<Rightarrow> ret (- 1)
     | Some m \<Rightarrow> bindE (new_object (Obj_Map m)) (\<lambda>a. push_ok (VRef K_Map a)))"

definition build_struct :: "nat \<Rightarrow> int vm_proc" where
  "build_struct n = bindE (pop_many n) (\<lambda>vs.
     bindE (new_object (Obj_Instance (rev vs))) (\<lambda>a. push_ok (VRef K_Instance a)))"

definition build_enum :: "nat \<Rightarrow> nat \<Rightarrow> int vm_proc" where
  "build_enum tag n = bindE (pop_many n) (\<lambda>vs.
     bindE (new_object (Obj_Enum (int tag) (rev vs))) (\<lambda>a. push_ok (VRef K_Enum a)))"

text \<open>\<open>RegisterActor\<close> hands out the runtime id; the worker thread starts with an empty mailbox.\<close>

definition register_actor :: "nat vm_proc" where
  "register_actor = (\<lambda>s. (Ok (next_actor_id s), s\<lparr>next_actor_id := Suc (next_actor_id s)\<rparr>))"

definition build_actor :: "nat \<Rightarrow> nat \<Rightarrow> int vm_proc" where
  "build_actor operand n =
     bindE current_function (\<lambda>fn.
     bindE (read_string_constant (fn_constants fn) operand) (\<lambda>r. case r of
       None \<Rightarrow> ret (- 1)
     | Some name \<Rightarrow>
         bindE (pop_many n) (\<lambda>vs.
         bindE (new_object (Obj_Instance (rev vs))) (\<lambda>st.
         bindE (reads (get_global (name @ ''.__methods''))) (\<lambda>g. case g of
           Some (VRef K_ActorMethods ms) \<Rightarrow>
             bindE register_actor (\<lambda>i.
             bindE (new_object (Obj_Actor \<lparr>actor_type = name, actor_state = st,
               actor_methods = ms, mailbox = [], pending_queries = [], actor_failures = [],
               actor_runtime_id = i, actor_stopping = False, next_request_id = 1\<rparr>)) (\<lambda>a.
             push_ok (VRef K_Actor a)))
         | _ \<Rightarrow> fail (''Missing actor method table for '' @ name))))))"

section \<open>Access\<close>

definition map_entries :: "heap \<Rightarrow> nat \<Rightarrow> (string \<times> value \<times> value) list option" where
  "map_entries h a = (case h a of Some (Obj_Map m) \<Rightarrow> Some m | _ \<Rightarrow> None)"

definition undefined_null :: "'a vm_proc" where
  "undefined_null = undefined_behaviour ''null pointer dereferenced''"

text \<open>The bounds check reads the size of the array itself, the element goes through the
  transactions.\<close>

definition index_get :: "int vm_proc" where
  "index_get = bindE pop_value (\<lambda>i. bindE pop_value (\<lambda>c. case c of
       VRef K_Map a \<Rightarrow>
         bindE (reads (\<lambda>s. map_entries (heap s) a)) (\<lambda>m. case (m, encode_map_key i) of
           (Some es, Some e) \<Rightarrow>
             (case map_of es e of
                None \<Rightarrow> fail ''Map key not found''
              | Some kv \<Rightarrow> push_ok (snd kv))
         | _ \<Rightarrow> fail ''Map keys must be string, int, or bool'')
     | VRef K_Array a \<Rightarrow>
         bindE (lift_out (as_int64 i)) (\<lambda>x.
         bindE (reads (\<lambda>s. array_elements (heap s) a)) (\<lambda>r. case r of
           None \<Rightarrow> if x < 0 then fail ''Index out of bounds'' else undefined_null
         | Some es \<Rightarrow>
             if x < 0 \<or> int (length es) \<le> x then fail ''Index out of bounds''
             else bindE (reads (get_array_element a (nat x))) (\<lambda>e. case e of
               None \<Rightarrow> fail ''Index out of bounds''
             | Some v \<Rightarrow> push_ok v)))
     | _ \<Rightarrow> fail ''Only arrays and maps can be indexed''))"

definition index_set :: "int vm_proc" where
  "index_set = bindE pop_value (\<lambda>v. bindE pop_value (\<lambda>i. bindE pop_value (\<lambda>c. case c of
       VRef K_Map a \<Rightarrow>
         bindE (reads (\<lambda>s. map_entries (heap s) a)) (\<lambda>m. case (m, encode_map_key i) of
           (Some es, Some e) \<Rightarrow>
             seqE (store_object a (Obj_Map (AList.update e (i, v) es))) (push_ok v)
         | _ \<Rightarrow> fail ''Map keys must be string, int, or bool'')
     | VRef K_Array a \<Rightarrow>
         bindE (lift_out (as_int64 i)) (\<lambda>x.
         bindE (reads (\<lambda>s. array_elements (heap s) a)) (\<lambda>r. case r of
           None \<Rightarrow> if x < 0 then fail ''Array index out of bounds'' else undefined_null
         | Some es \<Rightarrow>
             if x < 0 \<or> int (length es) \<le> x then fail ''Array index out of bounds''
             else bindE (stateful (set_array_element a (nat x) v)) (\<lambda>ok.
               if ok then push_ok v else fail ''Array index out of bounds'')))
     | _ \<Rightarrow> fail ''Only arrays and maps support indexed assignment'')))"

definition member_get :: "nat \<Rightarrow> int vm_proc" where
  "member_get i = bindE pop_value (\<lambda>c. case c of
       VRef K_Instance a \<Rightarrow>
         bindE (reads (\<lambda>s. instance_fields (heap s) a)) (\<lambda>r. case r of
           None \<Rightarrow> undefined_null
         | Some fs \<Rightarrow>
             if length fs \<le> i then fail ''Field index out of bounds''
             else bindE (reads (get_instance_field a i)) (\<lambda>e. case e of
               None \<Rightarrow> fail ''Field index out of bounds''
             | Some v \<Rightarrow> push_ok v))
     | _ \<Rightarrow> fail ''Only instances have members'')"

definition member_set :: "nat \<Rightarrow> int vm_proc" where
  "member_set i = bindE pop_value (\<lambda>v. bindE pop_value (\<lambda>c. case c of
       VRef K_Instance a \<Rightarrow>
         bindE (reads (\<lambda>s. instance_fields (heap s) a)) (\<lambda>r. case r of
           None \<Rightarrow> undefined_null
         | Some fs \<Rightarrow>
             if length fs \<le> i then fail ''Field index out of bounds''
             else bindE (stateful (set_instance_field a i v)) (\<lambda>ok.
               if ok then push_ok v else fail ''Field index out of bounds''))
     | _ \<Rightarrow> fail ''Only instances have members''))"

definition module_member_get :: "nat \<Rightarrow> value list \<Rightarrow> int vm_proc" where
  "module_member_get operand consts =
     bindE (read_string_constant consts operand) (\<lambda>r. case r of
       None \<Rightarrow> ret (- 1)
     | Some member \<Rightarrow>
         bindE pop_value (\<lambda>obj. case obj of
           VRef K_Module a \<Rightarrow>
             bindE (reads (\<lambda>s. heap s a)) (\<lambda>o'. case o' of
               Some (Obj_Module name cacheable cache) \<Rightarrow>
                 (case (if cacheable then map_of cache member else None) of
                    Some v \<Rightarrow> push_ok v
                  | None \<Rightarrow>
                      bindE (reads (get_global (name @ ''.'' @ member))) (\<lambda>g. case g of
                        None \<Rightarrow> fail (''Undefined module member: '' @ name @ ''.'' @ member)
                      | Some v \<Rightarrow>
                          seqE (if cacheable
                                then store_object a (Obj_Module name True (emplace member v cache))
                                else ret ())
                            (push_ok v)))
             | _ \<Rightarrow> undefined_null)
         | _ \<Rightarrow> fail ''Only modules support named member access''))"

definition enum_tag_get :: "int vm_proc" where
  "enum_tag_get = bindE pop_value (\<lambda>v. case v of
       VRef K_Enum a \<Rightarrow>
         bindE (reads (\<lambda>s. heap s a)) (\<lambda>o'. case o' of
           Some (Obj_Enum t args) \<Rightarrow> push_ok (vint t)
         | _ \<Rightarrow> undefined_null)
     | _ \<Rightarrow> fail ''Value is not an enum variant'')"

definition enum_arg_get :: "nat \<Rightarrow> int vm_proc" where
  "enum_arg_get i = bindE pop_value (\<lambda>v. case v of
       VRef K_Enum a \<Rightarrow>
         bindE (reads (\<lambda>s. heap s a)) (\<lambda>o'. case o' of
           Some (Obj_Enum t args) \<Rightarrow>
             if length args \<le> i then fail ''Enum argument index out of bounds''
             else push_ok (args ! i)
         | _ \<Rightarrow> undefined_null)
     | _ \<Rightarrow> fail ''Value is not an enum variant'')"

section \<open>Addresses\<close>

definition push_pointer :: "pointer_target \<Rightarrow> string \<Rightarrow> int vm_proc" where
  "push_pointer p name =
     bindE (new_object (Obj_Pointer p name)) (\<lambda>a. push_ok (VRef K_Pointer a))"

definition address_of_local :: "nat \<Rightarrow> int vm_proc" where
  "address_of_local slot = bindE current_frame (\<lambda>f.
     push_pointer (Target_Local (frame_base f + slot)) (''&local:'' @ show_nat slot))"

definition address_of_global :: "nat \<Rightarrow> value list \<Rightarrow> int vm_proc" where
  "address_of_global operand consts =
     bindE (read_string_constant consts operand) (\<lambda>r. case r of
       None \<Rightarrow> ret (- 1)
     | Some name \<Rightarrow> push_pointer (Target_Global name) (''&global:'' @ name))"

definition address_of_member :: "int vm_proc" where
  "address_of_member = bindE pop_value (\<lambda>i. bindE pop_value (\<lambda>c. case c of
       VRef K_Array a \<Rightarrow>
         bindE (lift_out (as_int64 i)) (\<lambda>x.
         bindE (reads (\<lambda>s. array_elements (heap s) a)) (\<lambda>r. case r of
           None \<Rightarrow> if x < 0 then fail ''Array index out of bounds'' else undefined_null
         | Some es \<Rightarrow>
             if x < 0 \<or> int (length es) \<le> x then fail ''Array index out of bounds''
             else push_pointer (Target_Element a (nat x)) ''''))
     | VRef K_Instance a \<Rightarrow>
         bindE (lift_out (as_int64 i)) (\<lambda>x.
         bindE (reads (\<lambda>s. instance_fields (heap s) a)) (\<lambda>r. case r of
           None \<Rightarrow> if x < 0 then fail ''Field index out of bounds'' else undefined_null
         | Some fs \<Rightarrow>
             if x < 0 \<or> int (length fs) \<le> x then fail ''Field index out of bounds''
             else push_pointer (Target_Field a (nat x)) ''''))
     | _ \<Rightarrow> fail ''Only arrays and instances support addressable members''))"

definition address_of_upvalue :: "nat \<Rightarrow> int vm_proc" where
  "address_of_upvalue slot = push_pointer (Target_Upvalue slot) (''&upvalue:'' @ show_nat slot)"

text \<open>\<open>Pointer::get\<close> and \<open>Pointer::set\<close> by what the pointer captured. An absent global reads as
  null; a failed write to a global, an element or a field is ignored.\<close>

fun pointer_get :: "pointer_target \<Rightarrow> value vm_proc" where
  "pointer_get (Target_Local i) = get_at i"
| "pointer_get (Target_Global x) =
     reads (\<lambda>s. case get_global x s of None \<Rightarrow> VNull | Some v \<Rightarrow> v)"
| "pointer_get (Target_Element a i) =
     reads (\<lambda>s. case get_array_element a i s of None \<Rightarrow> VNull | Some v \<Rightarrow> v)"
| "pointer_get (Target_Field a i) =
     reads (\<lambda>s. case get_instance_field a i s of None \<Rightarrow> VNull | Some v \<Rightarrow> v)"
| "pointer_get (Target_Upvalue i) = get_upvalue i"
| "pointer_get (Target_Cell v alive raw) = (if alive then ret v else throw ''Use after free'')"

definition ignore_result :: "'a vm_proc \<Rightarrow> unit vm_proc" where
  "ignore_result m = bindE m (\<lambda>_. ret ())"

fun pointer_set :: "nat \<Rightarrow> string \<Rightarrow> pointer_target \<Rightarrow> value \<Rightarrow> unit vm_proc" where
  "pointer_set p name (Target_Local i) v = set_at i v"
| "pointer_set p name (Target_Global x) v = ignore_result (set_global x v)"
| "pointer_set p name (Target_Element a i) v =
     ignore_result (stateful (set_array_element a i v))"
| "pointer_set p name (Target_Field a i) v =
     ignore_result (stateful (set_instance_field a i v))"
| "pointer_set p name (Target_Upvalue i) v = set_upvalue i v"
| "pointer_set p name (Target_Cell w alive raw) v =
     (if alive then store_object p (Obj_Pointer (Target_Cell v alive raw) name)
      else throw ''Use after free'')"

definition deref_get :: "int vm_proc" where
  "deref_get = bindE pop_value (\<lambda>v. case v of
       VRef K_Pointer p \<Rightarrow>
         bindE (reads (\<lambda>s. heap s p)) (\<lambda>o'. case o' of
           Some (Obj_Pointer t name) \<Rightarrow> bindE (pointer_get t) push_ok
         | _ \<Rightarrow> undefined_null)
     | _ \<Rightarrow> fail ''Can only dereference pointer types'')"

definition deref_set :: "int vm_proc" where
  "deref_set = bindE pop_value (\<lambda>v. bindE pop_value (\<lambda>w. case w of
       VRef K_Pointer p \<Rightarrow>
         bindE (reads (\<lambda>s. heap s p)) (\<lambda>o'. case o' of
           Some (Obj_Pointer t name) \<Rightarrow> seqE (pointer_set p name t v) (push_ok v)
         | _ \<Rightarrow> undefined_null)
     | _ \<Rightarrow> fail ''Can only dereference pointer types''))"

text \<open>Evaluation unfolds a procedure only once it is applied to a state.\<close>

declare
  lift_heap_def [THEN fun_cong, code]
  stateful_def [THEN fun_cong, code]
  fail_def [THEN fun_cong, code]
  read_string_constant_def [THEN fun_cong, code]
  push_ok_def [THEN fun_cong, code]
  current_function_def [THEN fun_cong, code]
  build_array_def [THEN fun_cong, code]
  build_entries.simps [THEN fun_cong, code]
  build_map_def [THEN fun_cong, code]
  build_struct_def [THEN fun_cong, code]
  build_enum_def [THEN fun_cong, code]
  register_actor_def [THEN fun_cong, code]
  build_actor_def [THEN fun_cong, code]
  undefined_null_def [THEN fun_cong, code]
  index_get_def [THEN fun_cong, code]
  index_set_def [THEN fun_cong, code]
  member_get_def [THEN fun_cong, code]
  member_set_def [THEN fun_cong, code]
  module_member_get_def [THEN fun_cong, code]
  enum_tag_get_def [THEN fun_cong, code]
  enum_arg_get_def [THEN fun_cong, code]
  push_pointer_def [THEN fun_cong, code]
  address_of_local_def [THEN fun_cong, code]
  address_of_global_def [THEN fun_cong, code]
  address_of_member_def [THEN fun_cong, code]
  address_of_upvalue_def [THEN fun_cong, code]
  pointer_get.simps [THEN fun_cong, code]
  ignore_result_def [THEN fun_cong, code]
  pointer_set.simps [THEN fun_cong, code]
  deref_get_def [THEN fun_cong, code]
  deref_set_def [THEN fun_cong, code]

end
