(* ===== verification/Calls.thy ===== *)
theory Calls
  imports DataOps
begin

text \<open>
  Calls, returns, globals and closures of the virtual machine
  (src/src/vm/execution/VirtualMachineCallsAndActors.cpp). The bodies of native functions are C++
  callables stored in \<open>std::function\<close>; the machine is generic in them, in the opcode extensions
  registered by the host and in what other threads do while an actor query waits.
\<close>

section \<open>The environment of a machine\<close>

text \<open>
  An invoker calls back into the machine: an error message or the value returned.
  \<open>native_body key slot\<close> is the callable of a native function (\<open>Some n\<close> for \<open>invoke<n>\<close>,
  \<open>None\<close> for \<open>invoke\<close>); \<open>await_query a r\<close> is the state when the reply to request \<open>r\<close> of actor
  \<open>a\<close> is ready, after whatever the worker threads did.
\<close>

type_synonym invoker = "value \<Rightarrow> value list \<Rightarrow> (string option \<times> value) vm_proc"

record env =
  native_body :: "string \<Rightarrow> nat option \<Rightarrow> invoker \<Rightarrow> value list \<Rightarrow> value vm_proc"
  extension :: "nat \<Rightarrow> int vm_proc option"
  await_query :: "nat \<Rightarrow> nat \<Rightarrow> query_result vm_proc"

datatype exec_result = Exec_Success | Exec_RuntimeError

section \<open>Calls\<close>

definition expected_args :: "bool \<Rightarrow> int \<Rightarrow> string" where
  "expected_args variadic n =
     ''Expected '' @ (if variadic then ''at least '' @ show_int n else show_int n) @ '' args''"

fun get_range :: "nat \<Rightarrow> nat \<Rightarrow> value list vm_proc" where
  "get_range i 0 = ret []"
| "get_range i (Suc n) = bindE (get_at i) (\<lambda>v. bindE (get_range (Suc i) n) (\<lambda>vs. ret (v # vs)))"

definition call_native ::
    "env \<Rightarrow> invoker \<Rightarrow> native_obj \<Rightarrow> nat \<Rightarrow> nat \<Rightarrow> int vm_proc" where
  "call_native env invoke nf argc callee_idx =
     (if (\<not> native_variadic nf \<and> int argc \<noteq> native_arity nf)
       \<or> (native_variadic nf \<and> int argc < native_arity nf)
      then fail (expected_args (native_variadic nf) (native_arity nf))
      else bindE (get_range (callee_idx + 1) argc) (\<lambda>args.
        bindE (if \<not> native_variadic nf \<and> argc \<le> 4 \<and> argc \<in> set (fast_slots nf)
               then native_body env (native_key nf) (Some argc) invoke args
               else if general_slot nf
               then native_body env (native_key nf) None invoke args
               else throw ''bad_function_call'') (\<lambda>result.
        bindE (reads has_error) (\<lambda>err.
          if err then ret (- 1)
          else seqE (pop_down_to callee_idx) (push_ok result)))))"

text \<open>
  The variadic tail is packed into an array. \<open>arity - 1\<close> is converted to \<open>size_t\<close>, so a
  variadic function of arity 0 counts a huge number of fixed arguments; the arithmetic wraps.
\<close>

definition fixed_count :: "function_obj \<Rightarrow> int" where
  "fixed_count fn = (fn_arity fn - 1) mod 2 ^ 64"

definition pack_variadic :: "function_obj \<Rightarrow> nat \<Rightarrow> nat \<Rightarrow> unit vm_proc" where
  "pack_variadic fn argc callee_idx =
     (let fixed = fixed_count fn;
          first = nat ((int callee_idx + 1 + fixed) mod 2 ^ 64);
          n = (if fixed \<le> int argc then nat (int argc - fixed) else 0) in
      bindE (get_range first n) (\<lambda>vs.
      bindE (new_object (Obj_Array vs)) (\<lambda>a.
      seqE (pop_down_to first) (push_value (VRef K_Array a)))))"

definition call_function :: "nat \<Rightarrow> nat \<Rightarrow> nat \<Rightarrow> nat \<Rightarrow> int vm_proc" where
  "call_function fn_addr closure argc callee_idx =
     bindE (reads (\<lambda>s. function_at (heap s) fn_addr)) (\<lambda>f. case f of
       None \<Rightarrow> fail ''Can only call functions''
     | Some fn \<Rightarrow>
         if (\<not> fn_variadic fn \<and> int argc \<noteq> fn_arity fn)
           \<or> (fn_variadic fn \<and> int argc < fn_min_arity fn)
         then fail (expected_args (fn_variadic fn)
                (if fn_variadic fn then fn_min_arity fn else fn_arity fn))
         else
           seqE (if fn_variadic fn then pack_variadic fn argc callee_idx else ret ())
             (bindE (reads (\<lambda>s. length (stack s))) (\<lambda>size.
                let effective = (if fn_variadic fn then nat (fn_arity fn mod 65536) else argc) in
                seqE (push_frame fn_addr closure (size_sub size effective)) (ret 0))))"

definition handle_resolved_call ::
    "env \<Rightarrow> invoker \<Rightarrow> value \<Rightarrow> nat \<Rightarrow> nat \<Rightarrow> int vm_proc" where
  "handle_resolved_call env invoke callee argc callee_idx = (case callee of
       VRef K_Closure c \<Rightarrow>
         bindE (reads (\<lambda>s. heap s c)) (\<lambda>o'. case o' of
           Some (Obj_Closure fn caps) \<Rightarrow> call_function fn c argc callee_idx
         | _ \<Rightarrow> fail ''Can only call functions'')
     | VRef K_Function fn \<Rightarrow>
         bindE (new_object (Obj_Closure fn [])) (\<lambda>c. call_function fn c argc callee_idx)
     | VRef K_Native n \<Rightarrow>
         bindE (reads (\<lambda>s. heap s n)) (\<lambda>o'. case o' of
           Some (Obj_Native nf) \<Rightarrow> call_native env invoke nf argc callee_idx
         | _ \<Rightarrow> fail ''Can only call functions'')
     | _ \<Rightarrow> fail ''Can only call functions'')"

definition handle_call :: "env \<Rightarrow> invoker \<Rightarrow> nat \<Rightarrow> int vm_proc" where
  "handle_call env invoke argc =
     bindE (reads (\<lambda>s. size_sub (size_sub (length (stack s)) argc) 1)) (\<lambda>i.
     bindE (get_at i) (\<lambda>callee. handle_resolved_call env invoke callee argc i))"

section \<open>Return\<close>

definition handle_return :: "int vm_proc" where
  "handle_return =
     bindE current_frame (\<lambda>f.
     bindE (reads (\<lambda>s. length (stack s))) (\<lambda>size.
     bindE (if frame_base f < size then pop_value else ret VNull) (\<lambda>result.
     seqE (unwind_transactions (frame_txn_base f))
     (seqE (unwind_handlers (frame_handler_base f))
     (seqE pop_frame
     (seqE (pop_down_to (size_sub (frame_base f) 1))
     (push_ok result)))))))"

section \<open>Globals and closures\<close>

definition thread_local_prefix :: string where
  "thread_local_prefix = ''__thread_local.''"

definition is_thread_local :: "string \<Rightarrow> bool" where
  "is_thread_local x = (take (length thread_local_prefix) x = thread_local_prefix)"

definition undefined_variable :: "string \<Rightarrow> int vm_proc" where
  "undefined_variable x = fail (''Undefined variable: '' @ x)"

definition define_global_op :: "string \<Rightarrow> int vm_proc" where
  "define_global_op x = bindE pop_value (\<lambda>v.
     seqE (if is_thread_local x then define_thread_local x v else define_global x v) (ret 0))"

definition get_global_op :: "string \<Rightarrow> int vm_proc" where
  "get_global_op x =
     bindE (reads (if is_thread_local x then get_thread_local x else get_global x)) (\<lambda>r. case r of
       None \<Rightarrow> undefined_variable x
     | Some v \<Rightarrow> push_ok v)"

definition set_global_op :: "string \<Rightarrow> int vm_proc" where
  "set_global_op x = bindE (peek_value 0) (\<lambda>v.
     bindE (if is_thread_local x then set_thread_local x v else set_global x v) (\<lambda>ok.
       if ok then ret 0 else undefined_variable x))"

definition handle_global :: "opcode \<Rightarrow> nat \<Rightarrow> value list \<Rightarrow> int vm_proc" where
  "handle_global op operand consts =
     bindE (read_string_constant consts operand) (\<lambda>r. case r of
       None \<Rightarrow> ret (- 1)
     | Some x \<Rightarrow>
         if op = OP_DEFINE_GLOBAL then define_global_op x
         else if op = OP_GET_GLOBAL then get_global_op x
         else set_global_op x)"

text \<open>Captures are popped into the last slot first.\<close>

definition handle_closure :: "nat \<Rightarrow> value list \<Rightarrow> int vm_proc" where
  "handle_closure operand consts =
     (if length consts \<le> operand then fail ''Constant index out of bounds''
      else case consts ! operand of
        VRef K_Function fn \<Rightarrow>
          bindE (reads (\<lambda>s. function_at (heap s) fn)) (\<lambda>f. case f of
            None \<Rightarrow> undefined_null
          | Some fo \<Rightarrow>
              bindE (pop_many (length (capture_names fo))) (\<lambda>vs.
              bindE (new_object (Obj_Closure fn (rev vs))) (\<lambda>c. push_ok (VRef K_Closure c))))
      | _ \<Rightarrow> fail ''OP_CLOSURE requires function constant'')"

section \<open>Calling back into the machine\<close>

definition read_error_message :: "vm_state \<Rightarrow> string option" where
  "read_error_message s = (if has_error s then Some (error_message s) else None)"

text \<open>A failed call unwinds every transaction and handler and clears the whole stack, also when it
  was made from inside another call.\<close>

definition abandon_call :: "(string option \<times> value) vm_proc" where
  "abandon_call =
     bindE (reads read_error_message) (\<lambda>e.
     seqE (unwind_transactions 0) (seqE clear_handlers (seqE clear_stack (ret (e, VNull)))))"

definition push_values :: "value list \<Rightarrow> unit vm_proc" where
  "push_values vs = forE vs push_value"

definition invoke_callable ::
    "env \<Rightarrow> exec_result vm_proc \<Rightarrow> invoker \<Rightarrow> value \<Rightarrow> value list \<Rightarrow> (string option \<times> value) vm_proc"
where
  "invoke_callable env rn invoke callee args =
     bindE (reads (\<lambda>s. (length (stack s), length (frames s)))) (\<lambda>(base, frame_count).
     seqE clear_error
     (seqE (push_value callee)
     (seqE (push_values args)
     (bindE (handle_resolved_call env invoke callee (length args mod 65536) base) (\<lambda>r.
       if r < 0 then abandon_call
       else
         bindE (reads (\<lambda>s. frame_count < length (frames s))) (\<lambda>entered.
         bindE (if entered then rn else ret Exec_Success) (\<lambda>res.
           if res \<noteq> Exec_Success then abandon_call
           else
             bindE (reads (\<lambda>s. base < length (stack s))) (\<lambda>some.
             bindE (if some then pop_value else ret VNull) (\<lambda>v.
             seqE (pop_down_to base) (ret (None, v)))))))))))"

section \<open>Actor messages\<close>

definition actor_at :: "heap \<Rightarrow> nat \<Rightarrow> actor_obj option" where
  "actor_at h a = (case h a of Some (Obj_Actor x) \<Rightarrow> Some x | _ \<Rightarrow> None)"

definition enqueue :: "mailbox_item \<Rightarrow> actor_obj \<Rightarrow> actor_obj" where
  "enqueue item x = x\<lparr>mailbox := mailbox x @ [item]\<rparr>"

definition enqueue_actor_send :: "nat \<Rightarrow> actor_obj \<Rightarrow> string \<Rightarrow> value list \<Rightarrow> int vm_proc" where
  "enqueue_actor_send a x m args =
     seqE (store_object a (Obj_Actor (enqueue
       \<lparr>item_kind = Mail_Send, item_method = m, item_args = args, item_request = 0\<rparr> x)))
     (push_ok VNull)"

definition no_result :: query_result where
  "no_result = \<lparr>query_ready = False, query_value = VNull, query_error = []\<rparr>"

definition erase_pending :: "nat \<Rightarrow> nat \<Rightarrow> unit vm_proc" where
  "erase_pending a r = modify (\<lambda>s. case actor_at (heap s) a of
       None \<Rightarrow> s
     | Some x \<Rightarrow> s\<lparr>heap := (heap s)(a \<mapsto>
         Obj_Actor (x\<lparr>pending_queries := AList.delete r (pending_queries x)\<rparr>))\<rparr>)"

definition enqueue_actor_query ::
    "env \<Rightarrow> nat \<Rightarrow> actor_obj \<Rightarrow> string \<Rightarrow> value list \<Rightarrow> int vm_proc" where
  "enqueue_actor_query env a x m args =
     bindE (reads active_actor) (\<lambda>self.
       if self \<noteq> null \<and> a = self then fail ''Actor query on self would deadlock''
       else
         let r = next_request_id x in
         seqE (store_object a (Obj_Actor (enqueue
           \<lparr>item_kind = Mail_Query, item_method = m, item_args = args, item_request = r\<rparr>
           (x\<lparr>next_request_id := Suc r, pending_queries := emplace r no_result (pending_queries x)\<rparr>))))
         (bindE (await_query env a r) (\<lambda>q.
          seqE (erase_pending a r)
            (if query_error q \<noteq> [] then fail (query_error q) else push_ok (query_value q)))))"

text \<open>Evaluation unfolds a procedure only once it is applied to a state.\<close>

declare
  get_range.simps [THEN fun_cong, code]
  call_native_def [THEN fun_cong, code]
  pack_variadic_def [THEN fun_cong, code]
  call_function_def [THEN fun_cong, code]
  handle_resolved_call_def [THEN fun_cong, code]
  handle_call_def [THEN fun_cong, code]
  handle_return_def [THEN fun_cong, code]
  undefined_variable_def [THEN fun_cong, code]
  define_global_op_def [THEN fun_cong, code]
  get_global_op_def [THEN fun_cong, code]
  set_global_op_def [THEN fun_cong, code]
  handle_global_def [THEN fun_cong, code]
  handle_closure_def [THEN fun_cong, code]
  abandon_call_def [THEN fun_cong, code]
  push_values_def [THEN fun_cong, code]
  invoke_callable_def [THEN fun_cong, code]
  enqueue_actor_send_def [THEN fun_cong, code]
  erase_pending_def [THEN fun_cong, code]
  enqueue_actor_query_def [THEN fun_cong, code]

end
