(* ===== verification/Iterators.thy ===== *)
theory Iterators
  imports Calls
begin

text \<open>
  The lazy iterators of \<open>VirtualMachine::Dispatch\<close> (src/src/vm/execution/VirtualMachineCore.cpp,
  the cases OP_MAKE_ITER to OP_ITER_FILTER). Each \<open>Iterator::next\<close> closure is a case of
  \<open>iter_next\<close> on the data it captured; \<open>run\<close> is the machine's loop, which the transforming
  iterators call for their function.
\<close>

definition iterator_at :: "heap \<Rightarrow> nat \<Rightarrow> iterator option" where
  "iterator_at h a = (case h a of Some (Obj_Iterator it) \<Rightarrow> Some it | _ \<Rightarrow> None)"

definition store_iterator :: "nat \<Rightarrow> iterator \<Rightarrow> unit vm_proc" where
  "store_iterator a it = store_object a (Obj_Iterator it)"

section \<open>Calling the function of a transforming iterator\<close>

text \<open>\<open>while (GetFramesCount() > n) PopFrame();\<close>\<close>

definition pop_frames_to :: "nat \<Rightarrow> unit vm_proc" where
  "pop_frames_to n = modify (\<lambda>s. s\<lparr>frames := drop (length (frames s) - n) (frames s)\<rparr>)"

definition call_in_iterator ::
    "exec_result vm_proc \<Rightarrow> string \<Rightarrow> nat \<Rightarrow> nat \<Rightarrow> value \<Rightarrow> value vm_proc" where
  "call_in_iterator run message fn closure v =
     bindE (reads (\<lambda>s. (length (stack s), length (frames s), length (txns s), length (handlers s))))
       (\<lambda>(stack_base, frame_count, txn_base, handler_base).
     seqE (push_value (VRef K_Closure closure))
     (seqE (push_value v)
     (bindE (reads (\<lambda>s. length (stack s) - 1)) (\<lambda>arg_base.
     seqE (push_frame fn closure arg_base)
     (bindE run (\<lambda>r.
       if r = Exec_Success then pop_value
       else
         seqE (pop_frames_to frame_count)
         (seqE (pop_down_to stack_base)
         (seqE (unwind_transactions txn_base)
         (seqE (unwind_handlers handler_base)
         (bindE (reads (\<lambda>s. if has_error s then error_message s else message)) throw))))))))))"

section \<open>The next element\<close>

text \<open>The fuel counts nested iterators and the turns of the unbounded loops.\<close>

fun drain_into :: "nat \<Rightarrow> value option vm_proc \<Rightarrow> (value \<Rightarrow> unit vm_proc) \<Rightarrow> unit vm_proc" where
  "drain_into 0 next store = raise OutOfFuel"
| "drain_into (Suc n) next store =
     bindE next (\<lambda>r. case r of
       None \<Rightarrow> ret ()
     | Some v \<Rightarrow> seqE (store v) (drain_into n next store))"

fun search_next ::
    "nat \<Rightarrow> value option vm_proc \<Rightarrow> (value \<Rightarrow> bool vm_proc) \<Rightarrow> value option vm_proc" where
  "search_next 0 next test = raise OutOfFuel"
| "search_next (Suc n) next test =
     bindE next (\<lambda>r. case r of
       None \<Rightarrow> ret None
     | Some v \<Rightarrow> bindE (test v) (\<lambda>ok. if ok then ret (Some v) else search_next n next test))"

definition array_next :: "nat \<Rightarrow> nat \<Rightarrow> nat \<Rightarrow> value option vm_proc" where
  "array_next a arr i =
     bindE (reads (get_array_size arr)) (\<lambda>size. case size of
       None \<Rightarrow> ret None
     | Some n \<Rightarrow>
         if i < n
         then seqE (store_iterator a (Iter_Array arr (Suc i))) (reads (get_array_element arr i))
         else ret None)"

text \<open>The drop loop counts with an \<open>int\<close>, which overflows before it reaches a larger bound.\<close>

definition drop_loop :: "int \<Rightarrow> value option vm_proc \<Rightarrow> unit vm_proc" where
  "drop_loop n next =
     (if n < 2 ^ 31 then ignore_result (timesE (nat n) next)
      else undefined_behaviour ''int counter overflow'')"

definition append_to_buffer :: "nat \<Rightarrow> value \<Rightarrow> unit vm_proc" where
  "append_to_buffer a v = (\<lambda>s. case iterator_at (heap s) a of
       Some (Iter_Reverse src buf init i) \<Rightarrow> store_iterator a (Iter_Reverse src (buf @ [v]) init i) s
     | _ \<Rightarrow> (Ok (), s))"

definition reverse_emit :: "nat \<Rightarrow> nat \<Rightarrow> value list \<Rightarrow> int \<Rightarrow> value option vm_proc" where
  "reverse_emit a src buf i =
     (if 0 \<le> i
      then (if i < int (length buf)
            then seqE (store_iterator a (Iter_Reverse src buf True (i - 1))) (ret (Some (buf ! nat i)))
            else undefined_behaviour ''read past the end of a vector'')
      else ret None)"

definition reverse_start :: "nat \<Rightarrow> value option vm_proc" where
  "reverse_start a = bindE (reads (\<lambda>s. iterator_at (heap s) a)) (\<lambda>it. case it of
       Some (Iter_Reverse src buf init i) \<Rightarrow>
         if buf = [] then seqE (store_iterator a (Iter_Reverse src buf True i)) (ret None)
         else reverse_emit a src buf (int (length buf) - 1)
     | _ \<Rightarrow> undefined_null)"

fun iter_next :: "nat \<Rightarrow> exec_result vm_proc \<Rightarrow> nat \<Rightarrow> value option vm_proc" where
  "iter_next 0 run a = raise OutOfFuel"
| "iter_next (Suc n) run a =
     bindE (reads (\<lambda>s. iterator_at (heap s) a)) (\<lambda>it. case it of
       None \<Rightarrow> undefined_null
     | Some (Iter_Array arr i) \<Rightarrow> array_next a arr i
     | Some (Iter_Take src r) \<Rightarrow>
         if 0 < r then seqE (store_iterator a (Iter_Take src (r - 1))) (iter_next n run src)
         else ret None
     | Some (Iter_Drop src k dropped) \<Rightarrow>
         if dropped then iter_next n run src
         else seqE (drop_loop k (iter_next n run src))
                (seqE (store_iterator a (Iter_Drop src k True)) (iter_next n run src))
     | Some (Iter_Transform src fn closure) \<Rightarrow>
         bindE (iter_next n run src) (\<lambda>r. case r of
           None \<Rightarrow> ret None
         | Some v \<Rightarrow> bindE (call_in_iterator run ''Iterator transform failed'' fn closure v)
                       (\<lambda>w. ret (Some w)))
     | Some (Iter_Reverse src buf init i) \<Rightarrow>
         if init then reverse_emit a src buf i
         else seqE (drain_into n (iter_next n run src) (append_to_buffer a)) (reverse_start a)
     | Some (Iter_Filter src fn closure) \<Rightarrow>
         search_next n (iter_next n run src) (\<lambda>v.
           bindE (call_in_iterator run ''Iterator filter failed'' fn closure v) (\<lambda>w.
             lift_out (as_bool w))))"

section \<open>Building iterators\<close>

definition push_iterator :: "iterator \<Rightarrow> int vm_proc" where
  "push_iterator it = bindE (new_object (Obj_Iterator it)) (\<lambda>a. push_ok (VRef K_Iterator a))"

definition make_iter :: "int vm_proc" where
  "make_iter = bindE pop_value (\<lambda>v. case v of
       VRef K_Array a \<Rightarrow> push_iterator (Iter_Array a 0)
     | _ \<Rightarrow> fail ''Object is not iterable'')"

definition with_iterator :: "string \<Rightarrow> value \<Rightarrow> (nat \<Rightarrow> int vm_proc) \<Rightarrow> int vm_proc" where
  "with_iterator message v k = (case v of
       VRef K_Iterator a \<Rightarrow> if a = null then fail message else k a
     | _ \<Rightarrow> fail message)"

definition iter_take :: "int vm_proc" where
  "iter_take = bindE pop_value (\<lambda>nv. bindE (lift_out (as_int64 nv)) (\<lambda>n. bindE pop_value (\<lambda>v.
     with_iterator ''Iterator transform requires iterator input'' v (\<lambda>src.
       push_iterator (Iter_Take src n)))))"

definition iter_drop :: "int vm_proc" where
  "iter_drop = bindE pop_value (\<lambda>nv. bindE (lift_out (as_int64 nv)) (\<lambda>n. bindE pop_value (\<lambda>v.
     with_iterator ''Iterator transform requires iterator input'' v (\<lambda>src.
       push_iterator (Iter_Drop src n False)))))"

definition iter_reverse :: "int vm_proc" where
  "iter_reverse = bindE pop_value (\<lambda>v.
     with_iterator ''Iterator transform requires iterator input'' v (\<lambda>src.
       push_iterator (Iter_Reverse src [] False 0)))"

text \<open>The function of a transform or filter, with the closure made for a bare function.\<close>

definition with_callable :: "string \<Rightarrow> value \<Rightarrow> (nat \<Rightarrow> nat \<Rightarrow> int vm_proc) \<Rightarrow> int vm_proc" where
  "with_callable message f k = (case f of
       VRef K_Closure c \<Rightarrow>
         bindE (reads (\<lambda>s. heap s c)) (\<lambda>o'. case o' of
           Some (Obj_Closure fn caps) \<Rightarrow> k fn c
         | _ \<Rightarrow> undefined_null)
     | VRef K_Function fn \<Rightarrow> bindE (new_object (Obj_Closure fn [])) (\<lambda>c. k fn c)
     | _ \<Rightarrow> fail message)"

definition iter_transform :: "int vm_proc" where
  "iter_transform = bindE pop_value (\<lambda>f. bindE pop_value (\<lambda>v.
     with_iterator ''Iterator transform requires iterator input'' v (\<lambda>src.
       with_callable ''Iterator transform requires callable input'' f (\<lambda>fn c.
         push_iterator (Iter_Transform src fn c)))))"

definition iter_filter :: "int vm_proc" where
  "iter_filter = bindE pop_value (\<lambda>f. bindE pop_value (\<lambda>v.
     with_iterator ''Iterator filter requires iterator input'' v (\<lambda>src.
       with_callable ''Iterator filter requires callable input'' f (\<lambda>fn c.
         push_iterator (Iter_Filter src fn c)))))"

text \<open>Evaluation unfolds a procedure only once it is applied to a state.\<close>

declare
  store_iterator_def [THEN fun_cong, code]
  pop_frames_to_def [THEN fun_cong, code]
  call_in_iterator_def [THEN fun_cong, code]
  drain_into.simps [THEN fun_cong, code]
  search_next.simps [THEN fun_cong, code]
  array_next_def [THEN fun_cong, code]
  drop_loop_def [THEN fun_cong, code]
  append_to_buffer_def [THEN fun_cong, code]
  reverse_emit_def [THEN fun_cong, code]
  reverse_start_def [THEN fun_cong, code]
  iter_next.simps [THEN fun_cong, code]
  push_iterator_def [THEN fun_cong, code]
  make_iter_def [THEN fun_cong, code]
  with_iterator_def [THEN fun_cong, code]
  iter_take_def [THEN fun_cong, code]
  iter_drop_def [THEN fun_cong, code]
  iter_reverse_def [THEN fun_cong, code]
  with_callable_def [THEN fun_cong, code]
  iter_transform_def [THEN fun_cong, code]
  iter_filter_def [THEN fun_cong, code]

end
