(* ===== verification/Machine.thy ===== *)
theory Machine
  imports Iterators
begin

text \<open>
  The interpreter (src/src/vm/execution/VirtualMachineCore.cpp): \<open>Dispatch\<close>, the loop \<open>Run\<close> and
  \<open>Interpret\<close>. \<open>Run\<close> may not return, so the loop takes fuel; running out of it is the outcome
  \<open>OutOfFuel\<close>, never a result.
\<close>

section \<open>Reading operands past the decoded instruction\<close>

text \<open>
  \<open>ensureRemaining\<close> is declared to return \<open>bool\<close> but returns \<open>Fail(...)\<close>, the integer -1, on
  the truncated path: the error is recorded and the answer is true.
\<close>

definition ensure_remaining :: "nat \<Rightarrow> nat \<Rightarrow> bool vm_proc" where
  "ensure_remaining code_size n = bindE current_frame (\<lambda>f.
     if code_size < frame_ip f + n
     then bindE (fail ''Truncated bytecode stream'') (\<lambda>r. ret (r \<noteq> 0))
     else ret True)"

text \<open>\<open>code[frame.ip++]\<close>.\<close>

definition next_byte :: "8 word list \<Rightarrow> nat vm_proc" where
  "next_byte code = bindE current_frame (\<lambda>f.
     if frame_ip f < length code
     then seqE (set_ip (Suc (frame_ip f))) (ret (code_byte code (frame_ip f)))
     else undefined_behaviour ''read past the end of the code'')"

section \<open>Instruction groups\<close>

definition binary_op :: "(heap \<Rightarrow> value \<Rightarrow> value \<Rightarrow> value outcome) \<Rightarrow> int vm_proc" where
  "binary_op f = bindE pop_value (\<lambda>b. bindE pop_value (\<lambda>a.
     bindE (lift_heap (\<lambda>h. f h a b)) push_ok))"

definition unary_op :: "(value \<Rightarrow> value outcome) \<Rightarrow> int vm_proc" where
  "unary_op f = bindE pop_value (\<lambda>v. bindE (lift_out (f v)) push_ok)"

definition jump_forward :: "nat \<Rightarrow> nat \<Rightarrow> int vm_proc" where
  "jump_forward code_size offset = bindE current_frame (\<lambda>f.
     if size_sub code_size (frame_ip f) < offset then fail ''Jump exceeds bytecode bounds''
     else seqE (set_ip (frame_ip f + offset)) (ret 0))"

definition jump_back :: "nat \<Rightarrow> int vm_proc" where
  "jump_back offset = bindE current_frame (\<lambda>f.
     if frame_ip f < offset then fail ''Loop offset exceeds current instruction pointer''
     else seqE (set_ip (frame_ip f - offset)) (ret 0))"

definition jump_if :: "bool \<Rightarrow> nat \<Rightarrow> nat \<Rightarrow> int vm_proc" where
  "jump_if expected code_size offset = bindE pop_value (\<lambda>v. bindE (lift_out (as_bool v)) (\<lambda>b.
     if b = expected then jump_forward code_size offset else ret 0))"

definition swap_top :: "int vm_proc" where
  "swap_top = bindE pop_value (\<lambda>top. bindE pop_value (\<lambda>nxt.
     seqE (push_value top) (push_ok nxt)))"

definition begin_txn_op :: "int vm_proc" where
  "begin_txn_op = bindE pop_value (\<lambda>v. case v of
       VRef K_Mutex a \<Rightarrow>
         bindE (if a = null then fail_with ''Expected a mutex handle for transaction''
                else begin_transaction [a]) (\<lambda>ok. ret (if ok then 0 else - 1))
     | VRef K_Array a \<Rightarrow>
         bindE (reads (\<lambda>s. array_elements (heap s) a)) (\<lambda>r. case r of
           None \<Rightarrow> fail ''Transaction requires mutex handles''
         | Some es \<Rightarrow>
             if list_all (is_kind K_Mutex) es
             then bindE (begin_transaction (map (\<lambda>e. case e of VRef k m \<Rightarrow> m | _ \<Rightarrow> null) es))
                    (\<lambda>ok. ret (if ok then 0 else - 1))
             else fail ''Transaction requires mutex handles'')
     | _ \<Rightarrow> fail ''Transaction requires a mutex handle or mutex array'')"

definition end_txn_op :: "int vm_proc" where
  "end_txn_op = bindE end_transaction (\<lambda>ok. ret (if ok then 0 else - 1))"

definition iter_next_op :: "nat \<Rightarrow> exec_result vm_proc \<Rightarrow> nat \<Rightarrow> nat \<Rightarrow> int vm_proc" where
  "iter_next_op fuel run code_size offset = bindE (peek_value 0) (\<lambda>v. case v of
       VRef K_Iterator a \<Rightarrow>
         bindE (iter_next fuel run a) (\<lambda>r. case r of
           Some x \<Rightarrow> push_ok x
         | None \<Rightarrow> jump_forward code_size (offset mod 256))
     | _ \<Rightarrow> seqE (raise_error ''Expected iterator on stack'') (ret (- 1)))"

definition print_op :: "int vm_proc" where
  "print_op = bindE pop_value (\<lambda>v. bindE (lift_heap (\<lambda>h. to_string h v)) (\<lambda>t.
     seqE (modify (\<lambda>s. s\<lparr>stdout_text := stdout_text s @ t @ [CHR 0x0A]\<rparr>)) (ret 0)))"

text \<open>Tables popped as name, value pairs: effect handlers and actor methods.\<close>

fun build_table :: "string \<Rightarrow> nat \<Rightarrow> (string \<times> value) list \<Rightarrow> (string \<times> value) list option vm_proc" where
  "build_table message 0 m = ret (Some m)"
| "build_table message (Suc n) m =
     bindE pop_value (\<lambda>k. bindE pop_value (\<lambda>v. case k of
       VString (Some x) \<Rightarrow> build_table message n (AList.update x v m)
     | VString None \<Rightarrow> undefined_null
     | _ \<Rightarrow> seqE (fail message) (ret None)))"

definition build_table_op ::
    "string \<Rightarrow> ((string \<times> value) list \<Rightarrow> hobj) \<Rightarrow> kind \<Rightarrow> nat \<Rightarrow> int vm_proc" where
  "build_table_op message con k n = bindE (build_table message n []) (\<lambda>r. case r of
       None \<Rightarrow> ret (- 1)
     | Some m \<Rightarrow> bindE (new_object (con m)) (\<lambda>a. push_ok (VRef k a)))"

definition assert_op :: "value list \<Rightarrow> nat \<Rightarrow> int vm_proc" where
  "assert_op consts operand = bindE (read_string_constant consts operand) (\<lambda>r. case r of
       None \<Rightarrow> ret (- 1)
     | Some message \<Rightarrow> bindE pop_value (\<lambda>v. bindE (lift_out (as_bool v)) (\<lambda>b.
         if b then ret 0 else fail message)))"

definition push_handler_op :: "int vm_proc" where
  "push_handler_op = bindE pop_value (\<lambda>v. case v of
       VRef K_Handlers a \<Rightarrow> seqE (push_handler_map a) (ret 0)
     | _ \<Rightarrow> fail ''Expected handler map'')"

definition effect_invoke_op ::
    "env \<Rightarrow> invoker \<Rightarrow> 8 word list \<Rightarrow> value list \<Rightarrow> nat \<Rightarrow> int vm_proc" where
  "effect_invoke_op env invoke code consts operand =
     bindE (next_byte code) (\<lambda>argc.
     bindE (read_string_constant consts operand) (\<lambda>r. case r of
       None \<Rightarrow> ret (- 1)
     | Some eff \<Rightarrow>
         bindE (reads (resolve_handled_effect eff)) (\<lambda>handler.
           if handler = VNull then fail (''Unhandled effect: '' @ eff)
           else
             bindE (pop_many argc) (\<lambda>vs.
             bindE (reads (\<lambda>s. length (stack s))) (\<lambda>callee_idx.
             seqE (push_value handler)
             (seqE (push_values (rev vs))
             (handle_resolved_call env invoke handler argc callee_idx)))))))"

definition actor_call_op :: "env \<Rightarrow> bool \<Rightarrow> 8 word list \<Rightarrow> value list \<Rightarrow> nat \<Rightarrow> int vm_proc" where
  "actor_call_op env send code consts operand =
     bindE (next_byte code) (\<lambda>argc.
     bindE (read_string_constant consts operand) (\<lambda>r. case r of
       None \<Rightarrow> ret (- 1)
     | Some m \<Rightarrow>
         bindE (reads (\<lambda>s. size_sub (size_sub (length (stack s)) argc) 1)) (\<lambda>idx.
         bindE (get_at idx) (\<lambda>v.
         bindE (reads (\<lambda>s. case v of VRef K_Actor a \<Rightarrow>
             map_option (Pair a) (actor_at (heap s) a) | _ \<Rightarrow> None)) (\<lambda>x. case x of
           None \<Rightarrow> fail ''Actor call requires actor instance''
         | Some (a, act) \<Rightarrow>
             bindE (reads (\<lambda>s. case heap s (actor_methods act) of
                 Some (Obj_Methods ms) \<Rightarrow> map_of ms m \<noteq> None | _ \<Rightarrow> False)) (\<lambda>known.
               if \<not> known then fail (''Unknown actor method: '' @ m)
               else
                 bindE (get_range (idx + 1) argc) (\<lambda>args.
                 seqE (pop_down_to idx)
                 (if send then enqueue_actor_send a act m args
                  else enqueue_actor_query env a act m args))))))))"

definition unknown_opcode :: "nat \<Rightarrow> int vm_proc" where
  "unknown_opcode op = seqE (raise_error (''Unknown opcode: '' @ show_nat op)) (ret (- 1))"

section \<open>Dispatch\<close>

text \<open>The \<open>switch\<close> of \<open>Dispatch\<close>, case by case in its order.\<close>

definition execute_op ::
    "env \<Rightarrow> nat \<Rightarrow> exec_result vm_proc \<Rightarrow> invoker \<Rightarrow> 8 word list \<Rightarrow> value list \<Rightarrow>
     opcode \<Rightarrow> nat \<Rightarrow> int vm_proc" where
  "execute_op env fuel run invoke code consts op operand =
    (if op = OP_CALL then handle_call env invoke operand
     else if op = OP_RETURN then handle_return
     else if op = OP_CONSTANT then (if length consts \<le> operand then fail ''Constant index out of bounds''
             else push_ok (consts ! operand))
     else if op = OP_GET_LOCAL then bindE (get_local operand) push_ok
     else if op = OP_SET_LOCAL then bindE (peek_value 0) (\<lambda>v. seqE (set_local operand v) (ret 0))
     else if op = OP_GET_UPVALUE then bindE (get_upvalue operand) push_ok
     else if op = OP_SET_UPVALUE then bindE (peek_value 0) (\<lambda>v. seqE (set_upvalue operand v) (ret 0))
     else if op = OP_DEFINE_GLOBAL \<or> op = OP_GET_GLOBAL \<or> op = OP_SET_GLOBAL then handle_global op operand consts
     else if op = OP_CLOSURE then handle_closure operand consts
     else if op = OP_ADD then binary_op value_add
     else if op = OP_SUBTRACT then binary_op (\<lambda>_. value_subtract)
     else if op = OP_MULTIPLY then binary_op (\<lambda>_. value_multiply)
     else if op = OP_DIVIDE then binary_op (\<lambda>_. value_divide)
     else if op = OP_NEGATE then unary_op value_negate
     else if op = OP_AND then binary_op (\<lambda>_. binary_logic (\<and>))
     else if op = OP_OR then binary_op (\<lambda>_. binary_logic (\<or>))
     else if op = OP_EQUAL then binary_op (\<lambda>h a b. Ok (VBool (value_equal h a b)))
     else if op = OP_NOT_EQUAL then binary_op (\<lambda>h a b. Ok (VBool (\<not> value_equal h a b)))
     else if op = OP_GREATER then binary_op (\<lambda>_ a b. Ok (VBool (value_greater a b)))
     else if op = OP_GREATER_EQUAL then binary_op (\<lambda>_ a b. Ok (VBool (\<not> value_less a b)))
     else if op = OP_LESS then binary_op (\<lambda>_ a b. Ok (VBool (value_less a b)))
     else if op = OP_LESS_EQUAL then binary_op (\<lambda>_ a b. Ok (VBool (\<not> value_greater a b)))
     else if op = OP_NOT then unary_op unary_logic
     else if op = OP_JUMP_IF_TRUE then jump_if True (length code) operand
     else if op = OP_JUMP_IF_FALSE then jump_if False (length code) operand
     else if op = OP_JUMP then jump_forward (length code) operand
     else if op = OP_LOOP then jump_back operand
     else if op = OP_POP then bindE pop_value (\<lambda>_. ret 0)
     else if op = OP_DUP then bindE (peek_value 0) push_ok
     else if op = OP_SWAP then swap_top
     else if op = OP_MOD then binary_op (\<lambda>_. value_modulo)
     else if op = OP_DIV then binary_op (\<lambda>_. value_divide_int)
     else if op = OP_BUILD_ARRAY then build_array (operand mod 256)
     else if op = OP_BUILD_MAP then build_map (operand mod 256)
     else if op = OP_INDEX_GET then index_get
     else if op = OP_MEMBER_GET then member_get (operand mod 256)
     else if op = OP_GET_MODULE_MEMBER then module_member_get operand consts
     else if op = OP_BUILD_STRUCT then build_struct (operand mod 256)
     else if op = OP_BUILD_ACTOR then bindE (ensure_remaining (length code) 1) (\<lambda>ok.
         if \<not> ok then ret (- 1) else bindE (next_byte code) (\<lambda>n. build_actor operand n))
     else if op = OP_INDEX_SET then index_set
     else if op = OP_MEMBER_SET then member_set (operand mod 256)
     else if op = OP_BUILD_ENUM then bindE (ensure_remaining (length code) 1) (\<lambda>ok.
         if \<not> ok then ret (- 1) else bindE (next_byte code) (\<lambda>n. build_enum (operand mod 256) n))
     else if op = OP_GET_ENUM_TAG then enum_tag_get
     else if op = OP_GET_ENUM_ARG then enum_arg_get (operand mod 256)
     else if op = OP_ADDR_LOCAL then address_of_local (operand mod 256)
     else if op = OP_ADDR_GLOBAL then address_of_global operand consts
     else if op = OP_ADDR_MEMBER then address_of_member
     else if op = OP_ADDR_UPVALUE then address_of_upvalue (operand mod 256)
     else if op = OP_DEREF_GET then deref_get
     else if op = OP_DEREF_SET then deref_set
     else if op = OP_BEGIN_TXN then begin_txn_op
     else if op = OP_END_TXN then end_txn_op
     else if op = OP_MAKE_ITER then make_iter
     else if op = OP_ITER_NEXT then iter_next_op fuel run (length code) operand
     else if op = OP_ITER_TAKE then iter_take
     else if op = OP_ITER_DROP then iter_drop
     else if op = OP_ITER_TRANSFORM then iter_transform
     else if op = OP_ITER_REVERSE then iter_reverse
     else if op = OP_ITER_FILTER then iter_filter
     else if op = OP_PRINT then print_op
     else if op = OP_BUILD_HANDLER then build_table_op ''Handler build requires operation names'' Obj_Handlers K_Handlers operand
     else if op = OP_BUILD_ACTOR_METHODS then build_table_op ''Actor method table requires method names'' Obj_Methods K_ActorMethods operand
     else if op = OP_ASSERT then assert_op consts operand
     else if op = OP_PUSH_HANDLER then push_handler_op
     else if op = OP_POP_HANDLER then bindE pop_handler_map (\<lambda>ok. ret (if ok then 0 else - 1))
     else if op = OP_EFFECT_INVOKE then effect_invoke_op env invoke code consts operand
     else if op = OP_ACTOR_SEND then actor_call_op env True code consts operand
     else if op = OP_ACTOR_QUERY then actor_call_op env False code consts operand
     else unknown_opcode op)"

definition dispatch ::
    "env \<Rightarrow> nat \<Rightarrow> exec_result vm_proc \<Rightarrow> invoker \<Rightarrow> opcode \<Rightarrow> nat \<Rightarrow> int vm_proc" where
  "dispatch env fuel run invoke op operand =
     bindE current_function (\<lambda>fn.
       case extension env op of
         Some handler \<Rightarrow> handler
       | None \<Rightarrow> execute_op env fuel run invoke (fn_code fn) (fn_constants fn) op operand)"

section \<open>The loop\<close>

text \<open>The handler \<open>catch (const std::exception& e)\<close> around one turn of the loop.\<close>

definition catch_exceptions :: "exec_result option vm_proc \<Rightarrow> exec_result option vm_proc" where
  "catch_exceptions m = (\<lambda>s. case m s of
       (Raise (CppExc e), s') \<Rightarrow> seqE (raise_error e) (ret (Some Exec_RuntimeError)) s'
     | r \<Rightarrow> r)"

text \<open>What the loop does with the result of \<open>Dispatch\<close>; a positive result moves the position.\<close>

definition after_dispatch :: "nat \<Rightarrow> int \<Rightarrow> exec_result option vm_proc" where
  "after_dispatch entry result =
     (if result < 0 then ret (Some Exec_RuntimeError)
      else bindE (reads (\<lambda>s. length (frames s))) (\<lambda>n.
        if n < entry \<or> n = 0 then ret (Some Exec_Success)
        else if result = 0 then ret None
        else seqE (update_frame (\<lambda>f. f\<lparr>frame_ip := frame_ip f + nat result\<rparr>)) (ret None)))"

definition run_turn ::
    "env \<Rightarrow> nat \<Rightarrow> exec_result vm_proc \<Rightarrow> invoker \<Rightarrow> nat \<Rightarrow> exec_result option vm_proc" where
  "run_turn env fuel run invoke entry =
     bindE (reads (\<lambda>s. length (frames s))) (\<lambda>n.
       if n < entry \<or> n = 0 then ret (Some Exec_Success)
       else
         bindE current_frame (\<lambda>f.
         bindE current_function (\<lambda>fn.
           if length (fn_code fn) \<le> frame_ip f
           then bindE (dispatch env fuel run invoke OP_RETURN 0) (\<lambda>_.
             bindE (reads (\<lambda>s. frames s = [])) (\<lambda>none.
               ret (if none then Some Exec_Success else None)))
           else
             (case fetch (fn_code fn) (frame_ip f) of (op, operand, i) \<Rightarrow>
                seqE (set_ip i)
                  (case operand of
                     None \<Rightarrow> seqE (raise_error ''Truncated bytecode stream'')
                                (ret (Some Exec_RuntimeError))
                   | Some k \<Rightarrow> bindE (dispatch env fuel run invoke op k)
                                (after_dispatch entry))))))"

text \<open>\<open>run_loop env n entry\<close> is \<open>Run\<close> entered with \<open>entry\<close> frames, \<open>run env n\<close> is \<open>Run\<close>.\<close>

fun run_loop :: "env \<Rightarrow> nat \<Rightarrow> nat \<Rightarrow> exec_result vm_proc"
  and invoke :: "env \<Rightarrow> nat \<Rightarrow> invoker" where
  "run_loop env 0 = (\<lambda>entry. raise OutOfFuel)"
| "run_loop env (Suc n) = (\<lambda>entry.
     bindE (catch_exceptions (run_turn env n
         (bindE (reads (\<lambda>s. length (frames s))) (run_loop env n)) (invoke env n) entry)) (\<lambda>r.
       case r of Some x \<Rightarrow> ret x | None \<Rightarrow> run_loop env n entry))"
| "invoke env 0 = (\<lambda>callee args. raise OutOfFuel)"
| "invoke env (Suc n) = invoke_callable env
     (bindE (reads (\<lambda>s. length (frames s))) (run_loop env n)) (invoke env n)"

definition run :: "env \<Rightarrow> nat \<Rightarrow> exec_result vm_proc" where
  "run env n = bindE (reads (\<lambda>s. length (frames s))) (run_loop env n)"

section \<open>Interpret\<close>

definition top_level_function :: "chunk \<Rightarrow> function_obj" where
  "top_level_function c = \<lparr>fn_name = ''top_level'', fn_chunk = c, fn_arity = 0, fn_min_arity = 0,
     fn_variadic = False, capture_names = []\<rparr>"

definition interpret_chunk :: "env \<Rightarrow> nat \<Rightarrow> chunk option \<Rightarrow> bool vm_proc" where
  "interpret_chunk env n chunk = (case chunk of
       None \<Rightarrow> ret False
     | Some c \<Rightarrow>
         seqE clear_stack
         (seqE clear_error
         (bindE (new_object (Obj_Function (top_level_function c))) (\<lambda>fn.
         bindE (new_object (Obj_Closure fn [])) (\<lambda>cl.
         seqE (push_value (VRef K_Closure cl))
         (seqE (push_frame fn cl 1)
         (bindE (run env n) (\<lambda>r.
           if r = Exec_Success then ret True
           else seqE (unwind_transactions 0) (seqE clear_handlers (ret False))))))))))"

text \<open>Evaluation unfolds a procedure only once it is applied to a state.\<close>

declare
  ensure_remaining_def [THEN fun_cong, code]
  next_byte_def [THEN fun_cong, code]
  binary_op_def [THEN fun_cong, code]
  unary_op_def [THEN fun_cong, code]
  jump_forward_def [THEN fun_cong, code]
  jump_back_def [THEN fun_cong, code]
  jump_if_def [THEN fun_cong, code]
  swap_top_def [THEN fun_cong, code]
  begin_txn_op_def [THEN fun_cong, code]
  end_txn_op_def [THEN fun_cong, code]
  iter_next_op_def [THEN fun_cong, code]
  print_op_def [THEN fun_cong, code]
  build_table.simps [THEN fun_cong, code]
  build_table_op_def [THEN fun_cong, code]
  assert_op_def [THEN fun_cong, code]
  push_handler_op_def [THEN fun_cong, code]
  effect_invoke_op_def [THEN fun_cong, code]
  actor_call_op_def [THEN fun_cong, code]
  unknown_opcode_def [THEN fun_cong, code]
  execute_op_def [THEN fun_cong, code]
  dispatch_def [THEN fun_cong, code]
  catch_exceptions_def [THEN fun_cong, code]
  after_dispatch_def [THEN fun_cong, code]
  run_turn_def [THEN fun_cong, code]
  run_def [THEN fun_cong, code]
  interpret_chunk_def [THEN fun_cong, code]

lemma run_loop_code [code]:
  "run_loop env 0 entry s = raise OutOfFuel s"
  "run_loop env (Suc n) entry s = bindE (catch_exceptions (run_turn env n (run env n) (invoke env n) entry))
     (\<lambda>r. case r of Some x \<Rightarrow> ret x | None \<Rightarrow> run_loop env n entry) s"
  by (simp_all only: run_loop.simps run_def)

lemma invoke_code [code]:
  "invoke env 0 callee args s = raise OutOfFuel s"
  "invoke env (Suc n) callee args s = invoke_callable env (run env n) (invoke env n) callee args s"
  by (simp_all only: invoke.simps run_def)

end
