(* ===== verification/ControlInv.thy ===== *)
theory ControlInv
  imports Machine
begin

text \<open>
  Invariants of the machine's control state. The locale \<open>control_invariant\<close> asks that a predicate
  survives the elementary updates the machine makes to its state; then every instruction, the loop
  and every call preserve it, for any native functions, extensions and scheduler that do. It is
  interpreted on the bounds of the stack and the frames and on the invariant of the
  synchronisation runtime.
\<close>

named_theorems control_keeps "preservation of a control invariant by the machine's procedures"

section \<open>Decomposition rules for the datatypes of the machine\<close>

lemma keeps_case_value [keeps_intros]:
  "keeps P a \<Longrightarrow> (\<And>x. keeps P (b x)) \<Longrightarrow> (\<And>x. keeps P (c x)) \<Longrightarrow> (\<And>x. keeps P (d x)) \<Longrightarrow>
   (\<And>x. keeps P (e x)) \<Longrightarrow> (\<And>x y. keeps P (f x y)) \<Longrightarrow>
   keeps P (case v of VNull \<Rightarrow> a | VBool x \<Rightarrow> b x | VInt x \<Rightarrow> c x | VDouble x \<Rightarrow> d x
     | VString x \<Rightarrow> e x | VRef x y \<Rightarrow> f x y)"
  by (cases v) auto

lemma keeps_case_kind [keeps_intros]:
  "keeps P a1 \<Longrightarrow> keeps P a2 \<Longrightarrow> keeps P a3 \<Longrightarrow> keeps P a4 \<Longrightarrow> keeps P a5 \<Longrightarrow> keeps P a6 \<Longrightarrow>
   keeps P a7 \<Longrightarrow> keeps P a8 \<Longrightarrow> keeps P a9 \<Longrightarrow> keeps P b1 \<Longrightarrow> keeps P b2 \<Longrightarrow> keeps P b3 \<Longrightarrow>
   keeps P b4 \<Longrightarrow> keeps P b5 \<Longrightarrow> keeps P b6 \<Longrightarrow> keeps P b7 \<Longrightarrow> keeps P b8 \<Longrightarrow> keeps P b9 \<Longrightarrow>
   keeps P c1 \<Longrightarrow> keeps P c2 \<Longrightarrow> keeps P c3 \<Longrightarrow> keeps P c4 \<Longrightarrow> keeps P c5 \<Longrightarrow> keeps P c6 \<Longrightarrow>
   keeps P c7 \<Longrightarrow> keeps P c8 \<Longrightarrow> keeps P c9 \<Longrightarrow> keeps P d1 \<Longrightarrow> keeps P d2 \<Longrightarrow>
   keeps P (case_kind a1 a2 a3 a4 a5 a6 a7 a8 a9 b1 b2 b3 b4 b5 b6 b7 b8 b9
     c1 c2 c3 c4 c5 c6 c7 c8 c9 d1 d2 k)"
  by (cases k) auto

lemma keeps_case_hobj [keeps_intros]:
  "(\<And>x. keeps P (a1 x)) \<Longrightarrow> (\<And>x y. keeps P (a2 x y)) \<Longrightarrow> (\<And>x. keeps P (a3 x)) \<Longrightarrow>
   (\<And>x. keeps P (a4 x)) \<Longrightarrow> (\<And>x. keeps P (a5 x)) \<Longrightarrow> (\<And>x y. keeps P (a6 x y)) \<Longrightarrow>
   (\<And>x y. keeps P (a7 x y)) \<Longrightarrow> (\<And>x y z. keeps P (a8 x y z)) \<Longrightarrow> (\<And>x. keeps P (a9 x)) \<Longrightarrow>
   (\<And>x. keeps P (b1 x)) \<Longrightarrow> (\<And>x. keeps P (b2 x)) \<Longrightarrow> (\<And>x y. keeps P (b3 x y)) \<Longrightarrow>
   (\<And>x. keeps P (b4 x)) \<Longrightarrow> (\<And>x. keeps P (b5 x)) \<Longrightarrow> (\<And>x. keeps P (b6 x)) \<Longrightarrow>
   (\<And>x. keeps P (b7 x)) \<Longrightarrow> (\<And>x. keeps P (b8 x)) \<Longrightarrow> (\<And>x. keeps P (b9 x)) \<Longrightarrow>
   (\<And>x. keeps P (c1 x)) \<Longrightarrow> (\<And>x. keeps P (c2 x)) \<Longrightarrow>
   keeps P (case_hobj a1 a2 a3 a4 a5 a6 a7 a8 a9 b1 b2 b3 b4 b5 b6 b7 b8 b9 c1 c2 obj)"
  by (cases obj) auto

lemma keeps_case_iterator [keeps_intros]:
  "(\<And>x y. keeps P (a x y)) \<Longrightarrow> (\<And>x y. keeps P (b x y)) \<Longrightarrow> (\<And>x y z. keeps P (c x y z)) \<Longrightarrow>
   (\<And>x y z. keeps P (d x y z)) \<Longrightarrow> (\<And>x y z w. keeps P (e x y z w)) \<Longrightarrow>
   (\<And>x y z. keeps P (f x y z)) \<Longrightarrow> keeps P (case_iterator a b c d e f it)"
  by (cases it) auto

lemma keeps_state: "(\<And>s. keeps P (f s)) \<Longrightarrow> keeps P (\<lambda>s. f s s)"
  by (simp add: keeps_def)

lemma keeps_state_if [keeps_intros]:
  "keeps P f \<Longrightarrow> keeps P g \<Longrightarrow> keeps P (\<lambda>s. if b s then f s else g s)"
  by (simp add: keeps_def)

lemma keeps_state_option [keeps_intros]:
  "keeps P f \<Longrightarrow> (\<And>x. keeps P (g x)) \<Longrightarrow> keeps P (\<lambda>s. case o' s of None \<Rightarrow> f s | Some x \<Rightarrow> g x s)"
  by (simp add: keeps_def split: option.split)

lemma keeps_state_answer [keeps_intros]: "keeps P (\<lambda>s. (r s, s))"
  by (simp add: keeps_def)

lemma keeps_lift_heap [keeps_intros]: "keeps P (lift_heap f)"
  by (simp add: keeps_def lift_heap_def)

lemma keeps_bind_reads [keeps_intros]: "(\<And>x. keeps P (f x)) \<Longrightarrow> keeps P (bindE (reads g) f)"
  by (rule keeps_bindE [OF keeps_reads])

lemma keeps_fold_snd:
  "(\<And>x s. P s \<Longrightarrow> P (f x s)) \<Longrightarrow> P s \<Longrightarrow> P (fold f xs s)"
  by (induction xs arbitrary: s) auto

lemma keeps_funpow: "(\<And>s. P s \<Longrightarrow> P (f s)) \<Longrightarrow> P s \<Longrightarrow> P ((f ^^ n) s)"
  by (induction n) auto

section \<open>The contract\<close>

text \<open>
  What the environment keeps: a native function does when its callbacks do, an extension does, and
  so do the other threads while a query waits.
\<close>

definition env_keeps :: "(vm_state \<Rightarrow> bool) \<Rightarrow> env \<Rightarrow> bool" where
  "env_keeps P env \<longleftrightarrow>
     (\<forall>key slot iv args. (\<forall>callee vs. keeps P (iv callee vs)) \<longrightarrow>
        keeps P (native_body env key slot iv args)) \<and>
     (\<forall>opc h. extension env opc = Some h \<longrightarrow> keeps P h) \<and>
     (\<forall>a r. keeps P (await_query env a r))"

locale control_invariant =
  fixes P :: "vm_state \<Rightarrow> bool"
  assumes data_update: "P s \<Longrightarrow> P (s\<lparr>heap := h\<rparr>)" "P s \<Longrightarrow> P (s\<lparr>next_address := n\<rparr>)"
      "P s \<Longrightarrow> P (s\<lparr>globals := g\<rparr>)" "P s \<Longrightarrow> P (s\<lparr>thread_locals := g\<rparr>)"
      "P s \<Longrightarrow> P (s\<lparr>error_message := e\<rparr>)" "P s \<Longrightarrow> P (s\<lparr>stdout_text := e\<rparr>)"
      "P s \<Longrightarrow> P (s\<lparr>txns := ts\<rparr>)" "P s \<Longrightarrow> P (s\<lparr>handlers := hs\<rparr>)"
      "P s \<Longrightarrow> P (s\<lparr>next_actor_id := n\<rparr>)"
    and stack_shrink: "P s \<Longrightarrow> length vs \<le> length (stack s) \<Longrightarrow> P (s\<lparr>stack := vs\<rparr>)"
    and stack_push: "P s \<Longrightarrow> length (stack s) < STACK_MAX \<Longrightarrow> P (s\<lparr>stack := stack s @ [v]\<rparr>)"
    and frames_shrink: "P s \<Longrightarrow> length fs \<le> length (frames s) \<Longrightarrow> P (s\<lparr>frames := fs\<rparr>)"
    and frames_push: "P s \<Longrightarrow> length (frames s) < FRAMES_MAX \<Longrightarrow> P (s\<lparr>frames := f # frames s\<rparr>)"
    and sync_update: "P s \<Longrightarrow> P (s\<lparr>sync := snd (try_lock_mutex t m (sync s))\<rparr>)"
      "P s \<Longrightarrow> P (s\<lparr>sync := snd (unlock_mutex t m (sync s))\<rparr>)"
begin

lemma primitives [control_keeps]:
  "keeps P (new_object obj)" "keeps P (store_object a obj)" "keeps P (raise_error m)"
  "keeps P clear_error" "keeps P (push_value v)" "keeps P pop_value" "keeps P (peek_value d)"
  "keeps P (set_at i v)" "keeps P (get_at i)" "keeps P (push_frame fn cl base)" "keeps P pop_frame"
  "keeps P current_frame" "keeps P (set_local i v)" "keeps P (get_local i)"
  "keeps P (define_global x v)" "keeps P (define_thread_local x v)" "keeps P (push_handler_map a)"
  "keeps P (unwind_handlers n)" "keeps P clear_handlers" "keeps P register_actor"
  by (rule keepsI; simp add: new_object_def store_object_def raise_error_def clear_error_def
      push_value_def pop_value_def peek_value_def set_at_def get_at_def push_frame_def pop_frame_def
      current_frame_def set_local_def get_local_def define_global_def define_thread_local_def
      push_handler_map_def unwind_handlers_def clear_handlers_def register_actor_def
      data_update stack_shrink stack_push frames_shrink frames_push split: list.split)+

lemma clear_stack_keeps [control_keeps]: "keeps P clear_stack"
proof (rule keepsI)
  fix s assume "P s"
  then have "P (s\<lparr>stack := []\<rparr>)" by (simp add: stack_shrink)
  then have "P (s\<lparr>stack := [], frames := []\<rparr>)" by (rule frames_shrink) simp
  then show "P (snd (clear_stack s))" by (simp add: clear_stack_def data_update)
qed

lemma update_frame_keeps [control_keeps]: "keeps P (update_frame g)" "keeps P (set_ip i)"
  by (rule keepsI; simp add: update_frame_def set_ip_def frames_shrink split: list.split)+

section \<open>Transactions and locks\<close>

lemma update_txn_keeps: "P s \<Longrightarrow> P (update_txn g s)"
  by (simp add: update_txn_def data_update split: list.split)

lemma error_keeps: "P s \<Longrightarrow> P (snd (raise_error m s))"
  using keepsD [OF primitives(3)] by (cases "raise_error m s") auto

lemma fail_with_keeps [control_keeps]: "keeps P (fail_with m)"
  unfolding fail_with_def by (intro keeps_intros control_keeps)

lemma sync_call_keeps [control_keeps]:
  "keeps P (in_sync (try_lock_mutex t m))" "keeps P (in_sync (unlock_mutex t m))"
  unfolding keeps_def in_sync_def using sync_update [of _ t m] by (auto simp: case_prod_beta)

lemma context_lock_keeps [control_keeps]:
  "keeps P (context_try_lock t m)" "keeps P (context_unlock t m)"
  unfolding context_try_lock_def context_unlock_def by (intro keeps_intros control_keeps)+

lemma lock_loops_keep [control_keeps]:
  "keeps P (release_all t ms)" "keeps P (acquire_all t ms held acquired)"
  "keeps P (unlock_until_failure t ms)"
proof -
  show release: "keeps P (release_all t ms)" for t ms
    unfolding release_all_def by (induction ms) (auto intro!: keeps_intros control_keeps)
  show "keeps P (acquire_all t ms held acquired)"
    using release unfolding acquire_all_def release_all_def
    by (induction ms arbitrary: acquired) (auto intro!: keeps_intros control_keeps)
  show "keeps P (unlock_until_failure t ms)"
    unfolding unlock_until_failure_def by (induction ms) (auto intro!: keeps_intros control_keeps)
qed

lemma stores_keep:
  "P s \<Longrightarrow> P (store_global g s)" "P s \<Longrightarrow> P (store_thread_local g s)"
  "P s \<Longrightarrow> P (store_array e s)" "P s \<Longrightarrow> P (store_fields f s)"
  "P s \<Longrightarrow> P (release_quietly m s)"
  by (auto simp: store_global_def store_thread_local_def store_array_def store_fields_def
      runtime_set_global_def release_quietly_def data_update sync_update
      split: prod.split option.split hobj.split)

lemma publish_restore_keep: "P s \<Longrightarrow> P (publish t s)" "P s \<Longrightarrow> P (restore t s)"
  by (simp_all add: publish_def restore_def keeps_fold_snd stores_keep)

lemma unwind_one_keeps: "P s \<Longrightarrow> P (unwind_one s)"
  by (simp add: unwind_one_def keeps_fold_snd stores_keep publish_restore_keep data_update
      split: list.split)

lemma transactions_keep [control_keeps]:
  "keeps P (begin_transaction ms)" "keeps P end_transaction" "keeps P (unwind_transactions n)"
proof -
  have push: "keeps P (modify (\<lambda>s. s\<lparr>txns := t # txns s\<rparr>))" for t
    by (rule keeps_modify) (rule data_update)
  show "keeps P (begin_transaction ms)"
    unfolding begin_transaction_def Let_def
    by (intro keeps_intros control_keeps) (rule keeps_state, intro keeps_intros control_keeps push)
  show "keeps P end_transaction"
    unfolding end_transaction_def
    by (rule keepsI) (auto simp: data_update publish_restore_keep split: list.split
        intro!: keepsD [OF lock_loops_keep(3), OF _ surjective_pairing]
          keepsD [OF fail_with_keeps, OF _ surjective_pairing])
  show "keeps P (unwind_transactions n)"
    unfolding unwind_transactions_def
    by (rule keeps_modify) (simp add: keeps_funpow unwind_one_keeps)
qed

lemma staged_writes_keep [control_keeps]:
  "keeps P (stateful (set_array_element a i v))" "keeps P (stateful (set_instance_field a i v))"
  "keeps P (set_global x v)" "keeps P (set_thread_local x v)"
  by (rule keepsI; auto simp: stateful_def set_array_element_def set_instance_field_def
      record_instance_field_write_def set_global_def runtime_set_global_def set_thread_local_def
      Let_def data_update update_txn_keeps split: option.split prod.split)+

lemma pop_handler_keeps [control_keeps]: "keeps P pop_handler_map"
proof -
  have "keeps P (seqE (raise_error m) (ret False))" for m
    by (intro keeps_intros control_keeps)
  from keepsD [OF this, OF _ surjective_pairing] show ?thesis
    by (intro keepsI) (auto simp: pop_handler_map_def data_update split: list.split)
qed

section \<open>Instructions\<close>

lemma store_in_keeps:
  "(\<And>x s. P s \<Longrightarrow> P (snd (f x s))) \<Longrightarrow> keeps P m \<Longrightarrow> keeps P (bindE m f)"
  by (rule keeps_bindE) (auto intro: keepsI)

lemma upvalues_keep [control_keeps]: "keeps P (set_upvalue i v)" "keeps P (get_upvalue i)"
  unfolding set_upvalue_def get_upvalue_def
  by (rule store_in_keeps; auto simp: data_update intro!: control_keeps
      split: option.split hobj.split)+

lemma pop_times_keep [control_keeps]: "keeps P (pop_times n)"
  by (induction n) (auto intro!: keeps_intros control_keeps)

lemma pops_keep [control_keeps]: "keeps P (pop_down_to n)" "keeps P (pop_many n)"
  unfolding pop_down_to_def pop_many_def
  by (rule keeps_state, rule pop_times_keep) (intro keeps_intros control_keeps)

lemma support_keeps [control_keeps]:
  "keeps P (fail m)" "keeps P (push_ok v)" "keeps P undefined_null"
  unfolding fail_def push_ok_def undefined_null_def by (intro keeps_intros control_keeps)+

lemma ignore_result_keeps [control_keeps]: "keeps P f \<Longrightarrow> keeps P (ignore_result f)"
  unfolding ignore_result_def by (intro keeps_intros)

lemma constants_keep [control_keeps]:
  "keeps P (read_string_constant cs i)" "keeps P current_function"
  unfolding read_string_constant_def current_function_def
  by (intro keeps_intros control_keeps)+

lemma building_keeps [control_keeps]:
  "keeps P (build_array n)" "keeps P (build_struct n)" "keeps P (build_enum t n)"
  "keeps P (build_actor k n)"
  unfolding build_array_def build_struct_def build_enum_def build_actor_def
  by (intro keeps_intros control_keeps)+

lemma build_map_keeps [control_keeps]: "keeps P (build_map n)"
proof -
  have "keeps P (build_entries n m)" for m
    by (induction n arbitrary: m) (auto intro!: keeps_intros control_keeps)
  then show ?thesis unfolding build_map_def by (intro keeps_intros control_keeps)
qed

lemma access_keeps [control_keeps]:
  "keeps P index_get" "keeps P index_set" "keeps P (member_get i)" "keeps P (member_set i)"
  "keeps P (module_member_get k cs)" "keeps P enum_tag_get" "keeps P (enum_arg_get i)"
  unfolding index_get_def index_set_def member_get_def member_set_def module_member_get_def
    enum_tag_get_def enum_arg_get_def
  by (intro keeps_intros control_keeps)+

lemma pointer_target_keeps [control_keeps]:
  "keeps P (pointer_get t)" "keeps P (pointer_set p name t v)"
  by (cases t; auto intro!: keeps_intros control_keeps)+

lemma addresses_keep [control_keeps]:
  "keeps P (address_of_local i)" "keeps P (address_of_global k cs)" "keeps P address_of_member"
  "keeps P (address_of_upvalue i)" "keeps P deref_get" "keeps P deref_set"
  unfolding address_of_local_def address_of_global_def address_of_member_def
    address_of_upvalue_def deref_get_def deref_set_def push_pointer_def
  by (intro keeps_intros control_keeps)+

section \<open>Calls and iterators\<close>

lemma push_values_keeps [control_keeps]: "keeps P (push_values vs)"
  unfolding push_values_def by (intro keeps_intros control_keeps)

lemma get_range_keeps [control_keeps]: "keeps P (get_range i n)"
  by (induction n arbitrary: i) (auto intro!: keeps_intros control_keeps)

lemma call_function_keeps [control_keeps]: "keeps P (call_function fn cl n i)"
  unfolding call_function_def pack_variadic_def Let_def by (intro keeps_intros control_keeps)

lemma return_keeps [control_keeps]: "keeps P handle_return"
  unfolding handle_return_def by (intro keeps_intros control_keeps)

lemma globals_keep [control_keeps]: "keeps P (handle_global opc k cs)" "keeps P (handle_closure k cs)"
  unfolding handle_global_def define_global_op_def get_global_op_def set_global_op_def
    undefined_variable_def handle_closure_def
  by (intro keeps_intros control_keeps)+

lemma abandon_keeps [control_keeps]: "keeps P abandon_call"
  unfolding abandon_call_def by (intro keeps_intros control_keeps)

lemma iterator_stores_keep [control_keeps]:
  "keeps P (store_iterator a it)" "keeps P (append_to_buffer a v)" "keeps P (pop_frames_to n)"
proof -
  show store: "keeps P (store_iterator a it)" for a it
    unfolding store_iterator_def by (intro control_keeps)
  show "keeps P (append_to_buffer a v)"
    unfolding append_to_buffer_def
    by (rule keepsI) (auto split: option.split iterator.split intro!: keepsD [OF store, OF _ surjective_pairing])
  show "keeps P (pop_frames_to n)"
    unfolding pop_frames_to_def by (rule keeps_modify) (simp add: frames_shrink)
qed

lemma call_in_iterator_keeps [control_keeps]:
  "keeps P rn \<Longrightarrow> keeps P (call_in_iterator rn m fn cl v)"
  unfolding call_in_iterator_def by (intro keeps_intros control_keeps)

lemma loops_keep [control_keeps]:
  "keeps P nxt \<Longrightarrow> (\<And>v. keeps P (st v)) \<Longrightarrow> keeps P (drain_into n nxt st)"
  "keeps P nxt \<Longrightarrow> (\<And>v. keeps P (tst v)) \<Longrightarrow> keeps P (search_next n nxt tst)"
  "keeps P nxt \<Longrightarrow> keeps P (drop_loop k nxt)"
  unfolding drop_loop_def
  by (induction n; auto intro!: keeps_intros control_keeps)+

lemma reverse_keeps [control_keeps]:
  "keeps P (reverse_emit a src buf i)" "keeps P (reverse_start a)" "keeps P (array_next a b j)"
  unfolding reverse_start_def reverse_emit_def array_next_def
  by (intro keeps_intros control_keeps)+

lemma iter_next_keeps [control_keeps]: "keeps P rn \<Longrightarrow> keeps P (iter_next n rn a)"
proof (induction n arbitrary: a)
  case (Suc n)
  show ?case
    by (simp only: iter_next.simps) (intro keeps_intros control_keeps Suc.IH Suc.prems)
qed (simp add: keeps_raise)

lemma iterator_building_keeps [control_keeps]:
  "keeps P make_iter" "keeps P iter_take" "keeps P iter_drop" "keeps P iter_reverse"
  "keeps P iter_transform" "keeps P iter_filter"
  unfolding make_iter_def iter_take_def iter_drop_def iter_reverse_def iter_transform_def
    iter_filter_def with_iterator_def with_callable_def push_iterator_def
  by (intro keeps_intros control_keeps)+

section \<open>The machine\<close>

lemma bytes_keep [control_keeps]:
  "keeps P (ensure_remaining n k)" "keeps P (next_byte code)" "keeps P (jump_forward n k)"
  "keeps P (jump_back k)"
  unfolding ensure_remaining_def next_byte_def jump_forward_def jump_back_def
  by (intro keeps_intros control_keeps)+

lemma simple_instructions_keep [control_keeps]:
  "keeps P (binary_op g)" "keeps P (unary_op u)" "keeps P (jump_if b n k)" "keeps P swap_top"
  "keeps P begin_txn_op" "keeps P end_txn_op" "keeps P (assert_op cs k)"
  "keeps P push_handler_op" "keeps P (unknown_opcode k)"
  unfolding binary_op_def unary_op_def jump_if_def swap_top_def begin_txn_op_def end_txn_op_def
    assert_op_def push_handler_op_def unknown_opcode_def
  by (intro keeps_intros control_keeps)+

lemma print_keeps [control_keeps]: "keeps P print_op"
  unfolding print_op_def by (intro keeps_intros control_keeps keeps_modify data_update)

lemma tables_keep [control_keeps]: "keeps P (build_table_op m con k n)"
proof -
  have "keeps P (build_table m n t)" for t
    by (induction n arbitrary: t) (auto intro!: keeps_intros control_keeps)
  then show ?thesis unfolding build_table_op_def by (intro keeps_intros control_keeps)
qed

lemma call_native_keeps:
  assumes "env_keeps P env" "\<And>callee vs. keeps P (iv callee vs)"
  shows "keeps P (call_native env iv nf n i)"
  using assms unfolding call_native_def env_keeps_def by (intro keeps_intros control_keeps) auto

lemma calls_keep [control_keeps]:
  assumes "env_keeps P env" "\<And>callee vs. keeps P (iv callee vs)"
  shows "keeps P (handle_resolved_call env iv c n i)" "keeps P (handle_call env iv n)"
    "keeps P (effect_invoke_op env iv code cs k)"
  unfolding handle_resolved_call_def handle_call_def effect_invoke_op_def
  by (intro keeps_intros control_keeps call_native_keeps assms)+

lemma invoke_callable_keeps:
  assumes "env_keeps P env" "\<And>callee vs. keeps P (iv callee vs)" "keeps P rn"
  shows "keeps P (invoke_callable env rn iv c vs)"
  unfolding invoke_callable_def by (intro keeps_intros control_keeps assms)

lemma actor_calls_keep [control_keeps]:
  assumes "env_keeps P env"
  shows "keeps P (actor_call_op env snd_only code cs k)"
proof -
  have "keeps P (erase_pending a r)" for a r
    unfolding erase_pending_def by (rule keeps_modify) (simp add: data_update split: option.split)
  moreover have "keeps P (await_query env a r)" for a r
    using assms by (simp add: env_keeps_def)
  ultimately show ?thesis
    unfolding actor_call_op_def enqueue_actor_send_def enqueue_actor_query_def Let_def
    by (intro keeps_intros control_keeps)
qed

lemma iter_next_op_keeps [control_keeps]: "keeps P rn \<Longrightarrow> keeps P (iter_next_op n rn k i)"
  unfolding iter_next_op_def by (intro keeps_intros control_keeps)

lemma execute_op_keeps:
  assumes "env_keeps P env" "\<And>callee vs. keeps P (iv callee vs)" "keeps P rn"
  shows "keeps P (execute_op env n rn iv code cs opc k)"
  unfolding execute_op_def by (intro keeps_if keeps_intros control_keeps assms)

lemma dispatch_keeps:
  assumes "env_keeps P env" "\<And>callee vs. keeps P (iv callee vs)" "keeps P rn"
  shows "keeps P (dispatch env n rn iv opc k)"
proof (cases "extension env opc")
  case None
  then show ?thesis
    unfolding dispatch_def by simp (intro keeps_intros control_keeps execute_op_keeps assms)
next
  case (Some h)
  with assms(1) have "keeps P h" by (simp add: env_keeps_def)
  then show ?thesis
    unfolding dispatch_def Some option.case by (intro keeps_intros control_keeps)
qed

lemma catch_keeps: "keeps P m \<Longrightarrow> keeps P (catch_exceptions m)"
proof (rule keepsI)
  fix s assume *: "keeps P m" "P s"
  obtain r t where m: "m s = (r, t)" by fastforce
  with * have "P t" by (rule keepsD)
  moreover have "keeps P (seqE (raise_error e) (ret (Some Exec_RuntimeError)))" for e
    by (intro keeps_intros control_keeps)
  ultimately show "P (snd (catch_exceptions m s))"
    by (auto simp: catch_exceptions_def m keeps_def split: outcome.split exn.split)
qed

lemma run_turn_keeps:
  assumes "env_keeps P env" "\<And>callee vs. keeps P (iv callee vs)" "keeps P rn"
  shows "keeps P (run_turn env n rn iv entry)"
  unfolding run_turn_def after_dispatch_def
  by (intro keeps_intros control_keeps dispatch_keeps assms)

theorem run_keeps:
  assumes "env_keeps P env"
  shows "keeps P (run_loop env n entry)" "keeps P (invoke env n callee args)"
proof (induction n arbitrary: entry callee args)
  case (Suc n)
  {
    case 1
    show ?case
      by (simp only: run_loop.simps)
        (intro keeps_intros control_keeps catch_keeps run_turn_keeps Suc assms)
  next
    case 2
    show ?case
      by (simp only: invoke.simps) (intro keeps_intros invoke_callable_keeps Suc assms)
  }
qed (simp_all add: keeps_raise)

theorem interpret_keeps:
  assumes "env_keeps P env"
  shows "keeps P (interpret_chunk env n c)"
  unfolding interpret_chunk_def run_def
  by (intro keeps_intros control_keeps run_keeps assms)

end

section \<open>Two invariants of every program\<close>

text \<open>The limits that \<open>PushValue\<close> and \<open>PushFrame\<close> enforce.\<close>

definition within_limits :: "vm_state \<Rightarrow> bool" where
  "within_limits s \<longleftrightarrow> length (stack s) \<le> STACK_MAX \<and> length (frames s) \<le> FRAMES_MAX"

interpretation vm_limits: control_invariant within_limits
  by unfold_locales (auto simp: within_limits_def)

text \<open>The synchronisation runtime stays well formed under a program's transactions.\<close>

definition sync_safe :: "vm_state \<Rightarrow> bool" where
  "sync_safe s \<longleftrightarrow> sync_inv (sync s)"

interpretation vm_sync: control_invariant sync_safe
  by unfold_locales (auto simp: sync_safe_def sync_keeps)

text \<open>An environment whose native functions only call back, with a scheduler that answers 7.\<close>

definition calling_env :: env where
  "calling_env = \<lparr>native_body = (\<lambda>key slot iv args. case args of
       [] \<Rightarrow> ret VNull
     | f # vs \<Rightarrow> bindE (iv f vs) (\<lambda>r. ret (snd r))),
     extension = (\<lambda>_. None),
     await_query = (\<lambda>_ _. ret \<lparr>query_ready = True, query_value = vint 7, query_error = []\<rparr>)\<rparr>"

lemma calling_env_keeps: "env_keeps P calling_env"
  by (auto simp: env_keeps_def calling_env_def intro!: keeps_intros split: list.split)

end
