(* ===== verification/Protocol.thy ===== *)
theory Protocol
  imports ControlInv TransactionProps
begin

text \<open>
  The protocol of calls on the value stack: what the stack primitives do when their guards hold,
  and from that what a call, a return and a nested invocation do to stack, frames, transactions
  and handlers.
\<close>

section \<open>The stack primitives when their guards hold\<close>

lemma pop_value_snoc:
  "stack s = vs @ [v] \<Longrightarrow> stack_floor s \<le> length vs \<Longrightarrow> pop_value s = (Ok v, s\<lparr>stack := vs\<rparr>)"
  by (simp add: pop_value_def)

lemma push_value_room:
  "length (stack s) < STACK_MAX \<Longrightarrow> push_value v s = (Ok (), s\<lparr>stack := stack s @ [v]\<rparr>)"
  by (simp add: push_value_def)

lemma stack_floor_update [simp]: "stack_floor (s\<lparr>stack := vs\<rparr>) = stack_floor s"
  by (simp add: stack_floor_def)

lemma pop_value_take:
  assumes "stack_floor s < length (stack s)"
  shows "pop_value s = (Ok (last (stack s)), s\<lparr>stack := take (length (stack s) - 1) (stack s)\<rparr>)"
  using assms by (simp add: pop_value_def butlast_conv_take)

lemma pop_times_take:
  "stack_floor s + n \<le> length (stack s) \<Longrightarrow>
   pop_times n s = (Ok (), s\<lparr>stack := take (length (stack s) - n) (stack s)\<rparr>)"
proof (induction n arbitrary: s)
  case (Suc n)
  have "pop_times n (s\<lparr>stack := take (length (stack s) - 1) (stack s)\<rparr>) =
      (Ok (), s\<lparr>stack := take (length (stack s) - Suc n) (stack s)\<rparr>)"
    by (subst Suc.IH) (use Suc.prems in \<open>auto simp: min_def\<close>)
  with Suc.prems show ?case by (simp add: pop_value_take)
qed simp

lemma pop_down_to_take:
  assumes "stack_floor s \<le> n"
  shows "pop_down_to n s = (Ok (), s\<lparr>stack := take n (stack s)\<rparr>)"
proof (cases "n \<le> length (stack s)")
  case True
  then show ?thesis using assms pop_times_take [of s "length (stack s) - n"]
    by (simp add: pop_down_to_def)
qed (simp add: pop_down_to_def)

lemma pop_many_take:
  "stack_floor s + n \<le> length (stack s) \<Longrightarrow>
   pop_many n s = (Ok (rev (drop (length (stack s) - n) (stack s))),
     s\<lparr>stack := take (length (stack s) - n) (stack s)\<rparr>)"
  unfolding pop_many_def
proof (induction n arbitrary: s)
  case (Suc n)
  from Suc.prems obtain vs v where s: "stack s = vs @ [v]"
    by (cases "stack s" rule: rev_cases) auto
  then have pop: "pop_value s = (Ok v, s\<lparr>stack := vs\<rparr>)"
    using Suc.prems by (intro pop_value_snoc) auto
  show ?case
    using Suc.IH [of "s\<lparr>stack := vs\<rparr>"] Suc.prems
    by (simp add: pop s Suc_diff_le)
qed simp

lemma get_at_ok: "i < length (stack s) \<Longrightarrow> get_at i s = (Ok (stack s ! i), s)"
  by (simp add: get_at_def)

lemma get_range_ok:
  "i + n \<le> length (stack s) \<Longrightarrow> get_range i n s = (Ok (take n (drop i (stack s))), s)"
proof (induction n arbitrary: i)
  case (Suc n)
  then show ?case
    by (simp add: get_at_ok Suc.IH Cons_nth_drop_Suc [symmetric] del: drop_drop)
qed simp

lemma push_values_ok:
  "length (stack s) + length vs \<le> STACK_MAX \<Longrightarrow>
   push_values vs s = (Ok (), s\<lparr>stack := stack s @ vs\<rparr>)"
  unfolding push_values_def
proof (induction vs arbitrary: s)
  case (Cons v vs)
  then show ?case
    by (simp add: push_value_room Cons.IH)
qed simp

lemma current_frame_Cons: "frames s = f # fs \<Longrightarrow> current_frame s = (Ok f, s)"
  by (simp add: current_frame_def)

lemmas stack_exec = pop_value_snoc push_value_room pop_down_to_take pop_many_take get_at_ok
  get_range_ok push_values_ok current_frame_Cons

section \<open>Unwinding transactions leaves the control state alone\<close>

lemma stores_stack:
  "store_global x (s\<lparr>stack := vs\<rparr>) = (store_global x s)\<lparr>stack := vs\<rparr>"
  "store_thread_local x (s\<lparr>stack := vs\<rparr>) = (store_thread_local x s)\<lparr>stack := vs\<rparr>"
  "store_array y (s\<lparr>stack := vs\<rparr>) = (store_array y s)\<lparr>stack := vs\<rparr>"
  "store_fields z (s\<lparr>stack := vs\<rparr>) = (store_fields z s)\<lparr>stack := vs\<rparr>"
  "release_quietly m (s\<lparr>stack := vs\<rparr>) = (release_quietly m s)\<lparr>stack := vs\<rparr>"
  by (auto simp: store_global_def runtime_set_global_def store_thread_local_def store_array_def
      store_fields_def release_quietly_def split: option.split hobj.split)

lemma fold_stack:
  "(\<And>x s vs. f x (s\<lparr>stack := vs\<rparr>) = (f x s)\<lparr>stack := vs\<rparr>) \<Longrightarrow>
   fold f xs (s\<lparr>stack := vs\<rparr>) = (fold f xs s)\<lparr>stack := vs\<rparr>"
  by (induction xs arbitrary: s) auto

lemmas folds_stack = fold_stack [of store_global, OF stores_stack(1)]
  fold_stack [of store_thread_local, OF stores_stack(2)]
  fold_stack [of store_array, OF stores_stack(3)]
  fold_stack [of store_fields, OF stores_stack(4)]
  fold_stack [of release_quietly, OF stores_stack(5)]

lemma unwind_one_stack: "unwind_one (s\<lparr>stack := vs\<rparr>) = (unwind_one s)\<lparr>stack := vs\<rparr>"
proof (cases "txns s")
  case (Cons t ts)
  have swap: "s\<lparr>stack := vs, txns := ts\<rparr> = s\<lparr>txns := ts, stack := vs\<rparr>" by simp
  have "unwind_one (s\<lparr>stack := vs\<rparr>) =
      fold release_quietly (rev (txn_acquired t)) (restore t ((s\<lparr>txns := ts\<rparr>)\<lparr>stack := vs\<rparr>))"
    by (simp add: unwind_one_def Cons swap)
  also have "\<dots> = (unwind_one s)\<lparr>stack := vs\<rparr>"
    by (simp only: restore_def folds_stack) (simp add: unwind_one_def restore_def Cons)
  finally show ?thesis .
qed (simp add: unwind_one_def)

definition unwound :: "nat \<Rightarrow> vm_state \<Rightarrow> vm_state" where
  "unwound base s = (unwind_one ^^ (length (txns s) - base)) s"

lemma unwind_transactions_apply: "unwind_transactions base s = (Ok (), unwound base s)"
  by (simp add: unwind_transactions_def unwound_def)

lemma unwound_stack: "unwound base (s\<lparr>stack := vs\<rparr>) = (unwound base s)\<lparr>stack := vs\<rparr>"
proof -
  have "(unwind_one ^^ n) (s\<lparr>stack := vs\<rparr>) = ((unwind_one ^^ n) s)\<lparr>stack := vs\<rparr>" for n
    by (induction n) (simp_all add: unwind_one_stack)
  then show ?thesis by (simp add: unwound_def)
qed

lemma unwind_one_control:
  "frames (unwind_one s) = frames s" "handlers (unwind_one s) = handlers s"
  "stack (unwind_one s) = stack s" "error_message (unwind_one s) = error_message s"
proof -
  have "frames (fold release_quietly ms s) = frames s \<and> handlers (fold release_quietly ms s) = handlers s
      \<and> stack (fold release_quietly ms s) = stack s
      \<and> error_message (fold release_quietly ms s) = error_message s" for ms s
    by (induction ms arbitrary: s) (auto simp: release_quietly_def)
  with same_control_restore show
    "frames (unwind_one s) = frames s" "handlers (unwind_one s) = handlers s"
    "stack (unwind_one s) = stack s" "error_message (unwind_one s) = error_message s"
    by (auto simp: unwind_one_def same_control_def split: list.split)
qed

lemma unwound_control [simp]:
  "frames (unwound n s) = frames s" "handlers (unwound n s) = handlers s"
  "stack (unwound n s) = stack s" "error_message (unwound n s) = error_message s"
proof -
  have "frames ((unwind_one ^^ k) s) = frames s \<and> handlers ((unwind_one ^^ k) s) = handlers s
      \<and> stack ((unwind_one ^^ k) s) = stack s
      \<and> error_message ((unwind_one ^^ k) s) = error_message s" for k
    by (induction k) (auto simp: unwind_one_control)
  then show "frames (unwound n s) = frames s" "handlers (unwound n s) = handlers s"
    "stack (unwound n s) = stack s" "error_message (unwound n s) = error_message s"
    by (simp_all add: unwound_def)
qed

lemma unwound_none [simp]: "length (txns s) \<le> n \<Longrightarrow> unwound n s = s"
  by (simp add: unwound_def)

section \<open>Calls and returns\<close>

definition new_frame :: "nat \<Rightarrow> nat \<Rightarrow> nat \<Rightarrow> vm_state \<Rightarrow> frame" where
  "new_frame fn cl base s = \<lparr>frame_function = fn, frame_closure = cl, frame_ip = 0,
     frame_base = base, frame_txn_base = length (txns s), frame_handler_base = length (handlers s)\<rparr>"

lemma push_frame_room:
  "length (frames s) < FRAMES_MAX \<Longrightarrow>
   push_frame fn cl base s = (Ok (), s\<lparr>frames := new_frame fn cl base s # frames s\<rparr>)"
  by (simp add: push_frame_def new_frame_def)

lemma handle_call_callee:
  assumes "stack s = below @ callee # args"
  shows "handle_call env iv (length args) s =
    handle_resolved_call env iv callee (length args) (length below) s"
  using assms by (simp add: handle_call_def size_sub_le get_at_def nth_append)

text \<open>C21: calling a closure of a fixed-arity function with as many arguments as it takes enters a
  frame whose base is the first argument and which remembers how many transactions and handlers
  were active; the stack, the heap and every other part of the state stay as they are. Any other
  number of arguments is refused with an error and enters no frame.\<close>
theorem call_protocol:
  assumes "stack s = below @ VRef K_Closure c # args" "heap s c = Some (Obj_Closure fn caps)"
    and "function_at (heap s) fn = Some fo" "\<not> fn_variadic fo" "length (frames s) < FRAMES_MAX"
  shows "handle_call env iv (length args) s =
    (if fn_arity fo = int (length args)
     then (Ok 0, s\<lparr>frames := new_frame fn c (Suc (length below)) s # frames s\<rparr>)
     else fail (expected_args False (fn_arity fo)) s)"
  using assms by (simp add: handle_call_callee handle_resolved_call_def call_function_def
      push_frame_room size_sub_le Let_def)

text \<open>C22: a call of a variadic function packs the arguments after the fixed ones into a fresh
  array, so that its frame sees exactly as many slots as its declared parameters.\<close>
theorem variadic_call_packs:
  assumes "stack s = below @ VRef K_Closure c # args @ tail" "heap s c = Some (Obj_Closure fn caps)"
    and "function_at (heap s) fn = Some fo" "fn_variadic fo" "fn_arity fo = int (Suc (length args))"
    and "fn_min_arity fo \<le> int (length (args @ tail))" "length args < 65535"
    and "length (stack s) \<le> STACK_MAX" "length (frames s) < FRAMES_MAX"
    and "stack_floor s \<le> length below" "tail \<noteq> [] \<or> length (stack s) < STACK_MAX"
  shows "handle_call env iv (length (args @ tail)) s = (Ok 0,
    s\<lparr>stack := below @ VRef K_Closure c # args @ [VRef K_Array (next_address s)],
      next_address := Suc (next_address s),
      heap := (heap s)(next_address s \<mapsto> Obj_Array tail),
      frames := new_frame fn c (Suc (length below)) s # frames s\<rparr>)"
proof -
  let ?first = "Suc (length below + length args)"
  have fixed: "fixed_count fo = int (length args)"
    using assms(5,7) by (simp add: fixed_count_def)
  have small: "int ?first < 2 ^ 64"
    using assms(1,8) by (simp add: STACK_MAX_def)
  have first: "nat ((int (length below) + 1 + int (length args)) mod 2 ^ 64) = ?first"
    using small by (subst mod_pos_pos_trivial) auto
  have room: "Suc (length below + length args) < STACK_MAX"
    using assms(1,8,11) by (cases tail) auto
  have unfolded: "pack_variadic fo (length (args @ tail)) (length below) =
      bindE (get_range ?first (length tail)) (\<lambda>vs. bindE (new_object (Obj_Array vs)) (\<lambda>a.
        seqE (pop_down_to ?first) (push_value (VRef K_Array a))))"
    by (simp only: pack_variadic_def Let_def fixed first) simp
  have pack: "pack_variadic fo (length (args @ tail)) (length below) s = (Ok (),
      s\<lparr>next_address := Suc (next_address s), heap := (heap s)(next_address s \<mapsto> Obj_Array tail),
        stack := below @ VRef K_Closure c # args @ [VRef K_Array (next_address s)]\<rparr>)"
    using assms(1,8,10,11)
    unfolding unfolded
    by (simp add: get_range_ok new_object_def pop_down_to_take stack_floor_def
        push_value_room room min_def split: list.splits)
  have "handle_call env iv (length (args @ tail)) s =
      handle_resolved_call env iv (VRef K_Closure c) (length (args @ tail)) (length below) s"
    using assms(1) by (intro handle_call_callee) simp
  also have "\<dots> = (Ok 0, s\<lparr>next_address := Suc (next_address s),
      heap := (heap s)(next_address s \<mapsto> Obj_Array tail),
      stack := below @ VRef K_Closure c # args @ [VRef K_Array (next_address s)],
      frames := new_frame fn c (Suc (length below)) s # frames s\<rparr>)"
    using assms(2-9) pack
    by (simp add: handle_resolved_call_def call_function_def push_frame_room size_sub_le
        new_frame_def Let_def)
  finally show ?thesis by simp
qed

lemma handle_return_effect:
  assumes "frames s = f # fs" "stack s = below @ callee # locals" "frame_base f = Suc (length below)"
    and "fs = [] \<or> frame_base (hd fs) \<le> length below" "length below < STACK_MAX"
  shows "handle_return s = (Ok 0, (unwound (frame_txn_base f) s)
    \<lparr>stack := below @ [if locals = [] then VNull else last locals],
     handlers := drop (length (handlers s) - frame_handler_base f) (handlers s),
     frames := fs\<rparr>)"
proof -
  let ?v = "if locals = [] then VNull else last locals"
  let ?s1 = "s\<lparr>stack := below @ callee # butlast locals\<rparr>"
  have pop: "(if frame_base f < length (stack s) then pop_value else ret VNull) s = (Ok ?v, ?s1)"
    using assms(1-3)
    by (cases locals rule: rev_cases) (simp_all add: pop_value_def stack_floor_def butlast_append)
  let ?u = "(unwound (frame_txn_base f) s)\<lparr>stack := below @ callee # butlast locals,
    handlers := drop (length (handlers s) - frame_handler_base f) (handlers s), frames := fs\<rparr>"
  have floor: "stack_floor ?u \<le> length below"
    using assms(4) by (cases fs) (auto simp: stack_floor_def)
  have "handle_return s = (seqE (pop_down_to (length below)) (push_ok ?v)) ?u"
    using assms(1,3) pop
    by (simp add: handle_return_def current_frame_Cons unwind_transactions_apply unwound_stack
        unwind_handlers_def pop_frame_def size_sub_le)
  also have "\<dots> = (Ok 0, ?u\<lparr>stack := below @ [?v]\<rparr>)"
    using floor assms(5) by (simp add: pop_down_to_take push_ok_def push_value_room)
  finally show ?thesis by simp
qed

text \<open>C20: a return takes the frame off, unwinds the transactions and handlers opened since the call,
  and replaces the callee, its arguments and its locals on the stack by the topmost value (null
  when the frame left nothing).\<close>
theorem return_protocol:
  assumes "frames s = f # fs" "stack s = below @ callee # locals" "frame_base f = Suc (length below)"
    and "fs = [] \<or> frame_base (hd fs) \<le> length below" "length below < STACK_MAX"
  shows "handle_return s = (Ok 0, (unwound (frame_txn_base f) s)
    \<lparr>stack := below @ [if locals = [] then VNull else last locals],
     handlers := drop (length (handlers s) - frame_handler_base f) (handlers s),
     frames := fs\<rparr>)"
  using assms by (rule handle_return_effect)

section \<open>Calling back into the machine\<close>

lemma pop_times_length: "pop_times n s = (Ok x, s') \<Longrightarrow> length (stack s') + n = length (stack s)"
  by (induction n arbitrary: s) (auto elim!: bindE_eq_OkE simp: pop_value_def split: if_splits)

lemma pop_down_to_length: "pop_down_to n s = (Ok x, s') \<Longrightarrow> length (stack s') \<le> n"
  by (auto simp: pop_down_to_def dest: pop_times_length)

definition wiped :: "vm_state \<Rightarrow> bool" where
  "wiped s \<longleftrightarrow> stack s = [] \<and> frames s = [] \<and> txns s = [] \<and> handlers s = []"

lemma abandon_call_wipes:
  "abandon_call s = (Ok (read_error_message s, VNull),
     (unwound 0 s)\<lparr>handlers := [], stack := [], frames := [], txns := [], handlers := []\<rparr>)"
  by (simp add: abandon_call_def unwind_transactions_apply clear_handlers_def clear_stack_def)


section \<open>Every program\<close>

text \<open>C18: whatever bytecode a program consists of (well formed or not) and whatever its native
  functions call back, the value stack never exceeds 4096 entries and the frames never exceed 64.\<close>
theorem programs_respect_limits:
  assumes "env_keeps within_limits env" "within_limits s"
  shows "within_limits (snd (interpret_chunk env n chunk s)) \<and>
    within_limits (snd (invoke env n callee args s))"
  using vm_limits.interpret_keeps [OF assms(1)] vm_limits.run_keeps(2) [OF assms(1)] assms(2)
  by (simp_all add: keeps_def)


section \<open>Witnesses\<close>

text \<open>The program \<open>print 2 + 40\<close>.\<close>

definition answer_chunk :: chunk where
  "answer_chunk = \<lparr>chunk_code = [1, 0, 0, 1, 0, 1, 3, 128], chunk_constants = [vint 2, vint 40]\<rparr>"

lemma init_within_limits: "within_limits init_state"
  by (simp add: within_limits_def init_state_def)

theorem programs_respect_limits_witness:
  "within_limits (snd (interpret_chunk calling_env 9 (Some answer_chunk) init_state)) \<and>
   stdout_text (snd (interpret_chunk calling_env 9 (Some answer_chunk) init_state)) =
     ''42'' @ [CHR 0x0A]"
proof
  show "within_limits (snd (interpret_chunk calling_env 9 (Some answer_chunk) init_state))"
    using programs_respect_limits [OF calling_env_keeps init_within_limits] by blast
qed code_simp


text \<open>A function of two parameters, its closure, and a call of it waiting on the stack.\<close>

definition pair_function :: "bool \<Rightarrow> function_obj" where
  "pair_function variadic = \<lparr>fn_name = ''pair'', fn_chunk = empty_chunk, fn_arity = 2,
     fn_min_arity = 1, fn_variadic = variadic, capture_names = []\<rparr>"

definition call_state :: "bool \<Rightarrow> vm_state" where
  "call_state variadic = init_state\<lparr>next_address := 3,
     heap := [1 \<mapsto> Obj_Function (pair_function variadic), 2 \<mapsto> Obj_Closure 1 []],
     stack := [vint 9, VRef K_Closure 2, vint 1, vint 5]\<rparr>"

theorem call_protocol_witness:
  "handle_call calling_env (invoke calling_env 0) 2 (call_state False) =
     (Ok 0, (call_state False)\<lparr>frames := [new_frame 1 2 2 (call_state False)]\<rparr>)"
  using call_protocol [of "call_state False" "[vint 9]" 2 "[vint 1, vint 5]" 1 "[]"
      "pair_function False" calling_env "invoke calling_env 0"]
  by (simp add: call_state_def init_state_def pair_function_def function_at_def FRAMES_MAX_def
      numeral_2_eq_2)

theorem variadic_call_packs_witness:
  "\<exists>s'. handle_call calling_env (invoke calling_env 0) 2 (call_state True) = (Ok 0, s') \<and>
     stack s' = [vint 9, VRef K_Closure 2, vint 1, VRef K_Array 3] \<and>
     heap s' 3 = Some (Obj_Array [vint 5])"
  using variadic_call_packs [of "call_state True" "[vint 9]" 2 "[vint 1]" "[vint 5]" 1 "[]"
      "pair_function True" calling_env "invoke calling_env 0"]
  by (simp add: call_state_def init_state_def pair_function_def function_at_def FRAMES_MAX_def
      STACK_MAX_def stack_floor_def numeral_2_eq_2)

definition return_state :: vm_state where
  "return_state = (call_state False)\<lparr>frames := [new_frame 1 2 2 (call_state False)], handlers := [8]\<rparr>"

theorem return_protocol_witness:
  "handle_return return_state = (Ok 0, (unwound 0 return_state)
     \<lparr>stack := [vint 9, vint 5], handlers := [], frames := []\<rparr>)"
  using return_protocol [of return_state "new_frame 1 2 2 (call_state False)" "[]" "[vint 9]"
      "VRef K_Closure 2" "[vint 1, vint 5]"]
  by (simp add: return_state_def call_state_def init_state_def new_frame_def STACK_MAX_def)

text \<open>A native function that calls back its first argument.\<close>

definition native_state :: vm_state where
  "native_state = init_state\<lparr>next_address := 2, heap := [1 \<mapsto> Obj_Native
     \<lparr>native_name = ''f'', native_key = ''f'', native_arity = 0, native_variadic = True,
      fast_slots = [], general_slot = True\<rparr>]\<rparr>"


end
