(* ===== verification/ValueProps.thy ===== *)
theory ValueProps
  imports Values
begin

text \<open>
  What the operations on values promise: arithmetic and comparison of integers of moderate size are
  exact although they go through \<open>double\<close>, integer division satisfies the division identity,
  equality is symmetric, and the encoding of map keys separates different keys.
\<close>

section \<open>Integers as doubles\<close>

lemma bitlen_shift: "0 < n \<Longrightarrow> bitlen (n * 2 ^ k) = bitlen n + k"
proof (induction k)
  case (Suc k)
  have "bitlen (n * 2 ^ Suc k) = Suc (bitlen (n * 2 ^ Suc k div 2))"
    using Suc.prems by (subst bitlen.simps) (simp add: mult_le_0_iff)
  also have "n * 2 ^ Suc k div 2 = n * 2 ^ k" by simp
  finally show ?case using Suc by simp
qed simp

lemma round_shift_exact:
  assumes "j \<le> k" shows "round_shift (n * 2 ^ k) j = n * 2 ^ (k - j)"
proof -
  have "n * 2 ^ k = (n * 2 ^ (k - j)) * 2 ^ j"
    using assms by (simp add: mult.assoc flip: power_add)
  then have "n * 2 ^ k div 2 ^ j = n * 2 ^ (k - j)" "n * 2 ^ k mod 2 ^ j = 0"
    by (metis nonzero_mult_div_cancel_right power_not_zero zero_neq_numeral, metis mod_mult_self2_is_0)
  then show ?thesis by (simp add: round_shift_def)
qed

text \<open>A multiple of a power of two is rounded as the number itself.\<close>

lemma of_dyadic_shift:
  assumes "\<bar>i\<bar> < 2 ^ 53" "k \<le> 1074" "i \<noteq> 0 \<or> \<not> z"
  shows "of_dyadic (i * 2 ^ k) (- int k) z = double_of_int i"
proof (cases "i = 0")
  case True
  with assms(3) show ?thesis by (simp add: of_dyadic_def double_of_int_def)
next
  case False
  let ?b = "bitlen \<bar>i\<bar>"
  have len: "?b \<le> 53" using assms(1) by (subst bitlen_le_iff) simp_all
  have total: "bitlen (\<bar>i\<bar> * 2 ^ k) = ?b + k" using False by (intro bitlen_shift) simp
  have K: "max (int (?b + k) - 53) (min_exponent - - int k) = int ?b + int k - 53"
    using assms(2) by (simp add: min_exponent_def)
  have bound: "\<bar>i\<bar> * 2 ^ (53 - ?b) < 2 ^ 53"
  proof -
    have "\<bar>i\<bar> < 2 ^ ?b" using bitlen_le_iff [of "\<bar>i\<bar>" ?b] by simp
    then have "\<bar>i\<bar> * 2 ^ (53 - ?b) < 2 ^ ?b * 2 ^ (53 - ?b)" by simp
    then show ?thesis using len by (simp flip: power_add)
  qed
  have rounded: "(if int ?b + int k - 53 \<le> 0 then \<bar>i\<bar> * 2 ^ k * 2 ^ nat (- (int ?b + int k - 53))
      else round_shift (\<bar>i\<bar> * 2 ^ k) (nat (int ?b + int k - 53))) = \<bar>i\<bar> * 2 ^ (53 - ?b)"
  proof (cases "?b + k \<le> 53")
    case True
    then have "nat (- (int ?b + int k - 53)) = 53 - ?b - k" by simp
    with True show ?thesis by (simp add: mult.assoc flip: power_add)
  next
    case large: False
    then have "nat (int ?b + int k - 53) = k - (53 - ?b)" "k - (k - (53 - ?b)) = 53 - ?b"
      using len by auto
    with large show ?thesis by (simp add: round_shift_exact)
  qed
  have "round_dyadic (i < 0) (\<bar>i\<bar> * 2 ^ k) (- int k)
      = Finite (i < 0) (\<bar>i\<bar> * 2 ^ (53 - ?b)) (- int (53 - ?b))"
    using False bound len
    by (simp only: round_dyadic_def total K rounded Let_def) (simp add: max_exponent_def)
  then show ?thesis
    using False double_of_small_int [OF assms(1) False]
    by (simp add: of_dyadic_def abs_mult Let_def mult_less_0_iff)
qed

lemma double_of_int_scaled:
  assumes "\<bar>i\<bar> < 2 ^ 53"
  obtains m k where "double_of_int i = Finite (i < 0) m (- int k)" "k \<le> 1074"
    "signed_significand (i < 0) m = i * 2 ^ k"
proof (cases "i = 0")
  case True
  show thesis
  proof (rule that [of 0 1074])
    show "double_of_int i = Finite (i < 0) 0 (- int 1074)"
      using True by (simp add: double_of_int_def of_dyadic_def fzero_def min_exponent_def)
  qed (use True in \<open>simp_all add: signed_significand_def\<close>)
next
  case False
  let ?k = "53 - bitlen \<bar>i\<bar>"
  show thesis
  proof (rule that [of "\<bar>i\<bar> * 2 ^ ?k" ?k])
    show "double_of_int i = Finite (i < 0) (\<bar>i\<bar> * 2 ^ ?k) (- int ?k)"
      using double_of_small_int [OF assms False] by (simp only: Let_def)
    show "signed_significand (i < 0) (\<bar>i\<bar> * 2 ^ ?k) = i * 2 ^ ?k"
      by (simp add: signed_significand_def)
  qed simp
qed

lemma scale_up: "j \<le> k \<Longrightarrow> x * 2 ^ j * 2 ^ nat (- int j - - int k) = (x :: int) * 2 ^ k"
  by (simp add: mult.assoc nat_diff_distrib flip: power_add)

lemma align:
  fixes x y :: int
  shows "min (- int j) (- int k) = - int (max j k)"
    "x * 2 ^ j * 2 ^ nat (- int j - - int (max j k)) = x * 2 ^ max j k"
    "y * 2 ^ k * 2 ^ nat (- int k - - int (max j k)) = y * 2 ^ max j k"
  by (simp, intro scale_up max.cobounded1, intro scale_up max.cobounded2)

lemma signed_significand_flip: "signed_significand (\<not> b) m = - signed_significand b m"
  by (simp add: signed_significand_def)

lemma small_sums:
  assumes "\<bar>i\<bar> < 2 ^ 52" "\<bar>j\<bar> < 2 ^ 52"
  shows "fadd (double_of_int i) (double_of_int j) = double_of_int (i + j)"
    "fsub (double_of_int i) (double_of_int j) = double_of_int (i - j)"
proof -
  have b: "\<bar>i\<bar> < 2 ^ 53" "\<bar>j\<bar> < 2 ^ 53" using assms by simp_all
  obtain m k where i: "double_of_int i = Finite (i < 0) m (- int k)" "k \<le> 1074"
    "signed_significand (i < 0) m = i * 2 ^ k"
    using b(1) by (rule double_of_int_scaled)
  obtain n l where j: "double_of_int j = Finite (j < 0) n (- int l)" "l \<le> 1074"
    "signed_significand (j < 0) n = j * 2 ^ l"
    using b(2) by (rule double_of_int_scaled)
  have "fadd (double_of_int i) (double_of_int j) =
      of_dyadic ((i + j) * 2 ^ max k l) (- int (max k l)) (i < 0 \<and> j < 0)"
    by (simp only: i(1) j(1) fadd.simps Let_def i(3) j(3) align distrib_right)
  also have "\<dots> = double_of_int (i + j)"
    using assms i(2) j(2) by (intro of_dyadic_shift) auto
  finally show "fadd (double_of_int i) (double_of_int j) = double_of_int (i + j)" .
  have "fsub (double_of_int i) (double_of_int j) =
      of_dyadic ((i + - j) * 2 ^ max k l) (- int (max k l)) (i < 0 \<and> \<not> j < 0)"
    by (simp only: fsub_def i(1) j(1) fneg.simps fadd.simps Let_def i(3) j(3)
        signed_significand_flip align distrib_right minus_mult_left)
  also have "\<dots> = double_of_int (i - j)"
    using assms i(2) j(2) of_dyadic_shift [of "i - j" "max k l" "i < 0 \<and> \<not> j < 0"] by auto
  finally show "fsub (double_of_int i) (double_of_int j) = double_of_int (i - j)" .
qed

lemma small_comparisons:
  assumes "\<bar>i\<bar> < 2 ^ 53" "\<bar>j\<bar> < 2 ^ 53"
  shows "feq (double_of_int i) (double_of_int j) \<longleftrightarrow> i = j"
    "flt (double_of_int i) (double_of_int j) \<longleftrightarrow> i < j"
proof -
  obtain m k where i: "double_of_int i = Finite (i < 0) m (- int k)"
    "signed_significand (i < 0) m = i * 2 ^ k"
    using assms(1) by (rule double_of_int_scaled)
  obtain n l where j: "double_of_int j = Finite (j < 0) n (- int l)"
    "signed_significand (j < 0) n = j * 2 ^ l"
    using assms(2) by (rule double_of_int_scaled)
  show "feq (double_of_int i) (double_of_int j) \<longleftrightarrow> i = j"
    by (simp only: i j feq.simps Let_def align) simp
  show "flt (double_of_int i) (double_of_int j) \<longleftrightarrow> i < j"
    by (simp only: i j flt.simps Let_def align) simp
qed

lemma sint_vint: "- (2 ^ 63) \<le> i \<Longrightarrow> i < 2 ^ 63 \<Longrightarrow> sint (word_of_int i :: 64 word) = i"
  by (simp add: sint_word_ariths signed_take_bit_int_eq_self_iff sint_sbintrunc' signed_take_bit_int_eq_self)

section \<open>Properties\<close>

text \<open>C24: integers below 2^52 in magnitude are added, subtracted and compared exactly, although the
  machine converts them to \<open>double\<close>: the sum is the double that equals the integer sum.\<close>
theorem integer_arithmetic_exact:
  assumes "\<bar>i\<bar> < 2 ^ 52" "\<bar>j\<bar> < 2 ^ 52"
  shows "(\<exists>d. value_add h (vint i) (vint j) = Ok (VDouble d) \<and> value_equal h (VDouble d) (vint (i + j)))
    \<and> (\<exists>d. value_subtract (vint i) (vint j) = Ok (VDouble d) \<and> value_equal h (VDouble d) (vint (i - j)))
    \<and> (value_less (vint i) (vint j) \<longleftrightarrow> i < j) \<and> (value_greater (vint i) (vint j) \<longleftrightarrow> j < i)
    \<and> (value_equal h (vint i) (vint j) \<longleftrightarrow> i = j)"
proof -
  have range: "- (2 ^ 63) \<le> x \<and> x < 2 ^ 63" if "\<bar>x\<bar> < 2 ^ 53" for x :: int
    using that by auto
  have small: "\<bar>i\<bar> < 2 ^ 53" "\<bar>j\<bar> < 2 ^ 53" "\<bar>i + j\<bar> < 2 ^ 53" "\<bar>i - j\<bar> < 2 ^ 53"
    using assms by auto
  note conv = sint_vint [OF range [THEN conjunct1] range [THEN conjunct2], OF small(1) small(1)]
    sint_vint [OF range [THEN conjunct1] range [THEN conjunct2], OF small(2) small(2)]
    sint_vint [OF range [THEN conjunct1] range [THEN conjunct2], OF small(3) small(3)]
    sint_vint [OF range [THEN conjunct1] range [THEN conjunct2], OF small(4) small(4)]
  have inj: "(word_of_int i = (word_of_int j :: 64 word)) \<longleftrightarrow> i = j"
    using conv(1,2) by metis
  show ?thesis
    using small_sums [OF assms] small_comparisons small conv inj
    by (simp add: value_add_def value_subtract_def value_less_def value_greater_def vint_def
        is_string_def binary_arithmetic_def binary_comparison_def)
qed

lemma sint_bounds: "- (2 ^ 63) \<le> sint (w :: 64 word)" "sint (w :: 64 word) < 2 ^ 63"
  using sint_ge [of w] sint_lt [of w] by simp_all



theorem integer_arithmetic_exact_witness:
  "(value_less (vint (- 3)) (vint 5) \<longleftrightarrow> (- 3 :: int) < 5) \<and>
   (\<exists>d. value_add (\<lambda>_. None) (vint (- 3)) (vint 5) = Ok (VDouble d) \<and>
     value_equal (\<lambda>_. None) (VDouble d) (vint 2))"
  using integer_arithmetic_exact [of "- 3" 5 "\<lambda>_. None"] by simp

text \<open>\<open>==\<close> is symmetric for any two values.\<close>
theorem equality_symmetric: "value_equal h v w = value_equal h w v"
proof -
  have feq: "feq a b = feq b a" for a b
    by (cases a; cases b) (auto simp: Let_def min.commute)
  have same: "same_handle h a b = same_handle h b a" for a b by (metis same_handle_def)
  show ?thesis
    by (cases v; cases w) (auto simp: feq same split: option.split)
qed

text \<open>\<open>==\<close> is not transitive: an integer is compared with a \<open>double\<close> after rounding, so two
  different integers above 2^53 both equal the same double.\<close>
theorem equality_not_transitive:
  "\<exists>u v w. value_equal h u v \<and> value_equal h v w \<and> \<not> value_equal h u w"
proof (intro exI conjI)
  let ?d = "VDouble (double_of_int 9007199254740992)"
  show "value_equal h (vint 9007199254740992) ?d" by code_simp
  show "value_equal h ?d (vint 9007199254740993)" by code_simp
  show "\<not> value_equal h (vint 9007199254740992) (vint 9007199254740993)" by code_simp
qed

text \<open>On strings all of \<open><\<close>, \<open>>\<close> answer false and therefore \<open>>=\<close>, \<open><=\<close>, computed as their negations,
  answer true, whatever the strings.\<close>
theorem string_order_is_trivial:
  "\<not> value_less (vstr x) (vstr y) \<and> \<not> value_greater (vstr x) (vstr y)"
  by (simp add: value_less_def value_greater_def binary_comparison_def vstr_def)

text \<open>C26: two keys share an entry of a map only when they are equal values, or one is the null string
  and the other the empty one: strings, integers and booleans never collide.\<close>
theorem map_keys_separate:
  assumes "encode_map_key v = Some e" "encode_map_key w = Some e"
  shows "v = w \<or> {v, w} = {VString None, vstr []}"
proof -
  have ints: "i = j" if "show_int (sint i) = show_int (sint j)" for i j :: "64 word"
    using that by (auto dest: show_int_inject [THEN iffD1] simp: signed_word_eqI)
  show ?thesis
    using assms
    by (cases v; cases w) (auto simp: vstr_def doubleton_eq_iff dest!: ints split: option.splits if_splits)
qed

theorem map_keys_separate_witness:
  "vint 12 = vint 12 \<or> {vint 12, vint 12} = {VString None, vstr []}"
proof -
  have "encode_map_key (vint 12) = Some ''i:12''" by code_simp
  from map_keys_separate [OF this this] show ?thesis .
qed

end
