(* ===== verification/Defects.thy ===== *)
theory Defects
  imports Protocol
begin

text \<open>
  Programs on which the virtual machine does not do what it means to: each theorem evaluates the
  model on one concrete program or state.
\<close>

section \<open>Undefined behaviour from bytecode\<close>

text \<open>The chunk of \<open>drop(reverse([]), 1)\<close> asked for its first element.\<close>

definition reverse_chunk :: chunk where
  "reverse_chunk = \<lparr>chunk_code = [80, 0, 112, 116, 1, 0, 0, 114, 113, 0], chunk_constants = [vint 1]\<rparr>"

text \<open>the reversing iterator of an empty sequence, asked twice, reads past the end of its empty
  buffer: the first call leaves the index at 0 and only marks the buffer as filled.\<close>
theorem empty_reverse_reads_out_of_bounds:
  "fst (interpret_chunk calling_env 12 (Some reverse_chunk) init_state) =
     Raise (Undefined ''read past the end of a vector'')"
  by code_simp

definition truncated_chunk :: chunk where
  "truncated_chunk = \<lparr>chunk_code = [86, 1], chunk_constants = []\<rparr>"

text \<open>The guard against truncated bytecode does not guard: its lambda returns the error code -1
  as a \<open>bool\<close>, which is true, so a BUILD_ENUM without its count byte reads past the code.\<close>
theorem truncated_enum_reads_out_of_bounds:
  "fst (interpret_chunk calling_env 9 (Some truncated_chunk) init_state) =
     Raise (Undefined ''read past the end of the code'')"
  by code_simp

section \<open>Transactions and indexing\<close>

text \<open>An empty array at address 1, inside a transaction that pushed one element to it.\<close>

definition pushed_state :: vm_state where
  "pushed_state = snd (push_array_element 1 (vint 5) (init_state\<lparr>next_address := 2,
     heap := [1 \<mapsto> Obj_Array []], txns := [new_txn [] []], stack := [VRef K_Array 1, vint 0]\<rparr>))"

text \<open>An element pushed inside a transaction has an index but cannot be read through it:
  the size and the element are visible, yet INDEX_GET checks the bounds of the shared array.\<close>
theorem pushed_element_is_not_indexable:
  "get_array_size 1 pushed_state = Some 1 \<and> get_array_element 1 0 pushed_state = Some (vint 5) \<and>
   fst (index_get pushed_state) = Ok (- 1) \<and>
   error_message (snd (index_get pushed_state)) = ''Index out of bounds''"
  by code_simp

section \<open>Failures without an error\<close>

text \<open>Two threads; the second holds the mutex that a closure of the first begins a transaction on.\<close>

definition contended_state :: vm_state where
  "contended_state = init_state\<lparr>
     sync := fold sync_exec [CreateThread, CreateMutex, TryLock 1 1] init_sync,
     next_address := 4,
     heap := [1 \<mapsto> Obj_Function \<lparr>fn_name = ''locked'',
                fn_chunk = \<lparr>chunk_code = [33, 0, 0, 133, 1, 0, 1, 128], chunk_constants = [vstr ''m'', vint 7]\<rparr>,
                fn_arity = 0, fn_min_arity = 0, fn_variadic = False, capture_names = []\<rparr>,
              2 \<mapsto> Obj_Closure 1 [], 3 \<mapsto> Obj_Handle 1],
     globals := [''m'' \<mapsto> VRef K_Mutex 3]\<rparr>"

definition entered_state :: vm_state where
  "entered_state = contended_state\<lparr>stack := [VRef K_Closure 2], error_message := [],
     frames := [new_frame 1 2 1 contended_state]\<rparr>"

lemma entered_run:
  "case run calling_env 3 entered_state of (r, t) \<Rightarrow> r = Ok Exec_RuntimeError \<and> error_message t = [] \<and>
     txns t = [] \<and> stdout_text t = [] \<and> mutex_owner (sync t) 1 = Some 1"
  by code_simp

text \<open>a function that fails because its transaction meets a mutex held by another thread is
  reported as a success with the value null: the failure sets no error message, and the caller of a
  nested invocation takes the absence of a message for success. The rest of the function is lost.\<close>
theorem contended_failure_is_reported_as_success:
  "\<exists>t. invoke calling_env (Suc 3) (VRef K_Closure 2) [] contended_state = (Ok (None, VNull), t) \<and>
   stdout_text t = [] \<and> mutex_owner (sync t) 1 = Some 1"
proof -
  obtain t where t: "run calling_env 3 entered_state = (Ok Exec_RuntimeError, t)" "error_message t = []"
    "txns t = []" "stdout_text t = []" "mutex_owner (sync t) 1 = Some 1"
    using entered_run by (auto split: prod.splits)
  have entered: "handle_resolved_call calling_env iv (VRef K_Closure 2) 0 0 (contended_state\<lparr>error_message := [],
      stack := [VRef K_Closure 2]\<rparr>) = (Ok 0, entered_state)" for iv
    by (simp add: handle_resolved_call_def call_function_def contended_state_def init_state_def
        function_at_def push_frame_def FRAMES_MAX_def entered_state_def new_frame_def size_sub_le Let_def)
  have idle: "stack contended_state = []" "frames contended_state = []"
    by (simp_all add: contended_state_def init_state_def)
  have frames: "frames entered_state \<noteq> []" by (simp add: entered_state_def)
  show ?thesis
    unfolding invoke_code(2) using t frames
    by (simp add: invoke_callable_def clear_error_def push_value_def STACK_MAX_def
        push_values_def idle entered abandon_call_wipes read_error_message_def has_error_def)
qed

text \<open>Inside a transaction an assignment to a name that is not defined succeeds and is dropped by
  the commit; outside one it is refused.\<close>
theorem undefined_global_is_accepted_in_transaction:
  "globals s x = None \<Longrightarrow> txns s = [] \<Longrightarrow>
   fst (set_global x v s) = Ok False \<and>
   fst (set_global x v (s\<lparr>txns := [new_txn [] []]\<rparr>)) = Ok True \<and>
   globals (publish (record_global x v None (new_txn [] [])) s) x = None"
  by (simp add: set_global_def runtime_set_global_def publish_def record_global_def new_txn_def
      store_global_def)

theorem undefined_global_is_accepted_in_transaction_witness:
  "fst (set_global ''y'' VNull init_state) = Ok False"
  using undefined_global_is_accepted_in_transaction [of init_state "''y''" VNull]
  by (simp add: init_state_def)

end
