(* ===== verification/Channels.thy ===== *)
theory Channels
  imports Values
begin

text \<open>
  The channels of the shared runtime (src/src/vm/runtime/SharedRuntimeChannels.cpp, the first part).
  \<open>critical\<close> is what one thread does while it holds the channel's mutex: from entering a call, or
  from waking up, until it waits on a condition variable or returns. \<open>chan_step\<close> interleaves the
  threads; \<open>notify_one\<close> wakes any one thread that sleeps on the condition variable, \<open>notify_all\<close>
  every one, and a thread may also wake up spuriously.
\<close>

section \<open>The state of a channel\<close>

record channel =
  capacity :: nat
  queue :: "value list"
  closed :: bool
  rendezvous_ready :: bool
  rendezvous_value :: "value"

definition new_channel :: "nat \<Rightarrow> channel" where
  "new_channel n = \<lparr>capacity = n, queue = [], closed = False, rendezvous_ready = False,
     rendezvous_value = VNull\<rparr>"

record channel_registry =
  channels :: "(nat \<times> channel) list"
  next_channel_id :: nat

definition create_channel :: "nat \<Rightarrow> channel_registry \<Rightarrow> nat \<times> channel_registry" where
  "create_channel n r = (next_channel_id r,
     r\<lparr>channels := emplace (next_channel_id r) (new_channel n) (channels r),
       next_channel_id := Suc (next_channel_id r)\<rparr>)"

section \<open>The critical sections\<close>

text \<open>A call, or the second wait of a rendezvous sender, which waits for its value to be taken.\<close>

datatype wait_point = Enter_Send "value" | Await_Pickup | Enter_Recv | Enter_Close

datatype condition_variable = Not_Full | Not_Empty

datatype notification = Notify_One condition_variable | Notify_All condition_variable

text \<open>
  The results of \<open>SendChannel\<close>, \<open>RecvChannel\<close> (false, or true with \<open>outOk\<close> and \<open>outValue\<close>) and
  \<open>CloseChannel\<close>.
\<close>

datatype call_result = Sent bool | Received bool "value" | Unknown_Channel | Closed_Channel bool

datatype section_end = Sleep wait_point | Return call_result

fun waits_on :: "wait_point \<Rightarrow> condition_variable" where
  "waits_on Enter_Recv = Not_Empty"
| "waits_on _ = Not_Full"

definition send_critical :: "value \<Rightarrow> channel \<Rightarrow> section_end \<times> channel \<times> notification list" where
  "send_critical v ch =
     (if capacity ch = 0 then
        if \<not> (closed ch \<or> \<not> rendezvous_ready ch) then (Sleep (Enter_Send v), ch, [])
        else if closed ch then (Return (Sent False), ch, [])
        else (Sleep Await_Pickup, ch\<lparr>rendezvous_value := v, rendezvous_ready := True\<rparr>,
              [Notify_One Not_Empty])
      else
        if \<not> (closed ch \<or> length (queue ch) < capacity ch) then (Sleep (Enter_Send v), ch, [])
        else if closed ch then (Return (Sent False), ch, [])
        else (Return (Sent True), ch\<lparr>queue := queue ch @ [v]\<rparr>, [Notify_One Not_Empty]))"

definition pickup_critical :: "channel \<Rightarrow> section_end \<times> channel \<times> notification list" where
  "pickup_critical ch =
     (if closed ch \<or> \<not> rendezvous_ready ch then (Return (Sent (\<not> closed ch)), ch, [])
      else (Sleep Await_Pickup, ch, []))"

definition recv_critical :: "channel \<Rightarrow> section_end \<times> channel \<times> notification list" where
  "recv_critical ch =
     (if capacity ch = 0 then
        if \<not> (closed ch \<or> rendezvous_ready ch) then (Sleep Enter_Recv, ch, [])
        else if \<not> rendezvous_ready ch then (Return (Received False VNull), ch, [])
        else (Return (Received True (rendezvous_value ch)),
              ch\<lparr>rendezvous_value := VNull, rendezvous_ready := False\<rparr>, [Notify_One Not_Full])
      else
        if \<not> (closed ch \<or> queue ch \<noteq> []) then (Sleep Enter_Recv, ch, [])
        else (case queue ch of
                [] \<Rightarrow> (Return (Received False VNull), ch, [])
              | v # vs \<Rightarrow> (Return (Received True v), ch\<lparr>queue := vs\<rparr>, [Notify_One Not_Full])))"

definition close_critical :: "channel \<Rightarrow> section_end \<times> channel \<times> notification list" where
  "close_critical ch =
     (if closed ch then (Return (Closed_Channel False), ch, [])
      else (Return (Closed_Channel True), ch\<lparr>closed := True\<rparr>,
            [Notify_All Not_Empty, Notify_All Not_Full]))"

fun critical :: "wait_point \<Rightarrow> channel \<Rightarrow> section_end \<times> channel \<times> notification list" where
  "critical (Enter_Send v) ch = send_critical v ch"
| "critical Await_Pickup ch = pickup_critical ch"
| "critical Enter_Recv ch = recv_critical ch"
| "critical Enter_Close ch = close_critical ch"

text \<open>Every call looks its channel up first; an unknown id makes it return at once.\<close>

fun unknown_channel :: "wait_point \<Rightarrow> call_result" where
  "unknown_channel Enter_Recv = Unknown_Channel"
| "unknown_channel Enter_Close = Closed_Channel False"
| "unknown_channel _ = Sent False"

definition channel_call :: "nat \<Rightarrow> wait_point \<Rightarrow> channel_registry \<Rightarrow> call_result + channel" where
  "channel_call i p r = (case map_of (channels r) i of
       None \<Rightarrow> Inl (unknown_channel p) | Some ch \<Rightarrow> Inr ch)"

section \<open>Threads\<close>

text \<open>\<open>Awake p\<close>: about to take the mutex and run from \<open>p\<close>; \<open>Asleep p\<close>: waiting for a notification.\<close>

datatype thread_status = Idle | Awake wait_point | Asleep wait_point | Finished call_result

type_synonym threads = "nat \<Rightarrow> thread_status"

definition sleepers :: "condition_variable \<Rightarrow> threads \<Rightarrow> nat set" where
  "sleepers cv th = {t. \<exists>p. th t = Asleep p \<and> waits_on p = cv}"

fun wake_up :: "thread_status \<Rightarrow> thread_status" where
  "wake_up (Asleep p) = Awake p"
| "wake_up st = st"

definition wake :: "nat set \<Rightarrow> threads \<Rightarrow> threads" where
  "wake T th = (\<lambda>t. if t \<in> T then wake_up (th t) else th t)"

inductive notified :: "notification list \<Rightarrow> threads \<Rightarrow> threads \<Rightarrow> bool" where
  notified_none: "notified [] th th"
| notified_one: "t \<in> sleepers cv th \<Longrightarrow> notified ns (wake {t} th) th' \<Longrightarrow>
    notified (Notify_One cv # ns) th th'"
| notified_nobody: "sleepers cv th = {} \<Longrightarrow> notified ns th th' \<Longrightarrow> notified (Notify_One cv # ns) th th'"
| notified_all: "notified ns (wake (sleepers cv th) th) th' \<Longrightarrow> notified (Notify_All cv # ns) th th'"

inductive_cases notified_cases: "notified [] th th'" "notified (Notify_One cv # ns) th th'"
  "notified (Notify_All cv # ns) th th'"

fun after_section :: "section_end \<Rightarrow> thread_status" where
  "after_section (Sleep p) = Asleep p"
| "after_section (Return r) = Finished r"

text \<open>
  One channel with the threads that use it; \<open>accepted\<close> and \<open>delivered\<close> are ghost histories of the
  values put into the channel and taken out of it.
\<close>

record chan_system =
  chan :: channel
  threads_of :: threads
  accepted :: "value list"
  delivered :: "value list"

definition put_values :: "channel \<Rightarrow> wait_point \<Rightarrow> section_end \<Rightarrow> value list" where
  "put_values ch p out = (case p of
       Enter_Send v \<Rightarrow> if out = Sleep Await_Pickup \<or> out = Return (Sent True) then [v] else []
     | _ \<Rightarrow> [])"

definition taken_values :: "section_end \<Rightarrow> value list" where
  "taken_values out = (case out of Return (Received True v) \<Rightarrow> [v] | _ \<Rightarrow> [])"

definition initial_system :: "nat \<Rightarrow> chan_system" where
  "initial_system n = \<lparr>chan = new_channel n, threads_of = (\<lambda>_. Idle), accepted = [], delivered = []\<rparr>"

inductive chan_step :: "chan_system \<Rightarrow> chan_system \<Rightarrow> bool" where
  step_call: "th t = Idle \<or> (\<exists>r. th t = Finished r) \<Longrightarrow> p \<noteq> Await_Pickup \<Longrightarrow>
    chan_step \<lparr>chan = ch, threads_of = th, accepted = as, delivered = ds\<rparr>
      \<lparr>chan = ch, threads_of = th(t := Awake p), accepted = as, delivered = ds\<rparr>"
| step_run: "th t = Awake p \<Longrightarrow> critical p ch = (out, ch', ns) \<Longrightarrow>
    notified ns (th(t := after_section out)) th' \<Longrightarrow>
    chan_step \<lparr>chan = ch, threads_of = th, accepted = as, delivered = ds\<rparr>
      \<lparr>chan = ch', threads_of = th', accepted = as @ put_values ch p out,
       delivered = ds @ taken_values out\<rparr>"
| step_spurious: "th t = Asleep p \<Longrightarrow>
    chan_step \<lparr>chan = ch, threads_of = th, accepted = as, delivered = ds\<rparr>
      \<lparr>chan = ch, threads_of = th(t := Awake p), accepted = as, delivered = ds\<rparr>"

inductive chan_reachable :: "nat \<Rightarrow> chan_system \<Rightarrow> bool" for n where
  chan_init: "chan_reachable n (initial_system n)"
| chan_next: "chan_reachable n s \<Longrightarrow> chan_step s s' \<Longrightarrow> chan_reachable n s'"

end
