(* ===== verification/ChannelProps.thy ===== *)
theory ChannelProps
  imports Channels
begin

text \<open>
  What channels promise under every interleaving of the threads that use them: values come out in
  the order they went in, none lost or doubled; a buffer never exceeds its capacity; and on a
  buffered channel no wake-up is lost. A rendezvous channel breaks the last promise and may report
  failure for a delivered value.
\<close>

section \<open>Waking threads\<close>

lemma wake_one: "th t = Asleep p \<Longrightarrow> wake {t} th = th(t := Awake p)"
  by (auto simp: wake_def fun_eq_iff)

lemma wake_sleepers: "wake (sleepers cv th) th t =
   (case th t of Asleep p \<Rightarrow> if waits_on p = cv then Awake p else Asleep p | st \<Rightarrow> st)"
  by (auto simp: wake_def sleepers_def split: thread_status.split)

definition receiving :: "threads \<Rightarrow> nat set" where
  "receiving th = {t. th t = Awake Enter_Recv}"

definition sending :: "threads \<Rightarrow> nat set" where
  "sending th = {t. \<exists>v. th t = Awake (Enter_Send v)}"

lemma receiving_update: "receiving (th(t := st)) =
   (if st = Awake Enter_Recv then insert t (receiving th) else receiving th - {t})"
  by (auto simp: receiving_def)

lemma sending_update: "sending (th(t := st)) =
   (if \<exists>v. st = Awake (Enter_Send v) then insert t (sending th) else sending th - {t})"
  by (auto simp: sending_def)

lemma sleepers_update: "sleepers cv (th(t := st)) =
   (if \<exists>p. st = Asleep p \<and> waits_on p = cv then insert t (sleepers cv th) else sleepers cv th - {t})"
  by (auto simp: sleepers_def)

lemmas status_updates = receiving_update sending_update sleepers_update

section \<open>Order and capacity\<close>

definition contents :: "channel \<Rightarrow> value list" where
  "contents ch = (if capacity ch = 0 then (if rendezvous_ready ch then [rendezvous_value ch] else [])
     else queue ch)"

definition chan_ok :: "nat \<Rightarrow> chan_system \<Rightarrow> bool" where
  "chan_ok n s \<longleftrightarrow> capacity (chan s) = n \<and> length (queue (chan s)) \<le> n \<and>
     accepted s = delivered s @ contents (chan s)"

lemma critical_accounts:
  assumes "critical p ch = (out, ch', ns)" "length (queue ch) \<le> capacity ch"
  shows "capacity ch' = capacity ch" "length (queue ch') \<le> capacity ch"
    "contents ch @ put_values ch p out = taken_values out @ contents ch'"
  using assms
  by (cases p; auto simp: send_critical_def pickup_critical_def recv_critical_def close_critical_def
      contents_def put_values_def taken_values_def split: if_splits list.splits)+

lemma chan_step_ok: "chan_step s s' \<Longrightarrow> chan_ok n s \<Longrightarrow> chan_ok n s'"
proof (induction rule: chan_step.induct)
  case (step_run th t p ch out ch' ns th' as ds)
  from critical_accounts [OF step_run.hyps(2)] step_run.prems show ?case
    by (simp add: chan_ok_def)
qed (simp_all add: chan_ok_def)

lemma chan_reachable_ok: "chan_reachable n s \<Longrightarrow> chan_ok n s"
proof (induction rule: chan_reachable.induct)
  case chan_init
  show ?case by (simp add: chan_ok_def initial_system_def new_channel_def contents_def)
next
  case (chan_next s s')
  then show ?case by (blast intro: chan_step_ok)
qed

text \<open>C28: under every interleaving the values taken out of a channel are, in order, the values put
  into it, and what is missing is exactly what the channel still holds: nothing is lost, doubled
  or reordered, and a buffer never holds more than its capacity.\<close>
theorem channel_is_fifo:
  assumes "chan_reachable n s"
  shows "accepted s = delivered s @ contents (chan s) \<and> length (queue (chan s)) \<le> n"
  using chan_reachable_ok [OF assms] by (simp add: chan_ok_def)

section \<open>No lost wake-up on a buffered channel\<close>

text \<open>
  While a receiver sleeps, every element of the queue has a receiver awake to take it; while a
  sender sleeps, every free slot has a sender awake to fill it; nobody sleeps on a closed channel.
\<close>

definition only_calls_sleep :: "threads \<Rightarrow> bool" where
  "only_calls_sleep th \<longleftrightarrow> (\<forall>t p. th t = Asleep p \<longrightarrow> p = Enter_Recv \<or> (\<exists>v. p = Enter_Send v)) \<and>
     (\<forall>t. th t \<noteq> Awake Await_Pickup)"

definition busy :: "threads \<Rightarrow> nat set" where
  "busy th = {t. th t \<noteq> Idle}"

lemma busy_finite:
  assumes "finite (busy th)" shows "finite (receiving th)" "finite (sending th)"
  by (rule finite_subset [OF _ assms], auto simp: receiving_def sending_def busy_def)+

lemma busy_update: "finite (busy th) \<Longrightarrow> finite (busy (th(t := st)))"
  by (rule finite_subset [where B = "insert t (busy th)"]) (auto simp: busy_def)

lemma busy_wake [simp]: "busy (wake T th) = busy th"
  by (auto simp: busy_def wake_def split: thread_status.splits elim: wake_up.elims)

definition wakeups_ok :: "channel \<Rightarrow> threads \<Rightarrow> bool" where
  "wakeups_ok ch th \<longleftrightarrow> finite (busy th) \<and> only_calls_sleep th \<and>
     (closed ch \<longrightarrow> sleepers Not_Empty th = {} \<and> sleepers Not_Full th = {}) \<and>
     (sleepers Not_Empty th \<noteq> {} \<longrightarrow> length (queue ch) \<le> card (receiving th)) \<and>
     (sleepers Not_Full th \<noteq> {} \<longrightarrow> capacity ch - length (queue ch) \<le> card (sending th))"

lemma only_calls_sleep_update: "only_calls_sleep th \<Longrightarrow>
   st \<noteq> Awake Await_Pickup \<Longrightarrow> st \<noteq> Asleep Await_Pickup \<Longrightarrow> st \<noteq> Asleep Enter_Close \<Longrightarrow>
   only_calls_sleep (th(t := st))"
  unfolding only_calls_sleep_def by (auto, metis wait_point.exhaust)

lemma sleepers_wake [simp]: "sleepers cv (wake T th) = sleepers cv th - T"
  by (auto simp: sleepers_def wake_def elim!: wake_up.elims split: if_splits)

lemma sleepers_disjoint: "sleepers Not_Empty th - sleepers Not_Full th = sleepers Not_Empty th"
  by (auto simp: sleepers_def)

lemma only_calls_sleep_wake: "only_calls_sleep th \<Longrightarrow> only_calls_sleep (wake T th)"
  unfolding only_calls_sleep_def wake_def
  by (auto elim!: wake_up.elims split: if_splits)


lemma wakeups_ok_mono:
  assumes "wakeups_ok ch th" "finite (busy th')" "only_calls_sleep th'"
    and "\<And>cv. sleepers cv th' \<subseteq> sleepers cv th"
    and "receiving th \<subseteq> receiving th'" "sending th \<subseteq> sending th'"
  shows "wakeups_ok ch th'"
proof -
  have "card (receiving th) \<le> card (receiving th')" "card (sending th) \<le> card (sending th')"
    using assms(2,5,6) by (simp_all add: busy_finite card_mono)
  moreover have "sleepers cv th' = {}" if "sleepers cv th = {}" for cv
    using assms(4) [of cv] that by simp
  ultimately show ?thesis
    using assms(1-3) unfolding wakeups_ok_def by (meson order_trans)
qed

text \<open>A thread that wakes up by itself, and one that starts a call.\<close>

lemma wakeups_ok_move:
  assumes "wakeups_ok ch th"
    and "th t = Asleep p \<or> ((th t = Idle \<or> (\<exists>r. th t = Finished r)) \<and> p \<noteq> Await_Pickup)"
  shows "wakeups_ok ch (th(t := Awake p))"
proof (rule wakeups_ok_mono [OF assms(1)])
  from assms have "p \<noteq> Await_Pickup"
    by (auto simp: wakeups_ok_def only_calls_sleep_def)
  then show "only_calls_sleep (th(t := Awake p))" using assms(1)
    by (auto simp: wakeups_ok_def intro: only_calls_sleep_update)
qed (use assms in \<open>auto simp: wakeups_ok_def busy_update status_updates receiving_def sending_def\<close>)

text \<open>One notification restores the count of awake threads that the operation left one short.\<close>

lemma notified_waiter:
  assumes "only_calls_sleep th" "t \<in> sleepers cv th"
  shows "cv = Not_Empty \<Longrightarrow> th t = Asleep Enter_Recv \<and> wake {t} th = th(t := Awake Enter_Recv)"
    "cv = Not_Full \<Longrightarrow> \<exists>v. th t = Asleep (Enter_Send v) \<and> wake {t} th = th(t := Awake (Enter_Send v))"
  using assms by (auto simp: sleepers_def only_calls_sleep_def wake_one dest!: spec)

lemma notified_single: "notified [Notify_One cv] th th' \<Longrightarrow>
   (sleepers cv th = {} \<and> th' = th) \<or> (\<exists>t \<in> sleepers cv th. th' = wake {t} th)"
  by (erule notified_cases) (auto elim: notified_cases)

text \<open>A thread that stops being awake, on an unchanged channel.\<close>

lemma wakeups_ok_finished:
  "wakeups_ok ch th \<Longrightarrow> closed ch \<Longrightarrow> wakeups_ok ch (th(t := Finished r))"
  by (simp add: wakeups_ok_def only_calls_sleep_update busy_update sleepers_update)

lemma asleep_unrelated:
  assumes "th t = Awake p"
  shows "p \<noteq> Enter_Recv \<Longrightarrow> receiving (th(t := Asleep q)) = receiving th"
    "\<forall>v. p \<noteq> Enter_Send v \<Longrightarrow> sending (th(t := Asleep q)) = sending th"
    "waits_on q \<noteq> cv \<Longrightarrow> sleepers cv (th(t := Asleep q)) = sleepers cv th"
  using assms by (auto simp: sleepers_def receiving_def sending_def)

lemma wakeups_ok_asleep:
  assumes "wakeups_ok ch th" "th t = Awake p" "\<not> closed ch"
    "p = Enter_Recv \<and> queue ch = [] \<or> (\<exists>v. p = Enter_Send v) \<and> capacity ch \<le> length (queue ch)"
  shows "wakeups_ok ch (th(t := Asleep p))"
  using assms(4)
proof
  assume "p = Enter_Recv \<and> queue ch = []"
  with assms show ?thesis
    by (simp add: wakeups_ok_def only_calls_sleep_update busy_update asleep_unrelated)
next
  assume "(\<exists>v. p = Enter_Send v) \<and> capacity ch \<le> length (queue ch)"
  then obtain v where "p = Enter_Send v" "capacity ch \<le> length (queue ch)" by blast
  with assms show ?thesis
    by (simp add: wakeups_ok_def only_calls_sleep_update busy_update asleep_unrelated)
qed

text \<open>A value was put in or taken out: the thread is done, and one waiter is notified.\<close>

lemma notified_single_cases:
  assumes "notified [Notify_One cv] th th'" "only_calls_sleep th"
  obtains (nobody) "sleepers cv th = {}" "th' = th"
  | (receiver) u where "cv = Not_Empty" "th u = Asleep Enter_Recv" "th' = th(u := Awake Enter_Recv)"
  | (sender) u v where "cv = Not_Full" "th u = Asleep (Enter_Send v)" "th' = th(u := Awake (Enter_Send v))"
proof -
  consider "sleepers cv th = {} \<and> th' = th" | u where "u \<in> sleepers cv th" "th' = wake {u} th"
    using notified_single [OF assms(1)] by blast
  then show thesis
  proof cases
    case 1
    then show ?thesis using nobody by simp
  next
    case (2 u)
    from notified_waiter [OF assms(2) 2(1)] 2(2) show ?thesis
      by (cases cv) (auto intro: receiver sender)
  qed
qed

lemma card_receiving_awaken: "finite (busy th) \<Longrightarrow> th u = Asleep p \<Longrightarrow>
   card (receiving (th(u := Awake Enter_Recv))) = Suc (card (receiving th))"
  by (simp add: receiving_update busy_finite card_insert_if) (simp add: receiving_def)

lemma card_sending_awaken: "finite (busy th) \<Longrightarrow> th u = Asleep p \<Longrightarrow>
   card (sending (th(u := Awake (Enter_Send v)))) = Suc (card (sending th))"
  by (simp add: sending_update busy_finite card_insert_if) (simp add: sending_def)

lemma card_receiving_done: "finite (busy th) \<Longrightarrow> card (receiving th) \<le> Suc (card (receiving (th(u := Finished r))))"
  by (auto simp: receiving_update busy_finite card_Diff_singleton_if)

lemma card_sending_done: "finite (busy th) \<Longrightarrow> card (sending th) \<le> Suc (card (sending (th(u := Finished r))))"
  by (auto simp: sending_update busy_finite card_Diff_singleton_if)

lemma awaken_unrelated:
  "th u = Asleep p \<Longrightarrow> sending (th(u := Awake Enter_Recv)) = sending th"
  "th u = Asleep p \<Longrightarrow> receiving (th(u := Awake (Enter_Send v))) = receiving th"
  "th u = Asleep Enter_Recv \<Longrightarrow> sleepers Not_Full (th(u := Awake st)) = sleepers Not_Full th"
  "th u = Asleep (Enter_Send v) \<Longrightarrow> sleepers Not_Empty (th(u := Awake st)) = sleepers Not_Empty th"
  "sleepers cv (th(u := Awake st)) \<subseteq> sleepers cv th"
  by (auto simp: sending_def receiving_def sleepers_def)

lemma finished_unrelated:
  assumes "th t = Awake p"
  shows "sleepers cv (th(t := Finished r)) = sleepers cv th"
    "p \<noteq> Enter_Recv \<Longrightarrow> receiving (th(t := Finished r)) = receiving th"
    "\<forall>v. p \<noteq> Enter_Send v \<Longrightarrow> sending (th(t := Finished r)) = sending th"
  using assms by (auto simp: sleepers_def receiving_def sending_def)

lemma wakeups_ok_sent:
  assumes ok: "wakeups_ok ch th" and t: "th t = Awake (Enter_Send v)" and o: "\<not> closed ch"
    and n: "notified [Notify_One Not_Empty] (th(t := Finished r)) th'"
  shows "wakeups_ok (ch\<lparr>queue := queue ch @ [v]\<rparr>) th'"
proof -
  define th2 where "th2 = th(t := Finished r)"
  have th: "finite (busy th2)" "only_calls_sleep th2" "sleepers Not_Full th2 = sleepers Not_Full th"
    "sleepers Not_Empty th2 = sleepers Not_Empty th" "receiving th2 = receiving th"
    "card (sending th) \<le> Suc (card (sending th2))"
    using ok t card_sending_done [of th t r] unfolding th2_def
    by (auto simp: wakeups_ok_def busy_update only_calls_sleep_update finished_unrelated)
  from n th(2) show ?thesis unfolding th2_def [symmetric]
  proof (cases rule: notified_single_cases)
    case nobody
    with ok th o show ?thesis by (auto simp: wakeups_ok_def)
  next
    case (receiver u)
    then have "sleepers Not_Full th' = sleepers Not_Full th" "sleepers Not_Empty th' \<subseteq> sleepers Not_Empty th"
      by (simp_all add: awaken_unrelated flip: th(3,4))
    moreover have "finite (busy th')" "only_calls_sleep th'" "sending th' = sending th2"
      "card (receiving th') = Suc (card (receiving th))"
      using receiver th by (simp_all add: busy_update only_calls_sleep_update card_receiving_awaken awaken_unrelated)
    ultimately show ?thesis using ok th(6) o by (auto simp: wakeups_ok_def)
  qed simp
qed

lemma wakeups_ok_received:
  assumes ok: "wakeups_ok ch th" and t: "th t = Awake Enter_Recv" and q: "queue ch = v # vs"
    and n: "notified [Notify_One Not_Full] (th(t := Finished r)) th'"
  shows "wakeups_ok (ch\<lparr>queue := vs\<rparr>) th'"
proof -
  define th2 where "th2 = th(t := Finished r)"
  have th: "finite (busy th2)" "only_calls_sleep th2" "sleepers Not_Empty th2 = sleepers Not_Empty th"
    "sleepers Not_Full th2 = sleepers Not_Full th" "sending th2 = sending th"
    "card (receiving th) \<le> Suc (card (receiving th2))"
    using ok t card_receiving_done [of th t r] unfolding th2_def
    by (auto simp: wakeups_ok_def busy_update only_calls_sleep_update finished_unrelated)
  from n th(2) show ?thesis unfolding th2_def [symmetric]
  proof (cases rule: notified_single_cases)
    case nobody
    with ok th q show ?thesis by (auto simp: wakeups_ok_def)
  next
    case (sender u w)
    then have "sleepers Not_Empty th' = sleepers Not_Empty th" "sleepers Not_Full th' \<subseteq> sleepers Not_Full th"
      by (simp_all add: awaken_unrelated flip: th(3,4))
    moreover have "finite (busy th')" "only_calls_sleep th'" "receiving th' = receiving th2"
      "card (sending th') = Suc (card (sending th))"
      using sender th by (simp_all add: busy_update only_calls_sleep_update card_sending_awaken awaken_unrelated)
    ultimately show ?thesis using ok th(6) q by (auto simp: wakeups_ok_def)
  qed simp
qed

lemma wakeups_ok_closed:
  assumes "finite (busy th)" "only_calls_sleep th"
    "notified [Notify_All Not_Empty, Notify_All Not_Full] th th'"
  shows "wakeups_ok (ch\<lparr>closed := True\<rparr>) th'"
  using assms by (auto simp: wakeups_ok_def only_calls_sleep_wake elim!: notified_cases)

lemma wakeups_ok_run:
  assumes ok: "wakeups_ok ch th" "0 < capacity ch" and t: "th t = Awake p"
    and run: "critical p ch = (out, ch', ns)" "notified ns (th(t := after_section out)) th'"
  shows "wakeups_ok ch' th'"
proof (cases p)
  case (Enter_Send v)
  then show ?thesis using assms
    by (auto simp: send_critical_def intro!: wakeups_ok_asleep wakeups_ok_finished wakeups_ok_sent split: if_splits elim!: notified_cases(1))
next
  case Await_Pickup
  then show ?thesis using t ok by (simp add: wakeups_ok_def only_calls_sleep_def)
next
  case Enter_Recv
  then show ?thesis using assms
    by (auto simp: recv_critical_def intro!: wakeups_ok_asleep wakeups_ok_finished wakeups_ok_received split: if_splits list.splits elim!: notified_cases(1))
next
  case Enter_Close
  have *: "wakeups_ok ch (th(t := Finished r))" for r
    using ok t Enter_Close by (auto simp: wakeups_ok_def busy_update only_calls_sleep_update finished_unrelated)
  show ?thesis
  proof (cases "closed ch")
    case True
    with Enter_Close run * show ?thesis by (auto simp: close_critical_def elim!: notified_cases(1))
  next
    case False
    have th: "finite (busy (th(t := Finished r)))" "only_calls_sleep (th(t := Finished r))" for r
      using * by (simp_all add: wakeups_ok_def)
    from False Enter_Close run wakeups_ok_closed [OF th] show ?thesis by (auto simp: close_critical_def)
  qed
qed

lemma chan_step_wakeups:
  "chan_step s s' \<Longrightarrow> 0 < capacity (chan s) \<Longrightarrow> wakeups_ok (chan s) (threads_of s) \<Longrightarrow>
   wakeups_ok (chan s') (threads_of s')"
proof (induction rule: chan_step.induct)
  case (step_run th t p ch out ch' ns th' as ds)
  then show ?case by (auto intro: wakeups_ok_run)
qed (auto intro: wakeups_ok_move)

lemma chan_reachable_wakeups: "chan_reachable n s \<Longrightarrow> 0 < n \<Longrightarrow> wakeups_ok (chan s) (threads_of s)"
proof (induction rule: chan_reachable.induct)
  case chan_init
  show ?case by (simp add: wakeups_ok_def initial_system_def new_channel_def busy_def
      only_calls_sleep_def sleepers_def)
next
  case (chan_next s s')
  then show ?case using chan_reachable_ok [OF chan_next.hyps(1)]
    by (auto intro: chan_step_wakeups simp: chan_ok_def)
qed

text \<open>C29: on a buffered channel no wake-up is lost. When every thread has returned or sleeps, a
  sleeping receiver means that the channel is open and empty, a sleeping sender that it is open and
  full; so a sender and a receiver never wait for each other, and closing leaves nobody asleep.\<close>
theorem buffered_channel_loses_no_wakeup:
  assumes "chan_reachable n s" "0 < n" "\<And>t p. threads_of s t \<noteq> Awake p"
  shows "(threads_of s t = Asleep Enter_Recv \<longrightarrow> queue (chan s) = [] \<and> \<not> closed (chan s)) \<and>
    (threads_of s t = Asleep (Enter_Send v) \<longrightarrow> length (queue (chan s)) = n \<and> \<not> closed (chan s)) \<and>
    threads_of s t \<noteq> Asleep Await_Pickup"
proof (intro conjI impI)
  have w: "wakeups_ok (chan s) (threads_of s)" and ok: "chan_ok n s"
    using assms by (auto intro: chan_reachable_wakeups chan_reachable_ok)
  have "receiving (threads_of s) = {}" "sending (threads_of s) = {}"
    using assms(3) by (auto simp: receiving_def sending_def)
  note awake = w [unfolded wakeups_ok_def this]
  show "queue (chan s) = []" "\<not> closed (chan s)" if "threads_of s t = Asleep Enter_Recv"
  proof -
    from that have "t \<in> sleepers Not_Empty (threads_of s)" by (simp add: sleepers_def)
    with awake show "queue (chan s) = []" "\<not> closed (chan s)" by auto
  qed
  show "length (queue (chan s)) = n" "\<not> closed (chan s)" if "threads_of s t = Asleep (Enter_Send v)"
  proof -
    from that have "t \<in> sleepers Not_Full (threads_of s)" by (simp add: sleepers_def)
    with awake ok show "length (queue (chan s)) = n" "\<not> closed (chan s)" by (auto simp: chan_ok_def)
  qed
  show "threads_of s t \<noteq> Asleep Await_Pickup"
    using awake by (auto simp: only_calls_sleep_def)
qed

section \<open>Concrete runs\<close>

lemma reach_call:
  "chan_reachable n \<lparr>chan = ch, threads_of = th, accepted = as, delivered = ds\<rparr> \<Longrightarrow>
   th t = Idle \<or> (\<exists>r. th t = Finished r) \<Longrightarrow> p \<noteq> Await_Pickup \<Longrightarrow> th' = th(t := Awake p) \<Longrightarrow>
   chan_reachable n \<lparr>chan = ch, threads_of = th', accepted = as, delivered = ds\<rparr>"
  by (blast intro: chan_next step_call)

lemma reach_run:
  assumes "chan_reachable n \<lparr>chan = ch, threads_of = th, accepted = as, delivered = ds\<rparr>"
    "th t = Awake p" "critical p ch = (out, ch', ns)" "notified ns (th(t := after_section out)) th'"
    "as' = as @ put_values ch p out" "ds' = ds @ taken_values out"
  shows "chan_reachable n \<lparr>chan = ch', threads_of = th', accepted = as', delivered = ds'\<rparr>"
  using assms by (auto intro: chan_next step_run)

abbreviation "start_threads \<equiv> (\<lambda>_. Idle) :: threads"

lemma start_reachable:
  "chan_reachable n \<lparr>chan = new_channel n, threads_of = start_threads, accepted = [], delivered = []\<rparr>"
  using chan_init [of n] by (simp add: initial_system_def)

lemma sleepers_start [simp]: "sleepers cv start_threads = {}"
  by (simp add: sleepers_def)

lemma notify_nothing: "th = th' \<Longrightarrow> notified [] th th'"
  by (simp add: notified_none)

lemma notify_nobody: "sleepers cv th = {} \<Longrightarrow> th = th' \<Longrightarrow> notified [Notify_One cv] th th'"
  by (blast intro: notified.intros)

lemma notify_waiter: "th t = Asleep p \<Longrightarrow> waits_on p = cv \<Longrightarrow> th' = th(t := Awake p) \<Longrightarrow>
   notified [Notify_One cv] th th'"
  by (auto simp: sleepers_def wake_one intro!: notified_one [of t] notified_none)

lemma notify_all_nobody: "sleepers Not_Empty th = {} \<Longrightarrow> sleepers Not_Full th = {} \<Longrightarrow>
   notified [Notify_All Not_Empty, Notify_All Not_Full] th th"
  by (intro notified.intros) (simp add: wake_def notified_none)

lemmas critical_defs = send_critical_def pickup_critical_def recv_critical_def close_critical_def
  new_channel_def put_values_def taken_values_def

text \<open>A buffer of one value is full, and a second sender sleeps.\<close>

abbreviation "sleeping_sender \<equiv> \<lparr>chan = (new_channel 1)\<lparr>queue := [VInt 5]\<rparr>,
     threads_of = start_threads(0 := Finished (Sent True), 1 := Asleep (Enter_Send (VInt 6))),
     accepted = [VInt 5], delivered = []\<rparr>"

lemma sleeping_sender_reachable: "chan_reachable 1 sleeping_sender"
proof -
  have "chan_reachable 1 \<lparr>chan = new_channel 1,
     threads_of = start_threads(0 := Awake (Enter_Send (VInt 5))), accepted = [], delivered = []\<rparr>"
    by (rule reach_call [OF start_reachable, where t = 0]) auto
  then have "chan_reachable 1 \<lparr>chan = (new_channel 1)\<lparr>queue := [VInt 5]\<rparr>,
     threads_of = start_threads(0 := Finished (Sent True)), accepted = [VInt 5], delivered = []\<rparr>"
    by (rule reach_run [where t = 0])
      (auto simp: critical_defs sleepers_update fun_eq_iff intro!: notify_nobody)
  then have "chan_reachable 1 \<lparr>chan = (new_channel 1)\<lparr>queue := [VInt 5]\<rparr>,
     threads_of = start_threads(0 := Finished (Sent True), 1 := Awake (Enter_Send (VInt 6))),
     accepted = [VInt 5], delivered = []\<rparr>"
    by (rule reach_call [where t = 1]) auto
  then show ?thesis
    by (rule reach_run [where t = 1]) (auto simp: critical_defs fun_eq_iff intro: notify_nothing)
qed

theorem channel_is_fifo_witness:
  "accepted sleeping_sender = delivered sleeping_sender @ contents (chan sleeping_sender) \<and>
     length (queue (chan sleeping_sender)) \<le> 1 \<and> accepted sleeping_sender = [VInt 5]"
  using channel_is_fifo [OF sleeping_sender_reachable] by simp

theorem buffered_channel_loses_no_wakeup_witness:
  "length (queue (chan sleeping_sender)) = 1 \<and> \<not> closed (chan sleeping_sender)"
proof -
  have "threads_of sleeping_sender t \<noteq> Awake p" for t p by simp
  from buffered_channel_loses_no_wakeup [OF sleeping_sender_reachable zero_less_one this,
    of 1 "VInt 6"] show ?thesis by simp
qed

section \<open>A rendezvous channel is weaker\<close>

text \<open>A sender whose value was taken wakes up after the channel was closed, and reports failure.\<close>

theorem rendezvous_send_fails_after_delivery:
  "\<exists>s. chan_reachable 0 s \<and> delivered s = [VInt 5] \<and> threads_of s 0 = Finished (Sent False)"
proof -
  let ?ready = "(new_channel 0)\<lparr>rendezvous_ready := True, rendezvous_value := VInt 5\<rparr>"
  have "chan_reachable 0 \<lparr>chan = new_channel 0,
     threads_of = start_threads(0 := Awake (Enter_Send (VInt 5))), accepted = [], delivered = []\<rparr>"
    by (rule reach_call [OF start_reachable, where t = 0]) auto
  then have "chan_reachable 0 \<lparr>chan = ?ready,
     threads_of = start_threads(0 := Asleep Await_Pickup), accepted = [VInt 5], delivered = []\<rparr>"
    by (rule reach_run [where t = 0])
      (auto simp: critical_defs sleepers_update fun_eq_iff intro!: notify_nobody)
  then have "chan_reachable 0 \<lparr>chan = ?ready, threads_of = start_threads(0 := Asleep Await_Pickup,
      1 := Awake Enter_Recv), accepted = [VInt 5], delivered = []\<rparr>"
    by (rule reach_call [where t = 1]) auto
  then have "chan_reachable 0 \<lparr>chan = new_channel 0, threads_of = start_threads(0 := Awake Await_Pickup,
      1 := Finished (Received True (VInt 5))), accepted = [VInt 5], delivered = [VInt 5]\<rparr>"
    by (rule reach_run [where t = 1])
      (auto simp: critical_defs intro!: notify_waiter [where t = 0])
  then have "chan_reachable 0 \<lparr>chan = new_channel 0, threads_of = start_threads(0 := Awake Await_Pickup,
      1 := Awake Enter_Close), accepted = [VInt 5], delivered = [VInt 5]\<rparr>"
    by (rule reach_call [where t = 1]) auto
  then have "chan_reachable 0 \<lparr>chan = (new_channel 0)\<lparr>closed := True\<rparr>, threads_of = start_threads(0 := Awake Await_Pickup,
      1 := Finished (Closed_Channel True)), accepted = [VInt 5], delivered = [VInt 5]\<rparr>"
    by (rule reach_run [where t = 1])
      (auto simp: critical_defs sleepers_update intro!: notify_all_nobody)
  then have "chan_reachable 0 \<lparr>chan = (new_channel 0)\<lparr>closed := True\<rparr>, threads_of = start_threads(0 := Finished (Sent False),
      1 := Finished (Closed_Channel True)), accepted = [VInt 5], delivered = [VInt 5]\<rparr>"
    by (rule reach_run [where t = 0]) (auto simp: critical_defs fun_eq_iff intro: notify_nothing)
  then show ?thesis by force
qed


end
