(* ===== verification/Ast.thy ===== *)
theory Ast
  imports Values
begin

text \<open>
  The syntax trees that the parser's output is turned into (src/src/ast/nodes). \<open>ASTNode\<close> is the
  base class, one constructor stands for each derived class, in the order of \<open>AST.h\<close>; a field
  that the code tests for null before it uses it is an option. The structures that carry nodes are
  data types of their own, with the type of nodes as a parameter.
\<close>

section \<open>The parts of declarations\<close>

datatype contract_kind = Requires | Ensures | Invariant

datatype 'n contract = Contract_Clause (contract_kind: contract_kind) (contract_expression: "'n option")

text \<open>A parameter has a default value exactly when \<open>hasDefaultValue\<close> is set.\<close>

datatype 'n parameter = Parameter (param_name: string) (param_type: string)
  (default_value: "'n option") (is_variadic: bool)

text \<open>A context binding is its name and the name of its type; a type parameter its name.\<close>

type_synonym context_binding = "string \<times> string"

datatype 'n function_parts = Function_Parts (part_params: "'n parameter list")
  (part_contexts: "context_binding list") (part_effects: "string list")
  (part_contracts: "'n contract list") (part_return: string) (part_body: "'n option")

datatype storage_class = Default_Storage | Shared_Storage | Thread_Local_Storage

datatype adapter_kind = Drop_Adapter | Take_Adapter | Reverse_Adapter | Filter_Adapter | Transform_Adapter

datatype 'n adapter = Adapter (adapter_kind: adapter_kind) (adapter_argument: "'n option")

datatype 'n handler = Handler (handler_effect: string) (handler_key: string)
  (handler_params: "'n parameter list") (handler_body: "'n option")

datatype region = Region (uses_shared: bool) (region_name: string)

section \<open>Nodes\<close>

datatype node =
    IntegerLiteral "64 word"
  | FloatLiteral double
  | StringLiteral string
  | Assignment (target_name: string) (target_object: "node option") (target_member: string)
      (dereference_target: "node option") (assigned_value: node) (target_index: "node option")
  | BinaryExpr node string node
  | Call (callee: node) (call_args: "node list")
  | FunctionExpr string "node function_parts"
  | GoExpr node
  | AwaitExpr node
  | Identifier string
  | Index node node
  | MemberAccess node string
  | UnaryExpr string node
  | Block "node option list"
  | ExportDecl "node option"
  | IfStatement node node "node option"
  | ImportDecl (imported: string) (import_alias: string)
  | Iter string node "node adapter list" node
  | ModuleDecl string
  | Print node
  | Return "node option"
  | Unsafe "node option"
  | WhileStatement node node
  | ActorDecl string "(string \<times> string \<times> node option) list" "(bool \<times> string \<times> node function_parts) list"
  | EffectDecl string "string list"
  | EnumDecl string "(string \<times> nat) list"
  | FunctionDecl string bool "node function_parts"
  | InterfaceDecl string "string list"
  | StructDecl string "string list" "(string \<times> string) list" "(string \<times> node function_parts) list"
      "node contract list"
  | TypeAlias string string
  | VarDecl string string "node option" storage_class
  | Comptime "node option"
  | Leaf string string
  | Raw string "node option list"
  | ArrayLiteral "node list"
  | MapLiteral "(node \<times> node) list"
  | Handle "node option" "node handler list"
  | Transaction "region list" "node option"
  | Contract contract_kind "node option"

text \<open>
  An actor field is name, type and initialiser, an actor method whether it is a query, its name
  and its parts; an enum variant is its name and the number of its arguments; an effect or an
  interface keeps the names of its operations, a struct its type parameters, its fields as name and
  type, its methods and its contracts.
\<close>

text \<open>\<open>dynamic_cast\<close> to the class of identifiers.\<close>

definition identifier_name :: "node \<Rightarrow> string option" where
  "identifier_name n = (case n of Identifier x \<Rightarrow> Some x | _ \<Rightarrow> None)"

definition is_call :: "node \<Rightarrow> bool" where
  "is_call n = (case n of Call c args \<Rightarrow> True | _ \<Rightarrow> False)"

text \<open>The statements whose value \<open>ShouldPopStatementResult\<close> takes off the stack.\<close>

definition should_pop_statement_result :: "node \<Rightarrow> bool" where
  "should_pop_statement_result n = (case n of
       BinaryExpr _ _ _ \<Rightarrow> True | Assignment _ _ _ _ _ _ \<Rightarrow> True | Call _ _ \<Rightarrow> True | GoExpr _ \<Rightarrow> True
     | AwaitExpr _ \<Rightarrow> True | Index _ _ \<Rightarrow> True | Identifier _ \<Rightarrow> True | UnaryExpr _ _ \<Rightarrow> True
     | IntegerLiteral _ \<Rightarrow> True | FloatLiteral _ \<Rightarrow> True | StringLiteral _ \<Rightarrow> True
     | FunctionExpr _ _ \<Rightarrow> True | MemberAccess _ _ \<Rightarrow> True | ArrayLiteral _ \<Rightarrow> True
     | MapLiteral _ \<Rightarrow> True | _ \<Rightarrow> False)"

end
