(* ===== verification/Symbols.thy ===== *)
theory Symbols
  imports Prelude
begin

text \<open>
  The symbol table of the bytecode generator (src/src/ast/SymbolTable.cpp): scopes that map names
  to slots, and the next free slot, an 8-bit counter that wraps. The innermost scope comes first.
\<close>

record symbol_table =
  scopes :: "(string \<times> nat) list list"
  index_stack :: "nat list"
  next_index :: nat

definition push_scope :: "symbol_table \<Rightarrow> symbol_table" where
  "push_scope t = t\<lparr>scopes := [] # scopes t, index_stack := next_index t # index_stack t\<rparr>"

definition pop_scope :: "(symbol_table, unit) proc" where
  "pop_scope t = (case (scopes t, index_stack t) of
       (_ # ss, i # is) \<Rightarrow> (Ok (), t\<lparr>scopes := ss, index_stack := is, next_index := i\<rparr>)
     | _ \<Rightarrow> (Raise (CppExc ''SymbolTable::PopScope called with no active scope''), t))"

definition define_symbol :: "string \<Rightarrow> (symbol_table, nat) proc" where
  "define_symbol x t = (case scopes t of
       [] \<Rightarrow> (Raise (CppExc ''SymbolTable::Define called with no active scope''), t)
     | s # ss \<Rightarrow> (Ok (next_index t), t\<lparr>scopes := AList.update x (next_index t) s # ss,
         next_index := (next_index t + 1) mod 256\<rparr>))"

fun resolve_in :: "string \<Rightarrow> (string \<times> nat) list list \<Rightarrow> nat option" where
  "resolve_in x [] = None"
| "resolve_in x (s # ss) = (case map_of s x of Some i \<Rightarrow> Some i | None \<Rightarrow> resolve_in x ss)"

definition resolve_symbol :: "symbol_table \<Rightarrow> string \<Rightarrow> nat option" where
  "resolve_symbol t x = resolve_in x (scopes t)"

definition reset_table :: symbol_table where
  "reset_table = push_scope \<lparr>scopes = [], index_stack = [], next_index = 0\<rparr>"

end
