(* ===== verification/TypeNames.thy ===== *)
theory TypeNames
  imports Prelude
begin

text \<open>
  The helpers on type names (src/src/ast/common/SemanticAnalyzerSupport.h): splitting
  \<open>Base<A, B>\<close> into its base and its arguments, and substituting type parameters. Recursion is on
  shorter names, so all of it is total.
\<close>

text \<open>\<open>std::isspace\<close> in the C locale.\<close>

definition is_space :: "char \<Rightarrow> bool" where
  "is_space c = (c \<in> {CHR '' '', CHR 0x09, CHR 0x0A, CHR 0x0B, CHR 0x0C, CHR 0x0D})"

definition trim :: "string \<Rightarrow> string" where
  "trim s = rev (dropWhile is_space (rev (dropWhile is_space s)))"

text \<open>Each depth counts one pair of brackets; \<open>part\<close> is the current part, reversed.\<close>

definition step_depth :: "char \<Rightarrow> char \<Rightarrow> char \<Rightarrow> int \<Rightarrow> int" where
  "step_depth opening closing c n = (if c = opening then n + 1 else if c = closing then n - 1 else n)"

fun split_at_depth :: "char \<Rightarrow> int \<Rightarrow> int \<Rightarrow> int \<Rightarrow> string \<Rightarrow> string \<Rightarrow> string list" where
  "split_at_depth d a b p part [] = [trim (rev part)]"
| "split_at_depth d a b p part (c # cs) =
     (let a' = step_depth (CHR ''<'') (CHR ''>'') c a;
          b' = step_depth (CHR ''['') (CHR '']'') c b;
          p' = step_depth (CHR ''('') (CHR '')'') c p
      in if c = d \<and> a' = 0 \<and> b' = 0 \<and> p' = 0
         then trim (rev part) # split_at_depth d a' b' p' [] cs
         else split_at_depth d a' b' p' (c # part) cs)"

definition split_top_level :: "char \<Rightarrow> string \<Rightarrow> string list" where
  "split_top_level d s = split_at_depth d 0 0 0 [] s"

text \<open>Every \<open>>\<close> that closes the outermost bracket is the last character.\<close>

fun closes_at_end :: "int \<Rightarrow> string \<Rightarrow> bool" where
  "closes_at_end depth [] = True"
| "closes_at_end depth (c # cs) =
     (if c = CHR ''<'' then closes_at_end (depth + 1) cs
      else if c = CHR ''>'' then
        (if depth - 1 = 0 \<and> cs \<noteq> [] then False else closes_at_end (depth - 1) cs)
      else closes_at_end depth cs)"

definition split_generic_name :: "string \<Rightarrow> (string \<times> string list) option" where
  "split_generic_name s =
     (let base = takeWhile (\<lambda>c. c \<noteq> CHR ''<'') s; rest = dropWhile (\<lambda>c. c \<noteq> CHR ''<'') s in
      if rest = [] \<or> last s \<noteq> CHR ''>'' \<or> \<not> closes_at_end 0 rest then None
      else Some (trim base, split_top_level (CHR '','') (butlast (tl rest))))"

text \<open>The position of \<open>->\<close> splits a function type.\<close>

fun split_arrow :: "string \<Rightarrow> (string \<times> string) option" where
  "split_arrow (CHR ''-'' # CHR ''>'' # cs) = Some ([], cs)"
| "split_arrow (c # cs) = map_option (\<lambda>(a, b). (c # a, b)) (split_arrow cs)"
| "split_arrow [] = None"

fun join_with :: "string \<Rightarrow> string list \<Rightarrow> string" where
  "join_with sep [] = []"
| "join_with sep [s] = s"
| "join_with sep (s # ss) = s @ sep @ join_with sep ss"

section \<open>The pieces are shorter\<close>

lemma trim_length: "length (trim s) \<le> length s"
  unfolding trim_def by (metis length_dropWhile_le length_rev order_trans)

lemma split_at_depth_length:
  "t \<in> set (split_at_depth d a b p part cs) \<Longrightarrow> length t \<le> length part + length cs"
proof (induction cs arbitrary: a b p part)
  case Nil
  then show ?case using trim_length [of "rev part"] by simp
next
  case (Cons c cs)
  from Cons.prems have "t = trim (rev part) \<or> (\<exists>a b p. t \<in> set (split_at_depth d a b p [] cs)) \<or>
      (\<exists>a b p. t \<in> set (split_at_depth d a b p (c # part) cs))"
    by (auto simp: Let_def split: if_split_asm)
  then show ?case using trim_length [of "rev part"] Cons.IH by (elim disjE exE) fastforce+
qed

lemma split_generic_shorter:
  assumes "split_generic_name s = Some (base, args)"
  shows "length base < length s" "t \<in> set args \<Longrightarrow> length t < length s"
proof -
  let ?rest = "dropWhile (\<lambda>c. c \<noteq> CHR ''<'') s"
  from assms have r: "?rest \<noteq> []" and b: "base = trim (takeWhile (\<lambda>c. c \<noteq> CHR ''<'') s)"
    and a: "args = split_top_level (CHR '','') (butlast (tl ?rest))"
    by (auto simp: split_generic_name_def Let_def split: if_splits)
  have len: "length (takeWhile (\<lambda>c. c \<noteq> CHR ''<'') s) + length ?rest = length s"
    by (metis length_append takeWhile_dropWhile_id)
  moreover from r have "0 < length ?rest" by simp
  ultimately show "length base < length s"
    using trim_length [of "takeWhile (\<lambda>c. c \<noteq> CHR ''<'') s"] unfolding b by linarith
  show "length t < length s" if "t \<in> set args"
    using split_at_depth_length [of t "CHR '',''" 0 0 0 "[]" "butlast (tl ?rest)"] that a len r
    by (cases ?rest) (auto simp: split_top_level_def)
qed

lemma split_arrow_shorter:
  "split_arrow s = Some (a, b) \<Longrightarrow> length a < length s \<and> length b < length s"
  by (induction s arbitrary: a rule: split_arrow.induct) (fastforce split: if_splits)+

section \<open>Substitution and normalisation\<close>

text \<open>The first replacement whose name is the whole text; otherwise the text is taken apart.\<close>

function substitute_type :: "(string \<times> string) list \<Rightarrow> string \<Rightarrow> string" where
  "substitute_type reps s =
     (case map_of reps s of Some t \<Rightarrow> t
      | None \<Rightarrow>
        if (take 4 s = ''ptr<'' \<or> take 4 s = ''ref<'') \<and> last s = CHR ''>''
        then take 4 s @ substitute_type reps (butlast (drop 4 s)) @ ''>''
        else if 2 < length s \<and> hd s = CHR ''['' \<and> last s = CHR '']''
        then ''['' @ substitute_type reps (butlast (tl s)) @ '']''
        else (case split_arrow s of
            Some (a, b) \<Rightarrow> substitute_type reps a @ ''->'' @ substitute_type reps b
          | None \<Rightarrow>
              (case split_generic_name s of
                 Some (base, args) \<Rightarrow>
                   base @ ''<'' @ join_with '','' (map (substitute_type reps) args) @ ''>''
               | None \<Rightarrow> s)))"
  by pat_completeness auto

termination
proof (relation "measure (length \<circ> snd)", goal_cases)
  case (2 reps s)
  then show ?case by (cases s) (auto simp: min_def split: if_splits)
qed (auto dest: split_arrow_shorter split_generic_shorter)

text \<open>\<open>NormalizeImportedTypeName\<close>: an import alias before the first dot is replaced by its module.\<close>

function normalize_imported :: "(string \<times> string) list \<Rightarrow> string \<Rightarrow> string" where
  "normalize_imported aliases s =
     (case split_generic_name s of
        Some (base, args) \<Rightarrow> normalize_imported aliases base @ ''<'' @
          join_with '','' (map (normalize_imported aliases) args) @ ''>''
      | None \<Rightarrow>
          (let prefix = takeWhile (\<lambda>c. c \<noteq> CHR ''.'') s; rest = dropWhile (\<lambda>c. c \<noteq> CHR ''.'') s in
           if rest = [] then s
           else (case map_of aliases prefix of Some m \<Rightarrow> m @ rest | None \<Rightarrow> s)))"
  by pat_completeness auto

termination
  by (relation "measure (length \<circ> snd)") (auto dest: split_generic_shorter)

declare substitute_type.simps [simp del] normalize_imported.simps [simp del]

end
