(* ===== verification/Generator.thy ===== *)
theory Generator
  imports Ast Symbols TypeNames Chunk
begin

text \<open>
  The state of the bytecode generator and its emitters (src/src/bytecode/BytecodeGenerator.h,
  generator/BytecodeGeneratorCore.cpp). A chunk under construction belongs to the function of the
  innermost context, which comes first in \<open>gs_contexts\<close>; the code keeps it last. All scope stacks
  have the innermost scope first as well.
\<close>

section \<open>State\<close>

record upvalue_info =
  up_name :: string
  up_is_local :: bool
  up_index :: nat

text \<open>An interface binding is the interface, the struct type, and whether the struct is known.\<close>

type_synonym interface_binding = "string \<times> string \<times> bool"

record function_context =
  cx_function :: function_obj
  cx_symbols :: symbol_table
  cx_upvalues :: "upvalue_info list"
  cx_lookup :: "(string \<times> nat) list"
  cx_structs :: "(string \<times> string) list list"
  cx_enums :: "(string \<times> string) list list"
  cx_actors :: "(string \<times> string) list list"
  cx_interfaces :: "(string \<times> interface_binding) list list"
  cx_self_struct :: "string option"
  cx_self_actor :: "string option"
  cx_actor_state :: "string list"
  cx_handler :: bool

record variant_info =
  variant_tag :: nat
  variant_args :: nat
  variant_enum :: string

record signature =
  sig_refs :: "bool list"
  sig_defaults :: "node option list"
  sig_contexts :: "string list"
  sig_return :: string
  sig_required :: nat
  sig_variadic :: bool

record metadata =
  md_aliases :: "(string \<times> string) list"
  md_signatures :: "(string \<times> signature) list"
  md_thread_locals :: "string list"
  md_structs :: "(string \<times> string list) list"
  md_field_types :: "(string \<times> (string \<times> string) list) list"
  md_type_params :: "(string \<times> string list) list"
  md_methods :: "(string \<times> (string \<times> string) list) list"
  md_invariants :: "(string \<times> string) list"
  md_actors :: "(string \<times> string list) list"
  md_actor_defaults :: "(string \<times> node option list) list"
  md_actor_methods :: "(string \<times> (string \<times> string) list) list"
  md_actor_queries :: "(string \<times> (string \<times> bool) list) list"
  md_interfaces :: "(string \<times> string list) list"
  md_variants :: "(string \<times> variant_info) list"
  md_effects :: "(string \<times> (string \<times> string) list) list"

definition empty_metadata :: metadata where
  "empty_metadata = \<lparr>md_aliases = [], md_signatures = [], md_thread_locals = [], md_structs = [],
     md_field_types = [], md_type_params = [], md_methods = [], md_invariants = [], md_actors = [],
     md_actor_defaults = [], md_actor_methods = [], md_actor_queries = [], md_interfaces = [],
     md_variants = [], md_effects = []\<rparr>"

record gen_state =
  gs_contexts :: "function_context list"
  gs_module :: string
  gs_meta :: metadata
  gs_lambdas :: nat
  gs_contracts :: "node contract list list"
  gs_result_slots :: "nat option list"
  gs_raised :: "string list list"
  gs_handled :: "string list list"
  gs_comptime :: "(string \<times> node) list"
  gs_heap :: heap
  gs_next :: nat

type_synonym 'a gen = "(gen_state, 'a) proc"

section \<open>Lifting the operations of a chunk and of a symbol table\<close>

definition on_context :: "(function_context, 'a) proc \<Rightarrow> 'a gen" where
  "on_context m g = (case gs_contexts g of
       [] \<Rightarrow> (Raise (Undefined ''no function context''), g)
     | c # cs \<Rightarrow> (case m c of (r, c') \<Rightarrow> (r, g\<lparr>gs_contexts := c' # cs\<rparr>)))"

definition on_chunk :: "(chunk, 'a) proc \<Rightarrow> 'a gen" where
  "on_chunk m = on_context (\<lambda>c. case m (fn_chunk (cx_function c)) of (r, k) \<Rightarrow>
     (r, c\<lparr>cx_function := (cx_function c)\<lparr>fn_chunk := k\<rparr>\<rparr>))"

definition on_symbols :: "(symbol_table, 'a) proc \<Rightarrow> 'a gen" where
  "on_symbols m = on_context (\<lambda>c. case m (cx_symbols c) of (r, t) \<Rightarrow> (r, c\<lparr>cx_symbols := t\<rparr>))"

abbreviation meta :: "(metadata \<Rightarrow> 'a) \<Rightarrow> 'a gen" where
  "meta f \<equiv> reads (\<lambda>g. f (gs_meta g))"

definition update_meta :: "(metadata \<Rightarrow> metadata) \<Rightarrow> unit gen" where
  "update_meta f = modify (\<lambda>g. g\<lparr>gs_meta := f (gs_meta g)\<rparr>)"

definition allocate :: "hobj \<Rightarrow> nat gen" where
  "allocate obj g = (Ok (gs_next g),
     g\<lparr>gs_next := Suc (gs_next g), gs_heap := (gs_heap g)(gs_next g \<mapsto> obj)\<rparr>)"

section \<open>Emitting\<close>

definition emit_op :: "opcode \<Rightarrow> unit gen" where
  "emit_op op = on_chunk (modify (write_opcode op))"

text \<open>\<open>code.push_back\<close> of a \<open>uint8_t\<close>.\<close>

definition emit_byte :: "nat \<Rightarrow> unit gen" where
  "emit_byte n = on_chunk (modify (\<lambda>c. c\<lparr>chunk_code := chunk_code c @ [low_byte n]\<rparr>))"

definition emit_operand :: "opcode \<Rightarrow> nat \<Rightarrow> unit gen" where
  "emit_operand op n = on_chunk (modify (write_operand op n))"

definition emit_constant :: "value \<Rightarrow> unit gen" where
  "emit_constant v = on_chunk (write_constant v)"

definition add_string :: "string \<Rightarrow> nat gen" where
  "add_string x = on_chunk (add_constant (VString (Some x)))"

definition code_size :: "nat gen" where
  "code_size = on_chunk (reads (\<lambda>c. length (chunk_code c)))"

text \<open>An opcode with the index of a string constant, which is added first.\<close>

definition emit_named :: "opcode \<Rightarrow> string \<Rightarrow> unit gen" where
  "emit_named op x = bindE (add_string x) (\<lambda>i. seqE (emit_op op) (emit_operand op i))"

definition emit_jump :: "opcode \<Rightarrow> nat gen" where
  "emit_jump op = seqE (emit_op op) (seqE (emit_byte 255) (seqE (emit_byte 255)
     (bindE code_size (\<lambda>n. ret (n - 2)))))"

definition patch_jump :: "nat \<Rightarrow> unit gen" where
  "patch_jump addr = on_chunk (modify (\<lambda>c.
     let dist = (length (chunk_code c) - addr - 2) mod 65536 in
     c\<lparr>chunk_code := (chunk_code c)[addr := high_byte dist, addr + 1 := low_byte dist]\<rparr>))"

definition emit_slot :: "opcode \<Rightarrow> nat \<Rightarrow> unit gen" where
  "emit_slot op n = seqE (emit_op op) (emit_byte n)"

section \<open>Contexts and scopes\<close>

definition new_function :: "string \<Rightarrow> function_obj" where
  "new_function x = \<lparr>fn_name = x, fn_chunk = empty_chunk, fn_arity = 0, fn_min_arity = 0,
     fn_variadic = False, capture_names = []\<rparr>"

definition push_context_scope :: "function_context \<Rightarrow> function_context" where
  "push_context_scope c = c\<lparr>cx_symbols := push_scope (cx_symbols c),
     cx_structs := [] # cx_structs c, cx_enums := [] # cx_enums c, cx_actors := [] # cx_actors c,
     cx_interfaces := [] # cx_interfaces c\<rparr>"

definition pop_context_scope :: "(function_context, unit) proc" where
  "pop_context_scope c = (case pop_scope (cx_symbols c) of
       (r, t) \<Rightarrow> (r, c\<lparr>cx_symbols := t, cx_structs := tl (cx_structs c), cx_enums := tl (cx_enums c),
          cx_actors := tl (cx_actors c), cx_interfaces := tl (cx_interfaces c)\<rparr>))"

text \<open>The context of the top level has one scope of types, that of a function two of symbols.\<close>

definition top_level_context :: "string \<Rightarrow> function_context" where
  "top_level_context x = \<lparr>cx_function = new_function x, cx_symbols = reset_table, cx_upvalues = [],
     cx_lookup = [], cx_structs = [[]], cx_enums = [[]], cx_actors = [[]], cx_interfaces = [[]],
     cx_self_struct = None, cx_self_actor = None, cx_actor_state = [], cx_handler = False\<rparr>"

definition function_context_of :: "string \<Rightarrow> function_context" where
  "function_context_of x = push_context_scope ((top_level_context x)\<lparr>cx_structs := [],
     cx_enums := [], cx_actors := [], cx_interfaces := []\<rparr>)"

text \<open>The declaration of a name in the scope on top of a stack of scopes.\<close>

definition bind_top :: "string \<Rightarrow> 'a \<Rightarrow> (string \<times> 'a) list list \<Rightarrow> (string \<times> 'a) list list" where
  "bind_top x v ss = (case ss of [] \<Rightarrow> [] | s # ss' \<Rightarrow> AList.update x v s # ss')"

fun lookup_scopes :: "string \<Rightarrow> (string \<times> 'a) list list \<Rightarrow> 'a option" where
  "lookup_scopes x [] = None"
| "lookup_scopes x (s # ss) = (case map_of s x of Some v \<Rightarrow> Some v | None \<Rightarrow> lookup_scopes x ss)"

text \<open>The loops over all contexts and, in each, over all scopes, innermost first.\<close>

definition lookup_contexts ::
    "(function_context \<Rightarrow> (string \<times> 'a) list list) \<Rightarrow> string \<Rightarrow> gen_state \<Rightarrow> 'a option" where
  "lookup_contexts sel x g = lookup_scopes x (concat (map sel (gs_contexts g)))"

section \<open>Names and variables\<close>

definition qualify_name :: "gen_state \<Rightarrow> string \<Rightarrow> string" where
  "qualify_name g x =
     (if CHR ''.'' \<in> set x then x
      else case map_of (md_aliases (gs_meta g)) x of Some m \<Rightarrow> m
        | None \<Rightarrow> if gs_module g \<noteq> [] then gs_module g @ ''.'' @ x else x)"

definition resolve_local :: "gen_state \<Rightarrow> string \<Rightarrow> nat option" where
  "resolve_local g x = (case gs_contexts g of [] \<Rightarrow> None | c # cs \<Rightarrow> resolve_symbol (cx_symbols c) x)"

text \<open>A captured variable gets one entry of the closure, found again by its name.\<close>

definition capture :: "string \<Rightarrow> bool \<Rightarrow> nat \<Rightarrow> function_context \<Rightarrow> nat \<times> function_context" where
  "capture x is_local i c = (case map_of (cx_lookup c) x of
       Some j \<Rightarrow> (j, c)
     | None \<Rightarrow> (let j = length (cx_upvalues c) mod 256 in
         (j, c\<lparr>cx_upvalues := cx_upvalues c @ [\<lparr>up_name = x, up_is_local = is_local, up_index = i\<rparr>],
            cx_lookup := AList.update x j (cx_lookup c),
            cx_function := (cx_function c)\<lparr>capture_names := capture_names (cx_function c) @ [x]\<rparr>\<rparr>)))"

text \<open>
  \<open>ResolveUpvalue\<close>, on the contexts from the current one outwards; \<open>blocked\<close> says that a name of the
  top level is a global of the module rather than a variable to capture.
\<close>

fun resolve_upvalue ::
    "bool \<Rightarrow> string \<Rightarrow> function_context list \<Rightarrow> nat option \<times> function_context list" where
  "resolve_upvalue blocked x (c # p # ps) =
     (if ps = [] \<and> blocked then (None, c # p # ps)
      else case resolve_symbol (cx_symbols p) x of
        Some i \<Rightarrow> (let (j, c') = capture x True i c in (Some j, c' # p # ps))
      | None \<Rightarrow>
          (case resolve_upvalue blocked x (p # ps) of
             (Some i, ps') \<Rightarrow> (let (j, c') = capture x False i c in (Some j, c' # ps'))
           | (None, ps') \<Rightarrow> (None, c # ps')))"
| "resolve_upvalue blocked x cs = (None, cs)"

definition upvalue_of :: "string \<Rightarrow> nat option gen" where
  "upvalue_of x g =
     (let blocked = gs_module g \<noteq> [] \<and> map_of (md_aliases (gs_meta g)) x = None in
      case resolve_upvalue blocked x (gs_contexts g) of (r, cs) \<Rightarrow> (Ok r, g\<lparr>gs_contexts := cs\<rparr>))"

fun index_in :: "string \<Rightarrow> string list \<Rightarrow> nat option" where
  "index_in x [] = None"
| "index_in x (y # ys) = (if y = x then Some 0 else map_option Suc (index_in x ys))"

definition field_index :: "string \<Rightarrow> string list \<Rightarrow> nat option" where
  "field_index x fs = map_option (\<lambda>i. i mod 256) (index_in x fs)"

definition resolve_self_field :: "gen_state \<Rightarrow> string \<Rightarrow> nat option" where
  "resolve_self_field g x = (case gs_contexts g of [] \<Rightarrow> None | c # cs \<Rightarrow>
     (case Option.bind (cx_self_struct c) (\<lambda>t. Option.bind (map_of (md_structs (gs_meta g)) t) (field_index x)) of
        Some i \<Rightarrow> Some i
      | None \<Rightarrow> Option.bind (cx_self_actor c)
          (\<lambda>t. Option.bind (map_of (md_actors (gs_meta g)) t) (field_index x))))"

definition global_name :: "gen_state \<Rightarrow> string \<Rightarrow> string" where
  "global_name g x = (let q = qualify_name g x in
     if q \<in> set (md_thread_locals (gs_meta g)) then ''__thread_local.'' @ q else q)"

definition contract_result_slot :: "gen_state \<Rightarrow> nat option" where
  "contract_result_slot g = (case gs_result_slots g of [] \<Rightarrow> None | r # rs \<Rightarrow> r)"

text \<open>Where a variable lives: a slot, an entry of the closure, a field of \<open>self\<close>, or a global.\<close>

datatype place = Local_Slot nat | Captured nat | Self_Field nat | Global_Variable

definition find_place :: "string \<Rightarrow> place gen" where
  "find_place x = bindE (reads (\<lambda>g. resolve_local g x)) (\<lambda>l. case l of
       Some i \<Rightarrow> ret (Local_Slot i)
     | None \<Rightarrow> bindE (upvalue_of x) (\<lambda>u. case u of
         Some i \<Rightarrow> ret (Captured i)
       | None \<Rightarrow> bindE (reads (\<lambda>g. resolve_self_field g x)) (\<lambda>f. case f of
           Some i \<Rightarrow> ret (Self_Field i)
         | None \<Rightarrow> ret Global_Variable)))"

definition emit_get_variable :: "string \<Rightarrow> unit gen" where
  "emit_get_variable x = bindE (reads contract_result_slot) (\<lambda>r.
     case (if x = ''result'' then r else None) of
       Some slot \<Rightarrow> emit_slot OP_GET_LOCAL slot
     | None \<Rightarrow> bindE (find_place x) (\<lambda>p. case p of
         Local_Slot i \<Rightarrow> emit_slot OP_GET_LOCAL i
       | Captured i \<Rightarrow> emit_slot OP_GET_UPVALUE i
       | Self_Field i \<Rightarrow> seqE (emit_slot OP_GET_LOCAL 0) (emit_slot OP_MEMBER_GET i)
       | Global_Variable \<Rightarrow> bindE (reads (\<lambda>g. global_name g x)) (emit_named OP_GET_GLOBAL)))"

definition emit_set_variable :: "string \<Rightarrow> unit gen" where
  "emit_set_variable x = bindE (find_place x) (\<lambda>p. case p of
       Local_Slot i \<Rightarrow> emit_slot OP_SET_LOCAL i
     | Captured i \<Rightarrow> emit_slot OP_SET_UPVALUE i
     | Self_Field i \<Rightarrow> seqE (emit_slot OP_GET_LOCAL 0) (emit_slot OP_MEMBER_SET i)
     | Global_Variable \<Rightarrow> bindE (reads (\<lambda>g. global_name g x)) (emit_named OP_SET_GLOBAL))"

section \<open>Operators, contracts and closures\<close>

definition binary_opcode :: "string \<Rightarrow> opcode option" where
  "binary_opcode op =
     (if op = ''+'' then Some OP_ADD
      else if op = ''-'' then Some OP_SUBTRACT
      else if op = ''*'' then Some OP_MULTIPLY
      else if op = ''/'' then Some OP_DIVIDE
      else if op = ''div'' then Some OP_DIV
      else if op = ''mod'' then Some OP_MOD
      else if op = ''and'' \<or> op = ''&&'' then Some OP_AND
      else if op = ''or'' \<or> op = ''||'' then Some OP_OR
      else if op = ''=='' then Some OP_EQUAL
      else if op = ''!='' then Some OP_NOT_EQUAL
      else if op = ''<'' then Some OP_LESS
      else if op = ''>'' then Some OP_GREATER
      else if op = ''<='' then Some OP_LESS_EQUAL
      else if op = ''>='' then Some OP_GREATER_EQUAL
      else None)"

definition emit_binary_op :: "string \<Rightarrow> unit gen" where
  "emit_binary_op op = (case binary_opcode op of Some c \<Rightarrow> emit_op c | None \<Rightarrow> ret ())"

definition emit_contract_assertion :: "string \<Rightarrow> unit gen" where
  "emit_contract_assertion = emit_named OP_ASSERT"

definition emit_upvalue :: "upvalue_info \<Rightarrow> unit gen" where
  "emit_upvalue u = emit_slot (if up_is_local u then OP_GET_LOCAL else OP_GET_UPVALUE) (up_index u)"

text \<open>The finished function becomes an object, and a constant of the enclosing chunk.\<close>

definition emit_function_object :: "function_obj \<Rightarrow> upvalue_info list \<Rightarrow> unit gen" where
  "emit_function_object f ups = bindE (allocate (Obj_Function f)) (\<lambda>a.
     bindE (on_chunk (add_constant (VRef K_Function a))) (\<lambda>i.
     seqE (forE ups emit_upvalue) (seqE (emit_op OP_CLOSURE) (emit_operand OP_CLOSURE i))))"

section \<open>Signatures\<close>

definition is_ref_type :: "string \<Rightarrow> bool" where
  "is_ref_type t = (take 4 t = ''ref<'')"

definition function_signature ::
    "(string \<times> string) list \<Rightarrow> node parameter list \<Rightarrow> context_binding list \<Rightarrow> string \<Rightarrow> signature" where
  "function_signature aliases ps cxs return_type =
     (let fixed = filter (\<lambda>p. \<not> is_variadic p) ps in
      \<lparr>sig_refs = map (\<lambda>p. is_ref_type (param_type p)) fixed, sig_defaults = map default_value fixed,
       sig_contexts = map fst cxs, sig_return = normalize_imported aliases return_type,
       sig_required = length (filter (\<lambda>p. default_value p = None) fixed),
       sig_variadic = list_ex is_variadic ps\<rparr>)"

definition register_function_signature ::
    "string \<Rightarrow> node parameter list \<Rightarrow> context_binding list \<Rightarrow> string \<Rightarrow> unit gen" where
  "register_function_signature x ps cxs return_type = update_meta (\<lambda>m.
     m\<lparr>md_signatures := AList.update x (function_signature (md_aliases m) ps cxs return_type) (md_signatures m)\<rparr>)"

text \<open>The name of the module member that \<open>alias.member\<close> denotes.\<close>

definition module_member_name :: "gen_state \<Rightarrow> node \<Rightarrow> string \<Rightarrow> string option" where
  "module_member_name g obj x = Option.bind (identifier_name obj)
     (\<lambda>a. map_option (\<lambda>m. m @ ''.'' @ x) (map_of (md_aliases (gs_meta g)) a))"

definition resolve_ref_params :: "gen_state \<Rightarrow> node \<Rightarrow> bool list" where
  "resolve_ref_params g n =
     (case (case n of Identifier x \<Rightarrow> Some (qualify_name g x)
            | MemberAccess obj x \<Rightarrow> module_member_name g obj x | _ \<Rightarrow> None) of
        None \<Rightarrow> []
      | Some x \<Rightarrow> (case map_of (md_signatures (gs_meta g)) x of Some sg \<Rightarrow> sig_refs sg | None \<Rightarrow> []))"

definition default_import_alias :: "string \<Rightarrow> string" where
  "default_import_alias q = rev (takeWhile (\<lambda>c. c \<noteq> CHR ''.'') (rev q))"

end
