(* ===== verification/Resolver.thy ===== *)
theory Resolver
  imports Generator
begin

text \<open>
  What the generator knows about the static types of expressions (src/src/bytecode/generator/
  BytecodeGeneratorMetadataResolver.cpp and the \<open>Ensure\<dots>Metadata\<close> functions of
  BytecodeGeneratorCore.cpp). An instance of a generic type is entered into the metadata the first
  time its name is met, so these queries are procedures of the generator.
\<close>

section \<open>Instances of generic types\<close>

text \<open>\<open>copy_entry sel upd q b\<close>: \<open>m[q] = m.at(b)\<close>; \<open>at\<close> throws when there is no entry.\<close>

definition has_key :: "('k \<times> 'v) list \<Rightarrow> 'k \<Rightarrow> bool" where
  "has_key m k = (map_of m k \<noteq> None)"

definition copy_if_present :: "'k \<Rightarrow> 'k \<Rightarrow> ('k \<times> 'v) list \<Rightarrow> ('k \<times> 'v) list" where
  "copy_if_present q b m = (case map_of m b of Some v \<Rightarrow> AList.update q v m | None \<Rightarrow> m)"

text \<open>
  The common head of the three functions: a type that is known under its qualified or its
  normalised name is returned, otherwise the base of a generic name is looked up.
\<close>

datatype known_type = Known string | Unknown_Type | Instance_Of string string "string list"

definition classify_type :: "(metadata \<Rightarrow> (string \<times> 'v) list) \<Rightarrow> string \<Rightarrow> gen_state \<Rightarrow> known_type" where
  "classify_type sel t g =
     (if t = [] \<or> t = ''auto'' then Unknown_Type
      else let normalized = normalize_imported (md_aliases (gs_meta g)) t;
               qualified = qualify_name g normalized
        in if has_key (sel (gs_meta g)) qualified then Known qualified
           else if has_key (sel (gs_meta g)) normalized then Known normalized
           else case split_generic_name qualified of
               None \<Rightarrow> Unknown_Type
             | Some (base, args) \<Rightarrow>
                 if has_key (sel (gs_meta g)) base then Instance_Of qualified base args else Unknown_Type)"

definition instantiate_struct :: "string \<Rightarrow> string \<Rightarrow> string list \<Rightarrow> metadata \<Rightarrow> metadata outcome \<times> metadata" where
  "instantiate_struct q b args m =
     (let m1 = m\<lparr>md_structs := copy_if_present q b (md_structs m),
                 md_type_params := copy_if_present q b (md_type_params m)\<rparr>
      in case (map_of (md_type_params m) b, map_of (md_methods m) b, map_of (md_field_types m) b) of
           (Some ps, Some ms, Some fts) \<Rightarrow>
             (let reps = rev (zip ps args);
                  m2 = m1\<lparr>md_methods := AList.update q ms (md_methods m),
                    md_invariants := copy_if_present q b (md_invariants m),
                    md_field_types := AList.update q
                      (map (\<lambda>(f, t). (f, substitute_type reps t)) fts) (md_field_types m)\<rparr>
              in (Ok m2, m2))
         | _ \<Rightarrow> (Raise (CppExc ''unordered_map::at''), m1))"

definition ensure_struct :: "string \<Rightarrow> string option gen" where
  "ensure_struct t = bindE (reads (classify_type md_structs t)) (\<lambda>k. case k of
       Known q \<Rightarrow> ret (Some q)
     | Unknown_Type \<Rightarrow> ret None
     | Instance_Of q b args \<Rightarrow>
         bindE (meta (\<lambda>m. map_of (md_type_params m) b)) (\<lambda>ps.
           if map_option length ps \<noteq> Some (length args) then ret None
           else bindE (reads gs_meta) (\<lambda>m. case instantiate_struct q b args m of
               (Ok m', m'') \<Rightarrow> seqE (update_meta (\<lambda>_. m')) (ret (Some q))
             | (Raise e, m'') \<Rightarrow> seqE (update_meta (\<lambda>_. m'')) (raise e))))"

definition ensure_actor :: "string \<Rightarrow> string option gen" where
  "ensure_actor t = bindE (reads (classify_type md_actors t)) (\<lambda>k. case k of
       Known q \<Rightarrow> ret (Some q)
     | Unknown_Type \<Rightarrow> ret None
     | Instance_Of q b args \<Rightarrow>
         seqE (update_meta (\<lambda>m. m\<lparr>md_actors := copy_if_present q b (md_actors m),
             md_actor_defaults := copy_if_present q b (md_actor_defaults m),
             md_actor_methods := copy_if_present q b (md_actor_methods m),
             md_actor_queries := copy_if_present q b (md_actor_queries m)\<rparr>))
           (ret (Some q)))"

definition ensure_interface :: "string \<Rightarrow> string option gen" where
  "ensure_interface t = bindE (reads (classify_type md_interfaces t)) (\<lambda>k. case k of
       Known q \<Rightarrow> ret (Some q)
     | Unknown_Type \<Rightarrow> ret None
     | Instance_Of q b args \<Rightarrow>
         seqE (update_meta (\<lambda>m. m\<lparr>md_interfaces := copy_if_present q b (md_interfaces m)\<rparr>)) (ret (Some q)))"

section \<open>Types of expressions\<close>

definition instantiate_generic :: "(string \<times> string list) list \<Rightarrow> string \<Rightarrow> string \<Rightarrow> string" where
  "instantiate_generic type_params owner template =
     (case split_generic_name owner of
        None \<Rightarrow> template
      | Some (base, args) \<Rightarrow>
          (case map_of type_params base of
             Some ps \<Rightarrow> if length ps = length args then substitute_type (rev (zip ps args)) template else template
           | None \<Rightarrow> template))"

text \<open>The name that a callee denotes through an import alias, as a query that may have none.\<close>

definition ensure_member :: "(string \<Rightarrow> string option gen) \<Rightarrow> node \<Rightarrow> string \<Rightarrow> string option gen" where
  "ensure_member ensure obj x = bindE (reads (\<lambda>g. module_member_name g obj x)) (\<lambda>q. case q of
       Some name \<Rightarrow> ensure name | None \<Rightarrow> ret None)"

definition or_else :: "'a option gen \<Rightarrow> 'a option gen \<Rightarrow> 'a option gen" where
  "or_else m n = bindE m (\<lambda>r. case r of Some x \<Rightarrow> ret (Some x) | None \<Rightarrow> n)"

fun member_depth :: "node \<Rightarrow> nat" where
  "member_depth (MemberAccess obj x) = Suc (member_depth obj)"
| "member_depth _ = 0"

text \<open>\<open>InferStructTypeName\<close>; the recursion follows a chain of member accesses.\<close>

fun infer_struct_chain :: "nat \<Rightarrow> node \<Rightarrow> string option gen" where
  "infer_struct_chain d n = (case n of
       Identifier x \<Rightarrow> or_else (ensure_struct x) (reads (lookup_contexts cx_structs x))
     | MemberAccess obj x \<Rightarrow>
         bindE (case d of 0 \<Rightarrow> ret None | Suc d' \<Rightarrow> infer_struct_chain d' obj) (\<lambda>parent. case parent of
           None \<Rightarrow> ensure_member ensure_struct obj x
         | Some p \<Rightarrow>
             bindE (meta (\<lambda>m. Option.bind (map_of (md_field_types m) p) (\<lambda>fts. map_option
                 (instantiate_generic (md_type_params m) p) (map_of fts x)))) (\<lambda>t. case t of
               Some ft \<Rightarrow> ensure_struct ft
             | None \<Rightarrow> ret None))
     | Call c args \<Rightarrow>
         (case c of
            Identifier x \<Rightarrow> ensure_struct x
          | MemberAccess obj x \<Rightarrow> ensure_member ensure_struct obj x
          | _ \<Rightarrow> ret None)
     | _ \<Rightarrow> ret None)"

definition infer_struct :: "node \<Rightarrow> string option gen" where
  "infer_struct n = infer_struct_chain (member_depth n) n"

text \<open>A null node has no type.\<close>

definition infer_opt :: "(node \<Rightarrow> 'a option gen) \<Rightarrow> node option \<Rightarrow> 'a option gen" where
  "infer_opt f n = (case n of None \<Rightarrow> ret None | Some x \<Rightarrow> f x)"

definition resolve_field :: "node \<Rightarrow> string \<Rightarrow> nat option gen" where
  "resolve_field obj x = bindE (infer_struct obj) (\<lambda>t. case t of
       None \<Rightarrow> ret None
     | Some q \<Rightarrow> meta (\<lambda>m. Option.bind (map_of (md_structs m) q) (field_index x)))"

definition infer_actor :: "node \<Rightarrow> string option gen" where
  "infer_actor n = (case n of
       Identifier x \<Rightarrow> or_else (ensure_actor x) (reads (lookup_contexts cx_actors x))
     | Call c args \<Rightarrow> (case c of Identifier x \<Rightarrow> ensure_actor x | _ \<Rightarrow> ret None)
     | _ \<Rightarrow> ret None)"

definition resolve_interface_binding :: "gen_state \<Rightarrow> string \<Rightarrow> interface_binding option" where
  "resolve_interface_binding g x = lookup_contexts cx_interfaces x g"

text \<open>The method table of a type; without one, \<open>find\<close> fails.\<close>

definition struct_method :: "metadata \<Rightarrow> string \<Rightarrow> string \<Rightarrow> string option" where
  "struct_method m t x = Option.bind (map_of (md_methods m) t) (\<lambda>ms. map_of ms x)"

definition resolve_struct_method :: "node \<Rightarrow> string \<Rightarrow> string option gen" where
  "resolve_struct_method obj x =
     or_else (bindE (infer_struct obj) (\<lambda>t. case t of
         Some q \<Rightarrow> meta (\<lambda>m. struct_method m q x) | None \<Rightarrow> ret None))
       (reads (\<lambda>g. Option.bind (identifier_name obj) (\<lambda>a. Option.bind (resolve_interface_binding g a)
          (\<lambda>(i, t, is_struct). if is_struct \<and> t \<noteq> [] then struct_method (gs_meta g) t x else None))))"

definition resolve_actor_method :: "node \<Rightarrow> string \<Rightarrow> string option gen" where
  "resolve_actor_method obj x = bindE (infer_actor obj) (\<lambda>t. case t of
       Some q \<Rightarrow> meta (\<lambda>m. Option.bind (map_of (md_actor_methods m) q) (\<lambda>ms. map_of ms x))
     | None \<Rightarrow> ret None)"

definition is_actor_query :: "node \<Rightarrow> string \<Rightarrow> bool gen" where
  "is_actor_query obj x = bindE (infer_actor obj) (\<lambda>t. case t of
       Some q \<Rightarrow> meta (\<lambda>m. Option.bind (map_of (md_actor_queries m) q) (\<lambda>ms. map_of ms x) = Some True)
     | None \<Rightarrow> ret False)"

section \<open>Enums\<close>

definition enum_declared :: "metadata \<Rightarrow> string \<Rightarrow> bool" where
  "enum_declared m t = list_ex (\<lambda>(k, v). variant_enum v = t) (md_variants m)"

definition generic_base :: "string \<Rightarrow> string" where
  "generic_base t = (case split_generic_name t of Some (b, args) \<Rightarrow> b | None \<Rightarrow> t)"

definition normalize_enum :: "gen_state \<Rightarrow> string \<Rightarrow> string option" where
  "normalize_enum g t =
     (if t = [] then None
      else let n = generic_base (normalize_imported (md_aliases (gs_meta g)) t) in
        if enum_declared (gs_meta g) n then Some n else None)"

definition enum_of_variant :: "metadata \<Rightarrow> string \<Rightarrow> string option" where
  "enum_of_variant m q = map_option variant_enum (map_of (md_variants m) q)"

definition enum_from_signature :: "gen_state \<Rightarrow> string \<Rightarrow> string option" where
  "enum_from_signature g f = Option.bind (map_of (md_signatures (gs_meta g)) f)
     (\<lambda>sg. normalize_enum g (sig_return sg))"

definition enum_of_callee :: "gen_state \<Rightarrow> string \<Rightarrow> string option" where
  "enum_of_callee g f = (case enum_of_variant (gs_meta g) f of
       Some e \<Rightarrow> Some e | None \<Rightarrow> enum_from_signature g f)"

definition infer_enum :: "node \<Rightarrow> string option gen" where
  "infer_enum n = (case n of
       Identifier x \<Rightarrow> reads (lookup_contexts cx_enums x)
     | Call c args \<Rightarrow>
         (case c of
            Identifier x \<Rightarrow> reads (\<lambda>g. enum_of_callee g (qualify_name g x))
          | MemberAccess obj x \<Rightarrow>
              or_else (bindE (resolve_struct_method obj x) (\<lambda>h. case h of
                  Some f \<Rightarrow> reads (\<lambda>g. enum_from_signature g f) | None \<Rightarrow> ret None))
                (reads (\<lambda>g. Option.bind (module_member_name g obj x) (enum_of_callee g)))
          | _ \<Rightarrow> ret None)
     | _ \<Rightarrow> ret None)"

definition is_enum_tag :: "node \<Rightarrow> string \<Rightarrow> bool gen" where
  "is_enum_tag obj x =
     (if x \<noteq> ''tag'' then ret False
      else bindE (infer_enum obj) (\<lambda>e.
        if e \<noteq> None then ret True
        else reads (\<lambda>g. case obj of
            Call (Identifier f) args \<Rightarrow> has_key (md_variants (gs_meta g)) (qualify_name g f)
          | Call (MemberAccess o' f) args \<Rightarrow>
              (case module_member_name g o' f of Some q \<Rightarrow> has_key (md_variants (gs_meta g)) q | None \<Rightarrow> False)
          | _ \<Rightarrow> False)))"

section \<open>Interfaces and effects\<close>

definition normalize_interface :: "string \<Rightarrow> string gen" where
  "normalize_interface t = bindE (ensure_interface t) (\<lambda>r. ret (case r of Some q \<Rightarrow> q | None \<Rightarrow> []))"

definition infer_interface :: "node option \<Rightarrow> string \<Rightarrow> interface_binding option gen" where
  "infer_interface n explicit_type = bindE (normalize_interface explicit_type) (\<lambda>i.
     case n of
       None \<Rightarrow> ret (if i \<noteq> [] then Some (i, [], False) else None)
     | Some e \<Rightarrow>
         or_else (reads (\<lambda>g. Option.bind (identifier_name e) (\<lambda>x.
             case resolve_interface_binding g x of
               Some b \<Rightarrow> Some b
             | None \<Rightarrow> if i = [] then None
                 else map_option (\<lambda>t. (i, t, True)) (lookup_contexts cx_structs x g))))
           (if i = [] then ret None
            else bindE (infer_struct e) (\<lambda>t. ret (map_option (\<lambda>q. (i, q, True)) t))))"

text \<open>The effects of a stack of sets that have an operation of that name.\<close>

definition effects_with :: "gen_state \<Rightarrow> string \<Rightarrow> string list list \<Rightarrow> string list" where
  "effects_with g x scs = filter (\<lambda>e. case map_of (md_effects (gs_meta g)) e of
     Some ops \<Rightarrow> has_key ops x | None \<Rightarrow> False) (concat scs)"

definition resolve_effect_operation :: "node \<Rightarrow> string option gen" where
  "resolve_effect_operation n = (case identifier_name n of
       None \<Rightarrow> ret None
     | Some x \<Rightarrow> bindE (reads (\<lambda>g. remdups (effects_with g x (gs_raised g) @ effects_with g x (gs_handled g)))) (\<lambda>es.
         case es of
           [] \<Rightarrow> ret None
         | [e] \<Rightarrow> ret (Some (e @ ''.'' @ x))
         | _ \<Rightarrow> throw (''Ambiguous effect operation for codegen: '' @ x)))"

definition resolve_handler_key :: "string \<Rightarrow> string gen" where
  "resolve_handler_key x = bindE (reads (\<lambda>g.
       let active = effects_with g x (gs_raised g) @ effects_with g x (gs_handled g) in
       remdups (if active \<noteq> [] then active else effects_with g x [map fst (md_effects (gs_meta g))]))) (\<lambda>es.
     case es of
       [] \<Rightarrow> ret x
     | [e] \<Rightarrow> ret (e @ ''.'' @ x)
     | _ \<Rightarrow> throw (''Ambiguous handled effect operation for codegen: '' @ x))"

definition effect_of_key :: "string \<Rightarrow> string" where
  "effect_of_key k = (if CHR ''.'' \<in> set k
     then rev (tl (dropWhile (\<lambda>c. c \<noteq> CHR ''.'') (rev k))) else k)"

end
