(* ===== verification/Evaluator.thy ===== *)
theory Evaluator
  imports Resolver
begin

text \<open>
  The tree-walking evaluator of compile-time code (the class \<open>ComptimeEvaluator\<close> of
  src/src/bytecode/generator/BytecodeGeneratorStatements.cpp). Its scopes of bindings belong to the
  generator, its scopes of struct types to itself; the innermost scope comes first. As in the
  generator, a visit takes fuel because the calls of compile-time functions may recurse for ever.
\<close>

section \<open>State\<close>

record eval_state =
  ev_gen :: gen_state
  ev_bindings :: "(string \<times> value) list list"
  ev_structs :: "(string \<times> string) list list"

type_synonym 'a eval_proc = "(eval_state, 'a) proc"

text \<open>\<open>Result\<close>: a value and whether a return statement produced it.\<close>

type_synonym eval_result = "value \<times> bool"

type_synonym evaluator = "node \<Rightarrow> eval_result eval_proc"

definition on_gen :: "'a gen \<Rightarrow> 'a eval_proc" where
  "on_gen m s = (case m (ev_gen s) of (r, g) \<Rightarrow> (r, s\<lparr>ev_gen := g\<rparr>))"

abbreviation eval_heap :: "(heap \<Rightarrow> 'a) \<Rightarrow> 'a eval_proc" where
  "eval_heap f \<equiv> reads (\<lambda>s. f (gs_heap (ev_gen s)))"

section \<open>Bindings\<close>

definition resolve_binding :: "string \<Rightarrow> value eval_proc" where
  "resolve_binding x s = (case lookup_scopes x (ev_bindings s) of
       Some v \<Rightarrow> (Ok v, s)
     | None \<Rightarrow> (Raise (CppExc (''Unknown comptime binding: '' @ x)), s))"

definition assign_local :: "string \<Rightarrow> value \<Rightarrow> unit eval_proc" where
  "assign_local x v = modify (\<lambda>s. s\<lparr>ev_bindings :=
     (case ev_bindings s of [] \<Rightarrow> [[(x, v)]] | b # bs \<Rightarrow> AList.update x v b # bs)\<rparr>)"

fun assign_in :: "string \<Rightarrow> 'a \<Rightarrow> (string \<times> 'a) list list \<Rightarrow> (string \<times> 'a) list list option" where
  "assign_in x v [] = None"
| "assign_in x v (b # bs) = (if has_key b x then Some (AList.update x v b # bs)
     else map_option ((#) b) (assign_in x v bs))"

definition assign_binding :: "string \<Rightarrow> value \<Rightarrow> unit eval_proc" where
  "assign_binding x v s = (case assign_in x v (ev_bindings s) of
       Some bs \<Rightarrow> (Ok (), s\<lparr>ev_bindings := bs\<rparr>)
     | None \<Rightarrow> assign_local x v s)"

definition bind_struct_type :: "string \<Rightarrow> string \<Rightarrow> unit eval_proc" where
  "bind_struct_type x t = modify (\<lambda>s. s\<lparr>ev_structs := bind_top x t (ev_structs s)\<rparr>)"

text \<open>\<open>PushScope\<close>, and \<open>PopScope\<close> however the code in between ends.\<close>

definition with_scope :: "'a eval_proc \<Rightarrow> 'a eval_proc" where
  "with_scope m s = (case m (s\<lparr>ev_bindings := [] # ev_bindings s, ev_structs := [] # ev_structs s\<rparr>) of
     (r, s') \<Rightarrow> (r, s'\<lparr>ev_bindings := tl (ev_bindings s'), ev_structs := tl (ev_structs s')\<rparr>))"

section \<open>Operators\<close>

definition eval_unary :: "string \<Rightarrow> value \<Rightarrow> value outcome" where
  "eval_unary op v =
     (if op = ''-'' then value_negate v
      else if op = ''!'' \<or> op = ''not'' then unary_logic v
      else Ok v)"

definition eval_binary :: "string \<Rightarrow> heap \<Rightarrow> value \<Rightarrow> value \<Rightarrow> value outcome" where
  "eval_binary op h a b =
     (if op = ''+'' then value_add h a b
      else if op = ''-'' then value_subtract a b
      else if op = ''*'' then value_multiply a b
      else if op = ''/'' then value_divide a b
      else if op = ''div'' then value_divide_int a b
      else if op = ''mod'' then value_modulo a b
      else if op = ''=='' then Ok (VBool (value_equal h a b))
      else if op = ''!='' then Ok (VBool (\<not> value_equal h a b))
      else if op = ''>'' then Ok (VBool (value_greater a b))
      else if op = ''<'' then Ok (VBool (value_less a b))
      else if op = ''>='' then Ok (VBool (\<not> value_less a b))
      else if op = ''<='' then Ok (VBool (\<not> value_greater a b))
      else if op = ''and'' then binary_logic (\<and>) a b
      else if op = ''or'' then binary_logic (\<or>) a b
      else Raise (CppExc (''Unsupported comptime binary operator: '' @ op)))"

section \<open>Members, indices and calls\<close>

definition allocate_value :: "kind \<Rightarrow> hobj \<Rightarrow> value eval_proc" where
  "allocate_value k obj = bindE (on_gen (allocate obj)) (\<lambda>a. ret (VRef k a))"

text \<open>The struct type of a bound identifier comes first, a missing layout ends the search.\<close>

fun bound_field :: "(string \<times> string list) list \<Rightarrow> string \<Rightarrow> string \<Rightarrow> (string \<times> string) list list \<Rightarrow>
    nat option option" where
  "bound_field layouts x member [] = None"
| "bound_field layouts x member (b # bs) =
     (case map_of b x of
        None \<Rightarrow> bound_field layouts x member bs
      | Some t \<Rightarrow> (case map_of layouts t of
          None \<Rightarrow> Some None
        | Some fs \<Rightarrow> (case field_index member fs of
            Some i \<Rightarrow> Some (Some i) | None \<Rightarrow> bound_field layouts x member bs)))"

definition eval_field_index :: "node \<Rightarrow> string \<Rightarrow> nat option eval_proc" where
  "eval_field_index obj member =
     bindE (reads (\<lambda>s. Option.bind (identifier_name obj) (\<lambda>x.
         bound_field (md_structs (gs_meta (ev_gen s))) x member (ev_structs s)))) (\<lambda>r. case r of
       Some i \<Rightarrow> ret i
     | None \<Rightarrow> on_gen (resolve_field obj member))"

definition eval_member :: "evaluator \<Rightarrow> node \<Rightarrow> string \<Rightarrow> value eval_proc" where
  "eval_member ev obj member = bindE (ev obj) (\<lambda>(v, r).
     let unsupported = throw (''Unsupported comptime member access: '' @ member) in
     case v of
       VRef K_Instance a \<Rightarrow> bindE (eval_field_index obj member) (\<lambda>i.
         bindE (eval_heap (\<lambda>h. h a)) (\<lambda>o'. case (i, o') of
           (Some n, Some (Obj_Instance fs)) \<Rightarrow> if n < length fs then ret (fs ! n) else unsupported
         | _ \<Rightarrow> unsupported))
     | VRef K_Enum a \<Rightarrow> bindE (eval_heap (\<lambda>h. h a)) (\<lambda>o'. case o' of
         Some (Obj_Enum tag args) \<Rightarrow> if member = ''tag'' then ret (vint tag) else unsupported
       | _ \<Rightarrow> unsupported)
     | _ \<Rightarrow> unsupported)"

definition eval_index :: "evaluator \<Rightarrow> node \<Rightarrow> node \<Rightarrow> value eval_proc" where
  "eval_index ev c i = bindE (ev c) (\<lambda>(container, r).
     bindE (ev i) (\<lambda>(raw, r').
     bindE (lift_out (as_int64 raw)) (\<lambda>k.
       if k < 0 then throw ''Unsupported comptime negative index access''
       else case container of
         VRef K_Array a \<Rightarrow> bindE (eval_heap (\<lambda>h. h a)) (\<lambda>o'. case o' of
           Some (Obj_Array es) \<Rightarrow> if nat k < length es then ret (es ! nat k)
             else throw ''Unsupported comptime array index access''
         | _ \<Rightarrow> throw ''Unsupported comptime array index access'')
       | VRef K_Enum a \<Rightarrow> bindE (eval_heap (\<lambda>h. h a)) (\<lambda>o'. case o' of
           Some (Obj_Enum tag args) \<Rightarrow> if nat k < length args then ret (args ! nat k)
             else throw ''Unsupported comptime enum index access''
         | _ \<Rightarrow> throw ''Unsupported comptime enum index access'')
       | _ \<Rightarrow> throw ''Unsupported comptime index access'')))"

fun eval_list :: "evaluator \<Rightarrow> node list \<Rightarrow> value list eval_proc" where
  "eval_list ev [] = ret []"
| "eval_list ev (e # es) = bindE (ev e) (\<lambda>(v, r). bindE (eval_list ev es) (\<lambda>vs. ret (v # vs)))"

text \<open>\<open>resolveCallTarget\<close>: the name as written and the qualified one.\<close>

definition call_target :: "gen_state \<Rightarrow> node \<Rightarrow> (string \<times> string) option" where
  "call_target g c = (case c of
       Identifier x \<Rightarrow> Some (x, qualify_name g x)
     | MemberAccess obj x \<Rightarrow> map_option (Pair x) (module_member_name g obj x)
     | _ \<Rightarrow> None)"

text \<open>The arguments in order, then the default values of the remaining parameters.\<close>

fun bind_arguments :: "evaluator \<Rightarrow> node parameter list \<Rightarrow> node list \<Rightarrow> unit eval_proc" where
  "bind_arguments ev (p # ps) (a # as) = bindE (ev a) (\<lambda>(v, r).
     seqE (assign_local (param_name p) v) (bind_arguments ev ps as))"
| "bind_arguments ev (p # ps) [] = (case default_value p of
       None \<Rightarrow> throw ''Missing comptime argument''
     | Some d \<Rightarrow> bindE (ev d) (\<lambda>(v, r).
         seqE (assign_local (param_name p) v) (bind_arguments ev ps [])))"
| "bind_arguments ev [] [] = ret ()"
| "bind_arguments ev [] (a # as) = undefined_behaviour ''more arguments than parameters''"

definition eval_function :: "evaluator \<Rightarrow> node function_parts \<Rightarrow> node list \<Rightarrow> value eval_proc" where
  "eval_function ev parts args = with_scope
     (seqE (forE (part_contexts parts) (\<lambda>b. bindE (resolve_binding (fst b)) (assign_local (fst b))))
     (seqE (bind_arguments ev (part_params parts) args)
     (case part_body parts of None \<Rightarrow> ret VNull | Some b \<Rightarrow> bindE (ev b) (\<lambda>(v, r). ret v))))"

definition angle_base :: "string \<Rightarrow> string" where
  "angle_base s = takeWhile (\<lambda>c. c \<noteq> CHR ''<'') s"

text \<open>\<open>instance->fields[i]\<close> past the layout is undefined.\<close>

definition eval_construct :: "evaluator \<Rightarrow> string list \<Rightarrow> node list \<Rightarrow> value eval_proc" where
  "eval_construct ev layout args = bindE (eval_list ev args) (\<lambda>vs.
     if length layout < length vs then undefined_behaviour ''more fields than the struct has''
     else allocate_value K_Instance (Obj_Instance (vs @ replicate (length layout - length vs) VNull)))"

definition eval_call :: "evaluator \<Rightarrow> node \<Rightarrow> node list \<Rightarrow> value eval_proc" where
  "eval_call ev c args = bindE (reads (\<lambda>s. call_target (ev_gen s) c)) (\<lambda>t. case t of
       None \<Rightarrow> throw ''Unsupported comptime call target''
     | Some (display, q) \<Rightarrow>
         bindE (reads (\<lambda>s. case map_of (gs_comptime (ev_gen s)) q of Some f \<Rightarrow> Some f
             | None \<Rightarrow> map_of (gs_comptime (ev_gen s)) display)) (\<lambda>f. case f of
           Some (FunctionDecl x ct parts) \<Rightarrow> eval_function ev parts args
         | _ \<Rightarrow> bindE (on_gen (meta (\<lambda>m. case map_of (md_structs m) q of Some l \<Rightarrow> Some l
               | None \<Rightarrow> map_of (md_structs m) (angle_base q)))) (\<lambda>layout. case layout of
             Some l \<Rightarrow> eval_construct ev l args
           | None \<Rightarrow> bindE (on_gen (meta (\<lambda>m. map_of (md_variants m) q))) (\<lambda>v. case v of
               Some info \<Rightarrow> bindE (eval_list ev args) (\<lambda>vs.
                   allocate_value K_Enum (Obj_Enum (int (variant_tag info)) vs))
             | None \<Rightarrow> throw (''Unsupported comptime call target: '' @ display)))))"

section \<open>Statements\<close>

fun eval_statements :: "evaluator \<Rightarrow> eval_result \<Rightarrow> node option list \<Rightarrow> eval_result eval_proc" where
  "eval_statements ev r [] = ret r"
| "eval_statements ev r (None # ss) = eval_statements ev (VNull, False) ss"
| "eval_statements ev r0 (Some s # ss) = bindE (ev s) (\<lambda>r.
     if snd r then ret r else eval_statements ev r ss)"

definition eval_opt :: "evaluator \<Rightarrow> node option \<Rightarrow> eval_result eval_proc" where
  "eval_opt ev n = (case n of Some x \<Rightarrow> ev x | None \<Rightarrow> ret (VNull, False))"

definition eval_condition :: "evaluator \<Rightarrow> node \<Rightarrow> bool eval_proc" where
  "eval_condition ev c = bindE (ev c) (\<lambda>(v, r). lift_out (as_bool v))"

text \<open>The loop gives up in the round after its 10000th; \<open>left\<close> counts the rounds that remain.\<close>

fun eval_while :: "evaluator \<Rightarrow> node \<Rightarrow> node \<Rightarrow> nat \<Rightarrow> eval_result eval_proc" where
  "eval_while ev c b 0 = bindE (eval_condition ev c) (\<lambda>go.
     if go then throw ''comptime loop exceeded iteration limit'' else ret (VNull, False))"
| "eval_while ev c b (Suc left) = bindE (eval_condition ev c) (\<lambda>go.
     if \<not> go then ret (VNull, False)
     else bindE (ev b) (\<lambda>r. if snd r then ret r else eval_while ev c b left))"

definition iteration_limit :: nat where
  "iteration_limit = 10000"

definition eval_var_decl :: "evaluator \<Rightarrow> string \<Rightarrow> node option \<Rightarrow> eval_result eval_proc" where
  "eval_var_decl ev x init = bindE (eval_opt ev init) (\<lambda>(v, r).
     seqE (assign_local x v)
     (bindE (on_gen (infer_opt infer_struct init)) (\<lambda>t.
     seqE (case t of Some q \<Rightarrow> bind_struct_type x q | None \<Rightarrow> ret ()) (ret (v, False)))))"

definition as_value :: "value eval_proc \<Rightarrow> eval_result eval_proc" where
  "as_value m = bindE m (\<lambda>v. ret (v, False))"

definition eval_node :: "evaluator \<Rightarrow> evaluator" where
  "eval_node ev n = (case n of
       IntegerLiteral k \<Rightarrow> ret (VInt k, False)
     | FloatLiteral d \<Rightarrow> ret (VDouble d, False)
     | StringLiteral t \<Rightarrow> ret (VString (Some t), False)
     | Leaf t v \<Rightarrow> ret (if t = ''true'' then VBool True else if t = ''false'' then VBool False else VNull, False)
     | Identifier x \<Rightarrow> as_value (resolve_binding x)
     | UnaryExpr op e \<Rightarrow> as_value (bindE (ev e) (\<lambda>(v, r). lift_out (eval_unary op v)))
     | BinaryExpr l op e \<Rightarrow> as_value (bindE (ev l) (\<lambda>(a, r). bindE (ev e) (\<lambda>(b, r').
         bindE (eval_heap id) (\<lambda>h. lift_out (eval_binary op h a b)))))
     | ArrayLiteral es \<Rightarrow> as_value (bindE (eval_list ev es) (\<lambda>vs. allocate_value K_Array (Obj_Array vs)))
     | VarDecl x t init sc \<Rightarrow> eval_var_decl ev x init
     | Return v \<Rightarrow> bindE (eval_opt ev v) (\<lambda>(v, r). ret (v, True))
     | Block ss \<Rightarrow> with_scope (eval_statements ev (VNull, False) ss)
     | IfStatement c t e \<Rightarrow> bindE (eval_condition ev c) (\<lambda>b. if b then ev t else eval_opt ev e)
     | WhileStatement c b \<Rightarrow> eval_while ev c b iteration_limit
     | Assignment x obj member deref v index \<Rightarrow> as_value (bindE (ev v) (\<lambda>(w, r).
         if x \<noteq> [] then seqE (assign_binding x w) (ret w)
         else throw ''Unsupported comptime assignment target''))
     | Call c args \<Rightarrow> as_value (eval_call ev c args)
     | MemberAccess obj x \<Rightarrow> as_value (eval_member ev obj x)
     | Index c i \<Rightarrow> as_value (eval_index ev c i)
     | Comptime b \<Rightarrow> eval_opt ev b
     | _ \<Rightarrow> throw ''Unsupported node in comptime evaluation'')"

fun eval :: "nat \<Rightarrow> evaluator" where
  "eval 0 n = raise OutOfFuel"
| "eval (Suc k) n = eval_node (eval k) n"

end
