(* ===== verification/CodeGen.thy ===== *)
theory CodeGen
  imports Resolver Machine
begin

text \<open>
  The visitors of the bytecode generator (src/src/bytecode/generator: the files Declarations,
  Statements, AccessEmitter and Core). Each visitor is a definition of its own; \<open>acc\<close> stands for
  \<open>Accept\<close>, the visit of a child. \<open>gen\<close> ties the knot. Default arguments are syntax trees of another
  place of the program, compiled where a call omits them, so the visits need not end: \<open>gen\<close> takes
  fuel, and running out of it is the outcome \<open>OutOfFuel\<close>.
\<close>

type_synonym visitor = "node \<Rightarrow> unit gen"

definition visit_opt :: "visitor \<Rightarrow> node option \<Rightarrow> unit gen" where
  "visit_opt acc n = (case n of Some x \<Rightarrow> acc x | None \<Rightarrow> ret ())"

text \<open>A missing value or initialiser is the constant null.\<close>

definition visit_or_null :: "visitor \<Rightarrow> node option \<Rightarrow> unit gen" where
  "visit_or_null acc n = (case n of Some x \<Rightarrow> acc x | None \<Rightarrow> emit_constant VNull)"

section \<open>Functions\<close>

definition declare_symbol :: "string \<Rightarrow> unit gen" where
  "declare_symbol x = bindE (on_symbols (define_symbol x)) (\<lambda>_. ret ())"

text \<open>A context requirement or a parameter of a method takes a slot and counts for the arity.\<close>

definition declare_slot :: "string \<Rightarrow> unit gen" where
  "declare_slot x = seqE (declare_symbol x) (on_context (modify (\<lambda>c.
     c\<lparr>cx_function := (cx_function c)\<lparr>fn_arity := fn_arity (cx_function c) + 1\<rparr>\<rparr>)))"

definition declare_param :: "node parameter \<Rightarrow> unit gen" where
  "declare_param p = seqE (declare_slot (param_name p))
     (bindE (ensure_struct (param_type p)) (\<lambda>t.
     seqE (case t of None \<Rightarrow> ret () | Some q \<Rightarrow> on_context (modify (\<lambda>c.
         c\<lparr>cx_structs := bind_top (param_name p) q (cx_structs c)\<rparr>)))
     (bindE (ensure_interface (param_type p)) (\<lambda>i. case i of None \<Rightarrow> ret ()
       | Some q \<Rightarrow> on_context (modify (\<lambda>c.
         c\<lparr>cx_interfaces := bind_top (param_name p) (q, [], False) (cx_interfaces c)\<rparr>))))))"

definition push_function :: "function_context \<Rightarrow> unit gen" where
  "push_function c = modify (\<lambda>g. g\<lparr>gs_contexts := c # gs_contexts g\<rparr>)"

definition pop_function :: "(function_obj \<times> upvalue_info list) gen" where
  "pop_function g = (case gs_contexts g of
       [] \<Rightarrow> (Raise (Undefined ''no function context''), g)
     | c # cs \<Rightarrow> (Ok (cx_function c, cx_upvalues c), g\<lparr>gs_contexts := cs\<rparr>))"

definition has_ensures :: "node contract list \<Rightarrow> bool" where
  "has_ensures cs = list_ex (\<lambda>c. contract_kind c = Ensures) cs"

text \<open>The slot that keeps the result while the postconditions are checked.\<close>

definition declare_result_slot :: "node contract list \<Rightarrow> nat option gen" where
  "declare_result_slot cs =
     (if has_ensures cs then
        bindE (on_symbols (define_symbol ''__contract_result'')) (\<lambda>slot.
        seqE (emit_constant VNull) (seqE (emit_slot OP_SET_LOCAL slot) (ret (Some slot))))
      else ret None)"

definition emit_contracts :: "visitor \<Rightarrow> contract_kind \<Rightarrow> string \<Rightarrow> node contract list \<Rightarrow> unit gen" where
  "emit_contracts acc k message cs = forE cs (\<lambda>c.
     case contract_expression c of
       Some e \<Rightarrow> if contract_kind c = k then seqE (acc e) (emit_contract_assertion message) else ret ()
     | None \<Rightarrow> ret ())"

definition enter_contracts :: "node contract list \<Rightarrow> string list \<Rightarrow> unit gen" where
  "enter_contracts cs effects = modify (\<lambda>g. g\<lparr>gs_contracts := cs # gs_contracts g,
     gs_raised := remdups (map (qualify_name g) effects) # gs_raised g\<rparr>)"

definition leave_contracts :: "unit gen" where
  "leave_contracts = modify (\<lambda>g. g\<lparr>gs_contracts := tl (gs_contracts g), gs_raised := tl (gs_raised g),
     gs_result_slots := tl (gs_result_slots g)\<rparr>)"

text \<open>From the precondition checks to the final return, with the contracts in force.\<close>

definition emit_body :: "visitor \<Rightarrow> string \<Rightarrow> node function_parts \<Rightarrow> unit gen" where
  "emit_body acc x parts =
     seqE (enter_contracts (part_contracts parts) (part_effects parts))
     (bindE (declare_result_slot (part_contracts parts)) (\<lambda>slot.
     seqE (modify (\<lambda>g. g\<lparr>gs_result_slots := slot # gs_result_slots g\<rparr>))
     (seqE (emit_contracts acc Requires (''Contract requires failed in '' @ x) (part_contracts parts))
     (seqE (visit_opt acc (part_body parts))
     (seqE (emit_constant VNull) (emit_op OP_RETURN))))))"

definition compile_function_body ::
    "visitor \<Rightarrow> string \<Rightarrow> node function_parts \<Rightarrow> unit gen \<Rightarrow> bool \<Rightarrow> unit gen" where
  "compile_function_body acc x parts emit_result is_handler =
     (let ps = part_params parts in
      seqE (push_function ((function_context_of x)\<lparr>cx_handler := is_handler\<rparr>))
      (seqE (forE (part_contexts parts) (\<lambda>b. declare_slot (fst b)))
      (seqE (forE ps declare_param)
      (seqE (on_context (modify (\<lambda>c. c\<lparr>cx_function := (cx_function c)\<lparr>
          fn_min_arity := int (length (filter (\<lambda>p. \<not> is_variadic p \<and> default_value p = None) ps)),
          fn_variadic := list_ex is_variadic ps\<rparr>\<rparr>)))
      (seqE (emit_body acc x parts)
      (bindE pop_function (\<lambda>(f, ups).
      seqE (emit_function_object f ups)
      (seqE emit_result leave_contracts))))))))"

definition define_global :: "string \<Rightarrow> unit gen" where
  "define_global = emit_named OP_DEFINE_GLOBAL"

definition visit_function_decl :: "visitor \<Rightarrow> string \<Rightarrow> bool \<Rightarrow> node function_parts \<Rightarrow> unit gen" where
  "visit_function_decl acc x is_comptime parts =
     (if is_comptime then
        modify (\<lambda>g. g\<lparr>gs_comptime := AList.update x (FunctionDecl x is_comptime parts)
          (AList.update (qualify_name g x) (FunctionDecl x is_comptime parts) (gs_comptime g))\<rparr>)
      else bindE (reads (\<lambda>g. qualify_name g x)) (\<lambda>q.
        seqE (register_function_signature q (part_params parts) (part_contexts parts) (part_return parts))
          (compile_function_body acc q parts (define_global q) False)))"

text \<open>An anonymous function expression is named by a counter.\<close>

definition fresh_lambda :: "nat gen" where
  "fresh_lambda g = (Ok (gs_lambdas g + 1), g\<lparr>gs_lambdas := gs_lambdas g + 1\<rparr>)"

definition visit_function_expr :: "visitor \<Rightarrow> string \<Rightarrow> node function_parts \<Rightarrow> unit gen" where
  "visit_function_expr acc x parts =
     bindE (if x = [] then bindE fresh_lambda (\<lambda>n. ret (''<lambda_'' @ show_nat n @ ''>'')) else ret x) (\<lambda>name.
       compile_function_body acc name
         (Function_Parts (part_params parts) [] (part_effects parts) [] (part_return parts) (part_body parts))
         (ret ()) False)"

text \<open>
  The methods of a struct and of an actor share this code; \<open>ready\<close> sets the kind of \<open>self\<close> in the new
  context.
\<close>

definition compile_method ::
    "visitor \<Rightarrow> string \<Rightarrow> string \<Rightarrow> (function_context \<Rightarrow> function_context) \<Rightarrow> node function_parts \<Rightarrow> unit gen" where
  "compile_method acc owner hidden ready parts =
     seqE (register_function_signature hidden (Parameter ''self'' owner None False # part_params parts)
       (part_contexts parts) (part_return parts))
     (seqE (push_function (ready (function_context_of hidden)))
     (seqE (declare_slot ''self'')
     (seqE (forE (part_contexts parts) (\<lambda>b. declare_slot (fst b)))
     (seqE (forE (part_params parts) (\<lambda>p. declare_slot (param_name p)))
     (seqE (emit_body acc hidden parts)
     (seqE leave_contracts
     (bindE pop_function (\<lambda>(f, ups).
     seqE (emit_function_object f ups) (define_global hidden)))))))))"

section \<open>Declarations\<close>

definition visit_unary :: "visitor \<Rightarrow> (node \<Rightarrow> unit gen) \<Rightarrow> string \<Rightarrow> node \<Rightarrow> unit gen" where
  "visit_unary acc address_of op e =
     (if op = ''+'' then acc e
      else if op = ''-'' then seqE (acc e) (emit_op OP_NEGATE)
      else if op = ''!'' \<or> op = ''not'' then seqE (acc e) (emit_op OP_NOT)
      else if op = ''*'' then seqE (acc e) (emit_op OP_DEREF_GET)
      else if op = ''&'' then address_of e
      else throw (''Unsupported unary operator for codegen: '' @ op))"

definition visit_binary :: "visitor \<Rightarrow> node \<Rightarrow> string \<Rightarrow> node \<Rightarrow> unit gen" where
  "visit_binary acc l op r = seqE (acc l) (seqE (acc r) (emit_binary_op op))"

text \<open>The global of a module-level variable, and the hidden mutex of a shared one.\<close>

definition publish_variable :: "string \<Rightarrow> storage_class \<Rightarrow> nat \<Rightarrow> unit gen" where
  "publish_variable x sc slot =
     seqE (emit_slot OP_GET_LOCAL slot)
     (bindE (reads (\<lambda>g. qualify_name g x)) (\<lambda>q.
     seqE (if sc = Thread_Local_Storage
           then seqE (update_meta (\<lambda>m. m\<lparr>md_thread_locals := List.insert q (md_thread_locals m)\<rparr>))
                  (define_global (''__thread_local.'' @ q))
           else define_global q)
     (if sc = Shared_Storage
      then seqE (emit_named OP_GET_GLOBAL ''std.sync_native.mutex'')
             (seqE (emit_slot OP_CALL 0) (define_global (''__txn_mutex.'' @ x)))
      else ret ())))"

definition explicit_name :: "string \<Rightarrow> string gen" where
  "explicit_name t = meta (\<lambda>m. normalize_imported (md_aliases m) t)"

definition is_explicit :: "string \<Rightarrow> bool" where
  "is_explicit t = (t \<noteq> [] \<and> t \<noteq> ''auto'')"

text \<open>
  The type recorded for a variable: with an inferred type, the explicit one where it resolves,
  otherwise the inferred; without one, the explicit where it resolves.
\<close>

definition record_type ::
    "(node \<Rightarrow> string option gen) \<Rightarrow> (string \<Rightarrow> string option gen) \<Rightarrow> (string \<Rightarrow> unit gen) \<Rightarrow>
     node option \<Rightarrow> string \<Rightarrow> unit gen" where
  "record_type infer ensure bind_type init t =
     bindE (infer_opt infer init) (\<lambda>inferred.
     bindE (explicit_name t) (\<lambda>e.
       case inferred of
         Some q \<Rightarrow> if is_explicit e
             then bindE (ensure e) (\<lambda>r. bind_type (case r of Some n \<Rightarrow> n | None \<Rightarrow> q))
             else bind_type q
       | None \<Rightarrow> if is_explicit t
             then bindE (ensure e) (\<lambda>r. case r of Some n \<Rightarrow> bind_type n | None \<Rightarrow> ret ())
             else ret ()))"

definition bind_struct :: "string \<Rightarrow> string \<Rightarrow> unit gen" where
  "bind_struct x t = on_context (modify (\<lambda>c. c\<lparr>cx_structs := bind_top x t (cx_structs c)\<rparr>))"

definition bind_enum :: "string \<Rightarrow> string \<Rightarrow> unit gen" where
  "bind_enum x t = on_context (modify (\<lambda>c. c\<lparr>cx_enums := bind_top x t (cx_enums c)\<rparr>))"

definition bind_actor :: "string \<Rightarrow> string \<Rightarrow> unit gen" where
  "bind_actor x t = on_context (modify (\<lambda>c. c\<lparr>cx_actors := bind_top x t (cx_actors c)\<rparr>))"

definition bind_interface :: "string \<Rightarrow> interface_binding \<Rightarrow> unit gen" where
  "bind_interface x b = on_context (modify (\<lambda>c. c\<lparr>cx_interfaces := bind_top x b (cx_interfaces c)\<rparr>))"

definition record_enum :: "string \<Rightarrow> node option \<Rightarrow> string \<Rightarrow> unit gen" where
  "record_enum x init t = bindE (infer_opt infer_enum init) (\<lambda>e. case e of
       Some q \<Rightarrow> bind_enum x q
     | None \<Rightarrow> if is_explicit t
         then bindE (explicit_name t) (\<lambda>n. bindE (meta (\<lambda>m. enum_declared m (generic_base n))) (\<lambda>known.
           if known then bind_enum x (generic_base n) else ret ()))
         else ret ())"

definition record_interface :: "string \<Rightarrow> node option \<Rightarrow> string \<Rightarrow> unit gen" where
  "record_interface x init t = bindE (infer_interface init t) (\<lambda>b. case b of
       Some i \<Rightarrow> bind_interface x i
     | None \<Rightarrow> if is_explicit t
         then bindE (explicit_name t) (\<lambda>n. bindE (ensure_interface n) (\<lambda>r. case r of
             Some q \<Rightarrow> bind_interface x (q, [], False) | None \<Rightarrow> ret ()))
         else ret ())"

definition visit_var_decl :: "visitor \<Rightarrow> string \<Rightarrow> string \<Rightarrow> node option \<Rightarrow> storage_class \<Rightarrow> unit gen" where
  "visit_var_decl acc x t init sc =
     seqE (visit_or_null acc init)
     (bindE (on_symbols (define_symbol x)) (\<lambda>slot.
     seqE (emit_slot OP_SET_LOCAL slot)
     (bindE (reads (\<lambda>g. length (gs_contexts g) = 1 \<and> gs_module g \<noteq> [])) (\<lambda>module_level.
     seqE (if module_level then publish_variable x sc slot else ret ())
     (seqE (record_type infer_struct ensure_struct (bind_struct x) init t)
     (seqE (record_enum x init t)
     (seqE (record_type infer_actor ensure_actor (bind_actor x) init t)
     (record_interface x init t))))))))"

definition visit_interface_decl :: "string \<Rightarrow> string list \<Rightarrow> unit gen" where
  "visit_interface_decl x ms = bindE (reads (\<lambda>g. qualify_name g x)) (\<lambda>q.
     update_meta (\<lambda>m. m\<lparr>md_interfaces := AList.update q ms (md_interfaces m)\<rparr>))"

definition visit_effect_decl :: "string \<Rightarrow> string list \<Rightarrow> unit gen" where
  "visit_effect_decl x ops = bindE (reads (\<lambda>g. qualify_name g x)) (\<lambda>q.
     update_meta (\<lambda>m. m\<lparr>md_effects := AList.update q
       (fold (\<lambda>o'. AList.update o' q) ops []) (md_effects m)\<rparr>))"

definition visit_enum_decl :: "string \<Rightarrow> (string \<times> nat) list \<Rightarrow> unit gen" where
  "visit_enum_decl x vs = bindE (reads (\<lambda>g. qualify_name g x)) (\<lambda>e.
     modify (\<lambda>g. g\<lparr>gs_meta := (gs_meta g)\<lparr>md_variants :=
       fold (\<lambda>(i, (v, n)). AList.update (qualify_name g v)
           \<lparr>variant_tag = i mod 256, variant_args = n mod 256, variant_enum = e\<rparr>)
         (enumerate 0 vs) (md_variants (gs_meta g))\<rparr>\<rparr>))"

definition compile_actor_method ::
    "visitor \<Rightarrow> string \<Rightarrow> string list \<Rightarrow> bool \<times> string \<times> node function_parts \<Rightarrow> unit gen" where
  "compile_actor_method acc q fs method = (case method of (is_query, x, parts) \<Rightarrow>
     (let hidden = q @ ''.'' @ x in
      seqE (update_meta (\<lambda>m. m\<lparr>
          md_actor_methods := AList.map_entry q (AList.update x hidden) (md_actor_methods m),
          md_actor_queries := AList.map_entry q (AList.update x is_query) (md_actor_queries m)\<rparr>))
        (compile_method acc q hidden (\<lambda>c. c\<lparr>cx_self_actor := Some q, cx_actor_state := fs\<rparr>) parts)))"

definition visit_actor_decl ::
    "visitor \<Rightarrow> string \<Rightarrow> (string \<times> string \<times> node option) list \<Rightarrow>
     (bool \<times> string \<times> node function_parts) list \<Rightarrow> unit gen" where
  "visit_actor_decl acc x fs methods = bindE (reads (\<lambda>g. qualify_name g x)) (\<lambda>q.
     seqE (update_meta (\<lambda>m. m\<lparr>
         md_actors := AList.update q (map fst fs) (md_actors m),
         md_actor_defaults := AList.update q (map (snd \<circ> snd) fs) (md_actor_defaults m),
         md_actor_methods := AList.update q [] (md_actor_methods m),
         md_actor_queries := AList.update q [] (md_actor_queries m)\<rparr>))
     (seqE (forE methods (compile_actor_method acc q (map fst fs)))
     (bindE (meta (\<lambda>m. case map_of (md_actor_methods m) q of Some ms \<Rightarrow> ms | None \<Rightarrow> [])) (\<lambda>names.
     seqE (forE names (\<lambda>(method, hidden). seqE (emit_named OP_GET_GLOBAL hidden) (emit_named OP_CONSTANT method)))
     (seqE (emit_slot OP_BUILD_ACTOR_METHODS (length names))
     (define_global (q @ ''.__methods'')))))))"

text \<open>The hidden function that asserts the invariants of a struct on its argument.\<close>

definition compile_invariant :: "visitor \<Rightarrow> string \<Rightarrow> node contract list \<Rightarrow> unit gen" where
  "compile_invariant acc q contracts = (let x = q @ ''.__invariant'' in
     seqE (update_meta (\<lambda>m. m\<lparr>md_invariants := AList.update q x (md_invariants m)\<rparr>))
     (seqE (push_function ((function_context_of x)\<lparr>cx_self_struct := Some q\<rparr>))
     (seqE (declare_slot ''self'')
     (seqE (bind_struct ''self'' q)
     (seqE (emit_contracts acc Invariant (''Contract invariant failed in '' @ q) contracts)
     (seqE (emit_constant VNull)
     (seqE (emit_op OP_RETURN)
     (bindE pop_function (\<lambda>(f, ups).
     seqE (emit_function_object f ups) (define_global x))))))))))"

definition compile_struct_method :: "visitor \<Rightarrow> string \<Rightarrow> string \<times> node function_parts \<Rightarrow> unit gen" where
  "compile_struct_method acc q method = (case method of (x, parts) \<Rightarrow>
     (let hidden = q @ ''.'' @ x in
      seqE (update_meta (\<lambda>m. m\<lparr>md_methods := AList.map_entry q (AList.update x hidden) (md_methods m)\<rparr>))
        (compile_method acc q hidden
          (\<lambda>c. c\<lparr>cx_self_struct := Some q, cx_structs := bind_top ''self'' q (cx_structs c)\<rparr>) parts)))"

definition visit_struct_decl ::
    "visitor \<Rightarrow> string \<Rightarrow> string list \<Rightarrow> (string \<times> string) list \<Rightarrow>
     (string \<times> node function_parts) list \<Rightarrow> node contract list \<Rightarrow> unit gen" where
  "visit_struct_decl acc x type_params fs methods contracts = bindE (reads (\<lambda>g. qualify_name g x)) (\<lambda>q.
     seqE (update_meta (\<lambda>m. m\<lparr>md_structs := AList.update q (map fst fs) (md_structs m),
         md_type_params := AList.update q type_params (md_type_params m),
         md_methods := AList.update q [] (md_methods m)\<rparr>))
     (seqE (modify (\<lambda>g. g\<lparr>gs_meta := (gs_meta g)\<lparr>md_field_types := AList.update q
         (fold (\<lambda>(f, t). AList.update f (if has_key (md_structs (gs_meta g)) (qualify_name g t)
            then qualify_name g t else t)) fs []) (md_field_types (gs_meta g))\<rparr>\<rparr>))
     (seqE (if list_ex (\<lambda>c. contract_kind c = Invariant) contracts
            then compile_invariant acc q contracts else ret ())
     (forE methods (compile_struct_method acc q)))))"

end
