(* ===== verification/Compiler.thy ===== *)
theory Compiler
  imports CodeGen
begin

text \<open>
  The rest of the visitors of the bytecode generator: calls, member access and assignment
  (BytecodeGeneratorAccessEmitter.cpp), statements (BytecodeGeneratorStatements.cpp), compile-time
  evaluation and \<open>Compile\<close> (BytecodeGeneratorCore.cpp).
\<close>

section \<open>Addresses and arguments\<close>

definition emit_address_of :: "visitor \<Rightarrow> node \<Rightarrow> unit gen" where
  "emit_address_of acc n = (case n of
       Identifier x \<Rightarrow> bindE (reads (\<lambda>g. resolve_local g x)) (\<lambda>l. case l of
           Some i \<Rightarrow> emit_slot OP_ADDR_LOCAL i
         | None \<Rightarrow> bindE (upvalue_of x) (\<lambda>u. case u of
             Some i \<Rightarrow> emit_slot OP_ADDR_UPVALUE i
           | None \<Rightarrow> bindE (reads (\<lambda>g. qualify_name g x)) (emit_named OP_ADDR_GLOBAL)))
     | MemberAccess obj x \<Rightarrow> bindE (resolve_field obj x) (\<lambda>f. case f of
           None \<Rightarrow> throw ''Address-of member requires a struct field''
         | Some i \<Rightarrow> seqE (acc obj) (seqE (emit_constant (VInt (word_of_nat i))) (emit_op OP_ADDR_MEMBER)))
     | Index c i \<Rightarrow> seqE (acc c) (seqE (acc i) (emit_op OP_ADDR_MEMBER))
     | _ \<Rightarrow> throw ''Address-of requires an assignable operand'')"

definition emit_call_argument :: "visitor \<Rightarrow> node \<Rightarrow> bool \<Rightarrow> unit gen" where
  "emit_call_argument acc n by_ref = (if by_ref then emit_address_of acc n else acc n)"

definition emit_call_arguments :: "visitor \<Rightarrow> node list \<Rightarrow> bool list \<Rightarrow> nat \<Rightarrow> unit gen" where
  "emit_call_arguments acc args refs offset = forE (enumerate offset args)
     (\<lambda>(i, a). emit_call_argument acc a (i < length refs \<and> refs ! i))"

definition emit_context_arguments :: "string list \<Rightarrow> unit gen" where
  "emit_context_arguments xs = forE xs emit_get_variable"

section \<open>Construction of structs, enums and actors\<close>

definition build_struct_call :: "visitor \<Rightarrow> string \<Rightarrow> node list \<Rightarrow> unit gen" where
  "build_struct_call acc q args =
     seqE (emit_call_arguments acc args [] 0)
     (bindE (meta (\<lambda>m. case map_of (md_structs m) q of Some fs \<Rightarrow> length fs | None \<Rightarrow> 0)) (\<lambda>n.
     seqE (emit_slot OP_BUILD_STRUCT n)
     (bindE (meta (\<lambda>m. map_of (md_invariants m) q)) (\<lambda>i. case i of
         None \<Rightarrow> ret ()
       | Some x \<Rightarrow> seqE (emit_op OP_DUP) (seqE (emit_named OP_GET_GLOBAL x)
           (seqE (emit_op OP_SWAP) (seqE (emit_slot OP_CALL 1) (emit_op OP_POP))))))))"

definition build_enum_call :: "visitor \<Rightarrow> variant_info \<Rightarrow> node list \<Rightarrow> unit gen" where
  "build_enum_call acc v args = seqE (emit_call_arguments acc args [] 0)
     (seqE (emit_slot OP_BUILD_ENUM (variant_tag v)) (emit_byte (variant_args v)))"

definition build_actor_call :: "visitor \<Rightarrow> string \<Rightarrow> node list \<Rightarrow> unit gen" where
  "build_actor_call acc q args =
     bindE (meta (\<lambda>m. case map_of (md_actors m) q of Some fs \<Rightarrow> length fs | None \<Rightarrow> 0)) (\<lambda>n.
     seqE (emit_call_arguments acc args [] 0)
     (bindE (meta (\<lambda>m. case map_of (md_actor_defaults m) q of Some ds \<Rightarrow> ds | None \<Rightarrow> [])) (\<lambda>ds.
     seqE (forE (drop (length args) ds) (visit_or_null acc))
     (bindE (add_string q) (\<lambda>i.
     seqE (emit_op OP_BUILD_ACTOR) (seqE (emit_operand OP_BUILD_ACTOR i) (emit_byte n)))))))"

text \<open>
  A callee by name, plain or through an import alias: a struct, then a variant, then an actor.
  \<open>lookup\<close> is the name to ask for types, \<open>variant\<close> the one to ask for variants.
\<close>

definition try_constructor :: "visitor \<Rightarrow> string \<Rightarrow> string \<Rightarrow> node list \<Rightarrow> bool gen" where
  "try_constructor acc lookup variant args =
     bindE (ensure_struct lookup) (\<lambda>st. case st of
       Some q \<Rightarrow> seqE (build_struct_call acc q args) (ret True)
     | None \<Rightarrow> bindE (meta (\<lambda>m. map_of (md_variants m) variant)) (\<lambda>v. case v of
         Some info \<Rightarrow> seqE (build_enum_call acc info args) (ret True)
       | None \<Rightarrow> bindE (ensure_actor lookup) (\<lambda>a. case a of
           Some q \<Rightarrow> seqE (build_actor_call acc q args) (ret True)
         | None \<Rightarrow> ret False)))"

definition try_direct_constructor :: "visitor \<Rightarrow> node \<Rightarrow> node list \<Rightarrow> bool gen" where
  "try_direct_constructor acc c args = (case c of
       Identifier x \<Rightarrow> bindE (reads (\<lambda>g. qualify_name g x)) (\<lambda>v. try_constructor acc x v args)
     | MemberAccess obj x \<Rightarrow> bindE (reads (\<lambda>g. module_member_name g obj x)) (\<lambda>q. case q of
           Some name \<Rightarrow> try_constructor acc name name args
         | None \<Rightarrow> ret False)
     | _ \<Rightarrow> ret False)"

section \<open>Method calls\<close>

definition struct_method_call :: "visitor \<Rightarrow> string \<Rightarrow> node \<Rightarrow> node list \<Rightarrow> unit gen" where
  "struct_method_call acc hidden obj args =
     seqE (emit_named OP_GET_GLOBAL hidden)
     (seqE (acc obj)
     (bindE (meta (\<lambda>m. map_of (md_signatures m) hidden)) (\<lambda>sg.
      let cxs = (case sg of Some s \<Rightarrow> sig_contexts s | None \<Rightarrow> []);
          refs = (case sg of Some s \<Rightarrow> sig_refs s | None \<Rightarrow> []);
          prefix = 1 + length cxs
      in seqE (emit_context_arguments cxs)
         (seqE (emit_call_arguments acc args refs prefix)
         (seqE (case sg of None \<Rightarrow> ret ()
            | Some s \<Rightarrow> forE (drop (min (prefix + length args) (length (sig_defaults s))) (sig_defaults s))
                (\<lambda>d. case d of Some e \<Rightarrow> acc e
                  | None \<Rightarrow> throw (''Missing default argument metadata for method: '' @ hidden)))
         (emit_slot OP_CALL (case sg of
             Some s \<Rightarrow> if sig_variadic s then length args + prefix
               else length (sig_defaults s) + length cxs
           | None \<Rightarrow> length args + prefix)))))))"

definition actor_method_call :: "visitor \<Rightarrow> node \<Rightarrow> string \<Rightarrow> node list \<Rightarrow> unit gen" where
  "actor_method_call acc obj x args =
     seqE (acc obj)
     (bindE (infer_actor obj) (\<lambda>t.
     bindE (meta (\<lambda>m. case Option.bind t (\<lambda>q. Option.bind (map_of (md_actor_methods m) q) (\<lambda>ms.
           Option.bind (map_of ms x) (map_of (md_signatures m)))) of
         Some s \<Rightarrow> sig_contexts s | None \<Rightarrow> [])) (\<lambda>cxs.
     seqE (emit_context_arguments cxs)
     (seqE (emit_call_arguments acc args [] (length cxs))
     (bindE (is_actor_query obj x) (\<lambda>query.
     let op = (if query then OP_ACTOR_QUERY else OP_ACTOR_SEND) in
     seqE (emit_op op)
     (bindE (add_string x) (\<lambda>i.
     seqE (emit_operand op i) (emit_byte (length args + length cxs))))))))))"

definition try_member_call :: "visitor \<Rightarrow> node \<Rightarrow> node list \<Rightarrow> bool gen" where
  "try_member_call acc c args = (case c of
       MemberAccess obj x \<Rightarrow> bindE (resolve_struct_method obj x) (\<lambda>h. case h of
           Some hidden \<Rightarrow> seqE (struct_method_call acc hidden obj args) (ret True)
         | None \<Rightarrow> bindE (resolve_actor_method obj x) (\<lambda>a.
             if a \<noteq> None then seqE (actor_method_call acc obj x args) (ret True) else ret False))
     | _ \<Rightarrow> ret False)"

section \<open>Calls\<close>

text \<open>The name under which a callee's signature is looked up.\<close>

definition callee_name :: "gen_state \<Rightarrow> node \<Rightarrow> string option" where
  "callee_name g c = (case c of Identifier x \<Rightarrow> Some (qualify_name g x)
     | MemberAccess obj x \<Rightarrow> module_member_name g obj x | _ \<Rightarrow> None)"

definition callee_signature :: "gen_state \<Rightarrow> node \<Rightarrow> signature option" where
  "callee_signature g c = Option.bind (callee_name g c) (map_of (md_signatures (gs_meta g)))"

definition emit_missing_defaults :: "visitor \<Rightarrow> string \<Rightarrow> nat \<Rightarrow> unit gen" where
  "emit_missing_defaults acc x supplied = bindE (meta (\<lambda>m. map_of (md_signatures m) x)) (\<lambda>sg. case sg of
       None \<Rightarrow> ret ()
     | Some s \<Rightarrow>
         if supplied < sig_required s \<or> (\<not> sig_variadic s \<and> length (sig_defaults s) < supplied)
         then throw (''Call arity does not match function signature: '' @ x)
         else forE (drop (min supplied (length (sig_defaults s)))
                 (zip (sig_refs s @ replicate (length (sig_defaults s)) False) (sig_defaults s))) (\<lambda>(by_ref, d).
             if by_ref then throw ''ref parameters cannot have default values''
             else case d of Some e \<Rightarrow> acc e
               | None \<Rightarrow> throw (''Missing default argument metadata for function: '' @ x)))"

definition argument_count :: "signature option \<Rightarrow> nat \<Rightarrow> nat" where
  "argument_count sg n = (case sg of None \<Rightarrow> n
     | Some s \<Rightarrow> (if sig_variadic s then n else length (sig_defaults s)) + length (sig_contexts s))"

definition emit_plain_call :: "visitor \<Rightarrow> node \<Rightarrow> node list \<Rightarrow> unit gen" where
  "emit_plain_call acc c args =
     seqE (acc c)
     (bindE (reads (\<lambda>g. resolve_ref_params g c)) (\<lambda>refs.
     bindE (reads (\<lambda>g. case callee_signature g c of Some s \<Rightarrow> sig_contexts s | None \<Rightarrow> [])) (\<lambda>cxs.
     seqE (emit_context_arguments cxs)
     (seqE (emit_call_arguments acc args refs (length cxs))
     (bindE (reads (\<lambda>g. callee_name g c)) (\<lambda>x.
     seqE (case x of Some name \<Rightarrow> emit_missing_defaults acc name (length args) | None \<Rightarrow> ret ())
     (seqE (emit_op OP_CALL)
     (bindE (reads (\<lambda>g. callee_signature g c)) (\<lambda>sg.
     emit_byte (argument_count sg (length args)))))))))))"

definition emit_resume :: "visitor \<Rightarrow> node list \<Rightarrow> unit gen" where
  "emit_resume acc args =
     bindE (reads (\<lambda>g. case gs_contexts g of [] \<Rightarrow> False | c # cs \<Rightarrow> cx_handler c)) (\<lambda>in_handler.
       if \<not> in_handler then throw ''resume(value) can only be emitted inside an effect handler''
       else case args of [a] \<Rightarrow> seqE (acc a) (emit_op OP_RETURN)
         | _ \<Rightarrow> throw ''resume(value) expects exactly one argument'')"

definition visit_call :: "visitor \<Rightarrow> node \<Rightarrow> node list \<Rightarrow> unit gen" where
  "visit_call acc c args =
     (if identifier_name c = Some ''resume'' then emit_resume acc args
      else bindE (resolve_effect_operation c) (\<lambda>e. case e of
        Some eff \<Rightarrow> seqE (emit_call_arguments acc args [] 0)
            (bindE (add_string eff) (\<lambda>i. seqE (emit_op OP_EFFECT_INVOKE)
              (seqE (emit_operand OP_EFFECT_INVOKE i) (emit_byte (length args)))))
      | None \<Rightarrow> bindE (try_direct_constructor acc c args) (\<lambda>done.
          if done then ret ()
          else bindE (try_member_call acc c args) (\<lambda>done.
            if done then ret () else emit_plain_call acc c args))))"

section \<open>Member access and assignment\<close>

definition visit_member_access :: "visitor \<Rightarrow> node \<Rightarrow> string \<Rightarrow> unit gen" where
  "visit_member_access acc obj x =
     bindE (resolve_struct_method obj x) (\<lambda>m.
       if m \<noteq> None then throw ''Struct methods can only be used in call position''
       else bindE (resolve_actor_method obj x) (\<lambda>a.
         if a \<noteq> None then throw ''Actor methods can only be used in call position''
         else bindE (is_enum_tag obj x) (\<lambda>tag.
           if tag then seqE (acc obj) (emit_op OP_GET_ENUM_TAG)
           else bindE (resolve_field obj x) (\<lambda>f. case f of
             Some i \<Rightarrow> seqE (acc obj) (emit_slot OP_MEMBER_GET i)
           | None \<Rightarrow> seqE (acc obj) (emit_named OP_GET_MODULE_MEMBER x)))))"

definition self_target :: "gen_state \<Rightarrow> string \<Rightarrow> nat option" where
  "self_target g x = (case gs_contexts g of [] \<Rightarrow> None | c # cs \<Rightarrow>
     if x \<noteq> [] \<and> (cx_self_struct c \<noteq> None \<or> cx_self_actor c \<noteq> None) then resolve_self_field g x else None)"

text \<open>The binding that declares the variable is the one that the assignment refreshes.\<close>

fun update_binding :: "string \<Rightarrow> 'a \<Rightarrow> (string \<times> 'a) list list \<Rightarrow> (string \<times> 'a) list list" where
  "update_binding x v [] = []"
| "update_binding x v (s # ss) =
     (if has_key s x then AList.update x v s # ss else s # update_binding x v ss)"

definition refresh_interface :: "string \<Rightarrow> node \<Rightarrow> unit gen" where
  "refresh_interface x v = bindE (reads (\<lambda>g. resolve_interface_binding g x)) (\<lambda>b. case b of
       None \<Rightarrow> ret ()
     | Some (i, t, k) \<Rightarrow> bindE (infer_interface (Some v) i) (\<lambda>n. case n of
         None \<Rightarrow> ret ()
       | Some b' \<Rightarrow> on_context (modify (\<lambda>c. c\<lparr>cx_interfaces := update_binding x b' (cx_interfaces c)\<rparr>))))"

definition visit_assignment ::
    "visitor \<Rightarrow> string \<Rightarrow> node option \<Rightarrow> string \<Rightarrow> node option \<Rightarrow> node \<Rightarrow> node option \<Rightarrow> unit gen" where
  "visit_assignment acc x obj member deref v index = (case obj of
       Some o' \<Rightarrow> bindE (resolve_field o' member) (\<lambda>f. case f of
           None \<Rightarrow> throw (''Unknown struct field for assignment: '' @ member)
         | Some i \<Rightarrow> seqE (acc o') (seqE (acc v) (emit_slot OP_MEMBER_SET i)))
     | None \<Rightarrow> bindE (reads (\<lambda>g. self_target g x)) (\<lambda>self. case self of
         Some i \<Rightarrow> seqE (emit_slot OP_GET_LOCAL 0) (seqE (acc v) (emit_slot OP_MEMBER_SET i))
       | None \<Rightarrow> (case deref of
           Some p \<Rightarrow> seqE (acc p) (seqE (acc v) (emit_op OP_DEREF_SET))
         | None \<Rightarrow> (case index of
             Some i \<Rightarrow> seqE (emit_get_variable x) (seqE (acc i) (seqE (acc v) (emit_op OP_INDEX_SET)))
           | None \<Rightarrow> seqE (acc v) (seqE (emit_set_variable x) (refresh_interface x v))))))"

section \<open>Blocks and control flow\<close>

definition enter_scope :: "unit gen" where
  "enter_scope = on_context (modify push_context_scope)"

definition leave_scope :: "unit gen" where
  "leave_scope = on_context pop_context_scope"

definition is_var_decl :: "node \<Rightarrow> bool" where
  "is_var_decl n = (case n of VarDecl x t i sc \<Rightarrow> True | _ \<Rightarrow> False)"

text \<open>The statements of a block; the result counts its variables in a \<open>uint8_t\<close>.\<close>

fun visit_statements :: "visitor \<Rightarrow> nat \<Rightarrow> node option list \<Rightarrow> nat gen" where
  "visit_statements acc n [] = ret n"
| "visit_statements acc n (None # ss) = visit_statements acc n ss"
| "visit_statements acc n (Some s # ss) =
     seqE (acc s)
     (seqE (if should_pop_statement_result s then emit_op OP_POP else ret ())
     (visit_statements acc (if is_var_decl s then (n + 1) mod 256 else n) ss))"

definition visit_block :: "visitor \<Rightarrow> node option list \<Rightarrow> unit gen" where
  "visit_block acc ss = seqE enter_scope (bindE (visit_statements acc 0 ss) (\<lambda>n.
     seqE (forE (replicate n ()) (\<lambda>_. emit_op OP_POP)) leave_scope))"

definition visit_if :: "visitor \<Rightarrow> node \<Rightarrow> node \<Rightarrow> node option \<Rightarrow> unit gen" where
  "visit_if acc c t e =
     seqE (acc c)
     (bindE (emit_jump OP_JUMP_IF_FALSE) (\<lambda>else_jump.
     seqE (acc t)
     (case e of
        Some b \<Rightarrow> bindE (emit_jump OP_JUMP) (\<lambda>end_jump.
          seqE (patch_jump else_jump) (seqE (acc b) (patch_jump end_jump)))
      | None \<Rightarrow> patch_jump else_jump)))"

text \<open>The distance back to the start of a loop, a \<open>uint16_t\<close>.\<close>

definition emit_loop :: "nat \<Rightarrow> unit gen" where
  "emit_loop loop_start = bindE code_size (\<lambda>n.
     let offset = (n - loop_start + 3) mod 65536 in
     seqE (emit_op OP_LOOP) (seqE (emit_byte (offset div 256)) (emit_byte offset)))"

definition visit_while :: "visitor \<Rightarrow> node \<Rightarrow> node \<Rightarrow> unit gen" where
  "visit_while acc c b =
     bindE code_size (\<lambda>loop_start.
     seqE (acc c)
     (bindE (emit_jump OP_JUMP_IF_FALSE) (\<lambda>exit_jump.
     seqE (acc b)
     (seqE (emit_loop loop_start) (patch_jump exit_jump)))))"

section \<open>Other statements and expressions\<close>

definition visit_go :: "visitor \<Rightarrow> node \<Rightarrow> unit gen" where
  "visit_go acc n =
     seqE (emit_op OP_GET_GLOBAL) (bindE (add_string ''__task_go'') (\<lambda>i.
     seqE (emit_operand OP_GET_GLOBAL i)
     (case n of
        Call c args \<Rightarrow> seqE (acc c) (seqE (forE args acc) (emit_slot OP_CALL (length args + 1)))
      | _ \<Rightarrow> throw ''go expects a function call'')))"

definition visit_await :: "visitor \<Rightarrow> node \<Rightarrow> unit gen" where
  "visit_await acc e =
     seqE (emit_op OP_GET_GLOBAL) (bindE (add_string ''__task_await'') (\<lambda>i.
     seqE (emit_operand OP_GET_GLOBAL i) (seqE (acc e) (emit_slot OP_CALL 1))))"

definition visit_import :: "string \<Rightarrow> string \<Rightarrow> unit gen" where
  "visit_import q a = (let x = (if a = [] then default_import_alias q else a) in
     seqE (update_meta (\<lambda>m. m\<lparr>md_aliases := AList.update x q (md_aliases m)\<rparr>))
     (bindE (allocate (Obj_Module q False [])) (\<lambda>addr.
     seqE (emit_constant (VRef K_Module addr))
     (bindE (on_symbols (define_symbol x)) (\<lambda>slot. emit_slot OP_SET_LOCAL slot)))))"

text \<open>The postconditions see the result in its slot; a method of a struct checks the invariant.\<close>

definition emit_result_checks :: "visitor \<Rightarrow> unit gen" where
  "emit_result_checks acc = bindE (reads (\<lambda>g. case gs_contracts g of [] \<Rightarrow> [] | cs # r \<Rightarrow> cs)) (\<lambda>cs.
     if cs = [] then ret ()
     else bindE (reads contract_result_slot) (\<lambda>slot.
       seqE (case slot of
           Some i \<Rightarrow> seqE (emit_op OP_DUP) (seqE (emit_slot OP_SET_LOCAL i) (emit_op OP_POP))
         | None \<Rightarrow> ret ())
       (emit_contracts acc Ensures ''Contract ensures failed'' cs)))"

definition emit_invariant_check :: "unit gen" where
  "emit_invariant_check = bindE (reads (\<lambda>g. case gs_contexts g of [] \<Rightarrow> None
       | c # cs \<Rightarrow> Option.bind (cx_self_struct c) (map_of (md_invariants (gs_meta g))))) (\<lambda>i. case i of
       None \<Rightarrow> ret ()
     | Some x \<Rightarrow> seqE (emit_named OP_GET_GLOBAL x)
         (seqE (emit_slot OP_GET_LOCAL 0) (seqE (emit_slot OP_CALL 1) (emit_op OP_POP))))"

definition visit_return :: "visitor \<Rightarrow> node option \<Rightarrow> unit gen" where
  "visit_return acc v = seqE (visit_or_null acc v)
     (seqE (emit_result_checks acc) (seqE emit_invariant_check (emit_op OP_RETURN)))"

definition visit_transaction :: "visitor \<Rightarrow> region list \<Rightarrow> node option \<Rightarrow> unit gen" where
  "visit_transaction acc rs body =
     (if rs = [] then throw ''transaction requires at least one region''
      else seqE (forE rs (\<lambda>r. emit_get_variable
             (if uses_shared r then ''__txn_mutex.'' @ region_name r else region_name r)))
        (seqE (if 1 < length rs then emit_slot OP_BUILD_ARRAY (length rs) else ret ())
        (seqE (emit_op OP_BEGIN_TXN) (seqE (visit_opt acc body) (emit_op OP_END_TXN)))))"

definition handler_key_of :: "node handler \<Rightarrow> string gen" where
  "handler_key_of h = (if handler_key h = [] then resolve_handler_key (handler_effect h) else ret (handler_key h))"

definition compile_handler :: "visitor \<Rightarrow> node handler \<Rightarrow> unit gen" where
  "compile_handler acc h = bindE fresh_lambda (\<lambda>n.
     seqE (compile_function_body acc (''<handler_'' @ handler_effect h @ ''_'' @ show_nat n @ ''>'')
         (Function_Parts (handler_params h) [] [] [] [] (handler_body h)) (ret ()) True)
     (bindE (handler_key_of h) (emit_named OP_CONSTANT)))"

fun handled_effects :: "node handler list \<Rightarrow> string list gen" where
  "handled_effects [] = ret []"
| "handled_effects (h # hs) = bindE (handler_key_of h) (\<lambda>k. bindE (handled_effects hs) (\<lambda>ks.
     ret (List.insert (effect_of_key k) ks)))"

definition visit_handle :: "visitor \<Rightarrow> node option \<Rightarrow> node handler list \<Rightarrow> unit gen" where
  "visit_handle acc e hs =
     seqE (forE hs (compile_handler acc))
     (seqE (emit_slot OP_BUILD_HANDLER (length hs))
     (seqE (emit_op OP_PUSH_HANDLER)
     (bindE (handled_effects hs) (\<lambda>es.
     seqE (modify (\<lambda>g. g\<lparr>gs_handled := es # gs_handled g\<rparr>))
     (seqE (visit_or_null acc e)
     (seqE (emit_op OP_POP_HANDLER)
     (modify (\<lambda>g. g\<lparr>gs_handled := tl (gs_handled g)\<rparr>))))))))"

definition visit_array :: "visitor \<Rightarrow> node list \<Rightarrow> unit gen" where
  "visit_array acc es = seqE (forE es acc) (emit_slot OP_BUILD_ARRAY (length es))"

definition visit_map :: "visitor \<Rightarrow> (node \<times> node) list \<Rightarrow> unit gen" where
  "visit_map acc kvs = seqE (forE kvs (\<lambda>(k, v). seqE (acc k) (acc v))) (emit_slot OP_BUILD_MAP (length kvs))"

definition visit_index :: "visitor \<Rightarrow> node \<Rightarrow> node \<Rightarrow> unit gen" where
  "visit_index acc c i = bindE (infer_enum c) (\<lambda>e.
     if e \<noteq> None then
       (case i of
          IntegerLiteral k \<Rightarrow> if sint k < 0 \<or> 255 < sint k
            then throw ''Enum argument access requires a non-negative integer literal index''
            else seqE (acc c) (emit_slot OP_GET_ENUM_ARG (unat k))
        | _ \<Rightarrow> throw ''Enum argument access requires a non-negative integer literal index'')
     else seqE (acc c) (seqE (acc i) (emit_op OP_INDEX_GET)))"

definition emit_adapter :: "visitor \<Rightarrow> nat \<Rightarrow> node adapter \<Rightarrow> unit gen" where
  "emit_adapter acc slot a =
     seqE (emit_slot OP_GET_LOCAL slot)
     (seqE (if adapter_kind a = Reverse_Adapter then ret () else visit_opt acc (adapter_argument a))
     (seqE (emit_op (case adapter_kind a of Drop_Adapter \<Rightarrow> OP_ITER_DROP | Take_Adapter \<Rightarrow> OP_ITER_TAKE
         | Reverse_Adapter \<Rightarrow> OP_ITER_REVERSE | Filter_Adapter \<Rightarrow> OP_ITER_FILTER
         | Transform_Adapter \<Rightarrow> OP_ITER_TRANSFORM))
     (seqE (emit_slot OP_SET_LOCAL slot) (emit_op OP_POP))))"

definition patch_byte :: "nat \<Rightarrow> nat \<Rightarrow> unit gen" where
  "patch_byte addr n = on_chunk (modify (\<lambda>c. c\<lparr>chunk_code := (chunk_code c)[addr := low_byte n]\<rparr>))"

definition emit_iter_loop :: "visitor \<Rightarrow> nat \<Rightarrow> nat \<Rightarrow> node \<Rightarrow> unit gen" where
  "emit_iter_loop acc iterator var body =
     bindE code_size (\<lambda>loop_start.
     seqE (emit_slot OP_GET_LOCAL iterator)
     (seqE (emit_op OP_ITER_NEXT)
     (bindE code_size (\<lambda>exit_jump.
     seqE (emit_byte 255)
     (seqE (emit_slot OP_SET_LOCAL var)
     (seqE (emit_op OP_POP)
     (seqE (emit_op OP_POP)
     (seqE (acc body)
     (seqE (emit_loop loop_start)
     (bindE code_size (\<lambda>n.
       let distance = n - exit_jump - 1 in
       if 255 < distance then throw ''iter body is too large for OP_ITER_NEXT jump''
       else seqE (patch_byte exit_jump distance) (emit_op OP_POP))))))))))))"

definition visit_iter :: "visitor \<Rightarrow> string \<Rightarrow> node \<Rightarrow> node adapter list \<Rightarrow> node \<Rightarrow> unit gen" where
  "visit_iter acc x coll adapters body =
     seqE enter_scope
     (seqE (acc coll)
     (seqE (emit_op OP_MAKE_ITER)
     (bindE (on_symbols (define_symbol ''__iter'')) (\<lambda>iterator.
     seqE (emit_slot OP_SET_LOCAL iterator)
     (seqE (emit_constant VNull)
     (bindE (on_symbols (define_symbol x)) (\<lambda>var.
     seqE (emit_slot OP_SET_LOCAL var)
     (seqE (forE adapters (emit_adapter acc iterator))
     (seqE (emit_iter_loop acc iterator var body)
     (seqE (emit_op OP_POP) (seqE (emit_op OP_POP) leave_scope)))))))))))"

definition visit_leaf :: "string \<Rightarrow> unit gen" where
  "visit_leaf t =
     (if t = ''true'' then emit_constant (VBool True)
      else if t = ''false'' then emit_constant (VBool False)
      else if t = ''null'' then emit_constant VNull
      else ret ())"

section \<open>Compile-time evaluation\<close>

text \<open>
  \<open>run_chunk\<close> stands for running a chunk on a fresh machine; \<open>interpret_comptime\<close> below is what
  the code does. The generator's contexts and scopes of effects and contracts are set aside.
\<close>

type_synonym chunk_runner = "chunk \<Rightarrow> value gen"

definition comptime_context :: "gen_state \<Rightarrow> gen_state" where
  "comptime_context g = g\<lparr>gs_contexts := [top_level_context ''<comptime_top_level>''],
     gs_contracts := [], gs_result_slots := [], gs_raised := [], gs_handled := []\<rparr>"

definition restore_contexts :: "gen_state \<Rightarrow> gen_state \<Rightarrow> gen_state" where
  "restore_contexts saved g = g\<lparr>gs_contexts := gs_contexts saved, gs_contracts := gs_contracts saved,
     gs_result_slots := gs_result_slots saved, gs_raised := gs_raised saved, gs_handled := gs_handled saved\<rparr>"

definition import_alias :: "string \<times> string \<Rightarrow> unit gen" where
  "import_alias a = (case a of (x, m) \<Rightarrow> bindE (allocate (Obj_Module m False [])) (\<lambda>addr.
     seqE (emit_constant (VRef K_Module addr))
     (bindE (on_symbols (define_symbol x)) (emit_slot OP_SET_LOCAL))))"

definition register_comptime_function :: "visitor \<Rightarrow> node \<Rightarrow> unit gen" where
  "register_comptime_function acc n = (case n of
       FunctionDecl x is_comptime parts \<Rightarrow> bindE (reads (\<lambda>g. qualify_name g x)) (\<lambda>q.
         seqE (register_function_signature q (part_params parts) (part_contexts parts) (part_return parts))
           (compile_function_body acc q parts (define_global q) False))
     | _ \<Rightarrow> ret ())"

definition evaluate_comptime :: "chunk_runner \<Rightarrow> visitor \<Rightarrow> node option \<Rightarrow> value gen" where
  "evaluate_comptime run_chunk acc n = (case n of
       None \<Rightarrow> ret VNull
     | Some e \<Rightarrow> bindE (reads id) (\<lambda>saved.
         seqE (modify comptime_context)
         (seqE (bindE (meta md_aliases) (\<lambda>as. forE as import_alias))
         (seqE (bindE (reads (\<lambda>g. remdups (map snd (gs_comptime g)))) (\<lambda>fs.
             forE fs (register_comptime_function acc)))
         (seqE (compile_function_body acc ''<comptime_eval>'' (Function_Parts [] [] [] [] [] (Some e)) (ret ()) False)
         (seqE (emit_slot OP_CALL 0)
         (seqE (emit_op OP_RETURN)
         (bindE pop_function (\<lambda>(f, ups).
         (\<lambda>g. case run_chunk (fn_chunk f) g of (r, g') \<Rightarrow> (r, restore_contexts saved g')))))))))))"

definition visit_comptime :: "chunk_runner \<Rightarrow> visitor \<Rightarrow> node option \<Rightarrow> unit gen" where
  "visit_comptime run_chunk acc n = bindE (evaluate_comptime run_chunk acc n) emit_constant"

section \<open>The visitor\<close>

definition visit_node :: "chunk_runner \<Rightarrow> visitor \<Rightarrow> visitor" where
  "visit_node run_chunk acc n = (case n of
       IntegerLiteral k \<Rightarrow> emit_constant (VInt k)
     | FloatLiteral d \<Rightarrow> emit_constant (VDouble d)
     | StringLiteral s \<Rightarrow> emit_constant (VString (Some s))
     | Identifier x \<Rightarrow> emit_get_variable x
     | UnaryExpr op e \<Rightarrow> visit_unary acc (emit_address_of acc) op e
     | BinaryExpr l op r \<Rightarrow> visit_binary acc l op r
     | Assignment x obj member deref v index \<Rightarrow> visit_assignment acc x obj member deref v index
     | VarDecl x t init sc \<Rightarrow> visit_var_decl acc x t init sc
     | TypeAlias x t \<Rightarrow> ret ()
     | StructDecl x tps fs ms cs \<Rightarrow> visit_struct_decl acc x tps fs ms cs
     | EnumDecl x vs \<Rightarrow> visit_enum_decl x vs
     | InterfaceDecl x ms \<Rightarrow> visit_interface_decl x ms
     | EffectDecl x ops \<Rightarrow> visit_effect_decl x ops
     | ActorDecl x fs ms \<Rightarrow> visit_actor_decl acc x fs ms
     | Block ss \<Rightarrow> visit_block acc ss
     | ExportDecl d \<Rightarrow> visit_opt acc d
     | IfStatement c t e \<Rightarrow> visit_if acc c t e
     | WhileStatement c b \<Rightarrow> visit_while acc c b
     | FunctionDecl x is_comptime parts \<Rightarrow> visit_function_decl acc x is_comptime parts
     | FunctionExpr x parts \<Rightarrow> visit_function_expr acc x parts
     | Call c args \<Rightarrow> visit_call acc c args
     | GoExpr e \<Rightarrow> visit_go acc e
     | AwaitExpr e \<Rightarrow> visit_await acc e
     | MemberAccess obj x \<Rightarrow> visit_member_access acc obj x
     | ModuleDecl q \<Rightarrow> modify (\<lambda>g. g\<lparr>gs_module := q\<rparr>)
     | ImportDecl q a \<Rightarrow> visit_import q a
     | Return v \<Rightarrow> visit_return acc v
     | Print e \<Rightarrow> seqE (acc e) (emit_op OP_PRINT)
     | Unsafe b \<Rightarrow> visit_opt acc b
     | ArrayLiteral es \<Rightarrow> visit_array acc es
     | MapLiteral kvs \<Rightarrow> visit_map acc kvs
     | Index c i \<Rightarrow> visit_index acc c i
     | Iter x coll adapters body \<Rightarrow> visit_iter acc x coll adapters body
     | Transaction rs body \<Rightarrow> visit_transaction acc rs body
     | Handle e hs \<Rightarrow> visit_handle acc e hs
     | Comptime b \<Rightarrow> visit_comptime run_chunk acc b
     | Contract k e \<Rightarrow> visit_opt acc e
     | Leaf t v \<Rightarrow> visit_leaf t
     | Raw rule children \<Rightarrow> forE children (visit_opt acc))"

fun gen :: "chunk_runner \<Rightarrow> nat \<Rightarrow> visitor" where
  "gen run_chunk 0 n = raise OutOfFuel"
| "gen run_chunk (Suc k) n = visit_node run_chunk (gen run_chunk k) n"

section \<open>Compile\<close>

definition initial_gen :: "heap \<Rightarrow> nat \<Rightarrow> gen_state" where
  "initial_gen h a = \<lparr>gs_contexts = [top_level_context ''top_level''], gs_module = [],
     gs_meta = empty_metadata, gs_lambdas = 0, gs_contracts = [], gs_result_slots = [], gs_raised = [],
     gs_handled = [], gs_comptime = [], gs_heap = h, gs_next = a\<rparr>"

definition compile_root :: "chunk_runner \<Rightarrow> nat \<Rightarrow> node option \<Rightarrow> chunk gen" where
  "compile_root run_chunk k root =
     seqE (visit_opt (gen run_chunk k) root)
     (seqE (emit_op OP_RETURN) (on_chunk (reads id)))"

text \<open>
  The compiler on a heap whose addresses below \<open>a\<close> are taken; the semantic analysis that precedes
  it is not part of the model.
\<close>

definition compile_program ::
    "chunk_runner \<Rightarrow> nat \<Rightarrow> heap \<Rightarrow> nat \<Rightarrow> node option \<Rightarrow> chunk outcome \<times> gen_state" where
  "compile_program run_chunk k h a root = compile_root run_chunk k root (initial_gen h a)"

text \<open>
  \<open>EvaluateComptime\<close> runs the chunk on a new machine with a new runtime, whose state \<open>init\<close> and
  natives \<open>env\<close> the embedding program provides; its objects and the generator's share the heap.
\<close>

definition interpret_comptime :: "env \<Rightarrow> nat \<Rightarrow> vm_state \<Rightarrow> chunk_runner" where
  "interpret_comptime env fuel init c g =
     (case interpret_chunk env fuel (Some c) (init\<lparr>heap := gs_heap g, next_address := gs_next g\<rparr>) of
        (Raise e, s) \<Rightarrow> (Raise e, g)
      | (Ok ok, s) \<Rightarrow>
          (let g' = g\<lparr>gs_heap := heap s, gs_next := next_address s\<rparr> in
           if \<not> ok then (Raise (CppExc (if error_message s = [] then ''comptime execution failed''
               else error_message s)), g')
           else (Ok (if stack s = [] then VNull else last (stack s)), g')))"

end
