(* ===== verification/MachineSteps.thy ===== *)
theory MachineSteps
  imports Protocol
begin

text \<open>
  Running straight-line pieces of bytecode: the turns of the interpreter's loop that need no nested
  run, as steps between states that differ in the instruction pointer and the value stack only, and
  what a sequence of such steps means for the loop.
\<close>

section \<open>Turns and runs\<close>

definition one_step :: "env \<Rightarrow> nat \<Rightarrow> vm_state \<Rightarrow> vm_state \<Rightarrow> bool" where
  "one_step env entry s s' \<longleftrightarrow>
     (\<forall>n. run_turn env n (bindE (reads (\<lambda>s. length (frames s))) (run_loop env n)) (invoke env n) entry s
        = (Ok None, s'))"

abbreviation reaches :: "env \<Rightarrow> nat \<Rightarrow> vm_state \<Rightarrow> vm_state \<Rightarrow> bool" where
  "reaches env entry \<equiv> (one_step env entry)\<^sup>*\<^sup>*"

text \<open>A turn that ends the run, by a result or by an exception.\<close>

definition last_turn :: "env \<Rightarrow> nat \<Rightarrow> vm_state \<Rightarrow> exec_result option outcome \<Rightarrow> vm_state \<Rightarrow> bool" where
  "last_turn env entry s r s' \<longleftrightarrow>
     (\<forall>n. run_turn env n (bindE (reads (\<lambda>s. length (frames s))) (run_loop env n)) (invoke env n) entry s
        = (r, s'))"

definition finishes :: "env \<Rightarrow> nat \<Rightarrow> vm_state \<Rightarrow> exec_result option outcome \<Rightarrow> vm_state \<Rightarrow> bool" where
  "finishes env entry s r s' \<longleftrightarrow> (\<exists>t. reaches env entry s t \<and> last_turn env entry t r s')"

lemma reaches_finishes: "reaches env entry s t \<Longrightarrow> finishes env entry t r s' \<Longrightarrow> finishes env entry s r s'"
  unfolding finishes_def by (blast intro: rtranclp_trans)

lemma run_loop_one_step: "one_step env entry s s' \<Longrightarrow> run_loop env (Suc n) entry s = run_loop env n entry s'"
  by (simp add: one_step_def catch_exceptions_def bindE_def)

lemma run_loop_reaches:
  "reaches env entry s s' \<Longrightarrow> \<exists>k. \<forall>n. run_loop env (k + n) entry s = run_loop env n entry s'"
proof (induction rule: converse_rtranclp_induct)
  case base
  show ?case by (rule exI [of _ 0]) simp
next
  case (step s t)
  then obtain k where "\<forall>n. run_loop env (k + n) entry t = run_loop env n entry s'" by blast
  with run_loop_one_step [OF step.hyps(1)] show ?case
    by (intro exI [of _ "Suc k"]) simp
qed

lemma run_loop_finishes_ok:
  assumes "finishes env entry s (Ok (Some x)) s'"
  shows "\<exists>k. \<forall>n \<ge> k. run_loop env n entry s = (Ok x, s')"
proof -
  from assms obtain t where "reaches env entry s t" and t: "last_turn env entry t (Ok (Some x)) s'"
    by (auto simp: finishes_def)
  then obtain k where k: "\<And>n. run_loop env (k + n) entry s = run_loop env n entry t"
    using run_loop_reaches by blast
  have "run_loop env (Suc n) entry t = (Ok x, s')" for n
    using t by (simp add: last_turn_def catch_exceptions_def bindE_def)
  with k have "run_loop env (k + Suc n) entry s = (Ok x, s')" for n by presburger
  then show ?thesis
    by (intro exI [of _ "Suc k"]) (metis Suc_le_D add_Suc_right add_Suc_shift le_iff_add)
qed

lemma run_loop_finishes_exc:
  assumes "finishes env entry s (Raise (CppExc m)) s'"
  shows "\<exists>k. \<forall>n \<ge> k. run_loop env n entry s = (Ok Exec_RuntimeError, snd (raise_error m s'))"
proof -
  from assms obtain t where "reaches env entry s t" and t: "last_turn env entry t (Raise (CppExc m)) s'"
    by (auto simp: finishes_def)
  then obtain k where k: "\<And>n. run_loop env (k + n) entry s = run_loop env n entry t"
    using run_loop_reaches by blast
  have "run_loop env (Suc n) entry t = (Ok Exec_RuntimeError, snd (raise_error m s'))" for n
    using t by (simp add: last_turn_def catch_exceptions_def bindE_def seqE_def raise_error_def)
  with k have "run_loop env (k + Suc n) entry s = (Ok Exec_RuntimeError, snd (raise_error m s'))" for n
    by presburger
  then show ?thesis
    by (intro exI [of _ "Suc k"]) (metis Suc_le_D add_Suc_right add_Suc_shift le_iff_add)
qed

section \<open>A frame that runs a piece of code\<close>

definition machine_at :: "vm_state \<Rightarrow> frame \<Rightarrow> frame list \<Rightarrow> nat \<Rightarrow> value list \<Rightarrow> vm_state" where
  "machine_at s f fs i S = s\<lparr>stack := S, frames := f\<lparr>frame_ip := i\<rparr> # fs\<rparr>"

definition running :: "env \<Rightarrow> nat \<Rightarrow> vm_state \<Rightarrow> frame \<Rightarrow> frame list \<Rightarrow> function_obj \<Rightarrow> bool" where
  "running env entry s f fs fn \<longleftrightarrow> function_at (heap s) (frame_function f) = Some fn \<and>
     entry \<le> Suc (length fs) \<and> extension env = (\<lambda>_. None)"

lemma machine_at_simps [simp]:
  "stack (machine_at s f fs i S) = S" "frames (machine_at s f fs i S) = f\<lparr>frame_ip := i\<rparr> # fs"
  "heap (machine_at s f fs i S) = heap s"
  "stack_floor (machine_at s f fs i S) = frame_base f"
  "(machine_at s f fs i S)\<lparr>stack := S'\<rparr> = machine_at s f fs i S'"
  by (simp_all add: machine_at_def stack_floor_def)

lemma machine_at_exec [simp]:
  "current_frame (machine_at s f fs i S) = (Ok (f\<lparr>frame_ip := i\<rparr>), machine_at s f fs i S)"
  "set_ip j (machine_at s f fs i S) = (Ok (), machine_at s f fs j S)"
  "length S < STACK_MAX \<Longrightarrow> push_value v (machine_at s f fs i S) = (Ok (), machine_at s f fs i (S @ [v]))"
  "frame_base f \<le> length S \<Longrightarrow> pop_value (machine_at s f fs i (S @ [v])) = (Ok v, machine_at s f fs i S)"
  "peek_value 0 (machine_at s f fs i (S @ [v])) = (Ok v, machine_at s f fs i (S @ [v]))"
  "frame_base f + k < length S \<Longrightarrow> get_local k (machine_at s f fs i S) =
     (Ok (S ! (frame_base f + k)), machine_at s f fs i S)"
  "frame_base f + k < length S \<Longrightarrow> set_local k v (machine_at s f fs i S) =
     (Ok (), machine_at s f fs i (S[frame_base f + k := v]))"
  by (simp_all add: current_frame_Cons set_ip_def update_frame_def push_value_room pop_value_snoc
      peek_value_def get_local_def set_local_def)
    (simp_all add: machine_at_def)

lemma push_ok_at [simp]: "length S < STACK_MAX \<Longrightarrow>
   push_ok v (machine_at s f fs i S) = (Ok 0, machine_at s f fs i (S @ [v]))"
  by (simp add: push_ok_def)

lemma current_function_at [simp]:
  assumes "running env entry s f fs fn"
  shows "current_function (machine_at s f fs i S) = (Ok fn, machine_at s f fs i S)"
  using assms by (simp add: current_function_def running_def bindE_def)

lemma turn_instruction:
  assumes "running env entry s f fs fn" "i < length (fn_code fn)"
    and "fetch (fn_code fn) i = (op, Some k, j)"
  shows "run_turn env n r ivk entry (machine_at s f fs i S) =
     bindE (execute_op env n r ivk (fn_code fn) (fn_constants fn) op k) (after_dispatch entry)
       (machine_at s f fs j S)"
  using assms(2,3) current_function_at [OF assms(1)] assms(1)
  by (simp add: run_turn_def dispatch_def running_def bindE_def)

text \<open>An instruction that succeeds within its frame is a step; one that raises ends the run.\<close>

lemma step_instruction:
  assumes "running env entry s f fs fn" "i < length (fn_code fn)"
    "fetch (fn_code fn) i = (op, Some k, j)"
    "\<And>n. execute_op env n (bindE (reads (\<lambda>s. length (frames s))) (run_loop env n)) (invoke env n)
       (fn_code fn) (fn_constants fn) op k (machine_at s f fs j S) = (Ok 0, machine_at s f fs i' S')"
  shows "one_step env entry (machine_at s f fs i S) (machine_at s f fs i' S')"
  using assms by (simp add: one_step_def turn_instruction after_dispatch_def running_def)

lemma raise_instruction:
  assumes "running env entry s f fs fn" "i < length (fn_code fn)"
    "fetch (fn_code fn) i = (op, Some k, j)"
    "\<And>n. execute_op env n (bindE (reads (\<lambda>s. length (frames s))) (run_loop env n)) (invoke env n)
       (fn_code fn) (fn_constants fn) op k (machine_at s f fs j S) = (Raise e, t)"
  shows "finishes env entry (machine_at s f fs i S) (Raise e) t"
  using assms by (auto simp: finishes_def last_turn_def turn_instruction intro!: exI [of _ "machine_at s f fs i S"])

section \<open>Bytes of the code\<close>

definition bytes_at :: "8 word list \<Rightarrow> nat \<Rightarrow> 8 word list \<Rightarrow> bool" where
  "bytes_at code i bs \<longleftrightarrow> i + length bs \<le> length code \<and> take (length bs) (drop i code) = bs"

lemma bytes_at_nth: "bytes_at code i bs \<longleftrightarrow>
   i + length bs \<le> length code \<and> (\<forall>k < length bs. code ! (i + k) = bs ! k)"
  by (auto simp: bytes_at_def list_eq_iff_nth_eq)

lemma bytes_at_Cons: "bytes_at code i (b # bs) \<longleftrightarrow> i < length code \<and> code ! i = b \<and> bytes_at code (Suc i) bs"
  unfolding bytes_at_nth by (auto simp: less_Suc_eq_0_disj nth_Cons')

lemma bytes_at_append: "bytes_at code i (as @ bs) \<longleftrightarrow> bytes_at code i as \<and> bytes_at code (i + length as) bs"
  by (induction as arbitrary: i) (auto simp: bytes_at_Cons, auto simp: bytes_at_def)

lemma fetch_plain:
  assumes "bytes_at code i [word_of_nat op]" "op < 256" "get_operand_size op = Operand_None"
  shows "fetch code i = (op, Some 0, i + 1)"
  using assms by (simp add: fetch_def code_byte_def bytes_at_Cons)

lemma fetch_byte:
  assumes "bytes_at code i [word_of_nat op, low_byte n]" "op < 256" "get_operand_size op = Operand_Uint8"
  shows "fetch code i = (op, Some (n mod 256), i + 2)"
  using assms by (simp add: fetch_def code_byte_def bytes_at_Cons)

lemma fetch_word:
  assumes "bytes_at code i [word_of_nat op, high_byte n, low_byte n]" "op < 256"
    "get_operand_size op = Operand_Uint16"
  shows "fetch code i = (op, Some (n mod 65536), i + 3)"
  using assms two_bytes [of n] by (simp add: fetch_def code_byte_def bytes_at_Cons)

section \<open>Single instructions\<close>

lemmas operand_sizes = get_operand_size_def uint16_opcodes_def uint8_opcodes_def

lemma step_constant:
  assumes "running env entry s f fs fn"
    "bytes_at (fn_code fn) i [word_of_nat OP_CONSTANT, high_byte k, low_byte k]"
    "k < length (fn_constants fn)" "length (fn_constants fn) \<le> 65536" "length S < STACK_MAX"
  shows "one_step env entry (machine_at s f fs i S) (machine_at s f fs (i + 3) (S @ [fn_constants fn ! k]))"
proof (rule step_instruction [OF assms(1)])
  show "i < length (fn_code fn)" using assms(2) by (simp add: bytes_at_Cons)
  show "fetch (fn_code fn) i = (OP_CONSTANT, Some (k mod 65536), i + 3)"
    by (rule fetch_word [OF assms(2)]) (simp_all add: operand_sizes)
qed (use assms in \<open>simp add: execute_op_def\<close>)

lemma step_get_local:
  assumes "running env entry s f fs fn" "bytes_at (fn_code fn) i [word_of_nat OP_GET_LOCAL, low_byte k]"
    "k < 256" "frame_base f + k < length S" "length S < STACK_MAX"
  shows "one_step env entry (machine_at s f fs i S) (machine_at s f fs (i + 2) (S @ [S ! (frame_base f + k)]))"
proof (rule step_instruction [OF assms(1)])
  show "i < length (fn_code fn)" using assms(2) by (simp add: bytes_at_Cons)
  show "fetch (fn_code fn) i = (OP_GET_LOCAL, Some (k mod 256), i + 2)"
    by (rule fetch_byte [OF assms(2)]) (simp_all add: operand_sizes)
qed (use assms in \<open>simp add: execute_op_def\<close>)

lemma step_set_local:
  assumes "running env entry s f fs fn" "bytes_at (fn_code fn) i [word_of_nat OP_SET_LOCAL, low_byte k]"
    "k < 256" "frame_base f + k < length (S @ [v])"
  shows "one_step env entry (machine_at s f fs i (S @ [v]))
     (machine_at s f fs (i + 2) ((S @ [v])[frame_base f + k := v]))"
proof (rule step_instruction [OF assms(1)])
  show "i < length (fn_code fn)" using assms(2) by (simp add: bytes_at_Cons)
  show "fetch (fn_code fn) i = (OP_SET_LOCAL, Some (k mod 256), i + 2)"
    by (rule fetch_byte [OF assms(2)]) (simp_all add: operand_sizes)
qed (use assms in \<open>simp add: execute_op_def\<close>)

lemma step_pop:
  assumes "running env entry s f fs fn" "bytes_at (fn_code fn) i [word_of_nat OP_POP]"
    "frame_base f \<le> length S"
  shows "one_step env entry (machine_at s f fs i (S @ [v])) (machine_at s f fs (i + 1) S)"
proof (rule step_instruction [OF assms(1)])
  show "i < length (fn_code fn)" using assms(2) by (simp add: bytes_at_Cons)
  show "fetch (fn_code fn) i = (OP_POP, Some 0, i + 1)"
    by (rule fetch_plain [OF assms(2)]) (simp_all add: operand_sizes)
qed (use assms in \<open>simp add: execute_op_def\<close>)

text \<open>A jump over \<open>d\<close> bytes, taken or not; the loop jumps back.\<close>

lemma step_jump:
  assumes "running env entry s f fs fn" "bytes_at (fn_code fn) i [word_of_nat OP_JUMP, high_byte d, low_byte d]"
    "d < 65536" "i + 3 + d \<le> length (fn_code fn)"
  shows "one_step env entry (machine_at s f fs i S) (machine_at s f fs (i + 3 + d) S)"
proof (rule step_instruction [OF assms(1)])
  show "i < length (fn_code fn)" using assms(2) by (simp add: bytes_at_Cons)
  show "fetch (fn_code fn) i = (OP_JUMP, Some (d mod 65536), i + 3)"
    by (rule fetch_word [OF assms(2)]) (simp_all add: operand_sizes)
qed (use assms in \<open>auto simp: execute_op_def jump_forward_def size_sub_def\<close>)

lemma step_jump_if_false:
  assumes "running env entry s f fs fn"
    "bytes_at (fn_code fn) i [word_of_nat OP_JUMP_IF_FALSE, high_byte d, low_byte d]"
    "d < 65536" "i + 3 + d \<le> length (fn_code fn)" "frame_base f \<le> length S" "as_bool v = Ok b"
  shows "one_step env entry (machine_at s f fs i (S @ [v])) (machine_at s f fs (if b then i + 3 else i + 3 + d) S)"
proof (rule step_instruction [OF assms(1)])
  show "i < length (fn_code fn)" using assms(2) by (simp add: bytes_at_Cons)
  show "fetch (fn_code fn) i = (OP_JUMP_IF_FALSE, Some (d mod 65536), i + 3)"
    by (rule fetch_word [OF assms(2)]) (simp_all add: operand_sizes)
qed (use assms in \<open>auto simp: execute_op_def jump_if_def jump_forward_def size_sub_def\<close>)

lemma raise_jump_if_false:
  assumes "running env entry s f fs fn"
    "bytes_at (fn_code fn) i [word_of_nat OP_JUMP_IF_FALSE, high_byte d, low_byte d]"
    "frame_base f \<le> length S" "as_bool v = Raise e"
  shows "\<exists>j. finishes env entry (machine_at s f fs i (S @ [v])) (Raise e) (machine_at s f fs j S)"
proof (rule exI, rule raise_instruction [OF assms(1)])
  show "i < length (fn_code fn)" using assms(2) by (simp add: bytes_at_Cons)
  show "fetch (fn_code fn) i = (OP_JUMP_IF_FALSE, Some (d mod 65536), i + 3)"
    by (rule fetch_word [OF assms(2)]) (simp_all add: operand_sizes)
qed (use assms in \<open>simp add: execute_op_def jump_if_def\<close>)

lemma step_loop:
  assumes "running env entry s f fs fn" "bytes_at (fn_code fn) i [word_of_nat OP_LOOP, high_byte d, low_byte d]"
    "d < 65536" "d \<le> i + 3"
  shows "one_step env entry (machine_at s f fs i S) (machine_at s f fs (i + 3 - d) S)"
proof (rule step_instruction [OF assms(1)])
  show "i < length (fn_code fn)" using assms(2) by (simp add: bytes_at_Cons)
  show "fetch (fn_code fn) i = (OP_LOOP, Some (d mod 65536), i + 3)"
    by (rule fetch_word [OF assms(2)]) (simp_all add: operand_sizes)
qed (use assms in \<open>simp add: execute_op_def jump_back_def\<close>)

text \<open>Operators: the result is pushed, an exception ends the run.\<close>

lemma exec_binary:
  assumes "frame_base f \<le> length S" "length S < STACK_MAX"
  shows "binary_op g (machine_at s f fs j (S @ [a, b])) =
     (case g (heap s) a b of Ok v \<Rightarrow> (Ok 0, machine_at s f fs j (S @ [v])) | Raise e \<Rightarrow> (Raise e, machine_at s f fs j S))"
proof -
  have "pop_value (machine_at s f fs j (S @ [a, b])) = (Ok b, machine_at s f fs j (S @ [a]))"
    using machine_at_exec(4) [of f "S @ [a]" s fs j b] assms(1) by simp
  then show ?thesis using assms
    by (cases "g (heap s) a b") (simp_all add: binary_op_def lift_heap_def)
qed

lemma exec_unary:
  assumes "frame_base f \<le> length S" "length S < STACK_MAX"
  shows "unary_op g (machine_at s f fs j (S @ [a])) =
     (case g a of Ok v \<Rightarrow> (Ok 0, machine_at s f fs j (S @ [v])) | Raise e \<Rightarrow> (Raise e, machine_at s f fs j S))"
  using assms by (cases "g a") (simp_all add: unary_op_def)

end
