(* ===== verification/PlainGen.thy ===== *)
theory PlainGen
  imports Compiler "HOL-Library.Sublist"
begin

text \<open>
  The generator where no user type is declared: the queries for static types find nothing and leave
  the metadata alone, and what the visitors of ordinary code change is the chunk and the symbol
  table of the innermost function. \<open>view k t g\<close> is \<open>g\<close> with that chunk and that table.
\<close>

section \<open>Views\<close>

definition view :: "chunk \<Rightarrow> symbol_table \<Rightarrow> gen_state \<Rightarrow> gen_state" where
  "view k t g = g\<lparr>gs_contexts := (case gs_contexts g of [] \<Rightarrow> []
     | c # cs \<Rightarrow> c\<lparr>cx_function := (cx_function c)\<lparr>fn_chunk := k\<rparr>, cx_symbols := t\<rparr> # cs)\<rparr>"

definition no_types :: "function_context \<Rightarrow> bool" where
  "no_types c \<longleftrightarrow> concat (cx_structs c) = [] \<and> concat (cx_enums c) = [] \<and> concat (cx_actors c) = [] \<and>
     concat (cx_interfaces c) = []"

definition plain_metadata :: "metadata \<Rightarrow> bool" where
  "plain_metadata m \<longleftrightarrow> md_structs m = [] \<and> md_actors m = [] \<and> md_interfaces m = [] \<and> md_variants m = []"

definition plain :: "gen_state \<Rightarrow> bool" where
  "plain g \<longleftrightarrow> (\<exists>c cs. gs_contexts g = c # cs \<and> cx_self_struct c = None \<and> cx_self_actor c = None \<and>
     (\<forall>c \<in> set (c # cs). no_types c) \<and> (cs \<noteq> [] \<or> gs_module g = [])) \<and>
     plain_metadata (gs_meta g) \<and> contract_result_slot g = None \<and>
     (case gs_contracts g of [] \<Rightarrow> True | cs # r \<Rightarrow> cs = [])"

lemma plain_contexts:
  assumes "plain g"
  obtains c cs where "gs_contexts g = c # cs" "cx_self_struct c = None" "cx_self_actor c = None"
    "\<forall>c \<in> set (c # cs). no_types c" "cs \<noteq> [] \<or> gs_module g = []"
  using assms unfolding plain_def by blast

lemma plain_nonempty [simp]: "plain g \<Longrightarrow> gs_contexts g \<noteq> []"
  by (auto simp: plain_def)

lemma no_types_update [simp]: "no_types (c\<lparr>cx_function := f, cx_symbols := t\<rparr>) = no_types c"
  by (simp add: no_types_def)

lemma view_view [simp]: "view k t (view k' t' g) = view k t g"
  by (simp add: view_def split: list.split)

lemma view_fields [simp]:
  "gs_meta (view k t g) = gs_meta g" "gs_module (view k t g) = gs_module g"
  "gs_contracts (view k t g) = gs_contracts g" "gs_result_slots (view k t g) = gs_result_slots g"
  "contract_result_slot (view k t g) = contract_result_slot g"
  "length (gs_contexts (view k t g)) = length (gs_contexts g)"
  by (simp_all add: view_def contract_result_slot_def split: list.split)

lemma view_contexts: "gs_contexts g = c # cs \<Longrightarrow> gs_contexts (view k t g) =
   c\<lparr>cx_function := (cx_function c)\<lparr>fn_chunk := k\<rparr>, cx_symbols := t\<rparr> # cs"
  by (simp add: view_def)

lemma plain_view [simp]: "plain (view k t g) = plain g"
  by (cases "gs_contexts g") (auto simp: plain_def view_def contract_result_slot_def)

text \<open>Every generator state with a context is a view of itself.\<close>

definition chunk_of :: "gen_state \<Rightarrow> chunk" where
  "chunk_of g = fn_chunk (cx_function (hd (gs_contexts g)))"

definition table_of :: "gen_state \<Rightarrow> symbol_table" where
  "table_of g = cx_symbols (hd (gs_contexts g))"

lemma view_self: "gs_contexts g \<noteq> [] \<Longrightarrow> view (chunk_of g) (table_of g) g = g"
  by (cases "gs_contexts g") (simp_all add: view_def chunk_of_def table_of_def)

section \<open>Emitting into a view\<close>

lemma on_chunk_view: "gs_contexts g \<noteq> [] \<Longrightarrow> on_chunk m (view k t g) = (case m k of (r, k') \<Rightarrow> (r, view k' t g))"
  by (cases "gs_contexts g") (auto simp: on_chunk_def on_context_def view_def split: prod.splits)

lemma on_symbols_view: "gs_contexts g \<noteq> [] \<Longrightarrow> on_symbols m (view k t g) = (case m t of (r, t') \<Rightarrow> (r, view k t' g))"
  by (cases "gs_contexts g") (auto simp: on_symbols_def on_context_def view_def split: prod.splits)

definition add_code :: "8 word list \<Rightarrow> chunk \<Rightarrow> chunk" where
  "add_code bs k = k\<lparr>chunk_code := chunk_code k @ bs\<rparr>"

lemma add_code_simps [simp]:
  "chunk_code (add_code bs k) = chunk_code k @ bs" "chunk_constants (add_code bs k) = chunk_constants k"
  "add_code bs (add_code as k) = add_code (as @ bs) k"
  by (simp_all add: add_code_def)

lemma emit_view [simp]:
  assumes "plain g"
  shows "emit_op op (view k t g) = (Ok (), view (add_code [word_of_nat op] k) t g)"
    "emit_byte n (view k t g) = (Ok (), view (add_code [low_byte n] k) t g)"
    "code_size (view k t g) = (Ok (length (chunk_code k)), view k t g)"
  using assms
  by (simp_all add: emit_op_def emit_byte_def code_size_def on_chunk_view write_opcode_def add_code_def)

lemma emit_slot_view [simp]: "plain g \<Longrightarrow>
   emit_slot op n (view k t g) = (Ok (), view (add_code [word_of_nat op, low_byte n] k) t g)"
  by (simp add: emit_slot_def)

lemma emit_jump_view [simp]: "plain g \<Longrightarrow> emit_jump op (view k t g) =
   (Ok (length (chunk_code k) + 1), view (add_code [word_of_nat op, low_byte 255, low_byte 255] k) t g)"
  by (simp add: emit_jump_def)

definition patched :: "nat \<Rightarrow> chunk \<Rightarrow> chunk" where
  "patched addr k = (let dist = (length (chunk_code k) - addr - 2) mod 65536 in
     k\<lparr>chunk_code := (chunk_code k)[addr := high_byte dist, addr + 1 := low_byte dist]\<rparr>)"

lemma patch_jump_view [simp]: "plain g \<Longrightarrow> patch_jump addr (view k t g) = (Ok (), view (patched addr k) t g)"
  by (simp add: patch_jump_def on_chunk_view patched_def Let_def)

definition loop_offset :: "nat \<Rightarrow> chunk \<Rightarrow> nat" where
  "loop_offset start k = (length (chunk_code k) - start + 3) mod 65536"

lemma low_byte_div [simp]: "n < 65536 \<Longrightarrow> low_byte (n div 256) = high_byte n"
  by (simp add: low_byte_def high_byte_def)

lemma emit_loop_view [simp]: "plain g \<Longrightarrow> emit_loop start (view k t g) =
   (Ok (), view (add_code [word_of_nat OP_LOOP, high_byte (loop_offset start k), low_byte (loop_offset start k)] k) t g)"
  by (simp add: emit_loop_def Let_def loop_offset_def)

text \<open>A constant: an index of the pool, where it is found later.\<close>

lemma emit_constant_view:
  assumes "plain g" "emit_constant v (view k t g) = (Ok (), g')" "length (chunk_constants k) \<le> 65536"
  obtains i k' where "g' = view (add_code [word_of_nat OP_CONSTANT, high_byte i, low_byte i] k') t g"
    "chunk_code k' = chunk_code k" "prefix (chunk_constants k) (chunk_constants k')"
    "i < length (chunk_constants k')" "chunk_constants k' ! i = v \<or> constant_equals (chunk_constants k' ! i) v"
    "length (chunk_constants k') \<le> 65536"
proof -
  from assms have w: "write_constant v k = (Ok (), k2) \<Longrightarrow> g' = view k2 t g" for k2
    by (simp add: emit_constant_def on_chunk_view split: prod.splits)
  show thesis
  proof (cases "find_constant v (chunk_constants k)")
    case None
    then have "length (chunk_constants k) < 65536"
      using assms by (auto simp: emit_constant_def on_chunk_view write_constant_def add_constant_def Let_def
          bindE_def split: if_splits)
    with None show thesis
      by (intro that [of "length (chunk_constants k)" "k\<lparr>chunk_constants := chunk_constants k @ [v]\<rparr>"])
        (auto intro!: w simp: write_constant_def add_constant_def Let_def bindE_def write_operand_def
          write_opcode_def add_code_def get_operand_size_def uint16_opcodes_def)
  next
    case (Some i)
    from find_constant_Some [OF Some] assms(3) Some show thesis
      by (intro that [of i k]) (auto intro!: w simp: write_constant_def add_constant_def Let_def bindE_def
          write_operand_def write_opcode_def add_code_def get_operand_size_def uint16_opcodes_def)
  qed
qed

section \<open>Variables\<close>

lemma lookup_contexts_view [simp]:
  assumes "plain g"
  shows "lookup_contexts cx_structs x (view k t g) = None"
    "lookup_contexts cx_enums x (view k t g) = None"
    "lookup_contexts cx_actors x (view k t g) = None"
    "lookup_contexts cx_interfaces x (view k t g) = None"
proof -
  have none: "concat ss = [] \<Longrightarrow> lookup_scopes x ss = None" for ss :: "(string \<times> 'a) list list"
    by (induction ss) auto
  obtain c cs where c: "gs_contexts g = c # cs" "\<forall>c \<in> set (c # cs). no_types c"
    using assms by (auto elim: plain_contexts)
  then have "concat (concat (map cx_structs (gs_contexts (view k t g)))) = []"
    "concat (concat (map cx_enums (gs_contexts (view k t g)))) = []"
    "concat (concat (map cx_actors (gs_contexts (view k t g)))) = []"
    "concat (concat (map cx_interfaces (gs_contexts (view k t g)))) = []"
    by (auto simp: view_contexts no_types_def)
  then show "lookup_contexts cx_structs x (view k t g) = None"
    "lookup_contexts cx_enums x (view k t g) = None"
    "lookup_contexts cx_actors x (view k t g) = None"
    "lookup_contexts cx_interfaces x (view k t g) = None"
    by (simp_all only: lookup_contexts_def none)
qed

lemma resolve_local_view [simp]: "plain g \<Longrightarrow> resolve_local (view k t g) x = resolve_symbol t x"
  by (auto simp: resolve_local_def view_contexts elim!: plain_contexts)

lemma find_place_view [simp]: "plain g \<Longrightarrow> resolve_symbol t x = Some i \<Longrightarrow>
   find_place x (view k t g) = (Ok (Local_Slot i), view k t g)"
  by (simp add: find_place_def)

lemma emit_get_view [simp]: "plain g \<Longrightarrow> resolve_symbol t x = Some i \<Longrightarrow>
   emit_get_variable x (view k t g) = (Ok (), view (add_code [word_of_nat OP_GET_LOCAL, low_byte i] k) t g)"
  by (simp add: emit_get_variable_def) (auto simp: plain_def)

lemma emit_set_view [simp]: "plain g \<Longrightarrow> resolve_symbol t x = Some i \<Longrightarrow>
   emit_set_variable x (view k t g) = (Ok (), view (add_code [word_of_nat OP_SET_LOCAL, low_byte i] k) t g)"
  by (simp add: emit_set_variable_def)

lemma self_target_view [simp]: "plain g \<Longrightarrow> self_target (view k t g) x = None"
  by (auto simp: self_target_def view_contexts elim!: plain_contexts)

lemma refresh_interface_view [simp]: "plain g \<Longrightarrow> refresh_interface x v (view k t g) = (Ok (), view k t g)"
  by (simp add: refresh_interface_def resolve_interface_binding_def)

section \<open>Queries for types\<close>

lemma classify_type_view [simp]: "sel (gs_meta g) = [] \<Longrightarrow> classify_type sel ty g = Unknown_Type"
  by (simp add: classify_type_def has_key_def Let_def split: option.split prod.split)

lemma ensure_view [simp]:
  assumes "plain_metadata (gs_meta g)"
  shows "ensure_struct ty g = (Ok None, g)" "ensure_actor ty g = (Ok None, g)"
    "ensure_interface ty g = (Ok None, g)"
  using assms by (simp_all add: ensure_struct_def ensure_actor_def ensure_interface_def plain_metadata_def)

text \<open>Expressions that are neither calls nor member accesses have no user type.\<close>

definition untyped :: "node \<Rightarrow> bool" where
  "untyped n = (case n of Call c args \<Rightarrow> False | MemberAccess obj x \<Rightarrow> False | _ \<Rightarrow> True)"

lemma plain_metadata_of [simp]: "plain g \<Longrightarrow> plain_metadata (gs_meta g)"
  by (simp add: plain_def)

lemma infer_view [simp]:
  assumes "plain g" "untyped n"
  shows "infer_struct n (view k t g) = (Ok None, view k t g)"
    "infer_actor n (view k t g) = (Ok None, view k t g)"
    "infer_enum n (view k t g) = (Ok None, view k t g)"
    "infer_interface (Some n) ty (view k t g) = (Ok None, view k t g)"
proof -
  show s: "infer_struct n (view k t g) = (Ok None, view k t g)"
    using assms by (cases n) (simp_all add: infer_struct_def or_else_def untyped_def)
  show "infer_actor n (view k t g) = (Ok None, view k t g)"
    using assms by (cases n) (simp_all add: infer_actor_def or_else_def untyped_def)
  show "infer_enum n (view k t g) = (Ok None, view k t g)"
    using assms by (cases n) (simp_all add: infer_enum_def untyped_def)
  show "infer_interface (Some n) ty (view k t g) = (Ok None, view k t g)"
    using assms s by (cases n) (simp_all add: infer_interface_def normalize_interface_def or_else_def
        resolve_interface_binding_def identifier_name_def)
qed

lemma infer_none [simp]:
  assumes "plain g"
  shows "infer_interface None ty (view k t g) = (Ok None, view k t g)"
  using assms by (simp add: infer_interface_def normalize_interface_def)

lemma record_type_view:
  assumes "plain g" "\<And>n. init = Some n \<Longrightarrow> infer n (view k t g) = (Ok None, view k t g)"
    "\<And>ty. ensure ty (view k t g) = (Ok None, view k t g)"
  shows "record_type infer ensure bind_type init ty (view k t g) = (Ok (), view k t g)"
  using assms by (cases init) (simp_all add: record_type_def infer_opt_def explicit_name_def)

lemma record_types_view [simp]:
  assumes "plain g" "\<And>n. init = Some n \<Longrightarrow> untyped n"
  shows "record_type infer_struct ensure_struct b init ty (view k t g) = (Ok (), view k t g)"
    "record_type infer_actor ensure_actor b init ty (view k t g) = (Ok (), view k t g)"
    "record_enum x init ty (view k t g) = (Ok (), view k t g)"
    "record_interface x init ty (view k t g) = (Ok (), view k t g)"
proof -
  show "record_type infer_struct ensure_struct b init ty (view k t g) = (Ok (), view k t g)"
    "record_type infer_actor ensure_actor b init ty (view k t g) = (Ok (), view k t g)"
    using assms by (auto intro!: record_type_view)
  have "md_variants (gs_meta g) = []" using assms by (simp add: plain_def plain_metadata_def)
  then have "enum_declared (gs_meta g) ty' = False" for ty' by (simp add: enum_declared_def)
  then show "record_enum x init ty (view k t g) = (Ok (), view k t g)"
    using assms by (cases init)
      (simp_all add: record_enum_def infer_opt_def explicit_name_def bindE_def reads_def)
  show "record_interface x init ty (view k t g) = (Ok (), view k t g)"
    using assms by (cases init) (simp_all add: record_interface_def explicit_name_def)
qed

lemma var_decl_view:
  assumes "plain g" "\<And>n. init = Some n \<Longrightarrow> untyped n"
    "visit_or_null acc init (view k t g) = (Ok (), view k' t' g)"
    "define_symbol x t' = (Ok slot, t'')"
  shows "visit_var_decl acc x ty init Default_Storage (view k t g) =
    (Ok (), view (add_code [word_of_nat OP_SET_LOCAL, low_byte slot] k') t'' g)"
proof -
  obtain c cs where "gs_contexts g = c # cs" "cs \<noteq> [] \<or> gs_module g = []"
    using assms(1) by (rule plain_contexts)
  then have "\<not> (length (gs_contexts g) = Suc 0 \<and> gs_module g \<noteq> [])" by auto
  with assms show ?thesis by (auto simp: visit_var_decl_def on_symbols_view)
qed

section \<open>Scopes\<close>

definition scoped :: "gen_state \<Rightarrow> gen_state" where
  "scoped g = g\<lparr>gs_contexts := (case gs_contexts g of [] \<Rightarrow> [] | c # cs \<Rightarrow>
     c\<lparr>cx_structs := [] # cx_structs c, cx_enums := [] # cx_enums c, cx_actors := [] # cx_actors c,
       cx_interfaces := [] # cx_interfaces c\<rparr> # cs)\<rparr>"

lemma plain_scoped:
  assumes "plain g"
  shows "plain (scoped g)"
proof -
  obtain c cs where "gs_contexts g = c # cs" "cx_self_struct c = None" "cx_self_actor c = None"
    "\<forall>c \<in> set (c # cs). no_types c" "cs \<noteq> [] \<or> gs_module g = []"
    using assms by (rule plain_contexts)
  then show ?thesis using assms
    by (simp add: plain_def scoped_def no_types_def contract_result_slot_def)
qed

lemma enter_scope_view:
  assumes "plain g"
  shows "enter_scope (view k t g) = (Ok (), view k (push_scope t) (scoped g))"
proof -
  obtain c cs where "gs_contexts g = c # cs" using assms by (rule plain_contexts)
  then show ?thesis
    by (simp add: enter_scope_def on_context_def view_def scoped_def push_context_scope_def)
qed

lemma leave_scope_view:
  assumes "plain g" "pop_scope t = (Ok (), t')"
  shows "leave_scope (view k t (scoped g)) = (Ok (), view k t' g)"
proof -
  obtain c cs where "gs_contexts g = c # cs" using assms(1) by (rule plain_contexts)
  then show ?thesis using assms(2)
    by (simp add: leave_scope_def on_context_def view_def scoped_def pop_context_scope_def)
qed

text \<open>Without contracts and outside methods a return is its value and the instruction.\<close>

lemma return_view:
  assumes "plain g" "visit_or_null acc v (view k t g) = (Ok (), view k' t' g)"
  shows "visit_return acc v (view k t g) = (Ok (), view (add_code [word_of_nat OP_RETURN] k') t' g)"
proof -
  have "emit_result_checks acc (view k' t' g) = (Ok (), view k' t' g)"
    using assms(1) by (cases "gs_contracts g") (simp_all add: emit_result_checks_def plain_def)
  moreover have "emit_invariant_check (view k' t' g) = (Ok (), view k' t' g)"
    using assms(1) by (rule plain_contexts) (simp add: emit_invariant_check_def view_contexts)
  ultimately show ?thesis using assms by (simp add: visit_return_def)
qed

end
