(* ===== verification/Fragment.thy ===== *)
theory Fragment
  imports PlainGen Evaluator MachineSteps
begin

text \<open>
  The statements on which the bytecode generator and the compile-time evaluator are compared: blocks,
  local variables, conditionals, loops and returns over expressions of literals, variables and
  operators. This theory defines them, the machine state a piece of their code runs in, and treats
  the expressions.
\<close>

section \<open>Expressions and statements\<close>

definition literal_value :: "node \<Rightarrow> value option" where
  "literal_value n = (case n of
       IntegerLiteral k \<Rightarrow> Some (VInt k)
     | StringLiteral t \<Rightarrow> Some (VString (Some t))
     | Leaf t v \<Rightarrow> if t = ''true'' then Some (VBool True) else if t = ''false'' then Some (VBool False)
         else if t = ''null'' then Some VNull else None
     | _ \<Rightarrow> None)"

text \<open>\<open>expr V d n\<close>: an expression over the variables \<open>V\<close> whose evaluation needs \<open>d\<close> stack slots.\<close>

inductive expr :: "string set \<Rightarrow> nat \<Rightarrow> node \<Rightarrow> bool" where
  expr_literal: "literal_value n = Some v \<Longrightarrow> expr V (Suc d) n"
| expr_variable: "x \<in> V \<Longrightarrow> expr V (Suc d) (Identifier x)"
| expr_unary: "op \<in> {''+'', ''-'', ''!'', ''not''} \<Longrightarrow> expr V d e \<Longrightarrow> expr V d (UnaryExpr op e)"
| expr_binary: "binary_opcode op = Some c \<Longrightarrow> op \<noteq> ''&&'' \<Longrightarrow> op \<noteq> ''||'' \<Longrightarrow> expr V (Suc d) l \<Longrightarrow>
    expr V d r \<Longrightarrow> expr V (Suc d) (BinaryExpr l op r)"

text \<open>
  \<open>stmt d V w n\<close>: a statement that leaves the stack as it found it, \<open>stmts\<close>: a sequence of them that
  declares its own variables on top; \<open>w\<close> bounds the variables alive at a time.
\<close>

inductive stmt :: "nat \<Rightarrow> string set \<Rightarrow> nat \<Rightarrow> node \<Rightarrow> bool"
  and stmts :: "nat \<Rightarrow> string set \<Rightarrow> nat \<Rightarrow> node option list \<Rightarrow> bool" for d where
  stmt_block: "stmts d V w ss \<Longrightarrow> stmt d V w (Block ss)"
| stmt_if: "expr V d c \<Longrightarrow> stmt d V w s \<Longrightarrow> (\<And>e. els = Some e \<Longrightarrow> stmt d V w e) \<Longrightarrow> stmt d V w (IfStatement c s els)"
| stmt_while: "expr V d c \<Longrightarrow> stmt d V w s \<Longrightarrow> stmt d V w (WhileStatement c s)"
| stmt_return: "(\<And>e. v = Some e \<Longrightarrow> expr V d e) \<Longrightarrow> stmt d V w (Return v)"
| stmts_nil: "stmts d V w []"
| stmts_null: "stmts d V w ss \<Longrightarrow> stmts d V w (None # ss)"
| stmts_stmt: "stmt d V w s \<Longrightarrow> stmts d V w ss \<Longrightarrow> stmts d V w (Some s # ss)"
| stmts_expr: "expr V d e \<Longrightarrow> should_pop_statement_result e \<Longrightarrow> stmts d V w ss \<Longrightarrow> stmts d V w (Some e # ss)"
| stmts_assign: "x \<in> V \<Longrightarrow> x \<noteq> [] \<Longrightarrow> expr V d e \<Longrightarrow> stmts d V w ss \<Longrightarrow>
    stmts d V w (Some (Assignment x None m None e None) # ss)"
| stmts_var: "(\<And>e. init = Some e \<Longrightarrow> expr V d e) \<Longrightarrow> stmts d (insert x V) w ss \<Longrightarrow>
    stmts d V (Suc w) (Some (VarDecl x ty init Default_Storage) # ss)"

lemma expr_untyped: "expr V d n \<Longrightarrow> untyped n"
  by (induction rule: expr.induct) (auto simp: untyped_def literal_value_def split: node.splits)

section \<open>Values without references\<close>

definition scalar :: "value \<Rightarrow> bool" where
  "scalar v = (case v of VRef k a \<Rightarrow> False | _ \<Rightarrow> True)"

lemma scalar_simps [simp]:
  "scalar VNull" "scalar (VBool b)" "scalar (VInt i)" "scalar (VDouble x)" "scalar (VString s)"
  "scalar (vint n)" "scalar (vstr u)"
  by (simp_all add: scalar_def vint_def vstr_def)

lemma literal_scalar: "literal_value n = Some v \<Longrightarrow> scalar v"
  by (auto simp: literal_value_def split: node.splits if_splits)

lemma literal_stable: "literal_value n = Some v \<Longrightarrow> constant_equals u v \<Longrightarrow> u = v"
  by (cases u) (auto simp: literal_value_def split: node.splits if_splits)

lemma to_string_scalar: "scalar v \<Longrightarrow> to_string h v = to_string h' v"
  by (cases v) (simp_all add: to_string_def print_fuel_def scalar_def)

lemma value_equal_scalar: "scalar a \<Longrightarrow> scalar b \<Longrightarrow> value_equal h a b = value_equal h' a b"
  by (cases a; cases b) (simp_all add: scalar_def)

lemma eval_binary_heap: "scalar a \<Longrightarrow> scalar b \<Longrightarrow> eval_binary op h a b = eval_binary op h' a b"
  using to_string_scalar [of a h h'] to_string_scalar [of b h h'] value_equal_scalar [of a b h h']
  by (simp add: eval_binary_def value_add_def)

lemma eval_unary_scalar: "eval_unary op a = Ok v \<Longrightarrow> scalar a \<Longrightarrow> scalar v"
  by (auto simp: eval_unary_def value_negate_def unary_arithmetic_def unary_logic_def bind_outcome_eq_Ok
      split: if_splits option.splits)

lemma binary_arithmetic_scalar: "binary_arithmetic f a b = Ok v \<Longrightarrow> scalar v"
  by (auto simp: binary_arithmetic_def bind_outcome_eq_Ok split: option.splits)

lemma integer_operation_scalar: "integer_operation z m f a b = Ok v \<Longrightarrow> scalar v"
  by (auto simp: integer_operation_def bind_outcome_eq_Ok split: if_splits)

lemma eval_binary_scalar: "eval_binary op h a b = Ok v \<Longrightarrow> scalar v"
  by (auto simp: eval_binary_def value_add_def value_subtract_def value_multiply_def value_divide_def
      value_divide_int_def value_modulo_def binary_logic_def bind_outcome_eq_Ok
      dest: binary_arithmetic_scalar integer_operation_scalar split: if_splits)

section \<open>The machine that runs the code\<close>

text \<open>A frame of a machine that runs a function, and the part of that function a chunk has become.\<close>

record host =
  h_env :: env
  h_entry :: nat
  h_state :: vm_state
  h_frame :: frame
  h_callers :: "frame list"
  h_function :: function_obj

definition place_at :: "host \<Rightarrow> nat \<Rightarrow> value list \<Rightarrow> vm_state" where
  "place_at M i S = machine_at (h_state M) (h_frame M) (h_callers M) i S"

abbreviation base_of :: "host \<Rightarrow> nat" where
  "base_of M \<equiv> frame_base (h_frame M)"

abbreviation code_of :: "host \<Rightarrow> 8 word list" where
  "code_of M \<equiv> fn_code (h_function M)"

definition hosting :: "host \<Rightarrow> bool" where
  "hosting M \<longleftrightarrow> running (h_env M) (h_entry M) (h_state M) (h_frame M) (h_callers M) (h_function M) \<and>
     length (code_of M) < 65536 \<and> length (fn_constants (h_function M)) \<le> 65536"

definition loaded :: "host \<Rightarrow> nat \<Rightarrow> nat \<Rightarrow> chunk \<Rightarrow> bool" where
  "loaded M i j k \<longleftrightarrow> hosting M \<and> j \<le> length (chunk_code k) \<and> length (chunk_code k) \<le> length (code_of M) \<and>
     (\<forall>p. i \<le> p \<and> p < j \<longrightarrow> code_of M ! p = chunk_code k ! p) \<and>
     prefix (chunk_constants k) (fn_constants (h_function M))"

definition grows :: "chunk \<Rightarrow> chunk \<Rightarrow> bool" where
  "grows k k' \<longleftrightarrow> prefix (chunk_code k) (chunk_code k') \<and> prefix (chunk_constants k) (chunk_constants k') \<and>
     (length (chunk_constants k) \<le> 65536 \<longrightarrow> length (chunk_constants k') \<le> 65536)"

abbreviation size_of :: "chunk \<Rightarrow> nat" where
  "size_of k \<equiv> length (chunk_code k)"

lemma grows_refl [simp]: "grows k k"
  by (simp add: grows_def)

lemma grows_trans [trans]: "grows k k1 \<Longrightarrow> grows k1 k2 \<Longrightarrow> grows k k2"
  unfolding grows_def by (meson prefix_order.trans)

lemma grows_add [simp]: "grows k (add_code bs k)"
  by (simp add: grows_def)

lemma grows_size: "grows k k' \<Longrightarrow> size_of k \<le> size_of k'"
  by (auto simp: grows_def prefix_def)

lemma grows_patched: "grows k k' \<Longrightarrow> size_of k \<le> a \<Longrightarrow> grows k (patched a k')"
  by (auto simp: grows_def patched_def Let_def prefix_def list_update_append)

lemma patched_size [simp]: "size_of (patched a k) = size_of k" "chunk_constants (patched a k) = chunk_constants k"
  by (simp_all add: patched_def Let_def)

lemma loaded_hosting: "loaded M i j k \<Longrightarrow> hosting M"
  by (simp add: loaded_def)

lemma loaded_part: "loaded M i j k \<Longrightarrow> i \<le> i' \<Longrightarrow> j' \<le> j \<Longrightarrow> loaded M i' j' k"
  by (auto simp: loaded_def)

lemma loaded_grows: "loaded M i j k' \<Longrightarrow> grows k k' \<Longrightarrow> j \<le> size_of k \<Longrightarrow> loaded M i j k"
  by (auto simp: loaded_def grows_def prefix_def nth_append)

lemma loaded_patched: "loaded M i j (patched a k) \<Longrightarrow> j \<le> a \<or> a + 2 \<le> i \<Longrightarrow> loaded M i j k"
  by (auto simp: loaded_def patched_def Let_def)

lemma loaded_bytes: "loaded M i j k \<Longrightarrow> j = i + length bs \<Longrightarrow>
   (\<And>p. p < length bs \<Longrightarrow> chunk_code k ! (i + p) = bs ! p) \<Longrightarrow> bytes_at (code_of M) i bs"
  by (auto simp: loaded_def bytes_at_nth)

lemma loaded_added: "loaded M (size_of k) (size_of k + length bs) (add_code bs k) \<Longrightarrow>
   bytes_at (code_of M) (size_of k) bs"
  by (erule loaded_bytes) (simp_all add: nth_append)

text \<open>The pieces of a sequence of emissions.\<close>

lemma loaded_split:
  assumes "loaded M (size_of k) (size_of k') k'" "grows k k1" "grows k1 k'"
  shows "loaded M (size_of k) (size_of k1) k1" "loaded M (size_of k1) (size_of k') k'"
  using assms grows_size [of k k1] grows_size [of k1 k']
  by (auto intro: loaded_grows loaded_part)

lemma loaded_last:
  assumes "loaded M (size_of k) (size_of (add_code bs k')) (add_code bs k')" "grows k k'"
  shows "loaded M (size_of k) (size_of k') k'" "bytes_at (code_of M) (size_of k') bs"
proof -
  from loaded_split [OF assms(1,2) grows_add] show "loaded M (size_of k) (size_of k') k'"
    "bytes_at (code_of M) (size_of k') bs"
    by (auto intro: loaded_added)
qed

section \<open>What a piece of code does\<close>

definition goes :: "host \<Rightarrow> nat \<Rightarrow> value list \<Rightarrow> nat \<Rightarrow> value list \<Rightarrow> bool" where
  "goes M i S j S' \<longleftrightarrow> reaches (h_env M) (h_entry M) (place_at M i S) (place_at M j S')"

definition fails :: "host \<Rightarrow> nat \<Rightarrow> value list \<Rightarrow> string \<Rightarrow> bool" where
  "fails M i S m \<longleftrightarrow> (\<exists>j S'. finishes (h_env M) (h_entry M) (place_at M i S) (Raise (CppExc m)) (place_at M j S'))"

lemma goes_refl [simp]: "goes M i S i S"
  by (simp add: goes_def)

lemma goes_trans [trans]: "goes M i S j S' \<Longrightarrow> goes M j S' l S'' \<Longrightarrow> goes M i S l S''"
  unfolding goes_def by (rule rtranclp_trans)

lemma goes_fails: "goes M i S j S' \<Longrightarrow> fails M j S' m \<Longrightarrow> fails M i S m"
  unfolding goes_def fails_def by (blast intro: reaches_finishes)

lemma goes_step: "one_step (h_env M) (h_entry M) (place_at M i S) (place_at M j S') \<Longrightarrow> goes M i S j S'"
  by (auto simp: goes_def)

lemma goes_constant:
  assumes "hosting M" "bytes_at (code_of M) i [word_of_nat OP_CONSTANT, high_byte k, low_byte k]"
    "prefix cs (fn_constants (h_function M))" "k < length cs" "length S < STACK_MAX"
  shows "goes M i S (i + 3) (S @ [cs ! k])"
proof (rule goes_step)
  from assms(3,4) have "fn_constants (h_function M) ! k = cs ! k" "k < length (fn_constants (h_function M))"
    by (auto simp: prefix_def nth_append)
  then show "one_step (h_env M) (h_entry M) (place_at M i S) (place_at M (i + 3) (S @ [cs ! k]))"
    using step_constant [OF _ assms(2), of "h_env M" "h_entry M" "h_state M" "h_frame M" "h_callers M" S] assms
    by (simp add: place_at_def hosting_def)
qed

lemma goes_get_local:
  assumes "hosting M" "bytes_at (code_of M) i [word_of_nat OP_GET_LOCAL, low_byte k]"
    "k < 256" "base_of M + k < length S" "length S < STACK_MAX"
  shows "goes M i S (i + 2) (S @ [S ! (base_of M + k)])"
  using step_get_local [OF _ assms(2-5)] assms(1) by (intro goes_step) (simp add: place_at_def hosting_def)

lemma goes_set_local:
  assumes "hosting M" "bytes_at (code_of M) i [word_of_nat OP_SET_LOCAL, low_byte k]"
    "k < 256" "base_of M + k \<le> length S"
  shows "goes M i (S @ [v]) (i + 2) ((S @ [v])[base_of M + k := v])"
  using step_set_local [OF _ assms(2,3)] assms(1,4) by (intro goes_step) (simp add: place_at_def hosting_def)

lemma goes_pop:
  assumes "hosting M" "bytes_at (code_of M) i [word_of_nat OP_POP]" "base_of M \<le> length S"
  shows "goes M i (S @ [v]) (i + 1) S"
  using step_pop [OF _ assms(2,3)] assms(1) by (intro goes_step) (simp add: place_at_def hosting_def)

lemma goes_jump:
  assumes "hosting M" "bytes_at (code_of M) i [word_of_nat OP_JUMP, high_byte d, low_byte d]"
    "i + 3 + d \<le> length (code_of M)"
  shows "goes M i S (i + 3 + d) S"
  using step_jump [OF _ assms(2) _ assms(3)] assms(1,3) by (intro goes_step) (simp add: place_at_def hosting_def)

lemma goes_loop:
  assumes "hosting M" "bytes_at (code_of M) i [word_of_nat OP_LOOP, high_byte d, low_byte d]"
    "d < 65536" "d \<le> i + 3"
  shows "goes M i S (i + 3 - d) S"
  using step_loop [OF _ assms(2-4)] assms(1) by (intro goes_step) (simp add: place_at_def hosting_def)

lemma goes_branch:
  assumes "hosting M" "bytes_at (code_of M) i [word_of_nat OP_JUMP_IF_FALSE, high_byte d, low_byte d]"
    "i + 3 + d \<le> length (code_of M)" "base_of M \<le> length S" "as_bool v = Ok b"
  shows "goes M i (S @ [v]) (if b then i + 3 else i + 3 + d) S"
  using step_jump_if_false [OF _ assms(2) _ assms(3-5)] assms(1,3)
  by (intro goes_step) (simp add: place_at_def hosting_def)

lemma fails_branch:
  assumes "hosting M" "bytes_at (code_of M) i [word_of_nat OP_JUMP_IF_FALSE, high_byte d, low_byte d]"
    "base_of M \<le> length S" "as_bool v = Raise (CppExc m)"
  shows "fails M i (S @ [v]) m"
  using raise_jump_if_false [OF _ assms(2-4)] assms(1)
  by (simp add: fails_def place_at_def hosting_def) blast

section \<open>Operators\<close>

lemma execute_operator:
  assumes "binary_opcode op = Some c" "op \<noteq> ''&&''" "op \<noteq> ''||''"
  shows "c < 256" "get_operand_size c = Operand_None"
    "execute_op env n r ivk code consts c 0 = binary_op (eval_binary op)"
proof -
  have "op \<in> {''+'', ''-'', ''*'', ''/'', ''div'', ''mod'', ''and'', ''or'', ''=='', ''!='', ''<'', ''>'', ''<='', ''>=''}"
    using assms by (simp add: binary_opcode_def split: if_splits)
  then show "c < 256" "get_operand_size c = Operand_None"
    "execute_op env n r ivk code consts c 0 = binary_op (eval_binary op)"
    using assms(1) unfolding insert_iff empty_iff
    by (elim disjE; simp add: binary_opcode_def operand_sizes execute_op_def eval_binary_def [abs_def])+
qed

lemma goes_instruction:
  assumes "hosting M" "i < length (code_of M)" "fetch (code_of M) i = (op, Some k, j)"
    "\<And>n. execute_op (h_env M) n (bindE (reads (\<lambda>s. length (frames s))) (run_loop (h_env M) n))
       (invoke (h_env M) n) (code_of M) (fn_constants (h_function M)) op k (place_at M j S) =
       (Ok 0, place_at M i' S')"
  shows "goes M i S i' S'"
  using assms step_instruction [where f = "h_frame M"] unfolding place_at_def hosting_def
  by (intro goes_step) (unfold place_at_def, blast)

lemma fails_instruction:
  assumes "hosting M" "i < length (code_of M)" "fetch (code_of M) i = (op, Some k, j)"
    "\<And>n. execute_op (h_env M) n (bindE (reads (\<lambda>s. length (frames s))) (run_loop (h_env M) n))
       (invoke (h_env M) n) (code_of M) (fn_constants (h_function M)) op k (place_at M j S) =
       (Raise (CppExc m), place_at M i' S')"
  shows "fails M i S m"
  using assms raise_instruction [where f = "h_frame M"] unfolding place_at_def hosting_def fails_def
  by blast

lemma binary_turn:
  assumes "hosting M" "bytes_at (code_of M) i [word_of_nat c]" "binary_opcode op = Some c"
    "op \<noteq> ''&&''" "op \<noteq> ''||''" "base_of M \<le> length S" "length S < STACK_MAX" "scalar a" "scalar b"
  shows "eval_binary op h a b = Ok v \<Longrightarrow> goes M i (S @ [a, b]) (i + 1) (S @ [v])"
    "eval_binary op h a b = Raise (CppExc m) \<Longrightarrow> fails M i (S @ [a, b]) m"
proof -
  note op = execute_operator [OF assms(3-5)]
  have i: "i < length (code_of M)" using assms(2) by (simp add: bytes_at_Cons)
  note f = fetch_plain [OF assms(2) op(1,2)]
  have e: "execute_op (h_env M) n (bindE (reads (\<lambda>s. length (frames s))) (run_loop (h_env M) n))
      (invoke (h_env M) n) (code_of M) (fn_constants (h_function M)) c 0 (place_at M (i + 1) (S @ [a, b])) =
      (case eval_binary op h a b of Ok v \<Rightarrow> (Ok 0, place_at M (i + 1) (S @ [v]))
       | Raise e \<Rightarrow> (Raise e, place_at M (i + 1) S))" for n
    using eval_binary_heap [OF assms(8,9), of op h "heap (h_state M)"] assms(6,7)
    by (simp add: op(3) place_at_def exec_binary split: outcome.split)
  show "goes M i (S @ [a, b]) (i + 1) (S @ [v])" if "eval_binary op h a b = Ok v"
    by (rule goes_instruction [OF assms(1) i f]) (simp only: e that outcome.case)
  show "fails M i (S @ [a, b]) m" if "eval_binary op h a b = Raise (CppExc m)"
    by (rule fails_instruction [OF assms(1) i f]) (simp only: e that outcome.case)
qed

definition unary_opcode :: "string \<Rightarrow> opcode" where
  "unary_opcode op = (if op = ''-'' then OP_NEGATE else OP_NOT)"

lemma unary_turn:
  assumes "hosting M" "bytes_at (code_of M) i [word_of_nat (unary_opcode op)]" "op \<in> {''-'', ''!'', ''not''}"
    "base_of M \<le> length S" "length S < STACK_MAX"
  shows "eval_unary op a = Ok v \<Longrightarrow> goes M i (S @ [a]) (i + 1) (S @ [v])"
    "eval_unary op a = Raise (CppExc m) \<Longrightarrow> fails M i (S @ [a]) m"
proof -
  have op: "unary_opcode op < 256" "get_operand_size (unary_opcode op) = Operand_None"
    by (simp_all add: unary_opcode_def operand_sizes)
  have ex: "execute_op env n r ivk code pool (unary_opcode op) 0 = unary_op (eval_unary op)"
    for env n r ivk code pool
    using assms(3) by (auto simp: unary_opcode_def execute_op_def eval_unary_def [abs_def])
  have i: "i < length (code_of M)" using assms(2) by (simp add: bytes_at_Cons)
  note f = fetch_plain [OF assms(2) op]
  have e: "execute_op (h_env M) n (bindE (reads (\<lambda>s. length (frames s))) (run_loop (h_env M) n))
      (invoke (h_env M) n) (code_of M) (fn_constants (h_function M)) (unary_opcode op) 0
      (place_at M (i + 1) (S @ [a])) =
      (case eval_unary op a of Ok v \<Rightarrow> (Ok 0, place_at M (i + 1) (S @ [v]))
       | Raise e \<Rightarrow> (Raise e, place_at M (i + 1) S))" for n
    using assms(4,5) by (simp add: ex place_at_def exec_unary split: outcome.split)
  show "goes M i (S @ [a]) (i + 1) (S @ [v])" if "eval_unary op a = Ok v"
    by (rule goes_instruction [OF assms(1) i f]) (simp only: e that outcome.case)
  show "fails M i (S @ [a]) m" if "eval_unary op a = Raise (CppExc m)"
    by (rule fails_instruction [OF assms(1) i f]) (simp only: e that outcome.case)
qed

section \<open>Slots and bindings\<close>

text \<open>The evaluator's bindings are the values in the slots that the symbol table gives the names.\<close>

definition slot_values :: "nat \<Rightarrow> value list \<Rightarrow> (string \<times> nat) list list \<Rightarrow> (string \<times> value) list list" where
  "slot_values b S ss = map (map (\<lambda>(x, i). (x, S ! (b + i)))) ss"

definition table_ok :: "symbol_table \<Rightarrow> bool" where
  "table_ok t \<longleftrightarrow> distinct (map snd (concat (scopes t))) \<and>
     (\<forall>p \<in> set (concat (scopes t)). snd p < next_index t) \<and> next_index t < 256"

definition agrees :: "nat \<Rightarrow> value list \<Rightarrow> symbol_table \<Rightarrow> (string \<times> value) list list \<Rightarrow> bool" where
  "agrees b S t bs \<longleftrightarrow> table_ok t \<and> b + next_index t \<le> length S \<and> (\<forall>i < next_index t. scalar (S ! (b + i))) \<and>
     (\<exists>ss rest. scopes t = ss @ rest \<and> concat rest = [] \<and> bs = slot_values b S ss)"

lemma resolve_in_slot: "resolve_in x ss = Some i \<Longrightarrow> (x, i) \<in> set (concat ss)"
  by (induction ss) (auto split: option.splits dest: map_of_SomeD)

lemma resolve_in_append: "concat rest = [] \<Longrightarrow> resolve_in x (ss @ rest) = resolve_in x ss"
proof (induction ss)
  case Nil
  then have "resolve_in x rest = None" by (induction rest) auto
  then show ?case by simp
qed (simp split: option.split)

lemma map_of_values: "map_of (map (\<lambda>(x, i). (x, f i)) s) x = map_option f (map_of s x)"
  by (induction s) auto

lemma lookup_slot_values:
  "lookup_scopes x (slot_values b S ss) = map_option (\<lambda>i. S ! (b + i)) (resolve_in x ss)"
  by (induction ss) (auto simp: slot_values_def map_of_values split: option.split)

lemma slot_values_cong:
  assumes "\<And>s x i. s \<in> set ss \<Longrightarrow> (x, i) \<in> set s \<Longrightarrow> S ! (b + i) = S' ! (b + i)"
  shows "slot_values b S ss = slot_values b S' ss"
  unfolding slot_values_def using assms by (auto intro!: map_cong)

lemma agreesE:
  assumes "agrees b S t bs"
  obtains ss rest where "scopes t = ss @ rest" "concat rest = []" "bs = slot_values b S ss"
    "distinct (map snd (concat ss))" "\<And>s x i. s \<in> set ss \<Longrightarrow> (x, i) \<in> set s \<Longrightarrow> i < next_index t"
    "next_index t < 256" "b + next_index t \<le> length S" "\<And>i. i < next_index t \<Longrightarrow> scalar (S ! (b + i))"
proof -
  from assms obtain ss rest where t: "scopes t = ss @ rest" "concat rest = []" "bs = slot_values b S ss"
    unfolding agrees_def by blast
  have ok: "table_ok t" using assms unfolding agrees_def by blast
  have "distinct (map snd (concat (scopes t)))" using ok unfolding table_ok_def by blast
  then have d: "distinct (map snd (concat ss))" by (simp add: t(1))
  have slot: "i < next_index t" if "s \<in> set ss" "(x, i) \<in> set s" for s x i
  proof -
    from that t(1) have "(x, i) \<in> set (concat (scopes t))" by auto
    with ok have "snd (x, i) < next_index t" unfolding table_ok_def by blast
    then show ?thesis by simp
  qed
  show thesis
    using assms ok by (intro that [OF t d slot]) (simp_all add: agrees_def table_ok_def)
qed

lemma agrees_lookup:
  assumes "agrees b S t bs" "resolve_symbol t x = Some i"
  shows "lookup_scopes x bs = Some (S ! (b + i))" "i < 256" "b + i < length S" "scalar (S ! (b + i))"
proof -
  obtain ss rest where t: "scopes t = ss @ rest" "concat rest = []" "bs = slot_values b S ss"
    and slots: "\<And>s x i. s \<in> set ss \<Longrightarrow> (x, i) \<in> set s \<Longrightarrow> i < next_index t"
    and n: "next_index t < 256" "b + next_index t \<le> length S" "\<And>i. i < next_index t \<Longrightarrow> scalar (S ! (b + i))"
    using assms(1) by (rule agreesE) blast
  from t(1,2) assms(2) have r: "resolve_in x ss = Some i" by (simp add: resolve_symbol_def resolve_in_append)
  with t show "lookup_scopes x bs = Some (S ! (b + i))" by (simp add: lookup_slot_values)
  from resolve_in_slot [OF r] slots have "i < next_index t" by auto
  with n show "i < 256" "b + i < length S" "scalar (S ! (b + i))" by auto
qed

lemma agrees_push:
  assumes "agrees b S t bs"
  shows "agrees b (S @ T) t bs"
proof -
  obtain ss rest where t: "scopes t = ss @ rest" "concat rest = []" "bs = slot_values b S ss"
    and slots: "\<And>s x i. s \<in> set ss \<Longrightarrow> (x, i) \<in> set s \<Longrightarrow> i < next_index t"
    and len: "b + next_index t \<le> length S"
    using assms by (rule agreesE) blast
  have "slot_values b S ss = slot_values b (S @ T) ss"
  proof (rule slot_values_cong)
    fix s x i
    assume "s \<in> set ss" "(x, i) \<in> set s"
    from slots [OF this] len show "S ! (b + i) = (S @ T) ! (b + i)" by (simp add: nth_append)
  qed
  with assms t show ?thesis unfolding agrees_def by (auto simp: nth_append)
qed

section \<open>Expressions\<close>

text \<open>An expression of the fragment has no effect on the evaluator's state.\<close>

lemma eval_expr_pure:
  assumes "expr V d n"
  shows "\<exists>r. eval ke n st = (r, st) \<and> (\<forall>v b. r = Ok (v, b) \<longrightarrow> \<not> b)"
  using assms
proof (induction arbitrary: ke rule: expr.induct)
  case (expr_literal n v V d)
  then show ?case
    by (cases ke) (auto simp: eval_node_def literal_value_def split: node.splits if_splits)
next
  case (expr_variable x V d)
  then show ?case
    by (cases ke) (simp_all add: eval_node_def as_value_def bindE_def resolve_binding_def split: option.split)
next
  case (expr_unary op V d e)
  show ?case
  proof (cases ke)
    case (Suc k)
    from expr_unary.IH [of k] obtain r where "eval k e st = (r, st)" by blast
    with Suc show ?thesis
      by (cases r) (auto simp: eval_node_def as_value_def bindE_def split: outcome.split)
  qed simp
next
  case (expr_binary op c V d l r)
  show ?case
  proof (cases ke)
    case (Suc k)
    from expr_binary.IH(1) [of k] expr_binary.IH(2) [of k] obtain a b where
      "eval k l st = (a, st)" "eval k r st = (b, st)" by blast
    with Suc show ?thesis
      by (cases a; cases b) (auto simp: eval_node_def as_value_def bindE_def split: outcome.split)
  qed simp
qed

definition evaluates :: "host \<Rightarrow> nat \<Rightarrow> value list \<Rightarrow> nat \<Rightarrow> eval_result outcome \<Rightarrow> bool" where
  "evaluates M i S j r = (case r of
       Ok v \<Rightarrow> scalar (fst v) \<and> goes M i S j (S @ [fst v])
     | Raise (CppExc m) \<Rightarrow> fails M i S m
     | Raise _ \<Rightarrow> True)"

lemma evaluates_simps [simp]:
  "evaluates M i S j (Ok v) = (scalar (fst v) \<and> goes M i S j (S @ [fst v]))"
  "evaluates M i S j (Raise (CppExc m)) = fails M i S m"
  "evaluates M i S j (Raise OutOfFuel)" "evaluates M i S j (Raise (Undefined m))"
  by (simp_all add: evaluates_def)

text \<open>The code between two chunks computes what the evaluator computes.\<close>

definition expr_code :: "nat \<Rightarrow> symbol_table \<Rightarrow> chunk \<Rightarrow> chunk \<Rightarrow> node \<Rightarrow> bool" where
  "expr_code d t k k' n \<longleftrightarrow> grows k k' \<and> (\<forall>M S ke st.
     loaded M (size_of k) (size_of k') k' \<and> agrees (base_of M) S t (ev_bindings st) \<and>
     base_of M \<le> length S \<and> length S + d \<le> STACK_MAX \<longrightarrow>
     evaluates M (size_of k) S (size_of k') (fst (eval ke n st)))"

lemma expr_codeI:
  assumes "grows k k'"
    "\<And>M S ke st. loaded M (size_of k) (size_of k') k' \<Longrightarrow> agrees (base_of M) S t (ev_bindings st) \<Longrightarrow>
      base_of M \<le> length S \<Longrightarrow> length S + d \<le> STACK_MAX \<Longrightarrow>
      evaluates M (size_of k) S (size_of k') (fst (eval (Suc ke) n st))"
  shows "expr_code d t k k' n"
  unfolding expr_code_def
proof (intro conjI allI impI assms(1))
  fix M and S :: "value list" and ke and st :: eval_state
  assume "loaded M (size_of k) (size_of k') k' \<and> agrees (base_of M) S t (ev_bindings st) \<and>
     base_of M \<le> length S \<and> length S + d \<le> STACK_MAX"
  then show "evaluates M (size_of k) S (size_of k') (fst (eval ke n st))"
    using assms(2) by (cases ke) auto
qed

lemma expr_codeD:
  assumes "expr_code d t k k' n" "loaded M (size_of k) (size_of k') k'"
    "agrees (base_of M) S t (ev_bindings st)" "base_of M \<le> length S" "length S + d \<le> STACK_MAX"
    "eval ke n st = (r, st')"
  shows "evaluates M (size_of k) S (size_of k') r"
proof -
  have "evaluates M (size_of k) S (size_of k') (fst (eval ke n st))"
    using assms(1-5) unfolding expr_code_def by blast
  with assms(6) show ?thesis by simp
qed

lemma expr_code_grows: "expr_code d t k k' n \<Longrightarrow> grows k k'"
  by (simp add: expr_code_def)

abbreviation visible :: "symbol_table \<Rightarrow> string set" where
  "visible t \<equiv> {x. resolve_symbol t x \<noteq> None}"

abbreviation pool_ok :: "chunk \<Rightarrow> bool" where
  "pool_ok k \<equiv> length (chunk_constants k) \<le> 65536"

lemma gen_literal:
  assumes "plain g" "literal_value n = Some v" "gen rc (Suc kg) n (view k t g) = (Ok (), g')" "pool_ok k"
  shows "\<exists>k'. g' = view k' t g \<and> expr_code (Suc d) t k k' n"
proof -
  have "emit_constant v (view k t g) = (Ok (), g')" and ev: "eval (Suc ke) n st = (Ok (v, False), st)" for ke st
    using assms(2,3) by (auto simp: visit_node_def visit_leaf_def literal_value_def eval_node_def
        split: node.splits if_splits)
  from emit_constant_view [OF assms(1) this(1) assms(4)] obtain i k2 where
    k2: "g' = view (add_code [word_of_nat OP_CONSTANT, high_byte i, low_byte i] k2) t g"
      "chunk_code k2 = chunk_code k" "prefix (chunk_constants k) (chunk_constants k2)"
      "i < length (chunk_constants k2)" "chunk_constants k2 ! i = v \<or> constant_equals (chunk_constants k2 ! i) v"
      "length (chunk_constants k2) \<le> 65536" .
  let ?bs = "[word_of_nat OP_CONSTANT, high_byte i, low_byte i]"
  from k2(5) literal_stable [OF assms(2)] have v: "chunk_constants k2 ! i = v" by blast
  have "expr_code (Suc d) t k (add_code ?bs k2) n"
  proof (rule expr_codeI)
    show "grows k (add_code ?bs k2)" using k2 by (simp add: grows_def)
    fix M and S :: "value list" and ke and st :: eval_state
    assume l: "loaded M (size_of k) (size_of (add_code ?bs k2)) (add_code ?bs k2)"
      and S: "length S + Suc d \<le> STACK_MAX"
    have b: "bytes_at (code_of M) (size_of k) ?bs"
      using l by (rule loaded_bytes) (simp_all add: k2(2) nth_append)
    from l have "prefix (chunk_constants k2) (fn_constants (h_function M))" by (simp add: loaded_def)
    from goes_constant [OF loaded_hosting [OF l] b this k2(4)] S
    show "evaluates M (size_of k) S (size_of (add_code ?bs k2)) (fst (eval (Suc ke) n st))"
      using literal_scalar [OF assms(2)] by (simp only: ev) (simp add: v k2(2) numeral_3_eq_3)
  qed
  with k2(1) show ?thesis by blast
qed

lemma gen_variable:
  assumes "plain g" "x \<in> visible t" "gen rc (Suc kg) (Identifier x) (view k t g) = (Ok (), g')"
  shows "\<exists>k'. g' = view k' t g \<and> expr_code (Suc d) t k k' (Identifier x)"
proof -
  from assms(2) obtain i where i: "resolve_symbol t x = Some i" by auto
  let ?bs = "[word_of_nat OP_GET_LOCAL, low_byte i]"
  have "g' = view (add_code ?bs k) t g"
    using assms(1,3) i by (simp add: visit_node_def)
  moreover have "expr_code (Suc d) t k (add_code ?bs k) (Identifier x)"
  proof (rule expr_codeI)
    fix M and S :: "value list" and ke and st :: eval_state
    assume l: "loaded M (size_of k) (size_of (add_code ?bs k)) (add_code ?bs k)"
      and a: "agrees (base_of M) S t (ev_bindings st)" and S: "length S + Suc d \<le> STACK_MAX"
    note v = agrees_lookup [OF a i]
    have b: "bytes_at (code_of M) (size_of k) ?bs"
      using l by (rule loaded_bytes) (simp_all add: nth_append)
    from goes_get_local [OF loaded_hosting [OF l] b v(2,3)] S v(1,4)
    show "evaluates M (size_of k) S (size_of (add_code ?bs k)) (fst (eval (Suc ke) (Identifier x) st))"
      by (simp add: eval_node_def as_value_def bindE_def resolve_binding_def)
  qed simp
  ultimately show ?thesis by blast
qed

lemma gen_unary:
  assumes "plain g" "op \<in> {''+'', ''-'', ''!'', ''not''}"
    "gen rc (Suc kg) (UnaryExpr op e) (view k t g) = (Ok (), g')"
    "expr V d e" "\<And>g'. gen rc kg e (view k t g) = (Ok (), g') \<Longrightarrow> \<exists>k'. g' = view k' t g \<and> expr_code d t k k' e"
  shows "\<exists>k'. g' = view k' t g \<and> expr_code d t k k' (UnaryExpr op e)"
proof -
  obtain k1 where k1: "gen rc kg e (view k t g) = (Ok (), view k1 t g)" "expr_code d t k k1 e"
  proof -
    from assms(2,3) obtain g1 where "gen rc kg e (view k t g) = (Ok (), g1)"
      by (auto simp: visit_node_def visit_unary_def seqE_def elim!: bindE_eq_OkE split: if_splits)
    with assms(5) that show thesis by blast
  qed
  have ev: "eval (Suc ke) (UnaryExpr op e) st = (case eval ke e st of
      (Ok v, s) \<Rightarrow> (case eval_unary op (fst v) of Ok u \<Rightarrow> Ok (u, False) | Raise x \<Rightarrow> Raise x, s)
    | (Raise x, s) \<Rightarrow> (Raise x, s))" for ke st
    by (auto simp: eval_node_def as_value_def bindE_def split: prod.split outcome.split)
  show ?thesis
  proof (cases "op = ''+''")
    case True
    have "g' = view k1 t g" using assms(3) k1(1) True by (simp add: visit_node_def visit_unary_def)
    moreover have "expr_code d t k k1 (UnaryExpr op e)"
    proof (rule expr_codeI)
      show "grows k k1" using k1(2) by (rule expr_code_grows)
      fix M and S :: "value list" and ke and st :: eval_state
      assume a: "loaded M (size_of k) (size_of k1) k1" "agrees (base_of M) S t (ev_bindings st)"
        "base_of M \<le> length S" "length S + d \<le> STACK_MAX"
      obtain r st' where r: "eval ke e st = (r, st')" by fastforce
      from expr_codeD [OF k1(2) a r]
      show "evaluates M (size_of k) S (size_of k1) (fst (eval (Suc ke) (UnaryExpr op e) st))"
        unfolding ev r by (cases r) (simp_all add: True eval_unary_def)
    qed
    ultimately show ?thesis by blast
  next
    case False
    with assms(2) have op: "op \<in> {''-'', ''!'', ''not''}" by auto
    let ?bs = "[word_of_nat (unary_opcode op)]"
    have "g' = view (add_code ?bs k1) t g"
      using assms(1,3) k1(1) op by (auto simp: visit_node_def visit_unary_def unary_opcode_def)
    moreover have "expr_code d t k (add_code ?bs k1) (UnaryExpr op e)"
    proof (rule expr_codeI)
      note g1 = expr_code_grows [OF k1(2)]
      then show "grows k (add_code ?bs k1)" by (rule grows_trans) simp
      fix M and S :: "value list" and ke and st :: eval_state
      assume l: "loaded M (size_of k) (size_of (add_code ?bs k1)) (add_code ?bs k1)"
        and a: "agrees (base_of M) S t (ev_bindings st)" "base_of M \<le> length S" "length S + d \<le> STACK_MAX"
      note l1 = loaded_last [OF l g1]
      obtain r st' where r: "eval ke e st = (r, st')" by fastforce
      have d: "0 < d" using assms(4) by (induction rule: expr.induct) simp_all
      note e = expr_codeD [OF k1(2) l1(1) a r]
      show "evaluates M (size_of k) S (size_of (add_code ?bs k1)) (fst (eval (Suc ke) (UnaryExpr op e) st))"
      proof (cases r)
        case (Raise x)
        with e show ?thesis unfolding ev r by (cases x) simp_all
      next
        case (Ok v)
        with e have g: "goes M (size_of k) S (size_of k1) (S @ [fst v])" "scalar (fst v)" by simp_all
        have room: "length S < STACK_MAX" using a(3) d by simp
        show ?thesis
        proof (cases "eval_unary op (fst v)")
          case (Ok u)
          from unary_turn(1) [OF loaded_hosting [OF l] l1(2) op a(2) room this] g eval_unary_scalar [OF Ok g(2)]
          show ?thesis unfolding ev r \<open>r = Prelude.outcome.Ok v\<close> by (auto simp: Ok intro: goes_trans)
        next
          case (Raise x)
          with unary_turn(2) [OF loaded_hosting [OF l] l1(2) op a(2) room] g
          show ?thesis unfolding ev r \<open>r = Prelude.outcome.Ok v\<close> by (cases x) (auto intro: goes_fails)
        qed
      qed
    qed
    ultimately show ?thesis by blast
  qed
qed

lemma gen_binary:
  assumes "plain g" "binary_opcode op = Some c" "op \<noteq> ''&&''" "op \<noteq> ''||''"
    "gen rc (Suc kg) (BinaryExpr l op r) (view k t g) = (Ok (), g')"
    "expr V (Suc d) l" "expr V d r" "pool_ok k"
    "\<And>k g'. gen rc kg l (view k t g) = (Ok (), g') \<Longrightarrow> pool_ok k \<Longrightarrow>
      \<exists>k'. g' = view k' t g \<and> expr_code (Suc d) t k k' l"
    "\<And>k g'. gen rc kg r (view k t g) = (Ok (), g') \<Longrightarrow> pool_ok k \<Longrightarrow> \<exists>k'. g' = view k' t g \<and> expr_code d t k k' r"
  shows "\<exists>k'. g' = view k' t g \<and> expr_code (Suc d) t k k' (BinaryExpr l op r)"
proof -
  obtain g1 g2 where g1: "gen rc kg l (view k t g) = (Ok (), g1)" and g2: "gen rc kg r g1 = (Ok (), g2)"
    and g3: "emit_op c g2 = (Ok (), g')"
    using assms(2,5) by (auto simp: visit_node_def visit_binary_def emit_binary_op_def seqE_def elim!: bindE_eq_OkE)
  obtain k1 where k1: "g1 = view k1 t g" "expr_code (Suc d) t k k1 l"
    using assms(9) [OF g1 assms(8)] by blast
  have "pool_ok k1" using expr_code_grows [OF k1(2)] assms(8) by (simp add: grows_def)
  then obtain k2 where k2: "g2 = view k2 t g" "expr_code d t k1 k2 r"
    using assms(10) g2 k1(1) by blast
  let ?bs = "[word_of_nat c] :: 8 word list"
  have "g' = view (add_code ?bs k2) t g" using g3 k2(1) assms(1) by simp
  moreover have "expr_code (Suc d) t k (add_code ?bs k2) (BinaryExpr l op r)"
  proof (rule expr_codeI)
    note gl = expr_code_grows [OF k1(2)] and gr = expr_code_grows [OF k2(2)]
    note g12 = grows_trans [OF gl gr]
    then show "grows k (add_code ?bs k2)" by (rule grows_trans) simp
    fix M and S :: "value list" and ke and st :: eval_state
    assume ld: "loaded M (size_of k) (size_of (add_code ?bs k2)) (add_code ?bs k2)"
      and a: "agrees (base_of M) S t (ev_bindings st)" "base_of M \<le> length S" "length S + Suc d \<le> STACK_MAX"
    note l12 = loaded_last [OF ld g12]
    note l1 = loaded_split [OF l12(1) gl gr]
    obtain ra where ra: "eval ke l st = (ra, st)" using eval_expr_pure [OF assms(6)] by blast
    obtain rb where rb: "eval ke r st = (rb, st)" using eval_expr_pure [OF assms(7)] by blast
    have ev: "fst (eval (Suc ke) (BinaryExpr l op r) st) = (case (ra, rb) of
        (Ok x, Ok y) \<Rightarrow> (case eval_binary op (gs_heap (ev_gen st)) (fst x) (fst y) of
           Ok u \<Rightarrow> Ok (u, False) | Raise e \<Rightarrow> Raise e)
      | (Ok x, Raise e) \<Rightarrow> Raise e | (Raise e, _) \<Rightarrow> Raise e)"
      using ra rb by (cases ra; cases rb)
        (auto simp: eval_node_def as_value_def bindE_def split: prod.split outcome.split)
    note ea = expr_codeD [OF k1(2) l1(1) a ra]
    show "evaluates M (size_of k) S (size_of (add_code ?bs k2)) (fst (eval (Suc ke) (BinaryExpr l op r) st))"
    proof (cases ra)
      case (Raise x)
      with ea show ?thesis unfolding ev by (cases x) simp_all
    next
      case (Ok v)
      with ea have ga: "goes M (size_of k) S (size_of k1) (S @ [fst v])" "scalar (fst v)" by simp_all
      have "evaluates M (size_of k1) (S @ [fst v]) (size_of k2) rb"
        using a by (intro expr_codeD [OF k2(2) l1(2) agrees_push _ _ rb]) simp_all
      note eb = this
      show ?thesis
      proof (cases rb)
        case (Raise x)
        with eb ga show ?thesis unfolding ev by (cases x) (auto simp: Ok intro: goes_fails)
      next
        case (Ok w)
        with eb have gb: "goes M (size_of k1) (S @ [fst v]) (size_of k2) (S @ [fst v, fst w])" "scalar (fst w)"
          by simp_all
        note gab = goes_trans [OF ga(1) gb(1)]
        have room: "length S < STACK_MAX" using a(3) by simp
        note op = binary_turn [OF loaded_hosting [OF ld] l12(2) assms(2-4) a(2) room ga(2) gb(2),
            where h = "gs_heap (ev_gen st)"]
        show ?thesis
        proof (cases "eval_binary op (gs_heap (ev_gen st)) (fst v) (fst w)")
          case (Ok u)
          from goes_trans [OF gab op(1) [OF this]] eval_binary_scalar [OF this]
          show ?thesis unfolding ev by (simp add: Ok \<open>ra = Prelude.outcome.Ok v\<close> \<open>rb = Prelude.outcome.Ok w\<close>)
        next
          case (Raise x)
          with goes_fails [OF gab op(2)]
          show ?thesis unfolding ev
            by (cases x) (simp_all add: \<open>ra = Prelude.outcome.Ok v\<close> \<open>rb = Prelude.outcome.Ok w\<close>)
        qed
      qed
    qed
  qed
  ultimately show ?thesis by blast
qed

theorem gen_expr:
  assumes "expr V d n" "plain g" "V \<subseteq> visible t"
  shows "gen rc kg n (view k t g) = (Ok (), g') \<Longrightarrow> pool_ok k \<Longrightarrow>
    \<exists>k'. g' = view k' t g \<and> expr_code d t k k' n"
  using assms
proof (induction arbitrary: kg k g' rule: expr.induct)
  case (expr_literal n v V d)
  show ?case
  proof (cases kg)
    case (Suc j)
    show ?thesis using expr_literal gen_literal unfolding Suc by blast
  qed (use expr_literal.prems in simp)
next
  case (expr_variable x V d)
  show ?case
  proof (cases kg)
    case (Suc j)
    from expr_variable have "x \<in> visible t" by blast
    then show ?thesis using expr_variable.prems gen_variable unfolding Suc by blast
  qed (use expr_variable.prems in simp)
next
  case (expr_unary op V d e)
  show ?case
  proof (cases kg)
    case (Suc j)
    note prems = expr_unary.prems [unfolded Suc]
    show ?thesis
      using gen_unary [OF prems(3) expr_unary.hyps(1) prems(1) expr_unary.hyps(2)]
        expr_unary.IH [OF _ prems(2-4)] by blast
  qed (use expr_unary.prems in simp)
next
  case (expr_binary op c V d l r)
  show ?case
  proof (cases kg)
    case (Suc j)
    note prems = expr_binary.prems [unfolded Suc]
    show ?thesis
    proof (rule gen_binary [OF prems(3) expr_binary.hyps(1-3) prems(1) expr_binary.hyps(4,5) prems(2)])
      fix k g'
      assume k: "pool_ok k"
      show "\<exists>k'. g' = view k' t g \<and> expr_code (Suc d) t k k' l" if "gen rc j l (view k t g) = (Ok (), g')"
        using expr_binary.IH(1) [OF that k prems(3,4)] .
      show "\<exists>k'. g' = view k' t g \<and> expr_code d t k k' r" if "gen rc j r (view k t g) = (Ok (), g')"
        using expr_binary.IH(2) [OF that k prems(3,4)] .
    qed
  qed (use expr_binary.prems in simp)
qed

end
