(* ===== verification/Tasks.thy ===== *)
theory Tasks
  imports Machine
begin

text \<open>
  Tasks (src/src/vm/runtime/SharedRuntimeTasks.cpp and src/src/vm/runtime/stdlib/task/TaskModule.cpp):
  a task runs a callable on a machine of its own over the shared runtime; other threads await,
  cancel and inspect it. Every operation holds the task's mutex, so \<open>task_step\<close> interleaves them.
\<close>

section \<open>A machine of its own\<close>

text \<open>
  \<open>VirtualMachine(runtime, false)\<close>: a new logical thread, no locals of any kind, the shared heap and
  globals; the logical thread ends with the machine.
\<close>

definition on_new_machine :: "nat \<Rightarrow> 'a vm_proc \<Rightarrow> 'a vm_proc" where
  "on_new_machine actor m s = (case create_execution_thread (sync s) of (t, y) \<Rightarrow>
     (case m (s\<lparr>sync := y, current_thread := t, thread_locals := (\<lambda>_. None), stack := [], frames := [],
         txns := [], handlers := [], error_message := [], active_actor := actor\<rparr>) of (r, s') \<Rightarrow>
       (r, s'\<lparr>sync := snd (finish_thread t (sync s')), current_thread := current_thread s,
         thread_locals := thread_locals s, stack := stack s, frames := frames s, txns := txns s,
         handlers := handlers s, error_message := error_message s, active_actor := active_actor s\<rparr>)))"

section \<open>Task states\<close>

record task_outcome =
  outcome_ok :: bool
  outcome_result :: "value"
  outcome_error :: string

text \<open>\<open>task_stop\<close> is the stop token of the worker thread.\<close>

record task_state =
  task_completed :: bool
  task_joined :: bool
  task_cancelled :: bool
  task_stop :: bool
  task_result :: "value"
  task_error :: string

definition new_task :: task_state where
  "new_task = \<lparr>task_completed = False, task_joined = False, task_cancelled = False, task_stop = False,
     task_result = VNull, task_error = []\<rparr>"

record task_registry =
  tasks :: "(nat \<times> task_state) list"
  next_task_id :: nat

definition spawn_task :: "task_registry \<Rightarrow> nat \<times> task_registry" where
  "spawn_task r = (next_task_id r, r\<lparr>tasks := emplace (next_task_id r) new_task (tasks r),
     next_task_id := Suc (next_task_id r)\<rparr>)"

text \<open>How the runner ended, and the outcome the worker makes of it.\<close>

datatype runner_end = Runner_Returned task_outcome | Runner_Threw string | Runner_Threw_Other

fun runner_outcome :: "runner_end \<Rightarrow> task_outcome" where
  "runner_outcome (Runner_Returned out) = out"
| "runner_outcome (Runner_Threw m) = \<lparr>outcome_ok = False, outcome_result = VNull, outcome_error = m\<rparr>"
| "runner_outcome Runner_Threw_Other =
     \<lparr>outcome_ok = False, outcome_result = VNull, outcome_error = ''Unhandled task exception''\<rparr>"

definition complete_task :: "task_outcome \<Rightarrow> task_state \<Rightarrow> task_state" where
  "complete_task out t = t\<lparr>task_completed := True, task_result := outcome_result out,
     task_error := (if outcome_ok out then [] else outcome_error out),
     task_cancelled := (task_cancelled t \<or> task_stop t)\<rparr>"

text \<open>
  The critical section of \<open>AwaitTask\<close>: \<open>None\<close> while it waits, else the result, the error and whether
  the caller joins the worker thread; \<open>own\<close> says that the caller is that thread.
\<close>

definition await_critical :: "bool \<Rightarrow> task_state \<Rightarrow> ((value \<times> string) \<times> bool \<times> task_state) option" where
  "await_critical own t = (if \<not> task_completed t then None
     else (let join = \<not> task_joined t \<and> \<not> own in
       Some ((task_result t, task_error t), join, if join then t\<lparr>task_joined := True\<rparr> else t)))"

definition cancel_state :: "task_state \<Rightarrow> task_state" where
  "cancel_state t = t\<lparr>task_cancelled := True, task_stop := True\<rparr>"

definition cancel_task :: "nat \<Rightarrow> task_registry \<Rightarrow> bool \<times> task_registry" where
  "cancel_task i r = (case map_of (tasks r) i of
       None \<Rightarrow> (False, r)
     | Some t \<Rightarrow> (True, r\<lparr>tasks := AList.update i (cancel_state t) (tasks r)\<rparr>))"

definition is_task_done :: "nat \<Rightarrow> task_registry \<Rightarrow> bool" where
  "is_task_done i r = (case map_of (tasks r) i of None \<Rightarrow> False | Some t \<Rightarrow> task_completed t)"

definition task_error_of :: "nat \<Rightarrow> task_registry \<Rightarrow> string" where
  "task_error_of i r = (case map_of (tasks r) i of None \<Rightarrow> [] | Some t \<Rightarrow> task_error t)"

section \<open>The task module\<close>

text \<open>\<open>go_call\<close>: one further argument that is an array stands for the list of arguments.\<close>

definition go_arguments :: "heap \<Rightarrow> value list \<Rightarrow> value list" where
  "go_arguments h args = (case args of
       [f, VRef K_Array a] \<Rightarrow> (case h a of Some (Obj_Array es) \<Rightarrow> es | _ \<Rightarrow> [VRef K_Array a])
     | _ \<Rightarrow> tl args)"

text \<open>The runner of \<open>go_call\<close> and how it ends.\<close>

definition run_task :: "env \<Rightarrow> nat \<Rightarrow> value \<Rightarrow> value list \<Rightarrow> vm_state \<Rightarrow> runner_end outcome \<times> vm_state" where
  "run_task env n f args s = (case on_new_machine null (invoke env n f args) s of
       (Ok (Some e, v), s') \<Rightarrow>
         (Ok (Runner_Returned \<lparr>outcome_ok = False, outcome_result = VNull, outcome_error = e\<rparr>), s')
     | (Ok (None, v), s') \<Rightarrow>
         (Ok (Runner_Returned \<lparr>outcome_ok = True, outcome_result = v, outcome_error = []\<rparr>), s')
     | (Raise (CppExc m), s') \<Rightarrow> (Ok (Runner_Threw m), s')
     | (Raise e, s') \<Rightarrow> (Raise e, s'))"

text \<open>What \<open>join\<close> and \<open>join_result\<close> make of an awaited result; \<open>None\<close> is an unknown handle.\<close>

definition join_native :: "(value \<times> string) option \<Rightarrow> value vm_proc" where
  "join_native r = (case r of
       None \<Rightarrow> seqE (raise_error ''Unknown task handle'') (ret VNull)
     | Some (v, e) \<Rightarrow> if e \<noteq> [] then seqE (raise_error e) (ret VNull) else ret v)"

definition join_result_native :: "(value \<times> string) option \<Rightarrow> value vm_proc" where
  "join_result_native r = (case r of
       None \<Rightarrow> bindE (new_object (Obj_Array [VBool False, VNull, vstr ''Unknown task handle''])) (\<lambda>a.
         ret (VRef K_Array a))
     | Some (v, e) \<Rightarrow> bindE (new_object (Obj_Array [VBool (e = []), v, vstr e])) (\<lambda>a. ret (VRef K_Array a)))"

text \<open>\<open>RequireTask\<close>: the id behind a task handle.\<close>

definition require_task :: "value \<Rightarrow> nat option vm_proc" where
  "require_task v s = (case v of
       VRef K_Task a \<Rightarrow> (case handle_id (heap s) a of
           Some i \<Rightarrow> (Ok (Some i), s) | None \<Rightarrow> (Ok None, snd (raise_error ''Expected a task handle'' s)))
     | _ \<Rightarrow> (Ok None, snd (raise_error ''Expected a task handle'' s)))"

section \<open>Interleaving\<close>

text \<open>
  One task with its worker and the threads that await it: \<open>worker_running\<close> until the worker has
  stored its outcome, \<open>outcomes\<close> and \<open>observed\<close> are the outcomes stored and the results awaited so far,
  \<open>joins\<close> counts the threads that join the worker.
\<close>

record task_system =
  the_task :: task_state
  worker_running :: bool
  outcomes :: "runner_end list"
  observed :: "(value \<times> string) list"
  joins :: nat

definition start_task :: task_system where
  "start_task = \<lparr>the_task = new_task, worker_running = True, outcomes = [], observed = [], joins = 0\<rparr>"

text \<open>The worker itself can await the task only while it runs.\<close>

inductive task_step :: "task_system \<Rightarrow> task_system \<Rightarrow> bool" where
  step_complete: "worker_running s \<Longrightarrow>
    task_step s (s\<lparr>the_task := complete_task (runner_outcome e) (the_task s), worker_running := False,
      outcomes := outcomes s @ [e]\<rparr>)"
| step_await: "own \<longrightarrow> worker_running s \<Longrightarrow> await_critical own (the_task s) = Some (r, join, t) \<Longrightarrow>
    task_step s (s\<lparr>the_task := t, observed := observed s @ [r], joins := joins s + (if join then 1 else 0)\<rparr>)"
| step_cancel: "task_step s (s\<lparr>the_task := cancel_state (the_task s)\<rparr>)"

inductive task_reachable :: "task_system \<Rightarrow> bool" where
  task_init: "task_reachable start_task"
| task_next: "task_reachable s \<Longrightarrow> task_step s s' \<Longrightarrow> task_reachable s'"

section \<open>What a task promises\<close>

definition task_ok :: "task_system \<Rightarrow> bool" where
  "task_ok s \<longleftrightarrow> worker_running s = (\<not> task_completed (the_task s)) \<and> length (outcomes s) \<le> 1 \<and>
     (case outcomes s of
        [] \<Rightarrow> worker_running s \<and> observed s = [] \<and> joins s = 0 \<and> \<not> task_joined (the_task s)
      | e # es \<Rightarrow> \<not> worker_running s \<and> task_result (the_task s) = outcome_result (runner_outcome e) \<and>
          task_error (the_task s) = (if outcome_ok (runner_outcome e) then [] else outcome_error (runner_outcome e)) \<and>
          set (observed s) \<subseteq> {(task_result (the_task s), task_error (the_task s))} \<and>
          joins s = (if task_joined (the_task s) then 1 else 0) \<and> (observed s = [] \<longleftrightarrow> joins s = 0))"

lemma task_step_ok: "task_step s s' \<Longrightarrow> task_ok s \<Longrightarrow> task_ok s'"
proof (induction rule: task_step.induct)
  case (step_complete s e)
  then show ?case by (auto simp: task_ok_def complete_task_def split: list.splits)
next
  case (step_await own s r join t)
  from step_await.hyps(2) have "task_completed (the_task s)"
    by (simp add: await_critical_def split: if_splits)
  with step_await.prems step_await.hyps show ?case
    by (cases "outcomes s") (auto simp: task_ok_def await_critical_def Let_def split: if_splits)
next
  case (step_cancel s)
  then show ?case by (auto simp: task_ok_def cancel_state_def split: list.splits)
qed

lemma task_reachable_ok: "task_reachable s \<Longrightarrow> task_ok s"
proof (induction rule: task_reachable.induct)
  case task_init
  show ?case by (simp add: task_ok_def start_task_def new_task_def)
next
  case (task_next s s')
  then show ?case by (blast intro: task_step_ok)
qed

text \<open>C34: under every interleaving of awaits and cancellations a task completes at most once, every await
  returns the result and the error of that completion, whether or not the task was cancelled, and
  the worker thread is joined at most once, by the first await.\<close>
theorem awaits_agree:
  assumes "task_reachable s" "(v, e) \<in> set (observed s)"
  shows "\<exists>r. outcomes s = [r] \<and> v = outcome_result (runner_outcome r) \<and>
    e = (if outcome_ok (runner_outcome r) then [] else outcome_error (runner_outcome r)) \<and> joins s = 1"
  using task_reachable_ok [OF assms(1)] assms(2)
  by (cases "outcomes s") (auto simp: task_ok_def split: if_splits)

text \<open>A task that awaits itself never gets an answer, now or after any number of further steps.\<close>
theorem self_await_never_returns:
  assumes "task_reachable s" "worker_running s"
  shows "await_critical True (the_task s) = None"
  using task_reachable_ok [OF assms(1)] assms(2) by (simp add: task_ok_def await_critical_def)

theorem awaits_agree_witness:
  "\<exists>s r. task_reachable s \<and> observed s = [(VInt 4, [])] \<and> outcomes s = [r] \<and>
     VInt 4 = outcome_result (runner_outcome r) \<and> joins s = 1"
proof -
  let ?e = "Runner_Returned \<lparr>outcome_ok = True, outcome_result = VInt 4, outcome_error = []\<rparr>"
  let ?t = "new_task\<lparr>task_completed := True, task_result := VInt 4, task_joined := True\<rparr>"
  let ?s = "start_task\<lparr>the_task := ?t, worker_running := False, outcomes := [?e], observed := [(VInt 4, [])], joins := 1\<rparr>"
  have "task_reachable (start_task\<lparr>the_task := new_task\<lparr>task_completed := True, task_result := VInt 4\<rparr>,
      worker_running := False, outcomes := [?e]\<rparr>)"
    using task_next [OF task_init step_complete [of start_task ?e]]
    by (simp add: start_task_def complete_task_def new_task_def)
  from task_next [OF this step_await [of False _ "(VInt 4, [])" True ?t]] have r: "task_reachable ?s"
    by (simp add: start_task_def await_critical_def new_task_def Let_def)
  have "\<exists>x. outcomes ?s = [x] \<and> VInt 4 = outcome_result (runner_outcome x) \<and>
    [] = (if outcome_ok (runner_outcome x) then [] else outcome_error (runner_outcome x)) \<and> joins ?s = 1"
    by (rule awaits_agree [OF r]) simp
  moreover have "observed ?s = [(VInt 4, [])]" by simp
  ultimately show ?thesis using r by blast
qed

section \<open>Arguments of a task\<close>

text \<open>
  \<open>go f(xs)\<close> passes the one array \<open>xs\<close> on as if its elements were the arguments, so the task fails
  where the call \<open>f(xs)\<close> succeeds.
\<close>
theorem go_spreads_a_single_array:
  assumes "h a = Some (Obj_Array es)"
  shows "go_arguments h [f, VRef K_Array a] = es"
  using assms by (simp add: go_arguments_def)

end
