(* ===== verification/Actors.thy ===== *)
theory Actors
  imports Tasks
begin

text \<open>
  Actors (src/src/vm/runtime/SharedRuntimeActors.cpp and the worker loop of
  src/src/vm/execution/VirtualMachineCallsAndActors.cpp): the mailbox a client fills, the worker
  thread that empties it, the replies of queries, and the shutdown. Every operation holds the
  actor's mutex; \<open>actor_step\<close> interleaves the worker, the clients and the shutdown.
\<close>

section \<open>The mailbox\<close>

definition post_send :: "string \<Rightarrow> value list \<Rightarrow> actor_obj \<Rightarrow> actor_obj" where
  "post_send m args = enqueue
     \<lparr>item_kind = Mail_Send, item_method = m, item_args = args, item_request = 0\<rparr>"

definition query_item :: "string \<Rightarrow> value list \<Rightarrow> nat \<Rightarrow> mailbox_item" where
  "query_item m args r = \<lparr>item_kind = Mail_Query, item_method = m, item_args = args, item_request = r\<rparr>"

definition post_query :: "string \<Rightarrow> value list \<Rightarrow> actor_obj \<Rightarrow> actor_obj" where
  "post_query m args x = enqueue (query_item m args (next_request_id x))
     (x\<lparr>next_request_id := Suc (next_request_id x),
        pending_queries := emplace (next_request_id x) no_result (pending_queries x)\<rparr>)"

text \<open>The instructions of the machine post in this way.\<close>

lemma enqueue_actor_send_posts:
  "enqueue_actor_send a x m args = seqE (store_object a (Obj_Actor (post_send m args x))) (push_ok VNull)"
  by (simp add: enqueue_actor_send_def post_send_def)

lemma enqueue_actor_query_posts:
  assumes "active_actor s = null \<or> a \<noteq> active_actor s"
  shows "enqueue_actor_query env a x m args s =
    seqE (store_object a (Obj_Actor (post_query m args x))) (bindE (await_query env a (next_request_id x)) (\<lambda>q.
      seqE (erase_pending a (next_request_id x))
        (if query_error q \<noteq> [] then fail (query_error q) else push_ok (query_value q)))) s"
  using assms by (auto simp: enqueue_actor_query_def post_query_def query_item_def Let_def bindE_def)

section \<open>The worker\<close>

text \<open>The predicate the worker waits for, and what it takes: nothing when it is to stop.\<close>

definition worker_ready :: "actor_obj \<Rightarrow> bool" where
  "worker_ready x \<longleftrightarrow> actor_stopping x \<or> mailbox x \<noteq> []"

definition take_item :: "actor_obj \<Rightarrow> mailbox_item option \<times> actor_obj" where
  "take_item x = (if actor_stopping x \<and> mailbox x = [] then (None, x)
     else (Some (hd (mailbox x)), x\<lparr>mailbox := tl (mailbox x)\<rparr>))"

text \<open>The outcome of a query goes to the entry of its request, when there still is one.\<close>

definition answer_query :: "nat \<Rightarrow> string option \<times> value \<Rightarrow> actor_obj \<Rightarrow> actor_obj" where
  "answer_query r out x = (case map_of (pending_queries x) r of
       None \<Rightarrow> x
     | Some q \<Rightarrow> x\<lparr>pending_queries := AList.update r
         (case fst out of
            Some e \<Rightarrow> q\<lparr>query_ready := True, query_error := e\<rparr>
          | None \<Rightarrow> q\<lparr>query_ready := True, query_value := snd out\<rparr>) (pending_queries x)\<rparr>)"

definition record_failure :: "string option \<Rightarrow> actor_obj \<Rightarrow> actor_obj" where
  "record_failure e x = (case e of None \<Rightarrow> x | Some m \<Rightarrow> x\<lparr>actor_failures := actor_failures x @ [m]\<rparr>)"

definition finish_item :: "mailbox_item \<Rightarrow> string option \<times> value \<Rightarrow> actor_obj \<Rightarrow> actor_obj" where
  "finish_item i out x =
     (if item_kind i = Mail_Query then answer_query (item_request i) out x else record_failure (fst out) x)"

text \<open>
  One round of \<open>RunActorWorker\<close>: the method is looked up, called with the state of the actor before
  the arguments on a machine of its own, and the outcome delivered. The table of methods may be
  missing.
\<close>

definition method_table :: "heap \<Rightarrow> nat \<Rightarrow> (string \<times> value) list option" where
  "method_table h a = (case h a of Some (Obj_Methods ms) \<Rightarrow> Some ms | _ \<Rightarrow> None)"

definition item_outcome :: "env \<Rightarrow> nat \<Rightarrow> nat \<Rightarrow> actor_obj \<Rightarrow> mailbox_item \<Rightarrow> (string option \<times> value) vm_proc" where
  "item_outcome env n a x i = bindE (reads (\<lambda>s. Option.bind (method_table (heap s) (actor_methods x))
       (\<lambda>ms. map_of ms (item_method i)))) (\<lambda>f. case f of
       None \<Rightarrow> ret (Some (''Unknown actor method: '' @ item_method i), VNull)
     | Some f \<Rightarrow> on_new_machine a (invoke env n f (VRef K_Instance (actor_state x) # item_args i)))"

definition update_actor :: "nat \<Rightarrow> (actor_obj \<Rightarrow> actor_obj) \<Rightarrow> unit vm_proc" where
  "update_actor a f = modify (\<lambda>s. case actor_at (heap s) a of
       None \<Rightarrow> s | Some x \<Rightarrow> s\<lparr>heap := (heap s)(a \<mapsto> Obj_Actor (f x))\<rparr>)"

text \<open>A round without interference by other threads; false when the worker is done.\<close>

definition worker_round :: "env \<Rightarrow> nat \<Rightarrow> nat \<Rightarrow> bool vm_proc" where
  "worker_round env n a = bindE (reads (\<lambda>s. actor_at (heap s) a)) (\<lambda>r. case r of
       None \<Rightarrow> undefined_behaviour ''no such actor''
     | Some x \<Rightarrow> (case take_item x of
         (None, y) \<Rightarrow> ret False
       | (Some i, y) \<Rightarrow> seqE (update_actor a (\<lambda>_. y)) (bindE (item_outcome env n a y i) (\<lambda>out.
           seqE (update_actor a (finish_item i out)) (ret True)))))"

section \<open>Registry and shutdown\<close>

text \<open>The registry keeps weak pointers: \<open>alive a\<close> says that an actor still exists.\<close>

record actor_registry =
  registered :: "(nat \<times> nat) list"
  next_registered :: nat

definition register_actor_entry :: "nat \<Rightarrow> actor_registry \<Rightarrow> nat \<times> actor_registry" where
  "register_actor_entry a r = (next_registered r,
     r\<lparr>next_registered := Suc (next_registered r), registered := emplace (next_registered r) a (registered r)\<rparr>)"

definition request_actor_stop :: "actor_obj \<Rightarrow> actor_obj" where
  "request_actor_stop x = x\<lparr>actor_stopping := True\<rparr>"

definition shutdown_actors :: "(nat \<Rightarrow> bool) \<Rightarrow> (nat \<Rightarrow> actor_obj) \<Rightarrow> actor_registry \<Rightarrow>
    (nat \<Rightarrow> actor_obj) \<times> actor_registry" where
  "shutdown_actors alive objs r = (let live = filter (\<lambda>(i, a). alive a) (registered r) in
     (\<lambda>a. if a \<in> snd ` set live then request_actor_stop (objs a) else objs a, r\<lparr>registered := live\<rparr>))"

section \<open>Interleaving\<close>

datatype worker_status = Worker_Waiting | Worker_Busy mailbox_item | Worker_Exited

datatype client_status = Client_Idle | Client_Waiting nat | Client_Answered nat query_result

text \<open>
  One actor, its worker and its clients. \<open>posted\<close> and \<open>handled\<close> are ghost histories of the items put
  into the mailbox and finished by the worker, the latter with their outcomes.
\<close>

record actor_system =
  the_actor :: actor_obj
  worker :: worker_status
  clients :: "nat \<Rightarrow> client_status"
  posted :: "mailbox_item list"
  handled :: "(mailbox_item \<times> (string option \<times> value)) list"

inductive actor_step :: "actor_system \<Rightarrow> actor_system \<Rightarrow> bool" where
  step_send: "\<forall>r. clients s c \<noteq> Client_Waiting r \<Longrightarrow>
    actor_step s (s\<lparr>the_actor := post_send m args (the_actor s),
      posted := posted s @ [\<lparr>item_kind = Mail_Send, item_method = m, item_args = args, item_request = 0\<rparr>]\<rparr>)"
| step_query: "\<forall>r. clients s c \<noteq> Client_Waiting r \<Longrightarrow>
    actor_step s (s\<lparr>the_actor := post_query m args (the_actor s),
      clients := (clients s)(c := Client_Waiting (next_request_id (the_actor s))),
      posted := posted s @ [query_item m args (next_request_id (the_actor s))]\<rparr>)"
| step_take: "worker s = Worker_Waiting \<Longrightarrow> worker_ready (the_actor s) \<Longrightarrow> take_item (the_actor s) = (Some i, x) \<Longrightarrow>
    actor_step s (s\<lparr>the_actor := x, worker := Worker_Busy i\<rparr>)"
| step_exit: "worker s = Worker_Waiting \<Longrightarrow> worker_ready (the_actor s) \<Longrightarrow> take_item (the_actor s) = (None, x) \<Longrightarrow>
    actor_step s (s\<lparr>the_actor := x, worker := Worker_Exited\<rparr>)"
| step_finish: "worker s = Worker_Busy i \<Longrightarrow>
    actor_step s (s\<lparr>the_actor := finish_item i out (the_actor s), worker := Worker_Waiting,
      handled := handled s @ [(i, out)]\<rparr>)"
| step_answered: "clients s c = Client_Waiting r \<Longrightarrow> map_of (pending_queries (the_actor s)) r = Some q \<Longrightarrow>
    query_ready q \<Longrightarrow>
    actor_step s (s\<lparr>the_actor := (the_actor s)\<lparr>pending_queries := AList.delete r (pending_queries (the_actor s))\<rparr>,
      clients := (clients s)(c := Client_Answered r q)\<rparr>)"
| step_stop: "actor_step s (s\<lparr>the_actor := request_actor_stop (the_actor s)\<rparr>)"

definition new_actor :: "actor_obj \<Rightarrow> bool" where
  "new_actor x \<longleftrightarrow> mailbox x = [] \<and> pending_queries x = [] \<and> \<not> actor_stopping x"

definition start_actor :: "actor_obj \<Rightarrow> actor_system" where
  "start_actor x = \<lparr>the_actor = x, worker = Worker_Waiting, clients = (\<lambda>_. Client_Idle), posted = [], handled = []\<rparr>"

inductive actor_reachable :: "actor_obj \<Rightarrow> actor_system \<Rightarrow> bool" for x where
  actor_init: "new_actor x \<Longrightarrow> actor_reachable x (start_actor x)"
| actor_next: "actor_reachable x s \<Longrightarrow> actor_step s s' \<Longrightarrow> actor_reachable x s'"

end
