(* ===== verification/ActorProps.thy ===== *)
theory ActorProps
  imports Actors
begin

text \<open>
  What an actor promises under every interleaving of its worker, its clients and the shutdown:
  messages are handled in the order they were posted, and an answered query carries the outcome of
  its own message. A query posted after the worker exited is never answered.
\<close>

section \<open>Order of messages and answers\<close>

definition in_work :: "worker_status \<Rightarrow> mailbox_item list" where
  "in_work w = (case w of Worker_Busy i \<Rightarrow> [i] | _ \<Rightarrow> [])"

lemma in_work_simps [simp]:
  "in_work Worker_Waiting = []" "in_work Worker_Exited = []" "in_work (Worker_Busy i) = [i]"
  by (simp_all add: in_work_def)

definition requests :: "mailbox_item list \<Rightarrow> nat list" where
  "requests is = map item_request (filter (\<lambda>i. item_kind i = Mail_Query) is)"

lemma requests_simps [simp]:
  "requests [] = []" "requests (as @ bs) = requests as @ requests bs"
  "requests (i # is) = (if item_kind i = Mail_Query then [item_request i] else []) @ requests is"
  by (simp_all add: requests_def)

text \<open>The reply that the outcome of an item amounts to.\<close>

definition reply_of :: "string option \<times> value \<Rightarrow> query_result" where
  "reply_of out = (case fst out of
       Some e \<Rightarrow> \<lparr>query_ready = True, query_value = VNull, query_error = e\<rparr>
     | None \<Rightarrow> \<lparr>query_ready = True, query_value = snd out, query_error = []\<rparr>)"

definition answered :: "(mailbox_item \<times> (string option \<times> value)) list \<Rightarrow> nat \<Rightarrow> query_result \<Rightarrow> bool" where
  "answered hs r q \<longleftrightarrow> (\<exists>i out. (i, out) \<in> set hs \<and> item_kind i = Mail_Query \<and> item_request i = r \<and> q = reply_of out)"

lemma answered_mono: "answered hs r q \<Longrightarrow> answered (hs @ hs') r q"
  unfolding answered_def by auto

lemma answered_request: "answered hs r q \<Longrightarrow> r \<in> set (requests (map fst hs))"
  unfolding answered_def requests_def by force

lemma reply_of_no_result:
  "(case fst out of Some e \<Rightarrow> no_result\<lparr>query_ready := True, query_error := e\<rparr>
    | None \<Rightarrow> no_result\<lparr>query_ready := True, query_value := snd out\<rparr>) = reply_of out"
  by (simp add: reply_of_def no_result_def split: option.split)

lemma query_item_simps [simp]:
  "item_kind (query_item m args r) = Mail_Query" "item_request (query_item m args r) = r"
  by (simp_all add: query_item_def)

text \<open>What the parts of the invariant say of one actor.\<close>

definition pending_ok :: "mailbox_item list \<Rightarrow> (mailbox_item \<times> (string option \<times> value)) list \<Rightarrow> actor_obj \<Rightarrow> bool" where
  "pending_ok open hs x \<longleftrightarrow> (\<forall>r q. map_of (pending_queries x) r = Some q \<longrightarrow> r < next_request_id x \<and>
     (if query_ready q then answered hs r q else q = no_result \<and> r \<in> set (requests open)))"

lemma pending_okD: "pending_ok open hs x \<Longrightarrow> map_of (pending_queries x) r = Some q \<Longrightarrow>
   r < next_request_id x \<and> (if query_ready q then answered hs r q else q = no_result \<and> r \<in> set (requests open))"
  by (simp add: pending_ok_def)

lemma pending_ok_cong:
  "pending_ok open hs x \<Longrightarrow> requests open' = requests open \<Longrightarrow> pending_queries x' = pending_queries x \<Longrightarrow>
   next_request_id x' = next_request_id x \<Longrightarrow> pending_ok open' hs x'"
  by (simp add: pending_ok_def)

lemma pending_ok_query:
  assumes "pending_ok open hs x"
  shows "pending_ok (open @ [query_item m args (next_request_id x)]) hs (post_query m args x)"
  unfolding pending_ok_def
proof (intro allI impI)
  fix r q
  assume r: "map_of (pending_queries (post_query m args x)) r = Some q"
  show "r < next_request_id (post_query m args x) \<and> (if query_ready q then answered hs r q
     else q = no_result \<and> r \<in> set (requests (open @ [query_item m args (next_request_id x)])))"
  proof (cases "map_of (pending_queries x) r")
    case (Some q')
    with r have "q' = q" by (auto simp: post_query_def enqueue_def split: if_splits)
    with pending_okD [OF assms Some] show ?thesis by (auto simp: post_query_def enqueue_def)
  next
    case None
    with r have "r = next_request_id x" "q = no_result" by (auto simp: post_query_def enqueue_def split: if_splits)
    then show ?thesis by (simp add: post_query_def enqueue_def no_result_def)
  qed
qed

lemma pending_ok_finish:
  assumes "pending_ok (i # open) hs x" "distinct (requests (map fst hs @ i # open))"
  shows "pending_ok open (hs @ [(i, out)]) (finish_item i out x)"
proof (cases "item_kind i = Mail_Query")
  case False
  have "pending_queries (finish_item i out x) = pending_queries x"
    "next_request_id (finish_item i out x) = next_request_id x"
    using False by (simp_all add: finish_item_def record_failure_def split: option.split)
  with assms(1) False show ?thesis
    by (auto simp: pending_ok_def answered_mono split: if_splits)
next
  case True
  let ?r = "item_request i"
  show ?thesis
  proof (cases "map_of (pending_queries x) ?r")
    case None
    then have x: "finish_item i out x = x" using True by (simp add: finish_item_def answer_query_def)
    show ?thesis
      unfolding pending_ok_def x
    proof (intro allI impI)
      fix r q
      assume r: "map_of (pending_queries x) r = Some q"
      with None have "r \<noteq> ?r" by auto
      with pending_okD [OF assms(1) r] True
      show "r < next_request_id x \<and> (if query_ready q then answered (hs @ [(i, out)]) r q
          else q = no_result \<and> r \<in> set (requests open))"
        by (auto simp: answered_mono split: if_splits)
    qed
  next
    case (Some q)
    from True assms(2) have "?r \<notin> set (requests (map fst hs))" by auto
    with pending_okD [OF assms(1) Some] answered_request have q: "q = no_result" "?r < next_request_id x"
      by (auto split: if_splits)
    let ?y = "finish_item i out x"
    have y: "map_of (pending_queries ?y) = (map_of (pending_queries x))(?r \<mapsto> reply_of out)"
      "next_request_id ?y = next_request_id x"
      using True by (simp_all add: finish_item_def answer_query_def Some q(1) reply_of_no_result update_conv')
    have a: "answered (hs @ [(i, out)]) ?r (reply_of out)"
      unfolding answered_def using True by (intro exI [of _ i] exI [of _ out]) simp
    have rd: "query_ready (reply_of out)" by (simp add: reply_of_def split: option.split)
    show ?thesis
      unfolding pending_ok_def y
    proof (intro allI impI)
      fix r' q'
      assume r': "((map_of (pending_queries x))(?r \<mapsto> reply_of out)) r' = Some q'"
      show "r' < next_request_id x \<and> (if query_ready q' then answered (hs @ [(i, out)]) r' q'
          else q' = no_result \<and> r' \<in> set (requests open))"
      proof (cases "r' = ?r")
        case True
        with r' a rd q(2) show ?thesis by simp
      next
        case False
        with r' have "map_of (pending_queries x) r' = Some q'" by simp
        from pending_okD [OF assms(1) this] False True show ?thesis
          by (auto simp: answered_mono split: if_splits)
      qed
    qed
  qed
qed

definition clients_ok :: "actor_system \<Rightarrow> bool" where
  "clients_ok s \<longleftrightarrow>
     (\<forall>c r. clients s c = Client_Waiting r \<longrightarrow> map_of (pending_queries (the_actor s)) r \<noteq> None) \<and>
     (\<forall>c r q. clients s c = Client_Answered r q \<longrightarrow> answered (handled s) r q) \<and>
     (\<forall>c c' r. clients s c = Client_Waiting r \<longrightarrow> clients s c' = Client_Waiting r \<longrightarrow> c = c')"

lemma clients_okD:
  assumes "clients_ok s"
  shows "clients s c = Client_Waiting r \<Longrightarrow> map_of (pending_queries (the_actor s)) r \<noteq> None"
    "clients s c = Client_Answered r q \<Longrightarrow> answered (handled s) r q"
    "clients s c = Client_Waiting r \<Longrightarrow> clients s c' = Client_Waiting r \<Longrightarrow> c = c'"
  using assms unfolding clients_ok_def by blast+

abbreviation open_items :: "actor_system \<Rightarrow> mailbox_item list" where
  "open_items s \<equiv> in_work (worker s) @ mailbox (the_actor s)"

definition actor_ok :: "actor_system \<Rightarrow> bool" where
  "actor_ok s \<longleftrightarrow> posted s = map fst (handled s) @ open_items s \<and> distinct (requests (posted s)) \<and>
     (\<forall>r \<in> set (requests (posted s)). r < next_request_id (the_actor s)) \<and>
     pending_ok (open_items s) (handled s) (the_actor s) \<and> clients_ok s"

lemma actor_okD:
  assumes "actor_ok s"
  shows "posted s = map fst (handled s) @ open_items s" "distinct (requests (posted s))"
    "\<forall>r \<in> set (requests (posted s)). r < next_request_id (the_actor s)"
    "pending_ok (open_items s) (handled s) (the_actor s)" "clients_ok s"
  using assms unfolding actor_ok_def by blast+

lemma finish_item_simps [simp]:
  "mailbox (finish_item i out x) = mailbox x" "next_request_id (finish_item i out x) = next_request_id x"
  "map_of (pending_queries (finish_item i out x)) r = None \<longleftrightarrow> map_of (pending_queries x) r = None"
  by (auto simp: finish_item_def answer_query_def record_failure_def update_conv' split: option.splits)

lemma actor_step_ok: "actor_step s s' \<Longrightarrow> actor_ok s \<Longrightarrow> actor_ok s'"
proof (induction rule: actor_step.induct)
  case (step_send s c m args)
  then show ?case
    by (auto simp: actor_ok_def clients_ok_def post_send_def enqueue_def elim: pending_ok_cong)
next
  case (step_query s c m args)
  let ?x = "the_actor s" and ?n = "next_request_id (the_actor s)"
  note ok = actor_okD [OF step_query.prems]
  have "?n \<notin> set (requests (posted s))" using ok(3) by auto
  moreover have "map_of (pending_queries (post_query m args ?x)) r \<noteq> None \<longleftrightarrow>
      r = ?n \<or> map_of (pending_queries ?x) r \<noteq> None" for r
    by (auto simp: post_query_def enqueue_def)
  moreover have "clients s c' \<noteq> Client_Waiting ?n" for c'
    using clients_okD(1) [OF ok(5), of c' ?n] pending_okD [OF ok(4), of ?n] by auto
  moreover have "mailbox (post_query m args ?x) = mailbox ?x @ [query_item m args ?n]"
    "next_request_id (post_query m args ?x) = Suc ?n"
    by (simp_all add: post_query_def enqueue_def)
  moreover note pending_ok_query [OF ok(4), of m args]
  ultimately show ?case using ok by (auto simp: actor_ok_def clients_ok_def less_Suc_eq)
next
  case (step_take s i x)
  then show ?case
    by (cases "mailbox (the_actor s)") (auto simp: actor_ok_def clients_ok_def take_item_def worker_ready_def split: if_splits elim: pending_ok_cong)
next
  case (step_exit s x)
  then show ?case
    by (auto simp: actor_ok_def clients_ok_def take_item_def split: if_splits elim: pending_ok_cong)
next
  case (step_finish s i out)
  note ok = actor_okD [OF step_finish.prems]
  have p: "posted s = map fst (handled s) @ i # mailbox (the_actor s)" "in_work (worker s) = [i]"
    using ok(1) step_finish.hyps by simp_all
  have "pending_ok (mailbox (the_actor s)) (handled s @ [(i, out)]) (finish_item i out (the_actor s))"
    using ok(4) ok(2) unfolding p by (intro pending_ok_finish) simp_all
  moreover have "clients_ok (s\<lparr>the_actor := finish_item i out (the_actor s), worker := Worker_Waiting,
      handled := handled s @ [(i, out)]\<rparr>)"
    using ok(5) by (auto simp: clients_ok_def answered_mono simp del: not_None_eq)
  ultimately show ?case using ok(2,3) p(1) by (simp add: actor_ok_def)
next
  case (step_answered s c r q)
  from step_answered.prems have ok: "pending_ok (open_items s) (handled s) (the_actor s)" "clients_ok s"
    by (simp_all add: actor_ok_def)
  from pending_okD [OF ok(1) step_answered.hyps(2)] step_answered.hyps(3) have a: "answered (handled s) r q" by simp
  have "pending_ok (open_items s) (handled s)
      ((the_actor s)\<lparr>pending_queries := AList.delete r (pending_queries (the_actor s))\<rparr>)"
    using ok(1) by (auto simp: pending_ok_def delete_conv' split: if_splits)
  with a ok(2) step_answered show ?case
    by (auto simp: actor_ok_def clients_ok_def delete_conv')
next
  case (step_stop s)
  then show ?case by (auto simp: actor_ok_def clients_ok_def request_actor_stop_def elim: pending_ok_cong)
qed

lemma actor_reachable_ok: "actor_reachable x s \<Longrightarrow> actor_ok s"
proof (induction rule: actor_reachable.induct)
  case actor_init
  then show ?case
    by (simp add: actor_ok_def start_actor_def new_actor_def clients_ok_def pending_ok_def)
next
  case (actor_next s s')
  then show ?case by (blast intro: actor_step_ok)
qed

text \<open>C31: whatever the worker, the clients and the shutdown do in whatever order, the messages the worker
  has finished, the one it works on and those in the mailbox are, in this order, exactly the messages
  posted: none is lost, doubled or reordered.\<close>
theorem mailbox_is_fifo:
  assumes "actor_reachable x s"
  shows "posted s = map fst (handled s) @ in_work (worker s) @ mailbox (the_actor s)"
  using actor_reachable_ok [OF assms] by (simp add: actor_ok_def)

text \<open>C32: the answer a query returns with is the outcome (the value, or the error) of the one message
  that the query posted.\<close>
theorem query_gets_its_own_answer:
  assumes "actor_reachable x s" "clients s c = Client_Answered r q"
  shows "\<exists>i out. (i, out) \<in> set (handled s) \<and> item_kind i = Mail_Query \<and> item_request i = r \<and> q = reply_of out \<and>
    (\<forall>j \<in> set (posted s). item_kind j = Mail_Query \<longrightarrow> item_request j = r \<longrightarrow> j = i)"
proof -
  note ok = actor_okD [OF actor_reachable_ok [OF assms(1)]]
  from clients_okD(2) [OF ok(5) assms(2)] obtain i out where i: "(i, out) \<in> set (handled s)" "item_kind i = Mail_Query"
    "item_request i = r" "q = reply_of out"
    unfolding answered_def by blast
  from i(1) have p: "i \<in> set (posted s)" by (force simp: ok(1))
  have "j = i" if "j \<in> set (posted s)" "item_kind j = Mail_Query" "item_request j = r" for j
    using ok(2) p that i(2,3) by (auto simp: requests_def distinct_map inj_on_def)
  with i show ?thesis by blast
qed

section \<open>A query after the worker exited\<close>

definition deserted :: "nat \<Rightarrow> nat \<Rightarrow> actor_system \<Rightarrow> bool" where
  "deserted c r s \<longleftrightarrow> actor_ok s \<and> worker s = Worker_Exited \<and> clients s c = Client_Waiting r \<and>
     map_of (pending_queries (the_actor s)) r = Some no_result"

lemma deserted_step:
  assumes "actor_step s s'" "deserted c r s"
  shows "deserted c r s'"
proof -
  from assms(2) have ok: "actor_ok s" and d: "worker s = Worker_Exited" "clients s c = Client_Waiting r"
    "map_of (pending_queries (the_actor s)) r = Some no_result"
    by (simp_all add: deserted_def)
  from ok have cl: "clients_ok s" by (simp add: actor_ok_def)
  have "worker s' = Worker_Exited \<and> clients s' c = Client_Waiting r \<and>
      map_of (pending_queries (the_actor s')) r = Some no_result"
    using assms(1) d
  proof cases
    case (step_answered c' r' q)
    with d have "r' \<noteq> r" by (auto simp: no_result_def)
    moreover from this step_answered d have "c' \<noteq> c" by auto
    ultimately show ?thesis using step_answered d by (auto simp: delete_conv')
  next
    case (step_query c' m args)
    with d show ?thesis by (auto simp: post_query_def enqueue_def)
  qed (auto simp: post_send_def enqueue_def request_actor_stop_def)
  with actor_step_ok [OF assms(1) ok] show ?thesis by (simp add: deserted_def)
qed

lemma deserted_forever: "actor_step\<^sup>*\<^sup>* s s' \<Longrightarrow> deserted c r s \<Longrightarrow> deserted c r s'"
  by (induction rule: rtranclp_induct) (auto intro: deserted_step)

definition idle_actor :: actor_obj where
  "idle_actor = \<lparr>actor_type = ''A'', actor_state = 1, actor_methods = 2, mailbox = [], pending_queries = [],
     actor_failures = [], actor_runtime_id = 1, actor_stopping = False, next_request_id = 1\<rparr>"


section \<open>Concrete runs\<close>

abbreviation sent_system :: actor_system where
  "sent_system \<equiv> (start_actor idle_actor)\<lparr>the_actor := post_send ''m'' [VInt 5] idle_actor,
    posted := [\<lparr>item_kind = Mail_Send, item_method = ''m'', item_args = [VInt 5], item_request = 0\<rparr>]\<rparr>"

lemma sent_reachable: "actor_reachable idle_actor sent_system"
proof -
  have "actor_reachable idle_actor (start_actor idle_actor)"
    by (rule actor_init) (simp add: new_actor_def idle_actor_def)
  from actor_next [OF this step_send [of "start_actor idle_actor" 0 "''m''" "[VInt 5]"]] show ?thesis
    by (simp add: start_actor_def)
qed

theorem mailbox_is_fifo_witness:
  "posted sent_system = map fst (handled sent_system) @ in_work (worker sent_system) @ mailbox (the_actor sent_system) \<and>
     length (posted sent_system) = 1"
proof (rule conjI)
  show "posted sent_system = map fst (handled sent_system) @ in_work (worker sent_system) @ mailbox (the_actor sent_system)"
    by (rule mailbox_is_fifo [OF sent_reachable])
qed simp

lemma asked_reachable: "\<exists>s. actor_reachable idle_actor s \<and> clients s 3 = Client_Answered 1 (reply_of (None, VInt 7))"
proof -
  let ?s0 = "start_actor idle_actor" and ?i = "query_item ''m'' [] 1"
  let ?x1 = "idle_actor\<lparr>next_request_id := 2, pending_queries := [(1, no_result)]\<rparr>"
  let ?s1 = "?s0\<lparr>the_actor := ?x1\<lparr>mailbox := [?i]\<rparr>, clients := (\<lambda>_. Client_Idle)(3 := Client_Waiting 1), posted := [?i]\<rparr>"
  have "actor_reachable idle_actor ?s0"
    by (rule actor_init) (simp add: new_actor_def idle_actor_def)
  from actor_next [OF this step_query [of ?s0 3 "''m''" "[]"]] have 1: "actor_reachable idle_actor ?s1"
    by (simp add: start_actor_def post_query_def enqueue_def idle_actor_def emplace_def numeral_2_eq_2)
  have 2: "actor_reachable idle_actor (?s1\<lparr>the_actor := ?x1, worker := Worker_Busy ?i\<rparr>)"
    using actor_next [OF 1 step_take [of ?s1 ?i ?x1]]
    by (simp add: start_actor_def worker_ready_def take_item_def idle_actor_def)
  let ?x3 = "?x1\<lparr>pending_queries := [(1, reply_of (None, VInt 7))]\<rparr>"
  have "actor_reachable idle_actor (?s1\<lparr>the_actor := ?x3, worker := Worker_Waiting, handled := [(?i, (None, VInt 7))]\<rparr>)"
    using actor_next [OF 2 step_finish [of _ ?i "(None, VInt 7)"]]
    by (simp add: start_actor_def finish_item_def answer_query_def idle_actor_def reply_of_def no_result_def)
  from actor_next [OF this step_answered [of _ 3 1 "reply_of (None, VInt 7)"]] show ?thesis
    by (force simp: start_actor_def reply_of_def)
qed

theorem query_gets_its_own_answer_witness:
  "\<exists>s i out. actor_reachable idle_actor s \<and> clients s 3 = Client_Answered 1 (reply_of (None, VInt 7)) \<and>
     (i, out) \<in> set (handled s) \<and> item_request i = 1 \<and> reply_of (None, VInt 7) = reply_of out"
proof -
  obtain s where "actor_reachable idle_actor s" "clients s 3 = Client_Answered 1 (reply_of (None, VInt 7))"
    using asked_reachable by blast
  with query_gets_its_own_answer [OF this] show ?thesis by blast
qed

section \<open>Who keeps whom alive\<close>

text \<open>
  The owners of the runtime and of the actors. A worker's closure holds the runtime and its actor
  until it returns. Only the destructor of the runtime (through \<open>ShutdownActors\<close>) and the destructor
  of an actor ask a worker to stop, and each runs when the last owner is gone.
\<close>

record ownership =
  machines :: nat
  handles :: "nat \<Rightarrow> nat"
  started :: "nat set"
  live_workers :: "nat set"
  told_to_stop :: "nat set"

inductive own_step :: "ownership \<Rightarrow> ownership \<Rightarrow> bool" where
  own_machines: "own_step o1 (o1\<lparr>machines := n\<rparr>)"
| own_handles: "own_step o1 (o1\<lparr>handles := h\<rparr>)"
| own_start: "a \<notin> started o1 \<Longrightarrow> a \<notin> told_to_stop o1 \<Longrightarrow>
    own_step o1 (o1\<lparr>started := insert a (started o1), live_workers := insert a (live_workers o1)\<rparr>)"
| own_runtime_destroyed: "machines o1 = 0 \<Longrightarrow> live_workers o1 = {} \<Longrightarrow>
    own_step o1 (o1\<lparr>told_to_stop := told_to_stop o1 \<union> started o1\<rparr>)"
| own_actor_destroyed: "handles o1 a = 0 \<Longrightarrow> a \<notin> live_workers o1 \<Longrightarrow>
    own_step o1 (o1\<lparr>told_to_stop := insert a (told_to_stop o1)\<rparr>)"
| own_worker_returns: "a \<in> live_workers o1 \<Longrightarrow> a \<in> told_to_stop o1 \<Longrightarrow>
    own_step o1 (o1\<lparr>live_workers := live_workers o1 - {a}\<rparr>)"

definition no_owner :: ownership where
  "no_owner = \<lparr>machines = 1, handles = (\<lambda>_. 0), started = {}, live_workers = {}, told_to_stop = {}\<rparr>"

text \<open>No worker ever returns: neither the end of every machine nor of every handle stops it.\<close>
theorem actor_workers_never_end:
  assumes "own_step\<^sup>*\<^sup>* no_owner o1"
  shows "live_workers o1 = started o1 \<and> told_to_stop o1 \<inter> started o1 = {}"
  using assms
proof (induction rule: rtranclp_induct)
  case base
  show ?case by (simp add: no_owner_def)
next
  case (step o1 o2)
  from step.hyps(2) step.IH show ?case by cases auto
qed

end
