(* ===== verification/Natives.thy ===== *)
theory Natives
  imports Transactions
begin

text \<open>
  What the modules of the standard library share (src/src/vm/runtime/NativeModuleSupport.h): the
  checks of arguments, the comparison of values, the conversions of \<open>to_int\<close>, \<open>to_float\<close> and
  \<open>to_bool\<close>, with \<open>std::stoll\<close> and \<open>std::stod\<close> as the conversions use them (the whole string has to be
  a number). A native function is a procedure over its arguments; the call has checked their number.
\<close>

type_synonym native = "value list \<Rightarrow> value vm_proc"

text \<open>\<open>ctx.RaiseError(m); return std::monostate{};\<close>.\<close>

definition native_fail :: "string \<Rightarrow> value vm_proc" where
  "native_fail m = seqE (raise_error m) (ret VNull)"

definition new_array :: "value list \<Rightarrow> value vm_proc" where
  "new_array es = bindE (new_object (Obj_Array es)) (\<lambda>a. ret (VRef K_Array a))"

text \<open>\<open>catch (const std::exception& e) { ctx.RaiseError(e.what()); return std::monostate{}; }\<close>.\<close>

definition catching :: "value vm_proc \<Rightarrow> value vm_proc" where
  "catching m = (\<lambda>s. case m s of (Raise (CppExc e), s') \<Rightarrow> native_fail e s' | r \<Rightarrow> r)"

section \<open>Arguments\<close>

definition array_of :: "value \<Rightarrow> vm_state \<Rightarrow> nat option" where
  "array_of v s = (case v of
       VRef k a \<Rightarrow> if k = K_Array \<and> array_elements (heap s) a \<noteq> None then Some a else None
     | _ \<Rightarrow> None)"

definition require_array :: "value \<Rightarrow> string \<Rightarrow> nat option vm_proc" where
  "require_array v m = (\<lambda>s. case array_of v s of
       Some a \<Rightarrow> (Ok (Some a), s)
     | None \<Rightarrow> (Ok None, snd (raise_error m s)))"

definition require_string :: "value \<Rightarrow> string \<Rightarrow> string option vm_proc" where
  "require_string v m = (\<lambda>s. case v of
       VString (Some t) \<Rightarrow> (Ok (Some t), s)
     | _ \<Rightarrow> (Ok None, snd (raise_error m s)))"

text \<open>The pattern \<open>const auto x = Require...(); if (!x) return std::monostate{};\<close>.\<close>

definition with_array :: "value \<Rightarrow> string \<Rightarrow> (nat \<Rightarrow> value vm_proc) \<Rightarrow> value vm_proc" where
  "with_array v m f = bindE (require_array v m) (\<lambda>r. case r of None \<Rightarrow> ret VNull | Some a \<Rightarrow> f a)"

definition with_string :: "value \<Rightarrow> string \<Rightarrow> (string \<Rightarrow> value vm_proc) \<Rightarrow> value vm_proc" where
  "with_string v m f = bindE (require_string v m) (\<lambda>r. case r of None \<Rightarrow> ret VNull | Some t \<Rightarrow> f t)"

text \<open>Both arguments are checked before either result is looked at.\<close>

definition with_two_strings ::
    "value \<Rightarrow> string \<Rightarrow> value \<Rightarrow> string \<Rightarrow> (string \<Rightarrow> string \<Rightarrow> value vm_proc) \<Rightarrow> value vm_proc" where
  "with_two_strings v m w n f = bindE (require_string v m) (\<lambda>r. bindE (require_string w n) (\<lambda>q.
     case (r, q) of (Some s, Some t) \<Rightarrow> f s t | _ \<Rightarrow> ret VNull))"

section \<open>Comparison\<close>

text \<open>\<open>std::string::operator<\<close> compares bytes as unsigned characters.\<close>

fun string_less :: "string \<Rightarrow> string \<Rightarrow> bool" where
  "string_less s [] = False"
| "string_less [] (d # t) = True"
| "string_less (c # s) (d # t) =
     (if (of_char c :: nat) < of_char d then True
      else if (of_char d :: nat) < of_char c then False else string_less s t)"

definition is_number :: "value \<Rightarrow> bool" where
  "is_number v = (case v of VInt i \<Rightarrow> True | VDouble d \<Rightarrow> True | _ \<Rightarrow> False)"

definition text_or_empty :: "string option \<Rightarrow> string" where
  "text_or_empty s = (case s of None \<Rightarrow> [] | Some t \<Rightarrow> t)"

definition compare_values :: "string \<Rightarrow> value \<Rightarrow> value \<Rightarrow> int outcome" where
  "compare_values domain l r =
     (if is_number l then
        (if \<not> is_number r then Raise (CppExc (domain @ '' comparison requires compatible value types''))
         else bind_outcome (as_double l) (\<lambda>a. bind_outcome (as_double r) (\<lambda>b.
           Ok (if flt a b then - 1 else if flt b a then 1 else 0))))
      else case (l, r) of
        (VString s, VString t) \<Rightarrow>
          (let a = text_or_empty s; b = text_or_empty t in
           Ok (if string_less a b then - 1 else if string_less b a then 1 else 0))
      | (VBool a, VBool b) \<Rightarrow> Ok (if a = b then 0 else if a then 1 else - 1)
      | _ \<Rightarrow> Raise (CppExc (domain @ '' comparison requires int, float, bool, or string values'')))"

section \<open>Numbers in strings\<close>

definition is_space :: "char \<Rightarrow> bool" where
  "is_space c = (let k = of_char c :: nat in k = 32 \<or> (9 \<le> k \<and> k \<le> 13))"

definition strip_sign :: "string \<Rightarrow> bool \<times> string" where
  "strip_sign s = (case s of [] \<Rightarrow> (False, [])
     | c # t \<Rightarrow> if c = CHR ''-'' then (True, t) else if c = CHR ''+'' then (False, t) else (False, s))"

definition read_int :: "string \<Rightarrow> int" where
  "read_int s = foldl (\<lambda>n c. 10 * n + int (digit_value c)) 0 s"

definition signed :: "bool \<Rightarrow> int \<Rightarrow> int" where
  "signed neg n = (if neg then - n else n)"

text \<open>\<open>stoll\<close> on a string that it has to consume: \<open>None\<close> when it throws or stops early.\<close>

definition stoll :: "string \<Rightarrow> int option" where
  "stoll s = (case strip_sign (dropWhile is_space s) of (neg, t) \<Rightarrow>
     if t = [] \<or> \<not> list_all is_digit t then None
     else (let v = signed neg (read_int t) in if - (2 ^ 63) \<le> v \<and> v < 2 ^ 63 then Some v else None))"

definition to_lower :: "char \<Rightarrow> char" where
  "to_lower c = (let k = of_char c :: nat in if 65 \<le> k \<and> k \<le> 90 then char_of (k + 32) else c)"

definition hex_value :: "char \<Rightarrow> nat option" where
  "hex_value c = (let k = of_char (to_lower c) :: nat in
     if is_digit c then Some (k - 48) else if 97 \<le> k \<and> k \<le> 102 then Some (k - 87) else None)"

definition is_hex :: "char \<Rightarrow> bool" where
  "is_hex c = (hex_value c \<noteq> None)"

definition read_hex :: "string \<Rightarrow> int" where
  "read_hex s = foldl (\<lambda>n c. 16 * n + (case hex_value c of None \<Rightarrow> 0 | Some d \<Rightarrow> int d)) 0 s"

text \<open>Digits before and after the point, and what follows them.\<close>

definition split_number :: "(char \<Rightarrow> bool) \<Rightarrow> string \<Rightarrow> string \<times> string \<times> string" where
  "split_number digit s = (let whole = takeWhile digit s; r = dropWhile digit s in
     case r of [] \<Rightarrow> (whole, [], [])
     | c # t \<Rightarrow> if c = CHR ''.'' then (whole, takeWhile digit t, dropWhile digit t) else (whole, [], r))"

fun exponent_text :: "char \<Rightarrow> string \<Rightarrow> int option" where
  "exponent_text marker [] = Some 0"
| "exponent_text marker (c # s) =
     (if to_lower c \<noteq> marker then None
      else case strip_sign s of (neg, t) \<Rightarrow>
        if t = [] \<or> \<not> list_all is_digit t then None else Some (signed neg (read_int t)))"

text \<open>The double nearest to a fraction: 64 and more bits of the quotient and a sticky bit.\<close>

definition round_fraction :: "int \<Rightarrow> int \<Rightarrow> bool \<Rightarrow> double" where
  "round_fraction num den neg =
     (if num = 0 then fzero neg
      else let k = nat (max 0 (70 + int (bitlen den) - int (bitlen num)));
               q = num * 2 ^ k div den; r = num * 2 ^ k mod den
           in round_dyadic neg (2 * q + (if r = 0 then 0 else 1)) (- (int k + 1)))"

text \<open>
  \<open>ERANGE\<close> of the C library: an overflow, or a result that is inexact and, rounded to 53 bits, below
  the smallest normal number.
\<close>

definition range_error :: "int \<Rightarrow> int \<Rightarrow> double \<Rightarrow> bool" where
  "range_error num den d = (case d of
       Inf _ \<Rightarrow> True
     | Finite _ m e \<Rightarrow> num * 2 ^ 1076 < den * (2 ^ 54 - 1) \<and> m * den \<noteq> num * 2 ^ 1074
     | NaN \<Rightarrow> False)"

definition checked_fraction :: "bool \<Rightarrow> int \<Rightarrow> int \<Rightarrow> int \<Rightarrow> double option" where
  "checked_fraction neg n base e =
     (let num = (if 0 \<le> e then n * base ^ nat e else n); den = (if 0 \<le> e then 1 else base ^ nat (- e));
          d = round_fraction num den neg
      in if n \<noteq> 0 \<and> range_error num den d then None else Some d)"

definition decimal_text :: "bool \<Rightarrow> string \<Rightarrow> double option" where
  "decimal_text neg s = (case split_number is_digit s of (whole, fraction, r) \<Rightarrow>
     if whole @ fraction = [] then None
     else case exponent_text (CHR ''e'') r of None \<Rightarrow> None
     | Some e \<Rightarrow> (let n = read_int (whole @ fraction) in
         if n = 0 then Some (fzero neg) else checked_fraction neg n 10 (e - int (length fraction))))"

definition hexadecimal_text :: "bool \<Rightarrow> string \<Rightarrow> double option" where
  "hexadecimal_text neg s = (case split_number is_hex s of (whole, fraction, r) \<Rightarrow>
     if whole @ fraction = [] then None
     else case exponent_text (CHR ''p'') r of None \<Rightarrow> None
     | Some e \<Rightarrow> (let n = read_hex (whole @ fraction) in
         if n = 0 then Some (fzero neg) else checked_fraction neg n 2 (e - 4 * int (length fraction))))"

definition is_nan_text :: "string \<Rightarrow> bool" where
  "is_nan_text s = (s = ''nan'' \<or> (take 4 s = ''nan('' \<and> 5 \<le> length s \<and> last s = CHR '')'' \<and>
     list_all (\<lambda>c. is_digit c \<or> c = CHR ''_'' \<or> (97 \<le> (of_char c :: nat) \<and> (of_char c :: nat) \<le> 122))
       (butlast (drop 4 s))))"

text \<open>\<open>stod\<close> on a string that it has to consume.\<close>

definition stod :: "string \<Rightarrow> double option" where
  "stod s = (case strip_sign (dropWhile is_space s) of (neg, t) \<Rightarrow>
     let l = map to_lower t in
     if l = ''inf'' \<or> l = ''infinity'' then Some (Inf neg)
     else if is_nan_text l then Some NaN
     else if take 2 l = ''0x'' then hexadecimal_text neg (drop 2 t)
     else decimal_text neg t)"

section \<open>Conversions\<close>

definition convert_to_int :: "value \<Rightarrow> string \<Rightarrow> value vm_proc" where
  "convert_to_int v domain =
     (let cannot = native_fail (domain @ ''.to_int cannot convert value to int'') in
      case v of
        VInt i \<Rightarrow> ret (VInt i)
      | VDouble d \<Rightarrow> bindE (lift_out (cast_int64 d)) (\<lambda>i. ret (vint i))
      | VBool b \<Rightarrow> ret (vint (if b then 1 else 0))
      | VString (Some t) \<Rightarrow> (case stoll t of Some i \<Rightarrow> ret (vint i) | None \<Rightarrow> cannot)
      | _ \<Rightarrow> cannot)"

definition convert_to_float :: "value \<Rightarrow> string \<Rightarrow> value vm_proc" where
  "convert_to_float v domain =
     (let cannot = native_fail (domain @ ''.to_float cannot convert value to float'') in
      case v of
        VDouble d \<Rightarrow> ret (VDouble d)
      | VInt i \<Rightarrow> ret (VDouble (double_of_int (sint i)))
      | VBool b \<Rightarrow> ret (VDouble (double_of_bool b))
      | VString (Some t) \<Rightarrow> (case stod t of Some d \<Rightarrow> ret (VDouble d) | None \<Rightarrow> cannot)
      | _ \<Rightarrow> cannot)"

definition convert_to_bool :: "value \<Rightarrow> string \<Rightarrow> value vm_proc" where
  "convert_to_bool v domain =
     (let cannot = native_fail (domain @ ''.to_bool cannot convert value to bool'') in
      case v of
        VBool b \<Rightarrow> ret (VBool b)
      | VInt i \<Rightarrow> ret (VBool (i \<noteq> 0))
      | VDouble d \<Rightarrow> ret (VBool (double_nonzero d))
      | VString (Some t) \<Rightarrow> (let l = map to_lower t in
          if l = ''true'' \<or> l = ''1'' then ret (VBool True)
          else if l = ''false'' \<or> l = ''0'' then ret (VBool False) else cannot)
      | _ \<Rightarrow> cannot)"

end
