(* ===== verification/CoreModule.thy ===== *)
theory CoreModule
  imports Natives
begin

text \<open>
  The module \<open>std.core\<close> (src/src/vm/runtime/stdlib/core/CoreModule.cpp): one definition per native
  function. Its array functions read and write through the transactional view of the array, except
  \<open>len\<close>, which looks at the shared elements.
\<close>

definition core_len :: native where
  "core_len args = bindE (require_array (args ! 0) ''std.core.len expects an array or string'') (\<lambda>r. case r of
       Some a \<Rightarrow> bindE (reads heap) (\<lambda>h. ret (vint (int (length (the (array_elements h a))))))
     | None \<Rightarrow> seqE clear_error
         (with_string (args ! 0) ''std.core.len expects an array or string'' (\<lambda>t. ret (vint (int (length t))))))"

definition core_max :: native where
  "core_max args = catching (bindE (lift_out (compare_values ''std.core'' (args ! 0) (args ! 1))) (\<lambda>c.
     ret (if 0 \<le> c then args ! 0 else args ! 1)))"

definition core_min :: native where
  "core_min args = catching (bindE (lift_out (compare_values ''std.core'' (args ! 0) (args ! 1))) (\<lambda>c.
     ret (if c \<le> 0 then args ! 0 else args ! 1)))"

definition fabs :: "double \<Rightarrow> double" where
  "fabs d = (case d of Finite s m e \<Rightarrow> Finite False m e | Inf s \<Rightarrow> Inf False | NaN \<Rightarrow> NaN)"

definition core_abs :: native where
  "core_abs args = (case args ! 0 of
       VInt i \<Rightarrow> if sint i = int64_min then undefined_behaviour ''absolute value of the smallest integer''
         else ret (vint \<bar>sint i\<bar>)
     | VDouble d \<Rightarrow> ret (VDouble (fabs d))
     | _ \<Rightarrow> native_fail ''std.core.abs expects an int or float'')"

section \<open>Sorting\<close>

text \<open>
  \<open>std::stable_sort\<close> as the insertion of each element behind the ones that are not greater. The first
  comparison that throws ends it; which pair of incomparable values that is depends on the library,
  and so does what it makes of NaN, for which the comparison is no order.
\<close>

fun insert_value :: "string \<Rightarrow> value \<Rightarrow> value list \<Rightarrow> value list outcome" where
  "insert_value domain x [] = Ok [x]"
| "insert_value domain x (y # ys) = bind_outcome (compare_values domain x y) (\<lambda>c.
     if c < 0 then Ok (x # y # ys)
     else bind_outcome (insert_value domain x ys) (\<lambda>zs. Ok (y # zs)))"

fun stable_sort :: "string \<Rightarrow> value list \<Rightarrow> value list \<Rightarrow> value list outcome" where
  "stable_sort domain ys [] = Ok ys"
| "stable_sort domain ys (x # xs) =
     bind_outcome (insert_value domain x ys) (\<lambda>zs. stable_sort domain zs xs)"

text \<open>The loop that collects the elements \<open>is\<close> of the array; \<open>None\<close> when a read fails.\<close>

definition read_elements :: "nat \<Rightarrow> nat list \<Rightarrow> vm_state \<Rightarrow> value list option" where
  "read_elements a is s = those (map (\<lambda>i. get_array_element a i s) is)"

definition replacing :: "nat \<Rightarrow> value list \<Rightarrow> string \<Rightarrow> value vm_proc" where
  "replacing a es m = (\<lambda>s. case replace_array a es s of
       (True, s') \<Rightarrow> (Ok (VRef K_Array a), s') | (False, s') \<Rightarrow> native_fail m s')"

definition core_sort :: native where
  "core_sort args = with_array (args ! 0) ''std.core.sort expects an array'' (\<lambda>a. catching (\<lambda>s.
     case get_array_size a s of
       None \<Rightarrow> native_fail ''std.core.sort expects an array'' s
     | Some n \<Rightarrow> (case read_elements a [0..<n] s of
         None \<Rightarrow> native_fail ''std.core.sort failed to read transactional array state'' s
       | Some es \<Rightarrow> bindE (lift_out (stable_sort ''std.core'' [] es)) (\<lambda>zs.
           replacing a zs ''std.core.sort failed to update transactional array state'') s)))"

section \<open>Arrays\<close>

definition core_push :: native where
  "core_push args = with_array (args ! 0) ''std.core.push expects an array'' (\<lambda>a s.
     case push_array_element a (args ! 1) s of
       (True, s') \<Rightarrow> (Ok (VRef K_Array a), s')
     | (False, s') \<Rightarrow> native_fail ''std.core.push failed to update transactional array state'' s')"

definition core_pop :: native where
  "core_pop args = with_array (args ! 0) ''std.core.pop expects an array'' (\<lambda>a s.
     case get_array_size a s of
       Some (Suc _) \<Rightarrow> (case pop_array_element a s of
           (Some v, s') \<Rightarrow> (Ok v, s')
         | (None, s') \<Rightarrow> native_fail ''std.core.pop failed to update transactional array state'' s')
     | _ \<Rightarrow> native_fail ''std.core.pop expects a non-empty array'' s)"

definition core_remove_at :: native where
  "core_remove_at args = with_array (args ! 0) ''std.core.remove_at expects an array'' (\<lambda>a.
     bindE (lift_out (as_int64 (args ! 1))) (\<lambda>index s.
     case get_array_size a s of
       None \<Rightarrow> native_fail ''std.core.remove_at expects an array'' s
     | Some n \<Rightarrow>
         if index < 0 \<or> int n \<le> index then native_fail ''std.core.remove_at index is out of range'' s
         else (case read_elements a (filter (\<lambda>i. i \<noteq> nat index) [0..<n]) s of
             None \<Rightarrow> native_fail ''std.core.remove_at failed to read transactional array state'' s
           | Some es \<Rightarrow> replacing a es ''std.core.remove_at failed to update transactional array state'' s)))"

text \<open>The elements but the first equal to the value.\<close>

fun remove_first :: "heap \<Rightarrow> value \<Rightarrow> value list \<Rightarrow> value list" where
  "remove_first h v [] = []"
| "remove_first h v (x # xs) = (if value_equal h x v then xs else x # remove_first h v xs)"

definition core_remove :: native where
  "core_remove args = with_array (args ! 0) ''std.core.remove expects an array'' (\<lambda>a s.
     case get_array_size a s of
       None \<Rightarrow> native_fail ''std.core.remove expects an array'' s
     | Some n \<Rightarrow> (case read_elements a [0..<n] s of
         None \<Rightarrow> native_fail ''std.core.remove failed to read transactional array state'' s
       | Some es \<Rightarrow> replacing a (remove_first (heap s) (args ! 1) es)
           ''std.core.remove failed to update transactional array state'' s))"

section \<open>Strings and conversions\<close>

text \<open>\<open>std::string::find\<close> from a position; \<open>None\<close> is \<open>npos\<close>.\<close>

fun find_from :: "string \<Rightarrow> string \<Rightarrow> nat \<Rightarrow> nat option" where
  "find_from needle [] i = (if needle = [] then Some i else None)"
| "find_from needle (c # s) i =
     (if take (length needle) (c # s) = needle then Some i else find_from needle s (Suc i))"

definition find_text :: "string \<Rightarrow> string \<Rightarrow> nat \<Rightarrow> nat option" where
  "find_text s needle i = (if length s < i then None else find_from needle (drop i s) i)"

definition core_concat :: native where
  "core_concat args = with_string (args ! 0) ''std.core.concat expects a string lhs'' (\<lambda>l.
     with_string (args ! 1) ''std.core.concat expects a string rhs'' (\<lambda>r. ret (vstr (l @ r))))"

definition core_contains :: native where
  "core_contains args = with_string (args ! 0) ''std.core.contains expects a string haystack'' (\<lambda>s.
     with_string (args ! 1) ''std.core.contains expects a string needle'' (\<lambda>n.
       ret (VBool (find_text s n 0 \<noteq> None))))"

definition core_to_string :: native where
  "core_to_string args = bindE (reads heap) (\<lambda>h. bindE (lift_out (to_string h (args ! 0))) (\<lambda>t. ret (vstr t)))"

definition core_to_int :: native where
  "core_to_int args = convert_to_int (args ! 0) ''std.core''"

definition core_to_float :: native where
  "core_to_float args = convert_to_float (args ! 0) ''std.core''"

definition core_to_bool :: native where
  "core_to_bool args = convert_to_bool (args ! 0) ''std.core''"

definition core_clamp :: native where
  "core_clamp args = catching (
     bindE (lift_out (compare_values ''std.core'' (args ! 1) (args ! 2))) (\<lambda>c.
     if 0 < c then native_fail ''std.core.clamp expects min <= max''
     else bindE (lift_out (compare_values ''std.core'' (args ! 0) (args ! 1))) (\<lambda>d.
     if d < 0 then ret (args ! 1)
     else bindE (lift_out (compare_values ''std.core'' (args ! 0) (args ! 2))) (\<lambda>e.
     ret (if 0 < e then args ! 2 else args ! 0)))))"

end
