(* ===== verification/Base64.thy ===== *)
theory Base64
  imports Prelude
begin

unbundle bit_operations_syntax

text \<open>
  Base64 in the URL alphabet: \<open>DecodeBase64Url\<close> (src/src/vm/runtime/stdlib/base64/Base64Module.cpp)
  and \<open>Base64UrlEncode\<close> (src/src/vm/runtime/stdlib/crypto/CryptoModule.cpp), with the round trip.
  A byte is an 8-bit word, a character of a string the byte it is stored as.
\<close>

type_synonym byte = "8 word"

definition byte_of_char :: "char \<Rightarrow> byte" where
  "byte_of_char c = of_char c"

definition char_of_byte :: "byte \<Rightarrow> char" where
  "char_of_byte b = char_of (unat b)"

definition base64_alphabet :: string where
  "base64_alphabet = ''ABCDEFGHIJKLMNOPQRSTUVWXYZabcdefghijklmnopqrstuvwxyz0123456789-_''"

section \<open>Decoding\<close>

text \<open>The table of \<open>DecodeBase64Url\<close>; \<open>None\<close> is its entry -1. The padding character counts as 0.\<close>

definition base64_value :: "char \<Rightarrow> nat option" where
  "base64_value c = (let k = of_char c :: nat in
     if of_char CHR ''A'' \<le> k \<and> k \<le> of_char CHR ''Z'' then Some (k - of_char CHR ''A'')
     else if of_char CHR ''a'' \<le> k \<and> k \<le> of_char CHR ''z'' then Some (26 + (k - of_char CHR ''a''))
     else if of_char CHR ''0'' \<le> k \<and> k \<le> of_char CHR ''9'' then Some (52 + (k - of_char CHR ''0''))
     else if c = CHR ''-'' then Some 62
     else if c = CHR ''_'' then Some 63
     else if c = CHR ''='' then Some 0
     else None)"

text \<open>The loop that appends \<open>=\<close> until the length is a multiple of four.\<close>

definition base64_normalized :: "string \<Rightarrow> string" where
  "base64_normalized s = s @ replicate ((4 - length s mod 4) mod 4) CHR ''=''"

definition decoded_block :: "nat \<Rightarrow> nat \<Rightarrow> nat \<Rightarrow> nat \<Rightarrow> 32 word" where
  "decoded_block v0 v1 v2 v3 =
     push_bit 18 (of_nat v0) OR push_bit 12 (of_nat v1) OR push_bit 6 (of_nat v2) OR of_nat v3"

text \<open>\<open>static_cast<char>((block >> k) & 0xFF)\<close>.\<close>

definition block_byte :: "nat \<Rightarrow> 32 word \<Rightarrow> byte" where
  "block_byte k b = ucast (drop_bit k b AND 0xFF)"

fun decode_blocks :: "string \<Rightarrow> string + string" where
  "decode_blocks (c0 # c1 # c2 # c3 # cs) =
     (case (base64_value c0, base64_value c1, base64_value c2, base64_value c3) of
        (Some v0, Some v1, Some v2, Some v3) \<Rightarrow>
          (let b = decoded_block v0 v1 v2 v3 in
           case decode_blocks cs of
             Inl e \<Rightarrow> Inl e
           | Inr out \<Rightarrow> Inr (char_of_byte (block_byte 16 b)
               # (if c2 \<noteq> CHR ''='' then [char_of_byte (block_byte 8 b)] else [])
               @ (if c3 \<noteq> CHR ''='' then [char_of_byte (block_byte 0 b)] else []) @ out))
      | _ \<Rightarrow> Inl ''invalid base64url character'')"
| "decode_blocks _ = Inr []"

text \<open>\<open>Inl\<close> is the error the function stores when it returns false.\<close>

definition decode_base64url :: "string \<Rightarrow> string + string" where
  "decode_base64url s =
     (if s = [] then Inr []
      else if length s mod 4 = 1 then Inl ''invalid base64url length''
      else decode_blocks (base64_normalized s))"

section \<open>Encoding\<close>

definition encoded_block :: "byte \<Rightarrow> byte \<Rightarrow> byte \<Rightarrow> 32 word" where
  "encoded_block b0 b1 b2 = push_bit 16 (ucast b0) OR push_bit 8 (ucast b1) OR ucast b2"

text \<open>\<open>alphabet[(block >> k) & 0x3F]\<close>.\<close>

definition block_digit :: "nat \<Rightarrow> 32 word \<Rightarrow> char" where
  "block_digit k b = base64_alphabet ! unat (drop_bit k b AND 0x3F)"

fun base64url_encode :: "byte list \<Rightarrow> string" where
  "base64url_encode [] = []"
| "base64url_encode [b0] = (let b = encoded_block b0 0 0 in [block_digit 18 b, block_digit 12 b])"
| "base64url_encode [b0, b1] =
     (let b = encoded_block b0 b1 0 in [block_digit 18 b, block_digit 12 b, block_digit 6 b])"
| "base64url_encode (b0 # b1 # b2 # bs) =
     (let b = encoded_block b0 b1 b2 in
      block_digit 18 b # block_digit 12 b # block_digit 6 b # block_digit 0 b # base64url_encode bs)"

section \<open>The round trip\<close>

lemma alphabet_values: "map base64_value base64_alphabet = map Some [0..<64]"
  by (simp add: base64_alphabet_def base64_value_def upt_conv_Cons)

lemma alphabet_value:
  assumes "k < 64"
  shows "base64_value (base64_alphabet ! k) = Some k" and "base64_alphabet ! k \<noteq> CHR ''=''"
proof -
  have k: "k < length base64_alphabet" using assms by (simp add: base64_alphabet_def)
  show "base64_value (base64_alphabet ! k) = Some k"
    using arg_cong [OF alphabet_values, of "\<lambda>xs. xs ! k"] k assms by simp
  have "CHR ''='' \<notin> set base64_alphabet" by (simp add: base64_alphabet_def)
  with k show "base64_alphabet ! k \<noteq> CHR ''=''" using nth_mem by metis
qed

lemma six_bits: "unat ((w::32 word) AND 0x3F) < 64"
proof -
  have "w AND 0x3F = take_bit 6 w" by (simp add: take_bit_eq_mask mask_eq_exp_minus_1)
  then show ?thesis using take_bit_nat_less_exp [of 6 "unat w"] by (simp add: unsigned_take_bit_eq)
qed

lemma digit_value:
  "base64_value (block_digit k b) = Some (unat (drop_bit k b AND 0x3F))" "block_digit k b \<noteq> CHR ''=''"
  by (simp_all add: block_digit_def alphabet_value six_bits)

lemma masks: "(0x3F :: 32 word) = mask 6" "(0xFF :: 32 word) = mask 8"
  by (simp_all add: mask_eq_exp_minus_1)

lemma regrouped:
  fixes b :: "32 word"
  assumes "drop_bit 24 b = 0"
  shows "decoded_block (unat (drop_bit 18 b AND 0x3F)) (unat (drop_bit 12 b AND 0x3F))
    (unat (drop_bit 6 b AND 0x3F)) (unat (drop_bit 0 b AND 0x3F)) = b"
proof (rule bit_word_eqI)
  fix n assume n: "n < LENGTH(32)"
  have top: "\<not> bit b n" if "n \<ge> 24"
    using arg_cong [OF assms, of "\<lambda>w. bit w (n - 24)"] that by (simp add: bit_drop_bit_eq)
  consider "n < 6" | "6 \<le> n" "n < 12" | "12 \<le> n" "n < 18" | "18 \<le> n" "n < 24" | "24 \<le> n" by linarith
  then show "bit (decoded_block (unat (drop_bit 18 b AND 0x3F)) (unat (drop_bit 12 b AND 0x3F))
    (unat (drop_bit 6 b AND 0x3F)) (unat (drop_bit 0 b AND 0x3F))) n = bit b n"
    unfolding decoded_block_def masks
    using n top by cases (auto simp: bit_simps)
qed

lemma encoded_bytes:
  "drop_bit 24 (encoded_block b0 b1 b2) = 0" "block_byte 16 (encoded_block b0 b1 b2) = b0"
  "block_byte 8 (encoded_block b0 b1 b2) = b1" "block_byte 0 (encoded_block b0 b1 b2) = b2"
  unfolding encoded_block_def block_byte_def masks
  by (rule bit_word_eqI; auto simp: bit_simps dest: bit_imp_le_length)+

lemma decode_four:
  assumes "b = encoded_block b0 b1 b2"
  shows "decode_blocks (block_digit 18 b # block_digit 12 b # block_digit 6 b # block_digit 0 b # cs) =
    map_sum id (\<lambda>out. char_of_byte b0 # char_of_byte b1 # char_of_byte b2 # out) (decode_blocks cs)"
  using regrouped [OF encoded_bytes(1), of b0 b1 b2]
  by (simp add: assms digit_value encoded_bytes Let_def split: sum.splits)

lemma decode_three:
  "decode_blocks (base64_normalized [block_digit 18 b, block_digit 12 b, block_digit 6 b]) =
    Inr [char_of_byte b0, char_of_byte b1]" if "b = encoded_block b0 b1 0"
proof -
  have "drop_bit 0 b AND 0x3F = 0"
    unfolding that encoded_block_def masks by (rule bit_word_eqI) (auto simp: bit_simps)
  then show ?thesis
    using regrouped [OF encoded_bytes(1), of b0 b1 0]
    by (simp add: that base64_normalized_def digit_value encoded_bytes Let_def base64_value_def [of "CHR ''=''"])
qed

lemma decode_two:
  "decode_blocks (base64_normalized [block_digit 18 b, block_digit 12 b]) = Inr [char_of_byte b0]"
    if "b = encoded_block b0 0 0"
proof -
  have "drop_bit 0 b AND 0x3F = 0" "drop_bit 6 b AND 0x3F = 0"
    unfolding that encoded_block_def masks by (rule bit_word_eqI; auto simp: bit_simps)+
  then show ?thesis
    using regrouped [OF encoded_bytes(1), of b0 0 0]
    by (simp add: that base64_normalized_def digit_value encoded_bytes Let_def numeral_2_eq_2
      base64_value_def [of "CHR ''=''"])
qed

lemma normalized_four: "base64_normalized (c0 # c1 # c2 # c3 # cs) = c0 # c1 # c2 # c3 # base64_normalized cs"
proof -
  have "length (c0 # c1 # c2 # c3 # cs) mod 4 = length cs mod 4" by simp
  then show ?thesis unfolding base64_normalized_def by (simp del: length_Cons)
qed

lemma decode_encoded_blocks: "decode_blocks (base64_normalized (base64url_encode bs)) = Inr (map char_of_byte bs)"
proof (induction bs rule: base64url_encode.induct)
  case 1
  show ?case by (simp add: base64_normalized_def)
next
  case (2 b0)
  show ?case by (simp add: Let_def decode_two)
next
  case (3 b0 b1)
  show ?case by (simp add: Let_def decode_three)
next
  case (4 b0 b1 b2 bs)
  then show ?case by (simp add: Let_def normalized_four decode_four del: decode_blocks.simps)
qed

lemma encoded_length: "length (base64url_encode bs) mod 4 \<noteq> 1"
  by (induction bs rule: base64url_encode.induct) (auto simp: Let_def)

text \<open>C37: what \<open>Base64UrlEncode\<close> makes of any bytes, \<open>try_url_decode\<close> decodes to these bytes: the
  unpadded blocks of one and two bytes at the end included.\<close>
theorem base64_round_trip: "decode_base64url (base64url_encode bs) = Inr (map char_of_byte bs)"
proof (cases "bs = []")
  case False
  then have "base64url_encode bs \<noteq> []" by (cases bs rule: base64url_encode.cases) (auto simp: Let_def)
  then show ?thesis using encoded_length [of bs] by (simp add: decode_base64url_def decode_encoded_blocks)
qed (simp add: decode_base64url_def)

text \<open>The padding character is a digit of the table, so malformed input is accepted wherever it stands.\<close>
theorem padding_is_accepted_anywhere:
  "decode_base64url ''=AAA'' = Inr (map char_of_byte [0, 0, 0])"
  "decode_base64url ''AA=A'' = Inr (map char_of_byte [0, 0])"
  by (simp_all add: decode_base64url_def base64_normalized_def base64_value_def block_byte_def decoded_block_def
    char_of_byte_def)

end
