(* ===== verification/Crypto.thy ===== *)
theory Crypto
  imports Base64
begin

unbundle bit_operations_syntax

text \<open>
  SHA-256, HMAC and the constant-time comparison of src/src/vm/runtime/stdlib/crypto/CryptoModule.cpp.
  The streaming implementation (a buffer of 64 bytes that is compressed when full) is shown to
  compute the compression of the padded message, and \<open>HmacSha256\<close> the nested hash of RFC 2104.
\<close>

section \<open>The compression function\<close>

record sha256_state =
  sha_hash :: "32 word list"
  sha_buffer :: "byte list"
  sha_bit_length :: "64 word"
  sha_buffer_size :: nat

text \<open>Two words written as one: the high half comes first.\<close>

definition two_words :: "64 word \<Rightarrow> 32 word list" where
  "two_words d = [ucast (drop_bit 32 d), ucast d]"

definition new_sha256 :: sha256_state where
  "new_sha256 = \<lparr>sha_hash = concat (map two_words [0x6a09e667bb67ae85, 0x3c6ef372a54ff53a, 0x510e527f9b05688c, 0x1f83d9ab5be0cd19]),
     sha_buffer = replicate 64 0, sha_bit_length = 0, sha_buffer_size = 0\<rparr>"

text \<open>The table \<open>Sha256Constants\<close>, two words at a time.\<close>

definition sha256_constants :: "32 word list" where
  "sha256_constants = concat (map two_words [
     0x428a2f9871374491, 0xb5c0fbcfe9b5dba5, 0x3956c25b59f111f1, 0x923f82a4ab1c5ed5,
     0xd807aa9812835b01, 0x243185be550c7dc3, 0x72be5d7480deb1fe, 0x9bdc06a7c19bf174,
     0xe49b69c1efbe4786, 0x0fc19dc6240ca1cc, 0x2de92c6f4a7484aa, 0x5cb0a9dc76f988da,
     0x983e5152a831c66d, 0xb00327c8bf597fc7, 0xc6e00bf3d5a79147, 0x06ca635114292967,
     0x27b70a852e1b2138, 0x4d2c6dfc53380d13, 0x650a7354766a0abb, 0x81c2c92e92722c85,
     0xa2bfe8a1a81a664b, 0xc24b8b70c76c51a3, 0xd192e819d6990624, 0xf40e3585106aa070,
     0x19a4c1161e376c08, 0x2748774c34b0bcb5, 0x391c0cb34ed8aa4a, 0x5b9cca4f682e6ff3,
     0x748f82ee78a5636f, 0x84c878148cc70208, 0x90befffaa4506ceb, 0xbef9a3f7c67178f2])"

definition rotate_right :: "32 word \<Rightarrow> nat \<Rightarrow> 32 word" where
  "rotate_right v n = drop_bit n v OR push_bit (32 - n) v"

definition message_word :: "byte list \<Rightarrow> nat \<Rightarrow> 32 word" where
  "message_word c i = push_bit 24 (ucast (c ! (i * 4))) OR push_bit 16 (ucast (c ! (i * 4 + 1)))
     OR push_bit 8 (ucast (c ! (i * 4 + 2))) OR ucast (c ! (i * 4 + 3))"

definition extend_schedule :: "nat \<Rightarrow> 32 word list \<Rightarrow> 32 word list" where
  "extend_schedule i w =
     (let s0 = rotate_right (w ! (i - 15)) 7 XOR rotate_right (w ! (i - 15)) 18 XOR drop_bit 3 (w ! (i - 15));
          s1 = rotate_right (w ! (i - 2)) 17 XOR rotate_right (w ! (i - 2)) 19 XOR drop_bit 10 (w ! (i - 2))
      in w[i := w ! (i - 16) + s0 + w ! (i - 7) + s1])"

definition message_schedule :: "byte list \<Rightarrow> 32 word list" where
  "message_schedule c = fold extend_schedule [16..<64]
     (fold (\<lambda>i w. w[i := message_word c i]) [0..<16] (replicate 64 0))"

type_synonym working = "32 word \<times> 32 word \<times> 32 word \<times> 32 word \<times> 32 word \<times> 32 word \<times> 32 word \<times> 32 word"

fun sha256_round :: "32 word \<Rightarrow> working \<Rightarrow> working" where
  "sha256_round kw (a, b, c, d, e, f, g, h) =
     (let s1 = rotate_right e 6 XOR rotate_right e 11 XOR rotate_right e 25;
          choice = (e AND f) XOR (NOT e AND g);
          temp1 = h + s1 + choice + kw;
          s0 = rotate_right a 2 XOR rotate_right a 13 XOR rotate_right a 22;
          majority = (a AND b) XOR (a AND c) XOR (b AND c);
          temp2 = s0 + majority
      in (temp1 + temp2, a, b, c, d + temp1, e, f, g))"

text \<open>What \<open>TransformSha256\<close> makes of the eight words of the hash; they are read and written by index.\<close>

definition compress :: "32 word list \<Rightarrow> byte list \<Rightarrow> 32 word list" where
  "compress hash c =
     (let w = message_schedule c in
      case fold (\<lambda>i. sha256_round (sha256_constants ! i + w ! i)) [0..<64]
             (hash ! 0, hash ! 1, hash ! 2, hash ! 3, hash ! 4, hash ! 5, hash ! 6, hash ! 7) of
        (a, b, c, d, e, f, g, h) \<Rightarrow>
          [hash ! 0 + a, hash ! 1 + b, hash ! 2 + c, hash ! 3 + d, hash ! 4 + e, hash ! 5 + f,
           hash ! 6 + g, hash ! 7 + h])"

definition transform_sha256 :: "sha256_state \<Rightarrow> sha256_state" where
  "transform_sha256 s = s\<lparr>sha_hash := compress (sha_hash s) (sha_buffer s)\<rparr>"

section \<open>Streaming\<close>

text \<open>\<open>state.buffer[state.bufferSize++] = byte\<close>.\<close>

definition put_byte :: "byte \<Rightarrow> sha256_state \<Rightarrow> sha256_state" where
  "put_byte b s = s\<lparr>sha_buffer := (sha_buffer s)[sha_buffer_size s := b],
     sha_buffer_size := Suc (sha_buffer_size s)\<rparr>"

definition update_byte :: "byte \<Rightarrow> sha256_state \<Rightarrow> sha256_state" where
  "update_byte b s = (let s1 = put_byte b s in
     if sha_buffer_size s1 = 64
     then (transform_sha256 s1)\<lparr>sha_bit_length := sha_bit_length s1 + 512, sha_buffer_size := 0\<rparr>
     else s1)"

definition update_sha256 :: "byte list \<Rightarrow> sha256_state \<Rightarrow> sha256_state" where
  "update_sha256 data s = fold update_byte data s"

text \<open>The loops that append zeros until the buffer holds \<open>n\<close> bytes.\<close>

definition put_zeros_until :: "nat \<Rightarrow> sha256_state \<Rightarrow> sha256_state" where
  "put_zeros_until n s = (put_byte 0 ^^ (n - sha_buffer_size s)) s"

definition put_bit_length :: "sha256_state \<Rightarrow> sha256_state" where
  "put_bit_length s = fold (\<lambda>i s. put_byte (ucast (drop_bit (i * 8) (sha_bit_length s) AND 0xFF)) s)
     (rev [0..<8]) s"

definition hash_bytes :: "32 word list \<Rightarrow> byte list" where
  "hash_bytes hash = concat (map (\<lambda>h. [ucast (drop_bit 24 h AND 0xFF), ucast (drop_bit 16 h AND 0xFF),
     ucast (drop_bit 8 h AND 0xFF), ucast (h AND 0xFF)]) hash)"

definition finalize_sha256 :: "sha256_state \<Rightarrow> byte list" where
  "finalize_sha256 s0 =
     (let s1 = put_byte 0x80 (s0\<lparr>sha_bit_length := sha_bit_length s0 + of_nat (sha_buffer_size s0) * 8\<rparr>);
          s2 = (if sha_buffer_size s1 > 56
                then (transform_sha256 (put_zeros_until 64 s1))\<lparr>sha_buffer_size := 0\<rparr> else s1)
      in hash_bytes (sha_hash (transform_sha256 (put_bit_length (put_zeros_until 56 s2)))))"

definition sha256 :: "byte list \<Rightarrow> byte list" where
  "sha256 data = finalize_sha256 (update_sha256 data new_sha256)"

text \<open>The copies into the 64 zeroed bytes of \<open>blockKey\<close>.\<close>

definition block_key :: "byte list \<Rightarrow> byte list" where
  "block_key key = (let k = if length key > 64 then sha256 key else key in k @ replicate (64 - length k) 0)"

definition hmac_sha256 :: "byte list \<Rightarrow> byte list \<Rightarrow> byte list" where
  "hmac_sha256 key data =
     (let inner_pad = map (\<lambda>b. b XOR 0x36) (block_key key);
          outer_pad = map (\<lambda>b. b XOR 0x5C) (block_key key);
          inner = finalize_sha256 (update_sha256 data (update_sha256 inner_pad new_sha256))
      in finalize_sha256 (update_sha256 inner (update_sha256 outer_pad new_sha256)))"

section \<open>Comparison in constant time\<close>

definition byte_or_zero :: "byte list \<Rightarrow> nat \<Rightarrow> byte" where
  "byte_or_zero s i = (if i < length s then s ! i else 0)"

definition constant_time_equal :: "byte list \<Rightarrow> byte list \<Rightarrow> bool" where
  "constant_time_equal l r =
     (fold (\<lambda>i diff. diff OR (byte_or_zero l i XOR byte_or_zero r i)) [0..<max (length l) (length r)]
        (ucast ((of_nat (length l) :: 64 word) XOR of_nat (length r))) = 0)"

section \<open>Streaming computes the hash of the padded message\<close>

text \<open>The reference: the message, the bit 1, zeros, and the length in bits as eight bytes.\<close>

fun blocks64 :: "byte list \<Rightarrow> byte list list" where
  "blocks64 xs = (if length xs < 64 then [] else take 64 xs # blocks64 (drop 64 xs))"

declare blocks64.simps [simp del]

definition big_endian64 :: "64 word \<Rightarrow> byte list" where
  "big_endian64 n = map (\<lambda>i. ucast (drop_bit (i * 8) n)) [7, 6, 5, 4, 3, 2, 1, 0]"

definition padded :: "byte list \<Rightarrow> byte list" where
  "padded m = m @ 0x80 # replicate ((119 - length m mod 64) mod 64) 0 @ big_endian64 (of_nat (8 * length m))"

definition padded_hash :: "byte list \<Rightarrow> byte list" where
  "padded_hash m = hash_bytes (foldl compress (sha_hash new_sha256) (blocks64 (padded m)))"

lemma blocks64_full: "\<forall>b \<in> set bs. length b = 64 \<Longrightarrow> blocks64 (concat bs @ xs) = bs @ blocks64 xs"
  by (induction bs) (simp_all add: blocks64.simps [of "_ @ _"])

lemma length_full: "\<forall>b \<in> set bs. length b = 64 \<Longrightarrow> length (concat bs) = 64 * length bs"
  by (induction bs) auto

text \<open>The used part of the buffer.\<close>

definition holds :: "sha256_state \<Rightarrow> byte list \<Rightarrow> bool" where
  "holds s xs \<longleftrightarrow> length (sha_buffer s) = 64 \<and> sha_buffer_size s = length xs \<and> length xs \<le> 64 \<and>
     take (length xs) (sha_buffer s) = xs"

lemma holds_put: "holds s xs \<Longrightarrow> length xs < 64 \<Longrightarrow> holds (put_byte b s) (xs @ [b])"
  by (auto simp: holds_def put_byte_def take_Suc_conv_app_nth)

lemma put_byte_simps [simp]:
  "sha_hash (put_byte b s) = sha_hash s" "sha_bit_length (put_byte b s) = sha_bit_length s"
  by (simp_all add: put_byte_def)

lemma holds_zeros: "holds s xs \<Longrightarrow> length xs + n \<le> 64 \<Longrightarrow>
  holds ((put_byte 0 ^^ n) s) (xs @ replicate n 0) \<and> sha_hash ((put_byte 0 ^^ n) s) = sha_hash s \<and>
  sha_bit_length ((put_byte 0 ^^ n) s) = sha_bit_length s"
proof (induction n)
  case (Suc n)
  then show ?case
    using holds_put [of "(put_byte 0 ^^ n) s" "xs @ replicate n 0" 0]
    by (simp add: replicate_append_same [symmetric])
qed simp

lemma holds_zeros_until:
  assumes "holds s xs" "length xs \<le> n" "n \<le> 64"
  shows "holds (put_zeros_until n s) (xs @ replicate (n - length xs) 0)"
    and "sha_hash (put_zeros_until n s) = sha_hash s"
    and "sha_bit_length (put_zeros_until n s) = sha_bit_length s"
  using holds_zeros [OF assms(1), of "n - length xs"] assms
  by (simp_all add: put_zeros_until_def holds_def)

lemma holds_puts: "holds s xs \<Longrightarrow> length xs + length bs \<le> 64 \<Longrightarrow>
  holds (fold put_byte bs s) (xs @ bs) \<and> sha_hash (fold put_byte bs s) = sha_hash s"
proof (induction bs arbitrary: s xs)
  case (Cons b bs)
  from Cons.IH [OF holds_put [OF Cons.prems(1), of b]] Cons.prems(2) show ?case by simp
qed simp

lemma put_bit_length_puts: "put_bit_length s = fold put_byte (big_endian64 (sha_bit_length s)) s"
proof -
  have *: "rev [0..<8] = [7, 6, 5, 4, 3, 2, 1, 0::nat]" by (simp add: upt_rec)
  have m: "(0xFF :: 64 word) = mask 8" by (simp add: mask_eq_exp_minus_1)
  have "ucast (drop_bit i w AND 0xFF) = (ucast (drop_bit i w) :: byte)" for i and w :: "64 word"
    unfolding m by (rule bit_word_eqI) (auto simp: bit_simps)
  then show ?thesis unfolding put_bit_length_def * big_endian64_def by simp
qed

lemma holds_bit_length:
  assumes "holds s xs" "length xs = 56"
  shows "holds (put_bit_length s) (xs @ big_endian64 (sha_bit_length s))"
    and "sha_hash (put_bit_length s) = sha_hash s"
  using holds_puts [OF assms(1), of "big_endian64 (sha_bit_length s)"] assms(2)
  by (simp_all add: put_bit_length_puts big_endian64_def)

lemma holds_transform: "holds s xs \<Longrightarrow> length xs = 64 \<Longrightarrow> sha_hash (transform_sha256 s) = compress (sha_hash s) xs"
  by (clarsimp simp: holds_def transform_sha256_def)

text \<open>After some bytes: the full blocks are compressed, the rest is in the buffer.\<close>

definition absorbed :: "byte list \<Rightarrow> sha256_state \<Rightarrow> bool" where
  "absorbed m s \<longleftrightarrow> (\<exists>bs r. m = concat bs @ r \<and> (\<forall>b \<in> set bs. length b = 64) \<and> length r < 64 \<and> holds s r \<and>
     sha_hash s = foldl compress (sha_hash new_sha256) bs \<and> sha_bit_length s = of_nat (512 * length bs))"

lemma absorbed_byte: "absorbed m s \<Longrightarrow> absorbed (m @ [b]) (update_byte b s)"
proof -
  assume "absorbed m s"
  then obtain bs r where m: "m = concat bs @ r" "\<forall>b \<in> set bs. length b = 64" "length r < 64" "holds s r"
    "sha_hash s = foldl compress (sha_hash new_sha256) bs" "sha_bit_length s = of_nat (512 * length bs)"
    unfolding absorbed_def by blast
  note put = holds_put [OF m(4,3), of b]
  show ?thesis
  proof (cases "length r = 63")
    case True
    with put m have "m @ [b] = concat (bs @ [r @ [b]]) @ []" "\<forall>b \<in> set (bs @ [r @ [b]]). length b = 64"
      "holds (update_byte b s) []" "sha_hash (update_byte b s) = foldl compress (sha_hash new_sha256) (bs @ [r @ [b]])"
      "sha_bit_length (update_byte b s) = of_nat (512 * length (bs @ [r @ [b]]))"
      by (auto simp: update_byte_def Let_def holds_def transform_sha256_def put_byte_def)
    then show ?thesis unfolding absorbed_def by (metis length_0_conv zero_less_numeral)
  next
    case False
    with put m show ?thesis
      unfolding absorbed_def
      by (intro exI [of _ bs] exI [of _ "r @ [b]"]) (auto simp: update_byte_def Let_def holds_def)
  qed
qed

lemma absorbed_update: "absorbed m s \<Longrightarrow> absorbed (m @ data) (update_sha256 data s)"
proof (induction data arbitrary: m s)
  case (Cons b data)
  from Cons.IH [OF absorbed_byte [OF Cons.prems, of b]] show ?case by (simp add: update_sha256_def)
qed (simp add: update_sha256_def)

lemma absorbed_new: "absorbed [] new_sha256"
  by (auto simp: absorbed_def holds_def new_sha256_def intro!: exI [of _ "[]"])

text \<open>What the padding makes of the last, incomplete block: one block or two.\<close>

definition pad_tail :: "nat \<Rightarrow> 64 word \<Rightarrow> byte list" where
  "pad_tail r n = 0x80 # replicate ((119 - r) mod 64) 0 @ big_endian64 n"

lemma length_big_endian64 [simp]: "length (big_endian64 n) = 8"
  by (simp add: big_endian64_def)

lemma pad_tail_short:
  assumes "length r < 56"
  shows "blocks64 (r @ pad_tail (length r) n) = [(r @ [0x80]) @ replicate (56 - length (r @ [0x80])) 0 @ big_endian64 n]"
  using assms by (simp add: blocks64.simps pad_tail_def mod_if) arith

lemma pad_tail_long:
  assumes "56 \<le> length r" "length r < 64"
  shows "blocks64 (r @ pad_tail (length r) n) =
    [r @ 0x80 # replicate (63 - length r) 0, replicate 56 0 @ big_endian64 n]" (is "_ = ?two")
proof -
  from assms have "(119 - length r) mod 64 = (63 - length r) + 56" by simp
  then have "replicate ((119 - length r) mod 64) (0::byte) = replicate (63 - length r) 0 @ replicate 56 0"
    by (simp only: replicate_add)
  then have e: "r @ pad_tail (length r) n = concat ?two @ []" by (simp add: pad_tail_def)
  have "\<forall>b \<in> set ?two. length b = 64" using assms by simp
  from blocks64_full [OF this, of "[]"] show ?thesis
    unfolding e by (simp only: blocks64.simps [of "[]"] list.size append_Nil2 zero_less_numeral if_True)
qed

lemma finalize_absorbed:
  assumes "absorbed m s"
  shows "finalize_sha256 s = padded_hash m"
proof -
  from assms obtain bs r where m: "m = concat bs @ r" "\<forall>b \<in> set bs. length b = 64" "length r < 64" "holds s r"
    "sha_hash s = foldl compress (sha_hash new_sha256) bs" "sha_bit_length s = of_nat (512 * length bs)"
    unfolding absorbed_def by blast
  let ?n = "of_nat (8 * length m) :: 64 word"
  define s1 where "s1 = put_byte 0x80 (s\<lparr>sha_bit_length := sha_bit_length s + of_nat (sha_buffer_size s) * 8\<rparr>)"
  define s2 where "s2 = (if sha_buffer_size s1 > 56
    then (transform_sha256 (put_zeros_until 64 s1))\<lparr>sha_buffer_size := 0\<rparr> else s1)"
  have "holds (s\<lparr>sha_bit_length := sha_bit_length s + of_nat (sha_buffer_size s) * 8\<rparr>) r"
    using m(4) by (simp add: holds_def)
  from holds_put [OF this m(3)] have h1: "holds s1 (r @ [0x80])" by (simp add: s1_def)
  have len: "length m = 64 * length bs + length r" "length m mod 64 = length r"
    using m(1-3) by (simp_all add: length_full)
  have n1: "sha_hash s1 = sha_hash s" "sha_bit_length s1 = ?n" "sha_buffer_size s1 = Suc (length r)"
    using m(4,6) len(1) h1 by (simp_all add: s1_def holds_def algebra_simps)
  have "padded m = concat bs @ r @ pad_tail (length r) ?n"
    unfolding padded_def len(2) pad_tail_def by (subst (1) m(1)) simp
  then have pad: "blocks64 (padded m) = bs @ blocks64 (r @ pad_tail (length r) ?n)"
    using blocks64_full [OF m(2)] by simp
  have last: "finalize_sha256 s = hash_bytes (compress (sha_hash s2) (x @ replicate (56 - length x) 0 @ big_endian64 ?n))"
    if x: "holds s2 x" "length x \<le> 56" "sha_bit_length s2 = ?n" for x
  proof -
    note z = holds_zeros_until [OF x(1,2)]
    from holds_bit_length [OF z(1)] x(2,3) z(2,3) show ?thesis
      by (simp add: finalize_sha256_def s1_def [symmetric] s2_def [symmetric] Let_def holds_transform)
  qed
  show ?thesis
  proof (cases "length r < 56")
    case True
    with last [of "r @ [0x80]"] h1 n1 m(5) pad pad_tail_short [OF True] show ?thesis
      by (simp add: padded_hash_def s2_def)
  next
    case False
    from holds_zeros_until [OF h1, of 64] m(3) have z: "holds (put_zeros_until 64 s1) (r @ 0x80 # replicate (63 - length r) 0)"
      "sha_hash (put_zeros_until 64 s1) = sha_hash s1" "sha_bit_length (put_zeros_until 64 s1) = sha_bit_length s1"
      by simp_all
    from holds_transform [OF z(1)] z m(3) False have "holds s2 []" "sha_bit_length s2 = ?n"
      "sha_hash s2 = compress (sha_hash s) (r @ 0x80 # replicate (63 - length r) 0)"
      by (simp_all add: s2_def holds_def transform_sha256_def n1)
    with last [of "[]"] m(3,5) pad pad_tail_long [of r] False show ?thesis by (simp add: padded_hash_def)
  qed
qed

lemma sha256_padded: "finalize_sha256 (update_sha256 data (update_sha256 pre new_sha256)) = padded_hash (pre @ data)"
  using finalize_absorbed [OF absorbed_update [OF absorbed_update [OF absorbed_new]]] by simp

lemma sha256_is_padded_hash: "sha256 m = padded_hash m"
  using sha256_padded [of m "[]"] by (simp add: sha256_def update_sha256_def)

text \<open>C36: \<open>HmacSha256\<close>, with its streaming SHA-256 over a 64-byte buffer, computes the HMAC of RFC 2104
  over the hash of the padded message: a key of more than 64 bytes is hashed first, and the
  length appended to a message is its length in bits modulo 2^64.\<close>
theorem hmac_is_nested_hash:
  "hmac_sha256 key data =
    (let k = (if length key > 64 then padded_hash key else key);
         pad = (\<lambda>c. map (\<lambda>b. b XOR c) (k @ replicate (64 - length k) 0))
     in padded_hash (pad 0x5C @ padded_hash (pad 0x36 @ data)))"
  by (simp add: hmac_sha256_def block_key_def sha256_padded sha256_is_padded_hash Let_def)

section \<open>What the comparison compares\<close>

lemma fold_or: "fold (\<lambda>i d. d OR f i) xs d0 = (0 :: 'a::len word) \<longleftrightarrow> d0 = 0 \<and> (\<forall>i \<in> set xs. f i = 0)"
  by (induction xs arbitrary: d0) (auto simp: or_eq_0_iff)

lemma xor_eq_0: "(a :: 'a::len word) XOR b = 0 \<longleftrightarrow> a = b"
  by (metis xor_self_eq xor.right_neutral xor.assoc)

lemma constant_time_equal_iff:
  "constant_time_equal l r \<longleftrightarrow>
    (ucast (of_nat (length l) :: 64 word) :: byte) = ucast (of_nat (length r) :: 64 word) \<and>
    (\<forall>i < max (length l) (length r). byte_or_zero l i = byte_or_zero r i)"
proof -
  have "(ucast (a XOR b) :: byte) = ucast a XOR ucast b" for a b :: "64 word"
    by (rule bit_word_eqI) (auto simp: bit_simps)
  then show ?thesis
    by (simp add: constant_time_equal_def fold_or xor_eq_0 Ball_def)
qed

text \<open>For strings shorter than 256 bytes it is equality.\<close>
theorem constant_time_equal_short:
  assumes "length l < 256" "length r < 256"
  shows "constant_time_equal l r \<longleftrightarrow> l = r"
proof
  assume "constant_time_equal l r"
  then have c: "(ucast (of_nat (length l) :: 64 word) :: byte) = ucast (of_nat (length r) :: 64 word)"
    "\<forall>i < max (length l) (length r). byte_or_zero l i = byte_or_zero r i"
    by (simp_all add: constant_time_equal_iff)
  from arg_cong [OF c(1), of unat] assms have "length l = length r"
    by (simp add: unsigned_ucast_eq unat_of_nat take_bit_eq_mod)
  with c(2) show "l = r" by (intro nth_equalityI) (auto simp: byte_or_zero_def)
qed (simp add: constant_time_equal_iff)

text \<open>The lengths are compared modulo 256, and missing bytes count as zero.\<close>
theorem zero_bytes_go_unnoticed: "constant_time_equal s (s @ replicate 256 0)"
proof -
  have "(ucast (of_nat (length s + 256) :: 64 word) :: byte) = ucast (of_nat (length s) :: 64 word)"
    by (rule word_unat_eq_iff [THEN iffD2])
      (simp add: unsigned_ucast_eq unat_of_nat take_bit_eq_mod mod_mod_cancel del: of_nat_add)
  then show ?thesis
    by (auto simp: constant_time_equal_iff byte_or_zero_def nth_append)
qed

end
