(* ===== verification/TextModule.thy ===== *)
theory TextModule
  imports CoreModule Base64 Crypto
begin

text \<open>
  The modules of strings and maps (src/src/vm/runtime/stdlib/string/StringModule.cpp and
  src/src/vm/runtime/stdlib/map/MapModule.cpp) and the native functions of base64 and crypto. Splitting a
  string and joining the pieces with the delimiter gives the string back.
\<close>

section \<open>Strings\<close>

definition text_len :: native where
  "text_len args = with_string (args ! 0) ''std.text.len expects a string'' (\<lambda>s. ret (vint (int (length s))))"

definition text_concat :: native where
  "text_concat args = with_string (args ! 0) ''std.text.concat expects a string lhs'' (\<lambda>l.
     with_string (args ! 1) ''std.text.concat expects a string rhs'' (\<lambda>r. ret (vstr (l @ r))))"

definition text_contains :: native where
  "text_contains args = with_string (args ! 0) ''std.text.contains expects a string haystack'' (\<lambda>s.
     with_string (args ! 1) ''std.text.contains expects a string needle'' (\<lambda>n.
       ret (VBool (find_text s n 0 \<noteq> None))))"

text \<open>\<open>rfind(prefix, 0) == 0\<close>: the last occurrence at a position that is at most 0.\<close>

definition text_starts_with :: native where
  "text_starts_with args = with_string (args ! 0) ''std.text.starts_with expects a string haystack'' (\<lambda>s.
     with_string (args ! 1) ''std.text.starts_with expects a string prefix'' (\<lambda>p.
       ret (VBool (take (length p) s = p))))"

definition text_index_of :: native where
  "text_index_of args = with_string (args ! 0) ''std.text.index_of expects a string haystack'' (\<lambda>s.
     with_string (args ! 1) ''std.text.index_of expects a string needle'' (\<lambda>n.
       ret (vint (case find_text s n 0 of Some i \<Rightarrow> int i | None \<Rightarrow> - 1))))"

text \<open>The third argument of \<open>substr\<close> is cut to what the string has.\<close>

definition text_slice :: native where
  "text_slice args = with_string (args ! 0) ''std.text.slice expects a string'' (\<lambda>s.
     bindE (lift_out (as_int64 (args ! 1))) (\<lambda>start.
     bindE (lift_out (as_int64 (args ! 2))) (\<lambda>n.
     if start < 0 \<or> n < 0 \<or> int (length s) < start
     then native_fail ''std.text.slice expects valid start and length''
     else ret (vstr (take (nat n) (drop (nat start) s))))))"

lemma find_from_some:
  "find_from n s i = Some p \<Longrightarrow> \<exists>k. p = i + k \<and> k + length n \<le> length s \<and> take (length n) (drop k s) = n"
proof (induction n s i rule: find_from.induct)
  case (2 n c s i)
  show ?case
  proof (cases "take (length n) (c # s) = n")
    case True
    then have "length n \<le> length (c # s)" by (metis length_take min.cobounded1)
    with 2 True show ?thesis by (intro exI [of _ 0]) simp
  next
    case False
    with 2 obtain k where "p = Suc i + k \<and> k + length n \<le> length s \<and> take (length n) (drop k s) = n" by auto
    then show ?thesis by (intro exI [of _ "Suc k"]) simp
  qed
qed (simp split: if_splits)

lemma find_text_some:
  assumes "find_text s n i = Some p"
  shows "i \<le> p" "p + length n \<le> length s" "take (length n) (drop p s) = n"
proof -
  from assms have i: "i \<le> length s" "find_from n (drop i s) i = Some p"
    by (auto simp: find_text_def split: if_splits)
  from find_from_some [OF i(2)] obtain k where k: "p = i + k" "k + length n \<le> length (drop i s)"
    "take (length n) (drop k (drop i s)) = n" by blast
  from k i(1) show "i \<le> p" "p + length n \<le> length s" "take (length n) (drop p s) = n"
    by (simp_all add: add.commute)
qed

text \<open>The loop of \<open>split\<close>; the cursor moves by the delimiter's length, which is not 0.\<close>

function split_from :: "string \<Rightarrow> string \<Rightarrow> nat \<Rightarrow> string list" where
  "split_from s d cursor = (if d = [] then [] else
     case find_text s d cursor of
       None \<Rightarrow> [drop cursor s]
     | Some pos \<Rightarrow> take (pos - cursor) (drop cursor s) # split_from s d (pos + length d))"
  by pat_completeness auto
termination
proof (relation "measure (\<lambda>(s, d, c). Suc (length s) - c)")
  fix s d :: string and c pos
  assume "d \<noteq> []" "find_text s d c = Some pos"
  with find_text_some [of s d c pos] show "((s, d, pos + length d), s, d, c) \<in> measure (\<lambda>(s, d, c). Suc (length s) - c)"
    by (cases d) auto
qed simp

declare split_from.simps [simp del]

definition split_text :: "string \<Rightarrow> string \<Rightarrow> string list" where
  "split_text s d = (if d = [] then map (\<lambda>c. [c]) s else split_from s d 0)"

definition text_split :: native where
  "text_split args = with_string (args ! 0) ''std.text.split expects a string value'' (\<lambda>s.
     with_string (args ! 1) ''std.text.split expects a string delimiter'' (\<lambda>d.
       new_array (map vstr (split_text s d))))"

definition text_to_string :: native where
  "text_to_string args = bindE (reads heap) (\<lambda>h. bindE (lift_out (to_string h (args ! 0))) (\<lambda>t. ret (vstr t)))"

definition text_to_int :: native where
  "text_to_int args = convert_to_int (args ! 0) ''std.text''"

definition text_to_float :: native where
  "text_to_float args = convert_to_float (args ! 0) ''std.text''"

definition text_to_bool :: native where
  "text_to_bool args = convert_to_bool (args ! 0) ''std.text''"

section \<open>Maps\<close>

definition map_entries :: "value \<Rightarrow> vm_state \<Rightarrow> (nat \<times> (string \<times> value \<times> value) list) option" where
  "map_entries v s = (case v of
       VRef k a \<Rightarrow> (case heap s a of
           Some (Obj_Map es) \<Rightarrow> if k = K_Map then Some (a, es) else None
         | _ \<Rightarrow> None)
     | _ \<Rightarrow> None)"

definition with_map :: "value \<Rightarrow> string \<Rightarrow> (nat \<Rightarrow> (string \<times> value \<times> value) list \<Rightarrow> value vm_proc) \<Rightarrow> value vm_proc" where
  "with_map v m f = (\<lambda>s. case map_entries v s of Some (a, es) \<Rightarrow> f a es s | None \<Rightarrow> native_fail m s)"

definition map_new :: native where
  "map_new args = bindE (new_object (Obj_Map [])) (\<lambda>a. ret (VRef K_Map a))"

definition map_len :: native where
  "map_len args = with_map (args ! 0) ''std.map.len expects a map'' (\<lambda>a es. ret (vint (int (length es))))"

text \<open>\<open>RequireMap\<close> and \<open>EncodeMapKey\<close> are both evaluated; each that fails raises its error.\<close>

definition with_map_key ::
    "value \<Rightarrow> string \<Rightarrow> value \<Rightarrow> string \<Rightarrow> (nat \<Rightarrow> (string \<times> value \<times> value) list \<Rightarrow> string \<Rightarrow> value vm_proc) \<Rightarrow>
      value vm_proc" where
  "with_map_key v m k n f = (\<lambda>s. case map_entries v s of
       Some (a, es) \<Rightarrow> (case encode_map_key k of Some e \<Rightarrow> f a es e s | None \<Rightarrow> native_fail n s)
     | None \<Rightarrow> seqE (raise_error m) (case encode_map_key k of Some e \<Rightarrow> ret VNull | None \<Rightarrow> native_fail n) s)"

definition map_has :: native where
  "map_has args = with_map_key (args ! 0) ''std.map.has expects a map'' (args ! 1)
     ''std.map.has expects string, int, or bool keys'' (\<lambda>a es k. ret (VBool (map_of es k \<noteq> None)))"

definition map_delete :: native where
  "map_delete args = with_map_key (args ! 0) ''std.map.delete expects a map'' (args ! 1)
     ''std.map.delete expects string, int, or bool keys'' (\<lambda>a es k.
       seqE (store_object a (Obj_Map (AList.delete k es))) (ret (VBool (map_of es k \<noteq> None))))"

text \<open>The order of an unordered map is the order of the association list.\<close>

definition map_keys :: native where
  "map_keys args = with_map (args ! 0) ''std.map.keys expects a map'' (\<lambda>a es. new_array (map (fst \<circ> snd) es))"

definition map_values :: native where
  "map_values args = with_map (args ! 0) ''std.map.values expects a map'' (\<lambda>a es. new_array (map (snd \<circ> snd) es))"

section \<open>Codecs\<close>

text \<open>\<open>MakeDecodeResult\<close>.\<close>

definition decode_result :: "string + string \<Rightarrow> value vm_proc" where
  "decode_result r = new_array (case r of
       Inl e \<Rightarrow> [VBool False, vstr [], vstr e] | Inr out \<Rightarrow> [VBool True, vstr out, vstr []])"

definition base64_try_url_decode :: native where
  "base64_try_url_decode args = with_string (args ! 0) ''std.base64.try_url_decode expects a string'' (\<lambda>s.
     decode_result (decode_base64url s))"

definition bytes_of :: "string \<Rightarrow> byte list" where
  "bytes_of s = map byte_of_char s"

definition crypto_hmac :: native where
  "crypto_hmac args = with_two_strings
     (args ! 0) ''std.crypto.hmac_sha256_base64url expects a string key''
     (args ! 1) ''std.crypto.hmac_sha256_base64url expects a string payload'' (\<lambda>key data.
       ret (vstr (base64url_encode (hmac_sha256 (bytes_of key) (bytes_of data)))))"

definition crypto_constant_time_equal :: native where
  "crypto_constant_time_equal args = with_two_strings
     (args ! 0) ''std.crypto.constant_time_equal expects a string''
     (args ! 1) ''std.crypto.constant_time_equal expects a string'' (\<lambda>l r.
       ret (VBool (constant_time_equal (bytes_of l) (bytes_of r))))"

end
