(* ===== verification/Json.thy ===== *)
theory Json
  imports Natives
begin

text \<open>
  The JSON module (src/src/vm/runtime/stdlib/json/JsonModuleParser.cpp, JsonModule.cpp and
  JsonModuleInstall.cpp): a parser that checks a text and rewrites it without white space, the lookup of a
  top-level field, and the quoting of strings. The position in the source is the text that
  remains. Values nest, so the parser takes fuel; \<open>parsing_returns\<close> (in \<open>JsonProps\<close>) says that
  twice the length of the text and one is enough.
\<close>

section \<open>Tokens\<close>

abbreviation (input) quote_char :: char where
  "quote_char \<equiv> CHR 0x22"

abbreviation (input) backslash :: char where
  "backslash \<equiv> CHR 0x5C"

definition is_control :: "char \<Rightarrow> bool" where
  "is_control c = ((of_char c :: nat) < 32)"

definition skip_whitespace :: "string \<Rightarrow> string" where
  "skip_whitespace s = dropWhile is_space s"

definition consume :: "char \<Rightarrow> string \<Rightarrow> string option" where
  "consume c s = (case s of [] \<Rightarrow> None | d # t \<Rightarrow> if d = c then Some t else None)"

text \<open>
  What follows a backslash: the raw characters of the escape, the character it stands for and the
  rest. An escape by code point stands for a question mark.
\<close>

definition escape_value :: "char \<Rightarrow> char option" where
  "escape_value c =
     (if c = quote_char \<or> c = backslash \<or> c = CHR ''/'' then Some c
      else if c = CHR ''b'' then Some (CHR 0x08)
      else if c = CHR ''f'' then Some (CHR 0x0C)
      else if c = CHR ''n'' then Some (CHR 0x0A)
      else if c = CHR ''r'' then Some (CHR 0x0D)
      else if c = CHR ''t'' then Some (CHR 0x09)
      else None)"

definition read_escape :: "string \<Rightarrow> (string \<times> char \<times> string) option" where
  "read_escape s = (case s of [] \<Rightarrow> None
     | e # r \<Rightarrow> (case escape_value e of
         Some v \<Rightarrow> Some ([e], v, r)
       | None \<Rightarrow> if e = CHR ''u'' \<and> 4 \<le> length r \<and> list_all is_hex (take 4 r)
           then Some (e # take 4 r, CHR ''?'', drop 4 r) else None))"

lemma read_escape_shorter: "read_escape s = Some (raw, v, r) \<Longrightarrow> length r < length s"
  by (auto simp: read_escape_def split: list.splits option.splits if_splits)

text \<open>The loops of \<open>ParseStringToken\<close> and \<open>ParseStringValue\<close> behind the opening quote.\<close>

function token_tail :: "string \<Rightarrow> (string \<times> string) option" where
  "token_tail [] = None"
| "token_tail (c # s) =
     (if c = quote_char then Some ([c], s)
      else if c = backslash then
        (case read_escape s of None \<Rightarrow> None
         | Some (raw, v, r) \<Rightarrow> map_option (\<lambda>(t, u). (c # raw @ t, u)) (token_tail r))
      else if is_control c then None
      else map_option (\<lambda>(t, u). (c # t, u)) (token_tail s))"
  by pat_completeness auto
termination by (relation "measure length") (auto dest: read_escape_shorter)

function value_tail :: "string \<Rightarrow> (string \<times> string) option" where
  "value_tail [] = None"
| "value_tail (c # s) =
     (if c = quote_char then Some ([], s)
      else if c = backslash then
        (case read_escape s of None \<Rightarrow> None
         | Some (raw, v, r) \<Rightarrow> map_option (\<lambda>(t, u). (v # t, u)) (value_tail r))
      else if is_control c then None
      else map_option (\<lambda>(t, u). (c # t, u)) (value_tail s))"
  by pat_completeness auto
termination by (relation "measure length") (auto dest: read_escape_shorter)

definition parse_string_token :: "string \<Rightarrow> (string \<times> string) option" where
  "parse_string_token s = (case consume quote_char s of None \<Rightarrow> None
     | Some r \<Rightarrow> map_option (\<lambda>(t, u). (quote_char # t, u)) (token_tail r))"

definition parse_string_value :: "string \<Rightarrow> (string \<times> string) option" where
  "parse_string_value s = (case consume quote_char s of None \<Rightarrow> None | Some r \<Rightarrow> value_tail r)"

definition parse_literal :: "string \<Rightarrow> string \<Rightarrow> string option" where
  "parse_literal lit s = (if take (length lit) s = lit then Some (drop (length lit) s) else None)"

text \<open>The parts of \<open>ParseNumber\<close>; each gives what remains.\<close>

definition starts_with_digit :: "string \<Rightarrow> bool" where
  "starts_with_digit s = (case s of [] \<Rightarrow> False | c # t \<Rightarrow> is_digit c)"

definition some_digits :: "string \<Rightarrow> string option" where
  "some_digits s = (if starts_with_digit s then Some (dropWhile is_digit s) else None)"

definition number_integer :: "string \<Rightarrow> string option" where
  "number_integer s = (case consume (CHR ''0'') s of
       Some t \<Rightarrow> if starts_with_digit t then None else Some t
     | None \<Rightarrow> some_digits s)"

definition number_fraction :: "string \<Rightarrow> string option" where
  "number_fraction s = (case consume (CHR ''.'') s of Some t \<Rightarrow> some_digits t | None \<Rightarrow> Some s)"

definition number_exponent :: "string \<Rightarrow> string option" where
  "number_exponent s = (case s of
       [] \<Rightarrow> Some []
     | c # t \<Rightarrow> if c = CHR ''e'' \<or> c = CHR ''E''
         then some_digits (case t of [] \<Rightarrow> []
           | d # u \<Rightarrow> if d = CHR ''+'' \<or> d = CHR ''-'' then u else t)
         else Some s)"

definition after_number :: "string \<Rightarrow> string option" where
  "after_number s = (case (case consume (CHR ''-'') s of
         Some t \<Rightarrow> if t = [] then None else number_integer t
       | None \<Rightarrow> number_integer s) of
     None \<Rightarrow> None
   | Some t \<Rightarrow> (case number_fraction t of None \<Rightarrow> None | Some u \<Rightarrow> number_exponent u))"

definition parse_number :: "string \<Rightarrow> (string \<times> string) option" where
  "parse_number s = map_option (\<lambda>r. (take (length s - length r) s, r)) (after_number s)"

section \<open>Values\<close>

datatype parse = Parsed string string | Rejected | Parse_Fuel

definition parse_of :: "(string \<times> string) option \<Rightarrow> parse" where
  "parse_of r = (case r of None \<Rightarrow> Rejected | Some (c, t) \<Rightarrow> Parsed c t)"

definition literal_of :: "string \<Rightarrow> string \<Rightarrow> parse" where
  "literal_of lit s = (case parse_literal lit s of None \<Rightarrow> Rejected | Some t \<Rightarrow> Parsed lit t)"

text \<open>
  \<open>parse_elements\<close> and \<open>parse_members\<close> are the loops of \<open>ParseArray\<close> and \<open>ParseObject\<close>; \<open>acc\<close> is the
  compact text so far, with the comma that separates it from what follows.
\<close>

fun parse_value :: "nat \<Rightarrow> string \<Rightarrow> parse"
  and parse_elements :: "nat \<Rightarrow> bool \<Rightarrow> string \<Rightarrow> string \<Rightarrow> parse"
  and parse_members :: "nat \<Rightarrow> bool \<Rightarrow> string \<Rightarrow> string \<Rightarrow> parse" where
  "parse_value 0 s = Parse_Fuel"
| "parse_value (Suc n) s = (let t = skip_whitespace s in case t of
       [] \<Rightarrow> Rejected
     | c # r \<Rightarrow>
         if c = CHR ''{'' then (let u = skip_whitespace r in
           case consume (CHR ''}'') u of Some v \<Rightarrow> Parsed ''{}'' v | None \<Rightarrow> parse_members n True ''{'' u)
         else if c = CHR ''['' then (let u = skip_whitespace r in
           case consume (CHR '']'') u of Some v \<Rightarrow> Parsed ''[]'' v | None \<Rightarrow> parse_elements n True ''['' u)
         else if c = quote_char then parse_of (parse_string_token t)
         else if c = CHR ''t'' then literal_of ''true'' t
         else if c = CHR ''f'' then literal_of ''false'' t
         else if c = CHR ''n'' then literal_of ''null'' t
         else if c = CHR ''-'' \<or> is_digit c then parse_of (parse_number t)
         else Rejected)"
| "parse_elements 0 first acc s = Parse_Fuel"
| "parse_elements (Suc n) first acc s = (case parse_value n s of
       Parsed v r \<Rightarrow> (let acc' = acc @ (if first then [] else '','') @ v; u = skip_whitespace r in
         case consume (CHR '']'') u of
           Some w \<Rightarrow> Parsed (acc' @ '']'') w
         | None \<Rightarrow> (case consume (CHR '','') u of
             None \<Rightarrow> Rejected
           | Some w \<Rightarrow> parse_elements n False acc' (skip_whitespace w)))
     | p \<Rightarrow> p)"
| "parse_members 0 first acc s = Parse_Fuel"
| "parse_members (Suc n) first acc s = (case parse_string_token s of
       None \<Rightarrow> Rejected
     | Some (key, r) \<Rightarrow> (case consume (CHR '':'') (skip_whitespace r) of
         None \<Rightarrow> Rejected
       | Some r' \<Rightarrow> (case parse_value n (skip_whitespace r') of
           Parsed v r'' \<Rightarrow>
             (let acc' = acc @ (if first then [] else '','') @ key @ '':'' @ v; u = skip_whitespace r'' in
              case consume (CHR ''}'') u of
                Some w \<Rightarrow> Parsed (acc' @ ''}'') w
              | None \<Rightarrow> (case consume (CHR '','') u of
                  None \<Rightarrow> Rejected
                | Some w \<Rightarrow> parse_members n False acc' (skip_whitespace w)))
         | p \<Rightarrow> p)))"

definition json_fuel :: "string \<Rightarrow> nat" where
  "json_fuel s = 2 * length s + 1"

definition parse_compact_json :: "string \<Rightarrow> string option" where
  "parse_compact_json s = (case parse_value (json_fuel s) s of
       Parsed c r \<Rightarrow> if skip_whitespace r = [] then Some c else None
     | _ \<Rightarrow> None)"

text \<open>The cache of results; \<open>emplace\<close> keeps an entry that another thread added meanwhile.\<close>

type_synonym json_cache = "(string \<times> string option) list"

definition lookup_compact_json :: "string \<Rightarrow> json_cache \<Rightarrow> string option \<times> json_cache" where
  "lookup_compact_json s cache = (case map_of cache s of
       Some e \<Rightarrow> (e, cache)
     | None \<Rightarrow> (let c = emplace s (parse_compact_json s) cache in (the (map_of c s), c)))"

section \<open>Fields and strings\<close>

text \<open>The loop of \<open>LookupObjectField\<close>: the raw value of the first field with the name.\<close>

fun lookup_members :: "nat \<Rightarrow> string \<Rightarrow> string \<Rightarrow> string option" where
  "lookup_members 0 name s = None"
| "lookup_members (Suc n) name s = (case parse_string_value s of
       None \<Rightarrow> None
     | Some (key, r) \<Rightarrow> (case consume (CHR '':'') (skip_whitespace r) of
         None \<Rightarrow> None
       | Some r' \<Rightarrow> (case parse_value (json_fuel r') (skip_whitespace r') of
           Parsed v r'' \<Rightarrow>
             if key = name then Some v
             else (let u = skip_whitespace r'' in
               case consume (CHR ''}'') u of
                 Some w \<Rightarrow> None
               | None \<Rightarrow> (case consume (CHR '','') u of
                   None \<Rightarrow> None
                 | Some w \<Rightarrow> lookup_members n name (skip_whitespace w)))
         | _ \<Rightarrow> None)))"

text \<open>Each round takes at least a character, so the length of the text bounds the rounds.\<close>

definition lookup_object_field :: "string \<Rightarrow> string \<Rightarrow> string option" where
  "lookup_object_field s name = (case consume (CHR ''{'') (skip_whitespace s) of
       None \<Rightarrow> None
     | Some r \<Rightarrow> (let u = skip_whitespace r in
         case consume (CHR ''}'') u of Some w \<Rightarrow> None | None \<Rightarrow> lookup_members (length u) name u))"

definition decode_json_string :: "string \<Rightarrow> string option" where
  "decode_json_string s = (case parse_string_value s of
       Some (v, r) \<Rightarrow> if skip_whitespace r = [] then Some v else None
     | None \<Rightarrow> None)"

text \<open>\<open>std::from_chars\<close> on a text that it has to consume: no white space and no plus sign.\<close>

definition parse_json_int :: "string \<Rightarrow> int option" where
  "parse_json_int s = (case consume (CHR ''-'') s of
       Some t \<Rightarrow> if t = [] \<or> \<not> list_all is_digit t then None else
         (let v = - read_int t in if - (2 ^ 63) \<le> v then Some v else None)
     | None \<Rightarrow> if s = [] \<or> \<not> list_all is_digit s then None else
         (let v = read_int s in if v < 2 ^ 63 then Some v else None))"

definition parse_json_bool :: "string \<Rightarrow> bool option" where
  "parse_json_bool s = (if s = ''true'' then Some True else if s = ''false'' then Some False else None)"

text \<open>The upper-case hexadecimal digits of \<open>EscapeJsonString\<close>.\<close>

definition upper_hex_digit :: "nat \<Rightarrow> char" where
  "upper_hex_digit d = (if d < 10 then digit_char d else char_of (55 + d))"

definition escape_json_char :: "char \<Rightarrow> string" where
  "escape_json_char c =
     (if c = quote_char then [backslash, quote_char]
      else if c = backslash then [backslash, backslash]
      else if c = CHR 0x08 then [backslash, CHR ''b'']
      else if c = CHR 0x0C then [backslash, CHR ''f'']
      else if c = CHR 0x0A then [backslash, CHR ''n'']
      else if c = CHR 0x0D then [backslash, CHR ''r'']
      else if c = CHR 0x09 then [backslash, CHR ''t'']
      else if is_control c then
        [backslash, CHR ''u'', CHR ''0'', CHR ''0'', upper_hex_digit (of_char c div 16), upper_hex_digit (of_char c mod 16)]
      else [c])"

definition escape_json_string :: "string \<Rightarrow> string" where
  "escape_json_string s = quote_char # concat (map escape_json_char s) @ [quote_char]"

section \<open>Native functions\<close>

definition json_is_valid :: native where
  "json_is_valid args = with_string (args ! 0) ''std.json.is_valid expects a string'' (\<lambda>s.
     ret (VBool (parse_compact_json s \<noteq> None)))"

definition json_compact :: native where
  "json_compact args = with_string (args ! 0) ''std.json.compact expects a string'' (\<lambda>s.
     case parse_compact_json s of
       None \<Rightarrow> native_fail ''std.json.compact expects valid JSON'' | Some c \<Rightarrow> ret (vstr c))"

definition json_quote :: native where
  "json_quote args = with_string (args ! 0) ''std.json.quote expects a string'' (\<lambda>s.
     ret (vstr (escape_json_string s)))"

definition json_encode_number :: native where
  "json_encode_number args = (case args ! 0 of
       VInt i \<Rightarrow> ret (vstr (show_int (sint i)))
     | VDouble d \<Rightarrow> (case d of Finite _ _ _ \<Rightarrow> ret (vstr (show_double d))
         | _ \<Rightarrow> native_fail ''std.json.encode_number expects a finite number'')
     | _ \<Rightarrow> native_fail ''std.json.encode_number expects an int or float'')"

definition with_field :: "value list \<Rightarrow> string \<Rightarrow> (string option \<Rightarrow> value vm_proc) \<Rightarrow> value vm_proc" where
  "with_field args name f = with_string (args ! 0) (''std.json.'' @ name @ '' expects an object JSON string'') (\<lambda>j.
     with_string (args ! 1) (''std.json.'' @ name @ '' expects a string key'') (\<lambda>k. f (lookup_object_field j k)))"

definition json_has_key :: native where
  "json_has_key args = with_field args ''has_key'' (\<lambda>r. ret (VBool (r \<noteq> None)))"

definition json_get ::
    "string \<Rightarrow> string \<Rightarrow> (string \<Rightarrow> value option) \<Rightarrow> native" where
  "json_get name expected decode args = with_field args name (\<lambda>r. case r of
       None \<Rightarrow> native_fail (''std.json.'' @ name @ '' could not find the requested field'')
     | Some raw \<Rightarrow> (case decode raw of
         None \<Rightarrow> native_fail (''std.json.'' @ name @ '' expects the field value to be '' @ expected)
       | Some v \<Rightarrow> ret v))"

definition json_get_string :: native where
  "json_get_string = json_get ''get_string'' ''a JSON string'' (map_option vstr \<circ> decode_json_string)"

definition json_get_int :: native where
  "json_get_int = json_get ''get_int'' ''an integer'' (map_option vint \<circ> parse_json_int)"

definition json_get_bool :: native where
  "json_get_bool = json_get ''get_bool'' ''a boolean'' (map_option VBool \<circ> parse_json_bool)"

end
