(* ===== verification/JsonProps.thy ===== *)
theory JsonProps
  imports Json
begin

text \<open>
  What the JSON module guarantees: the parser returns on every text, the compact form of a text is its
  own compact form, and quoting a string and decoding the result gives the string back, but for the
  control characters that have no short escape.
\<close>

section \<open>Every text is parsed or rejected\<close>

lemma consume_eq: "consume c s = Some t \<longleftrightarrow> s = c # t"
  by (cases s) (auto simp: consume_def)

lemma consume_Cons [simp]: "consume c (d # s) = (if d = c then Some s else None)"
  by (simp add: consume_def)

lemma consume_Nil [simp]: "consume c [] = None"
  by (simp add: consume_def)

lemma skip_shorter: "length (skip_whitespace s) \<le> length s"
  by (simp add: skip_whitespace_def length_dropWhile_le)

lemma token_tail_shorter: "token_tail s = Some (c, u) \<Longrightarrow> length u < length s"
  by (induction s arbitrary: c rule: token_tail.induct)
    (fastforce split: if_splits option.splits dest: read_escape_shorter)+

lemma string_token_shorter: "parse_string_token s = Some (c, u) \<Longrightarrow> length u < length s"
  by (auto simp: parse_string_token_def consume_eq split: option.splits dest: token_tail_shorter)

lemma some_digits_shorter: "some_digits s = Some r \<Longrightarrow> length r < length s"
  by (cases s) (auto simp: some_digits_def starts_with_digit_def le_imp_less_Suc length_dropWhile_le split: if_splits)

lemma integer_shorter: "number_integer s = Some r \<Longrightarrow> length r < length s"
  by (auto simp: number_integer_def consume_eq split: option.splits if_splits dest: some_digits_shorter)

lemma fraction_shorter: "number_fraction s = Some r \<Longrightarrow> length r \<le> length s"
  by (auto simp: number_fraction_def consume_eq split: option.splits dest!: some_digits_shorter)

lemma exponent_shorter: "number_exponent s = Some r \<Longrightarrow> length r \<le> length s"
  by (auto simp: number_exponent_def split: list.splits if_splits dest!: some_digits_shorter)

lemma number_shorter: "parse_number s = Some (c, r) \<Longrightarrow> length r < length s"
  by (fastforce simp: parse_number_def after_number_def consume_eq split: option.splits if_splits
    dest: integer_shorter fraction_shorter exponent_shorter)

lemma parse_of_eq: "parse_of r = Parsed c t \<longleftrightarrow> r = Some (c, t)" "parse_of r \<noteq> Parse_Fuel"
  by (auto simp: parse_of_def split: option.splits)

lemma literal_of_eq: "literal_of lit s = Parsed c t \<longleftrightarrow> c = lit \<and> take (length lit) s = lit \<and> t = drop (length lit) s"
  "literal_of lit s \<noteq> Parse_Fuel"
  by (auto simp: literal_of_def parse_literal_def split: option.splits if_splits)

lemma literal_shorter: "literal_of lit s = Parsed c t \<Longrightarrow> lit \<noteq> [] \<Longrightarrow> s \<noteq> [] \<Longrightarrow> length t < length s"
  by (auto simp: literal_of_eq)

text \<open>The ways in which each of the parsing functions succeeds.\<close>

lemma parse_value_cases:
  assumes "parse_value (Suc n) s = Parsed c r"
  obtains
    (empty_object) t where "skip_whitespace s = CHR ''{'' # t" "skip_whitespace t = CHR ''}'' # r" "c = ''{}''"
  | (members) t where "skip_whitespace s = CHR ''{'' # t" "consume (CHR ''}'') (skip_whitespace t) = None"
      "parse_members n True ''{'' (skip_whitespace t) = Parsed c r"
  | (empty_array) t where "skip_whitespace s = CHR ''['' # t" "skip_whitespace t = CHR '']'' # r" "c = ''[]''"
  | (elements) t where "skip_whitespace s = CHR ''['' # t" "consume (CHR '']'') (skip_whitespace t) = None"
      "parse_elements n True ''['' (skip_whitespace t) = Parsed c r"
  | (token) "parse_string_token (skip_whitespace s) = Some (c, r)"
  | (literal) "c \<in> {''true'', ''false'', ''null''}" "skip_whitespace s = c @ r"
  | (number) "parse_number (skip_whitespace s) = Some (c, r)"
proof -
  obtain d t where t: "skip_whitespace s = d # t"
    using assms by (cases "skip_whitespace s") auto
  have lit: "\<lbrakk>c \<in> {''true'', ''false'', ''null''}; literal_of c (d # t) = Parsed c r\<rbrakk> \<Longrightarrow> thesis"
    using literal by (metis append_take_drop_id literal_of_eq(1) t)
  consider "d = CHR ''{''" | "d = CHR ''[''" | "d = quote_char" | "d = CHR ''t''" | "d = CHR ''f''" | "d = CHR ''n''"
    | "d \<notin> {CHR ''{'', CHR ''['', quote_char, CHR ''t'', CHR ''f'', CHR ''n''}" by blast
  then show thesis
  proof cases
    case 1
    then show ?thesis using assms t empty_object members
      by (auto simp: Let_def consume_eq split: option.splits)
  next
    case 2
    then show ?thesis using assms t empty_array elements
      by (auto simp: Let_def consume_eq split: option.splits)
  next
    case 3
    then show ?thesis using assms t token by (simp add: parse_of_eq)
  next
    case 7
    then show ?thesis using assms t number by (auto simp: parse_of_eq split: if_splits)
  qed (use assms t lit in \<open>auto simp: literal_of_eq\<close>)
qed

lemma parse_elements_cases:
  assumes "parse_elements (Suc n) first acc s = Parsed c r"
  obtains
    (final) v w where "parse_value n s = Parsed v w" "skip_whitespace w = CHR '']'' # r"
      "c = acc @ (if first then [] else '','') @ v @ '']''"
  | (more) v w x where "parse_value n s = Parsed v w" "skip_whitespace w = CHR '','' # x"
      "parse_elements n False (acc @ (if first then [] else '','') @ v) (skip_whitespace x) = Parsed c r"
  using assms by (auto simp: Let_def consume_eq split: parse.splits option.splits)

lemma parse_members_cases:
  assumes "parse_members (Suc n) first acc s = Parsed c r"
  obtains
    (final) key q q' v w where "parse_string_token s = Some (key, q)" "skip_whitespace q = CHR '':'' # q'"
      "parse_value n (skip_whitespace q') = Parsed v w" "skip_whitespace w = CHR ''}'' # r"
      "c = acc @ (if first then [] else '','') @ key @ '':'' @ v @ ''}''"
  | (more) key q q' v w x where "parse_string_token s = Some (key, q)" "skip_whitespace q = CHR '':'' # q'"
      "parse_value n (skip_whitespace q') = Parsed v w" "skip_whitespace w = CHR '','' # x"
      "parse_members n False (acc @ (if first then [] else '','') @ key @ '':'' @ v) (skip_whitespace x) = Parsed c r"
  using assms by (auto simp: Let_def consume_eq split: parse.splits option.splits)

lemma skip_Cons: "skip_whitespace s = d # t \<Longrightarrow> length t < length s"
  using skip_shorter [of s] by simp

lemma parse_shorter:
  "parse_value n s = Parsed c r \<Longrightarrow> length r < length s"
  "parse_elements n first acc s = Parsed c r \<Longrightarrow> length r < length s"
  "parse_members n first acc s = Parsed c r \<Longrightarrow> length r < length s"
proof (induction n arbitrary: s first acc c r)
  case (Suc n)
  { case 1
    from 1 show ?case
    proof (cases rule: parse_value_cases)
      case (members t)
      with Suc.IH(3) [OF members(3)] skip_shorter [of t] show ?thesis by (auto dest!: skip_Cons)
    next
      case (elements t)
      with Suc.IH(2) [OF elements(3)] skip_shorter [of t] show ?thesis by (auto dest!: skip_Cons)
    next
      case token
      with skip_shorter [of s] show ?thesis by (auto dest!: string_token_shorter)
    next
      case literal
      with skip_shorter [of s] show ?thesis by auto
    next
      case number
      with skip_shorter [of s] show ?thesis by (auto dest!: number_shorter)
    qed (auto dest!: skip_Cons)
  next
    case 2
    from 2 show ?case
    proof (cases rule: parse_elements_cases)
      case (final v w)
      with Suc.IH(1) [OF final(1)] show ?thesis by (auto dest!: skip_Cons)
    next
      case (more v w x)
      with Suc.IH(1) [OF more(1)] Suc.IH(2) [OF more(3)] skip_shorter [of x] show ?thesis by (auto dest!: skip_Cons)
    qed
  next
    case 3
    from 3 show ?case
    proof (cases rule: parse_members_cases)
      case (final key q q' v w)
      with Suc.IH(1) [OF final(3)] skip_shorter [of q'] show ?thesis by (auto dest!: skip_Cons string_token_shorter)
    next
      case (more key q q' v w x)
      with Suc.IH(1) [OF more(3)] Suc.IH(3) [OF more(5)] skip_shorter [of q'] skip_shorter [of x] show ?thesis
        by (auto dest!: skip_Cons string_token_shorter)
    qed
  }
qed auto

text \<open>Fuel above twice the length of the text is enough.\<close>

lemma parse_returns:
  "2 * length s < n \<Longrightarrow> parse_value n s \<noteq> Parse_Fuel"
  "2 * length s + 1 < n \<Longrightarrow> parse_elements n first acc s \<noteq> Parse_Fuel"
  "2 * length s + 1 < n \<Longrightarrow> parse_members n first acc s \<noteq> Parse_Fuel"
proof (induction n arbitrary: s first acc)
  case (Suc n)
  { case 1
    show ?case
    proof (cases "skip_whitespace s")
      case (Cons d t)
      then have "2 * length (skip_whitespace t) + 1 < n"
        using 1 skip_shorter [of t] skip_Cons [OF Cons] by linarith
      from Suc.IH(2) [OF this] Suc.IH(3) [OF this] Cons show ?thesis
        by (auto simp: Let_def parse_of_eq literal_of_eq split: option.splits)
    qed simp
  next
    case 2
    then have v: "parse_value n s \<noteq> Parse_Fuel" by (intro Suc.IH(1)) simp
    have "parse_elements n False acc' (skip_whitespace x) \<noteq> Parse_Fuel"
      if "parse_value n s = Parsed u w" "skip_whitespace w = d # x" for acc' u w d x
      using parse_shorter(1) [OF that(1)] skip_Cons [OF that(2)] skip_shorter [of x] 2
      by (intro Suc.IH(2)) linarith
    with v show ?case by (auto simp: Let_def consume_eq split: parse.splits option.splits)
  next
    case 3
    have v: "parse_value n (skip_whitespace q') \<noteq> Parse_Fuel"
      if "parse_string_token s = Some (key, q)" "skip_whitespace q = d # q'" for key q d q'
      using string_token_shorter [OF that(1)] skip_Cons [OF that(2)] skip_shorter [of q'] 3
      by (intro Suc.IH(1)) linarith
    have "parse_members n False acc' (skip_whitespace x) \<noteq> Parse_Fuel"
      if "parse_string_token s = Some (key, q)" "skip_whitespace q = d # q'"
        "parse_value n (skip_whitespace q') = Parsed u w" "skip_whitespace w = e # x" for acc' key q d q' u w e x
      using string_token_shorter [OF that(1)] skip_Cons [OF that(2)] skip_shorter [of q']
        parse_shorter(1) [OF that(3)] skip_Cons [OF that(4)] skip_shorter [of x] 3
      by (intro Suc.IH(3)) linarith
    with v show ?case by (fastforce simp: Let_def consume_eq split: parse.splits option.splits)
  }
qed auto

text \<open>More fuel changes nothing.\<close>

lemma parse_more:
  "parse_value n s \<noteq> Parse_Fuel \<Longrightarrow> parse_value (Suc n) s = parse_value n s"
  "parse_elements n first acc s \<noteq> Parse_Fuel \<Longrightarrow> parse_elements (Suc n) first acc s = parse_elements n first acc s"
  "parse_members n first acc s \<noteq> Parse_Fuel \<Longrightarrow> parse_members (Suc n) first acc s = parse_members n first acc s"
proof (induction n arbitrary: s first acc)
  case (Suc n)
  { case 1
    show ?case
    proof (cases "skip_whitespace s")
      case (Cons d t)
      with 1 Suc.IH(2) [of True "''[''" "skip_whitespace t"] Suc.IH(3) [of True "''{''" "skip_whitespace t"] show ?thesis
        by (auto simp: Let_def simp del: parse_elements.simps parse_members.simps split: option.splits if_splits)
    qed simp
  next
    case 2
    from 2 have v: "parse_value n s \<noteq> Parse_Fuel" by auto
    from 2 show ?case
      unfolding parse_elements.simps(2) [of "Suc n" first acc s] parse_elements.simps(2) [of n first acc s]
        Suc.IH(1) [OF v]
      by (auto simp: Let_def Suc.IH(2) simp del: parse_elements.simps split: parse.splits option.splits)
  next
    case 3
    have v: "parse_value (Suc n) (skip_whitespace q') = parse_value n (skip_whitespace q')"
      if "parse_string_token s = Some (key, q)" "consume (CHR '':'') (skip_whitespace q) = Some q'" for key q q'
      using that 3 by (intro Suc.IH(1)) auto
    from 3 show ?case
      unfolding parse_members.simps(2) [of "Suc n" first acc s] parse_members.simps(2) [of n first acc s]
      by (auto simp: Let_def v Suc.IH(3) simp del: parse_value.simps parse_members.simps split: parse.splits option.splits)
  }
qed auto

lemma parse_enough:
  assumes "parse_value n s \<noteq> Parse_Fuel" "n \<le> m"
  shows "parse_value m s = parse_value n s"
  using assms(2)
proof (induction rule: dec_induct)
  case (step k)
  with parse_more(1) [of k s] assms(1) show ?case by simp
qed simp

section \<open>The compact form is its own compact form\<close>

text \<open>What follows a value in a compact text.\<close>

definition stops :: "string \<Rightarrow> bool" where
  "stops t = (case t of [] \<Rightarrow> True | c # u \<Rightarrow> c = CHR '','' \<or> c = CHR '']'' \<or> c = CHR ''}'')"

lemma read_escape_stable: "read_escape s = Some (raw, v, r) \<Longrightarrow> s = raw @ r \<and> read_escape (raw @ t) = Some (raw, v, t)"
  by (auto simp: read_escape_def split: list.splits option.splits if_splits)

lemma token_tail_stable: "token_tail s = Some (c, u) \<Longrightarrow> token_tail (c @ t) = Some (c, t)"
proof (induction s arbitrary: c rule: token_tail.induct)
  case (2 d s)
  show ?case
  proof (cases "d \<noteq> quote_char \<and> d = backslash")
    case True
    with 2(3) obtain raw v r where e: "read_escape s = Some (raw, v, r)"
      by (auto split: option.splits)
    with 2(3) True obtain c' where c: "token_tail r = Some (c', u)" "c = d # raw @ c'"
      by (auto split: option.splits)
    from 2(1) [OF _ _ e refl refl c(1)] True have "token_tail (c' @ t) = Some (c', t)" by simp
    with True c(2) read_escape_stable [OF e, of "c' @ t"] show ?thesis by simp
  next
    case False
    with 2 show ?thesis by (auto split: if_splits)
  qed
qed simp

lemma string_token_stable:
  "parse_string_token s = Some (c, u) \<Longrightarrow> parse_string_token (c @ t) = Some (c, t) \<and> (\<exists>c'. c = quote_char # c')"
  by (auto simp: parse_string_token_def consume_eq split: option.splits dest: token_tail_stable)

lemma digits_stable:
  assumes "some_digits s = Some r"
  shows "\<exists>d c. s = d # c @ r \<and> is_digit d \<and> (\<forall>t. \<not> starts_with_digit t \<longrightarrow> some_digits (d # c @ t) = Some t)"
proof -
  from assms obtain d q where s: "s = d # q" "is_digit d" "r = dropWhile is_digit q"
    by (cases s) (auto simp: some_digits_def starts_with_digit_def split: if_splits)
  have "dropWhile is_digit (takeWhile is_digit q @ t) = t" if "\<not> starts_with_digit t" for t
  proof -
    have "dropWhile is_digit t = t" using that by (cases t) (simp_all add: starts_with_digit_def)
    then show ?thesis by (subst dropWhile_append2) (auto dest: set_takeWhileD)
  qed
  then have "\<forall>t. \<not> starts_with_digit t \<longrightarrow> some_digits (d # takeWhile is_digit q @ t) = Some t"
    using s(2) by (simp add: some_digits_def starts_with_digit_def)
  moreover have "s = d # takeWhile is_digit q @ r" using s by simp
  ultimately show ?thesis using s(2) by blast
qed

lemma integer_stable:
  assumes "number_integer s = Some r"
  shows "\<exists>d c. s = d # c @ r \<and> is_digit d \<and> (\<forall>t. \<not> starts_with_digit t \<longrightarrow> number_integer (d # c @ t) = Some t)"
proof (cases "consume (CHR ''0'') s")
  case None
  with assms obtain d c where d: "s = d # c @ r" "is_digit d"
    "\<forall>t. \<not> starts_with_digit t \<longrightarrow> some_digits (d # c @ t) = Some t"
    using digits_stable [of s r] by (auto simp: number_integer_def)
  with None show ?thesis by (intro exI [of _ d] exI [of _ c]) (auto simp: number_integer_def)
next
  case (Some q)
  with assms show ?thesis
    by (intro exI [of _ "CHR ''0''"] exI [of _ "[]"]) (auto simp: number_integer_def consume_eq is_digit_def split: if_splits)
qed

lemma fraction_stable:
  assumes "number_fraction s = Some r"
  shows "\<exists>c. s = c @ r \<and> (c = [] \<or> hd c = CHR ''.'') \<and>
    (\<forall>t. \<not> starts_with_digit t \<longrightarrow> consume (CHR ''.'') t = None \<longrightarrow> number_fraction (c @ t) = Some t)"
proof (cases "consume (CHR ''.'') s")
  case None
  with assms show ?thesis by (intro exI [of _ "[]"]) (auto simp: number_fraction_def)
next
  case (Some q)
  with assms digits_stable [of q r] obtain d c where "s = CHR ''.'' # d # c @ r"
    "\<forall>t. \<not> starts_with_digit t \<longrightarrow> some_digits (d # c @ t) = Some t"
    by (auto simp: number_fraction_def consume_eq)
  then show ?thesis by (intro exI [of _ "CHR ''.'' # d # c"]) (auto simp: number_fraction_def)
qed

lemma exponent_stable:
  assumes "number_exponent s = Some r"
  shows "\<exists>c. s = c @ r \<and> (c = [] \<or> hd c = CHR ''e'' \<or> hd c = CHR ''E'') \<and>
    (\<forall>t. stops t \<longrightarrow> number_exponent (c @ t) = Some t)"
proof -
  have stop: "\<not> starts_with_digit t" "number_exponent t = Some t" if "stops t" for t
    using that by (cases t; auto simp: stops_def starts_with_digit_def number_exponent_def is_digit_def)+
  consider "s = r" | e q where "s = e # q" "e = CHR ''e'' \<or> e = CHR ''E''"
      "some_digits (case q of [] \<Rightarrow> [] | d # u \<Rightarrow> if d = CHR ''+'' \<or> d = CHR ''-'' then u else q) = Some r"
    using assms by (auto simp: number_exponent_def split: list.splits if_splits)
  then show ?thesis
  proof cases
    case 1
    with stop(2) show ?thesis by (intro exI [of _ "[]"]) auto
  next
    case 2
    from digits_stable [OF 2(3)] obtain d c where d: "is_digit d"
      "(case q of [] \<Rightarrow> [] | d # u \<Rightarrow> if d = CHR ''+'' \<or> d = CHR ''-'' then u else q) = d # c @ r"
      "\<forall>t. \<not> starts_with_digit t \<longrightarrow> some_digits (d # c @ t) = Some t" by blast
    from d(1) have "d \<noteq> CHR ''+''" "d \<noteq> CHR ''-''" by (auto simp: is_digit_def)
    with 2(1,2) d stop(1) show ?thesis
      by (cases q) (auto simp: number_exponent_def split: if_splits
        intro!: exI [of _ "e # d # c"] exI [of _ "e # hd q # d # c"])
  qed
qed

lemma number_stable:
  assumes "parse_number s = Some (c, r)"
  shows "\<exists>d c'. c = d # c' \<and> (d = CHR ''-'' \<or> is_digit d) \<and> (\<forall>t. stops t \<longrightarrow> parse_number (c @ t) = Some (c, t))"
proof -
  obtain neg a q1 q2 where a: "s = neg @ a" "neg = [] \<and> consume (CHR ''-'') s = None \<or> neg = ''-''" "number_integer a = Some q1"
    "number_fraction q1 = Some q2" "number_exponent q2 = Some r" "c = take (length s - length r) s"
  proof (cases "consume (CHR ''-'') s")
    case None
    with assms that [of "[]" s] show ?thesis
      by (auto simp: parse_number_def after_number_def split: option.splits)
  next
    case (Some u)
    then have "s = ''-'' @ u" by (simp add: consume_eq)
    with assms that [of "''-''" u] Some show ?thesis
      by (auto simp: parse_number_def after_number_def split: option.splits if_splits)
  qed
  from integer_stable [OF a(3)] obtain d c1 where i: "a = d # c1 @ q1" "is_digit d"
    "\<And>t. \<not> starts_with_digit t \<Longrightarrow> number_integer (d # c1 @ t) = Some t" by blast
  from fraction_stable [OF a(4)] obtain c2 where f: "q1 = c2 @ q2" "c2 = [] \<or> hd c2 = CHR ''.''"
    "\<And>t. \<not> starts_with_digit t \<Longrightarrow> consume (CHR ''.'') t = None \<Longrightarrow> number_fraction (c2 @ t) = Some t" by blast
  from exponent_stable [OF a(5)] obtain c3 where e: "q2 = c3 @ r" "c3 = [] \<or> hd c3 = CHR ''e'' \<or> hd c3 = CHR ''E''"
    "\<And>t. stops t \<Longrightarrow> number_exponent (c3 @ t) = Some t" by blast
  have c: "c = neg @ d # c1 @ c2 @ c3" by (simp add: a(1,6) i(1) f(1) e(1))
  have "parse_number (c @ t) = Some (c, t)" if t: "stops t" for t
  proof -
    have h3: "\<not> starts_with_digit (c3 @ t)" "consume (CHR ''.'') (c3 @ t) = None"
      using e(2) t by (cases c3; cases t; auto simp: starts_with_digit_def stops_def is_digit_def)+
    have "\<not> starts_with_digit (c2 @ c3 @ t)"
      using f(2) h3(1) by (cases c2) (auto simp: starts_with_digit_def is_digit_def)
    with i(3) f(3) [OF h3] e(3) [OF t] have
      "number_integer (d # c1 @ c2 @ c3 @ t) = Some (c2 @ c3 @ t)" "number_fraction (c2 @ c3 @ t) = Some (c3 @ t)"
      "number_exponent (c3 @ t) = Some t" by simp_all
    moreover from i(2) have "d \<noteq> CHR ''-''" by (auto simp: is_digit_def)
    ultimately show ?thesis using a(2) by (auto simp: parse_number_def after_number_def c)
  qed
  with a(2) i(2) c show ?thesis by (cases neg) auto
qed

text \<open>The first characters of a value are not white space and close nothing.\<close>

definition opens :: "string \<Rightarrow> bool" where
  "opens c \<longleftrightarrow> (\<exists>d u. c = d # u \<and> \<not> is_space d \<and> d \<noteq> CHR '']'')"

lemma opens_append: "opens c \<Longrightarrow> skip_whitespace (c @ t) = c @ t \<and> consume (CHR '']'') (c @ t) = None \<and> c \<noteq> []"
  by (auto simp: opens_def skip_whitespace_def)

lemma skip_stop: "stops t \<Longrightarrow> skip_whitespace t = t"
  by (cases t) (auto simp: stops_def skip_whitespace_def is_space_def Let_def)

lemma skip_punctuation [simp]:
  "skip_whitespace (CHR '']'' # t) = CHR '']'' # t" "skip_whitespace (CHR ''}'' # t) = CHR ''}'' # t"
  "skip_whitespace (CHR '','' # t) = CHR '','' # t" "skip_whitespace (CHR '':'' # t) = CHR '':'' # t"
  "skip_whitespace (quote_char # t) = quote_char # t"
  by (simp_all add: skip_whitespace_def is_space_def)

lemma stops_punctuation [simp]: "stops (CHR '']'' # t)" "stops (CHR '','' # t)" "stops (CHR ''}'' # t)"
  by (simp_all add: stops_def)

lemma fixed_stable:
  "c \<in> {''{}'', ''[]'', ''true'', ''false'', ''null''} \<Longrightarrow> opens c \<and> parse_value (Suc n) (c @ t) = Parsed c t"
  by (elim insertE emptyE; simp add: opens_def is_space_def skip_whitespace_def literal_of_def parse_literal_def)

lemma parse_stable:
  "parse_value n s = Parsed c r \<Longrightarrow> opens c \<and> (\<forall>t. stops t \<longrightarrow> parse_value n (c @ t) = Parsed c t)"
  "parse_elements n first acc s = Parsed c r \<Longrightarrow> \<exists>b. c = acc @ (if first then [] else '','') @ b \<and> opens b \<and>
    (\<forall>t. parse_elements n first acc (b @ t) = Parsed c t)"
  "parse_members n first acc s = Parsed c r \<Longrightarrow> \<exists>b. c = acc @ (if first then [] else '','') @ quote_char # b \<and>
    (\<forall>t. parse_members n first acc (quote_char # b @ t) = Parsed c t)"
proof (induction n arbitrary: s first acc c r)
  case (Suc n)
  { case 1
    from 1 show ?case
    proof (cases rule: parse_value_cases)
      case (members t)
      from Suc.IH(3) [OF members(3)] obtain b where
        "c = ''{'' @ quote_char # b" "\<And>t. parse_members n True ''{'' (quote_char # b @ t) = Parsed c t" by auto
      then show ?thesis by (auto simp: opens_def is_space_def skip_whitespace_def)
    next
      case (elements t)
      from Suc.IH(2) [OF elements(3)] obtain b where
        "c = ''['' @ b" "opens b" "\<And>t. parse_elements n True ''['' (b @ t) = Parsed c t" by auto
      then show ?thesis by (auto simp: opens_append opens_def [of "_ # _"] is_space_def skip_whitespace_def [of "_ # _"])
    next
      case token
      from string_token_stable [OF token] obtain u where "c = quote_char # u"
        "\<And>t. parse_string_token (c @ t) = Some (c, t)" by (metis string_token_stable token)
      then show ?thesis by (auto simp: opens_def is_space_def parse_of_def)
    next
      case number
      from number_stable [OF number] obtain d u where u: "c = d # u" "d = CHR ''-'' \<or> is_digit d"
        "\<And>t. stops t \<Longrightarrow> parse_number (c @ t) = Some (c, t)" by blast
      moreover from u(2) have "\<not> is_space d" "d \<notin> {CHR '']'', CHR ''{'', CHR ''['', quote_char, CHR ''t'', CHR ''f'', CHR ''n''}"
        by (auto simp: is_digit_def is_space_def Let_def)
      ultimately show ?thesis by (auto simp: opens_def skip_whitespace_def parse_of_def)
    qed (use fixed_stable [of c n] in blast)+
  next
    case 2
    from 2 show ?case
    proof (cases rule: parse_elements_cases)
      case (final v w)
      from Suc.IH(1) [OF final(1)] final(3) show ?thesis
        by (intro exI [of _ "v @ '']''"]) (auto simp: opens_def)
    next
      case (more v w x)
      from Suc.IH(2) [OF more(3)] obtain b where b: "c = (acc @ (if first then [] else '','') @ v) @ '','' @ b" "opens b"
        "\<And>t. parse_elements n False (acc @ (if first then [] else '','') @ v) (b @ t) = Parsed c t" by auto
      from Suc.IH(1) [OF more(1)] b show ?thesis
        by (intro exI [of _ "v @ '','' @ b"]) (auto simp: opens_append opens_def [of "_ @ _"] opens_def [of v] Let_def)
    qed
  next
    case 3
    from 3 show ?case
    proof (cases rule: parse_members_cases)
      case (final key q q' v w)
      from string_token_stable [OF final(1)] obtain k where k: "key = quote_char # k"
        "\<And>t. parse_string_token (key @ t) = Some (key, t)" by (metis string_token_stable final(1))
      from Suc.IH(1) [OF final(3)] final(5) k opens_append [of v] show ?thesis
        by (intro exI [of _ "k @ '':'' @ v @ ''}''"]) (auto simp: Let_def)
    next
      case (more key q q' v w x)
      from string_token_stable [OF more(1)] obtain k where k: "key = quote_char # k"
        "\<And>t. parse_string_token (key @ t) = Some (key, t)" by (metis string_token_stable more(1))
      from Suc.IH(3) [OF more(5)] obtain b where b: "c = (acc @ (if first then [] else '','') @ key @ '':'' @ v) @ '','' @ quote_char # b"
        "\<And>t. parse_members n False (acc @ (if first then [] else '','') @ key @ '':'' @ v) (quote_char # b @ t) = Parsed c t" by auto
      from Suc.IH(1) [OF more(3)] k opens_append [of v] b show ?thesis
        by (intro exI [of _ "k @ '':'' @ v @ '','' @ quote_char # b"]) (auto simp: Let_def)
    qed
  }
qed auto

text \<open>C38: the compact form of a JSON text is itself valid JSON, and compacting it again changes nothing.\<close>
theorem compact_is_stable:
  assumes "parse_compact_json s = Some c"
  shows "parse_compact_json c = Some c"
proof -
  from assms obtain r where p: "parse_value (json_fuel s) s = Parsed c r"
    by (auto simp: parse_compact_json_def split: parse.splits if_splits)
  have "stops []" by (simp add: stops_def)
  with parse_stable(1) [OF p] have "parse_value (json_fuel s) (c @ []) = Parsed c []" by blast
  moreover have "parse_value (json_fuel c) c \<noteq> Parse_Fuel" by (rule parse_returns) (simp add: json_fuel_def)
  ultimately have "parse_value (json_fuel c) c = Parsed c []"
    using parse_enough [of "json_fuel s" c "max (json_fuel s) (json_fuel c)"]
      parse_enough [of "json_fuel c" c "max (json_fuel s) (json_fuel c)"] by simp
  then show ?thesis by (simp add: parse_compact_json_def skip_whitespace_def)
qed

text \<open>The parser returns on every text: its fuel never runs out.\<close>
theorem parsing_returns: "parse_value (json_fuel s) s \<noteq> Parse_Fuel"
  by (rule parse_returns) (simp add: json_fuel_def)

text \<open>The cache is invisible: what it answers is what the parser would.\<close>
theorem cache_is_transparent:
  assumes "\<And>t e. map_of cache t = Some e \<Longrightarrow> e = parse_compact_json t"
  shows "fst (lookup_compact_json s cache) = parse_compact_json s"
    and "\<And>t e. map_of (snd (lookup_compact_json s cache)) t = Some e \<Longrightarrow> e = parse_compact_json t"
proof -
  have e: "map_of (emplace k v xs) t = (case map_of xs t of Some w \<Rightarrow> Some w | None \<Rightarrow> if t = k then Some v else None)"
    for k t and v :: "string option" and xs
    by (simp add: emplace_def map_add_def split: option.splits)
  show "fst (lookup_compact_json s cache) = parse_compact_json s"
    using assms [of s] by (auto simp: lookup_compact_json_def Let_def e split: option.splits)
  show "e = parse_compact_json t" if "map_of (snd (lookup_compact_json s cache)) t = Some e" for t e
    using assms [of t] that by (auto simp: lookup_compact_json_def Let_def e split: option.splits if_splits)
qed

section \<open>Quoting and decoding\<close>

text \<open>The control characters that are written by code point are read as question marks.\<close>

definition has_short_escape :: "char \<Rightarrow> bool" where
  "has_short_escape c \<longleftrightarrow> c \<in> {CHR 0x08, CHR 0x0C, CHR 0x0A, CHR 0x0D, CHR 0x09}"

definition reread :: "char \<Rightarrow> char" where
  "reread c = (if is_control c \<and> \<not> has_short_escape c then CHR ''?'' else c)"

lemma control_cases:
  assumes "is_control c"
  shows "is_hex (upper_hex_digit (of_char c div 16))" "is_hex (upper_hex_digit (of_char c mod 16))"
proof -
  have *: "is_hex (upper_hex_digit d)" if "d < 16" for d
  proof -
    from that have "d \<in> {0, 1, 2, 3, 4, 5, 6, 7, 8, 9, 10, 11, 12, 13, 14, 15}" by (simp, arith)
    then show ?thesis
      by (elim insertE emptyE; simp add: upper_hex_digit_def is_hex_def hex_value_def is_digit_def to_lower_def digit_char_def Let_def)
  qed
  from assms show "is_hex (upper_hex_digit (of_char c div 16))" by (intro *) (simp add: is_control_def)
  show "is_hex (upper_hex_digit (of_char c mod 16))" by (rule *) simp
qed

lemma escaped_char: "value_tail (escape_json_char c @ t) = map_option (\<lambda>(v, u). (reread c # v, u)) (value_tail t)"
proof -
  consider "c \<in> {quote_char, backslash}" | "has_short_escape c"
    | "is_control c" "\<not> has_short_escape c" | "\<not> is_control c" "c \<notin> {quote_char, backslash}" by blast
  then show ?thesis
  proof cases
    case 1
    then show ?thesis
      by (elim insertE emptyE; simp add: escape_json_char_def read_escape_def escape_value_def reread_def is_control_def)
  next
    case 2
    then show ?thesis
      unfolding has_short_escape_def
      by (elim insertE emptyE; simp add: escape_json_char_def read_escape_def escape_value_def reread_def
        has_short_escape_def is_control_def)
  next
    case 3
    then have "c \<noteq> quote_char" "c \<noteq> backslash" by (auto simp: is_control_def)
    with 3 control_cases [OF 3(1)] show ?thesis
      by (auto simp: escape_json_char_def has_short_escape_def read_escape_def escape_value_def reread_def
        is_hex_def [of "CHR ''0''"] hex_value_def is_digit_def)
  next
    case 4
    then show ?thesis by (auto simp: escape_json_char_def reread_def is_control_def)
  qed
qed

lemma escaped_text: "value_tail (concat (map escape_json_char s) @ quote_char # t) = Some (map reread s, t)"
  by (induction s) (simp_all add: escaped_char)

text \<open>C39: quoting a string and decoding the quoted text gives the string back, except that a control
  character without a short escape has become a question mark.\<close>
theorem decode_quoted: "decode_json_string (escape_json_string s) = Some (map reread s)"
  by (simp add: decode_json_string_def escape_json_string_def parse_string_value_def escaped_text skip_whitespace_def)

text \<open>A null byte does not survive.\<close>
theorem quoted_control_is_lost: "decode_json_string (escape_json_string [CHR 0x00]) = Some ''?''"
  by (simp add: decode_quoted reread_def is_control_def has_short_escape_def)

text \<open>A vertical tab, which JSON does not allow between tokens, is skipped.\<close>
theorem vertical_tab_is_accepted: "parse_compact_json [CHR ''['', CHR 0x0B, CHR '']''] = Some ''[]''"
  by (simp add: parse_compact_json_def json_fuel_def skip_whitespace_def is_space_def eval_nat_numeral)

text \<open>Two members, with white space and an escape.\<close>
theorem compact_is_stable_witness:
  "parse_compact_json ''[ 1.50 , true ]'' = Some ''[1.50,true]'' \<and> parse_compact_json ''[1.50,true]'' = Some ''[1.50,true]''"
proof -
  have "parse_compact_json ''[ 1.50 , true ]'' = Some ''[1.50,true]''" by code_simp
  with compact_is_stable [OF this] show ?thesis by blast
qed

end
