(* ===== verification/SyncModule.thy ===== *)
theory SyncModule
  imports Natives Channels Contexts
begin

text \<open>
  The native functions over the shared runtime: threads and mutexes
  (src/src/vm/runtime/stdlib/sync/SyncModule.cpp), channels (stdlib/channel/ChannelModule.cpp), contexts
  (stdlib/ctx/ContextModule.cpp) and the log (stdlib/log/LogModule.cpp). A handle is an object that holds
  an id. The channels and contexts of the runtime are arguments; what a blocking call of a channel ends
  with, which depends on the other threads, is one too.
\<close>

section \<open>Handles\<close>

definition handle_of :: "kind \<Rightarrow> value \<Rightarrow> heap \<Rightarrow> nat option" where
  "handle_of k v h = (case v of VRef l a \<Rightarrow> if l = k then handle_id h a else None | _ \<Rightarrow> None)"

text \<open>The \<open>Require\<close> functions; a null handle or a value of another type raises the error.\<close>

definition require_handle :: "kind \<Rightarrow> string \<Rightarrow> value \<Rightarrow> nat option vm_proc" where
  "require_handle k m v = (\<lambda>s. case handle_of k v (heap s) of
       Some i \<Rightarrow> (Ok (Some i), s) | None \<Rightarrow> (Ok None, snd (raise_error m s)))"

definition require_thread :: "value \<Rightarrow> nat option vm_proc" where
  "require_thread = require_handle K_Thread ''Expected a thread handle''"

definition require_mutex :: "value \<Rightarrow> nat option vm_proc" where
  "require_mutex = require_handle K_Mutex ''Expected a mutex handle''"

definition require_channel :: "value \<Rightarrow> nat option vm_proc" where
  "require_channel = require_handle K_Channel ''Expected a channel handle''"

definition require_context :: "value \<Rightarrow> nat option vm_proc" where
  "require_context = require_handle K_Context ''Expected a context handle''"

definition new_handle :: "kind \<Rightarrow> nat \<Rightarrow> value vm_proc" where
  "new_handle k i = bindE (new_object (Obj_Handle i)) (\<lambda>a. ret (VRef k a))"

text \<open>
  \<open>if (ctx.HasError()) return std::monostate{};\<close> before the handles are dereferenced. The check is for
  any error, not the one of this call; a null handle always raises one.
\<close>

definition unless_error :: "value vm_proc \<Rightarrow> value vm_proc" where
  "unless_error m = (\<lambda>s. if has_error s then (Ok VNull, s) else m s)"

definition with_handle :: "nat option vm_proc \<Rightarrow> (nat \<Rightarrow> value vm_proc) \<Rightarrow> value vm_proc" where
  "with_handle r f = bindE r (\<lambda>i. unless_error (case i of
       Some j \<Rightarrow> f j | None \<Rightarrow> undefined_behaviour ''null handle''))"

definition with_handles ::
    "nat option vm_proc \<Rightarrow> nat option vm_proc \<Rightarrow> (nat \<Rightarrow> nat \<Rightarrow> value vm_proc) \<Rightarrow> value vm_proc" where
  "with_handles r q f = bindE r (\<lambda>i. bindE q (\<lambda>j. unless_error (case (i, j) of
       (Some a, Some b) \<Rightarrow> f a b | _ \<Rightarrow> undefined_behaviour ''null handle'')))"

definition as_bool_value :: "bool vm_proc \<Rightarrow> value vm_proc" where
  "as_bool_value m = bindE m (\<lambda>b. ret (VBool b))"

section \<open>Threads and mutexes\<close>

definition sync_current_thread :: native where
  "sync_current_thread args = bindE (reads current_thread) (new_handle K_Thread)"

definition sync_spawn :: native where
  "sync_spawn args = (\<lambda>s. case create_execution_thread (sync s) of
     (t, y) \<Rightarrow> new_handle K_Thread t (s\<lparr>sync := y\<rparr>))"

definition sync_mutex :: native where
  "sync_mutex args = (\<lambda>s. case create_mutex (sync s) of (m, y) \<Rightarrow> new_handle K_Mutex m (s\<lparr>sync := y\<rparr>))"

definition sync_lock :: native where
  "sync_lock args = with_handles (require_thread (args ! 0)) (require_mutex (args ! 1))
     (\<lambda>t m. as_bool_value (context_try_lock t m))"

definition sync_unlock :: native where
  "sync_unlock args = with_handles (require_thread (args ! 0)) (require_mutex (args ! 1))
     (\<lambda>t m. as_bool_value (context_unlock t m))"

definition sync_would_deadlock :: native where
  "sync_would_deadlock args = with_handles (require_thread (args ! 0)) (require_mutex (args ! 1))
     (\<lambda>t m. as_bool_value (reads (\<lambda>s. would_deadlock_on_mutex (sync s) t m)))"

definition sync_assert_no_deadlock :: native where
  "sync_assert_no_deadlock args = as_bool_value context_assert_no_deadlock"

definition sync_join :: native where
  "sync_join args = with_handles (require_thread (args ! 0)) (require_thread (args ! 1))
     (\<lambda>a b. as_bool_value (context_join_thread a b))"

definition sync_finish :: native where
  "sync_finish args = with_handle (require_thread (args ! 0)) (\<lambda>t. as_bool_value (context_finish_thread t))"

definition sync_is_locked :: native where
  "sync_is_locked args = with_handle (require_mutex (args ! 0))
     (\<lambda>m. as_bool_value (reads (\<lambda>s. is_mutex_locked (sync s) m)))"

definition sync_owner_id :: native where
  "sync_owner_id args = with_handle (require_mutex (args ! 0)) (\<lambda>m. bindE (reads (\<lambda>s. mutex_owner (sync s) m))
     (\<lambda>t. ret (case t of Some i \<Rightarrow> vint (int i) | None \<Rightarrow> VNull)))"

definition sync_thread_id :: native where
  "sync_thread_id args = with_handle (require_thread (args ! 0)) (\<lambda>t. ret (vint (int t)))"

definition sync_count :: "(sync_stats \<Rightarrow> nat) \<Rightarrow> native" where
  "sync_count field args = bindE (reads (\<lambda>s. field (get_sync_stats (sync s)))) (\<lambda>n. ret (vint (int n)))"

definition sync_thread_count :: native where
  "sync_thread_count = sync_count thread_count"

definition sync_mutex_count :: native where
  "sync_mutex_count = sync_count mutex_count"

definition sync_wait_edge_count :: native where
  "sync_wait_edge_count = sync_count wait_edge_count"

section \<open>Channels\<close>

text \<open>\<open>static_cast<size_t>\<close> of the argument: a negative capacity becomes a huge one.\<close>

definition channel_capacity :: "int \<Rightarrow> nat" where
  "channel_capacity n = nat (n mod 2 ^ 64)"

definition channel_make :: "value list \<Rightarrow> (vm_state \<times> channel_registry, value) proc" where
  "channel_make args = (\<lambda>(s, r). case as_int64 (args ! 0) of
       Raise e \<Rightarrow> (Raise e, (s, r))
     | Ok n \<Rightarrow> (case create_channel (channel_capacity n) r of
         (i, r') \<Rightarrow> (case new_handle K_Channel i s of (v, s') \<Rightarrow> (v, (s', r')))))"

text \<open>What the natives make of the end of a call.\<close>

fun channel_result :: "call_result \<Rightarrow> value vm_proc" where
  "channel_result (Sent b) = ret (VBool b)"
| "channel_result (Received ok v) = bindE (new_object (Obj_Array [VBool ok, v])) (\<lambda>a. ret (VRef K_Array a))"
| "channel_result Unknown_Channel = native_fail ''Unknown channel handle''"
| "channel_result (Closed_Channel b) = ret (VBool b)"

text \<open>\<open>send\<close>, \<open>recv\<close> and \<open>close\<close>: \<open>await\<close> is how the call on the channel ends.\<close>

definition channel_send :: "(nat \<Rightarrow> value \<Rightarrow> call_result vm_proc) \<Rightarrow> native" where
  "channel_send await args = with_handle (require_channel (args ! 0)) (\<lambda>c. bindE (await c (args ! 1)) channel_result)"

definition channel_recv :: "(nat \<Rightarrow> call_result vm_proc) \<Rightarrow> native" where
  "channel_recv await args = with_handle (require_channel (args ! 0)) (\<lambda>c. bindE (await c) channel_result)"

definition channel_close :: "(nat \<Rightarrow> call_result vm_proc) \<Rightarrow> native" where
  "channel_close await args = with_handle (require_channel (args ! 0)) (\<lambda>c. bindE (await c) channel_result)"

section \<open>Contexts\<close>

definition context_background :: "value list \<Rightarrow> (vm_state \<times> context_registry, value) proc" where
  "context_background args = (\<lambda>(s, r). case background_context r of
     (i, r') \<Rightarrow> (case new_handle K_Context i s of (v, s') \<Rightarrow> (v, (s', r'))))"

text \<open>The others start from a context handle.\<close>

definition on_context ::
    "value \<Rightarrow> (nat \<Rightarrow> (vm_state \<times> context_registry, value) proc) \<Rightarrow> (vm_state \<times> context_registry, value) proc" where
  "on_context v f = (\<lambda>(s, r). case require_context v s of
       (Ok (Some i), s') \<Rightarrow> if has_error s' then (Ok VNull, (s', r)) else f i (s', r)
     | (_, s') \<Rightarrow> (Ok VNull, (s', r)))"

definition context_with_cancel :: "value list \<Rightarrow> (vm_state \<times> context_registry, value) proc" where
  "context_with_cancel args = on_context (args ! 0) (\<lambda>p (s, r). case create_child_context p r of
       (Some i, r') \<Rightarrow> (case new_handle K_Context i s of (v, s') \<Rightarrow> (v, (s', r')))
     | (None, r') \<Rightarrow> (case native_fail ''Unknown parent context handle'' s of (v, s') \<Rightarrow> (v, (s', r'))))"

definition context_cancel :: "value list \<Rightarrow> (vm_state \<times> context_registry, value) proc" where
  "context_cancel args = on_context (args ! 0) (\<lambda>c (s, r). case cancel_context c r of
     (b, r') \<Rightarrow> (Ok (VBool b), (s, r')))"

definition context_is_cancelled :: "value list \<Rightarrow> (vm_state \<times> context_registry, value) proc" where
  "context_is_cancelled args = on_context (args ! 0) (\<lambda>c (s, r). (Ok (VBool (is_context_cancelled r c)), (s, r)))"

section \<open>Log\<close>

text \<open>\<open>JoinArgs\<close>: a space before every value but leading empty ones.\<close>

fun join_args :: "heap \<Rightarrow> string \<Rightarrow> value list \<Rightarrow> string outcome" where
  "join_args h acc [] = Ok acc"
| "join_args h acc (v # vs) = bind_outcome (to_string h v) (\<lambda>t.
     join_args h (acc @ (if acc = [] then [] else '' '') @ t) vs)"

definition emit_log :: "string \<Rightarrow> bool \<Rightarrow> native" where
  "emit_log level fatal args =
     bindE (require_array (args ! 0) (''std.log_native.'' @ level @ '' expects an array of values'')) (\<lambda>r.
     unless_error (bindE (reads heap) (\<lambda>h.
       bindE (lift_out (join_args h [] (case r of None \<Rightarrow> [] | Some a \<Rightarrow> the (array_elements h a)))) (\<lambda>t.
       seqE (modify (\<lambda>s. s\<lparr>stdout_text := stdout_text s @ ''['' @ level @ ''] '' @ t @ [CHR 0x0A]\<rparr>))
         (if fatal then native_fail ''Fatal log invoked'' else ret VNull)))))"

definition log_error :: native where
  "log_error = emit_log ''ERROR'' False"

definition log_warn :: native where
  "log_warn = emit_log ''WARN'' False"

definition log_info :: native where
  "log_info = emit_log ''INFO'' False"

definition log_fatal :: native where
  "log_fatal = emit_log ''FATAL'' True"

end
