(* ===== verification/MemoryModule.thy ===== *)
theory MemoryModule
  imports Natives
begin

text \<open>
  The memory module (src/src/vm/runtime/stdlib/memory/MemoryModule.cpp): the walk over everything a value
  reaches, by which \<open>is_send\<close> and \<open>is_sync\<close> decide whether it may cross threads, its deep size, and the
  cells of \<open>alloc\<close> and \<open>free\<close>. The walk remembers the addresses it has seen, so it ends on cyclic
  structures; a walk takes fuel for the nesting, for which the number of addresses is enough.
\<close>

section \<open>What a value holds\<close>

text \<open>The contents of the containers the code walks; \<open>None\<close> for a null pointer.\<close>

definition contents :: "heap \<Rightarrow> kind \<Rightarrow> nat \<Rightarrow> value list option" where
  "contents h k a = (case (k, h a) of
       (K_Array, Some (Obj_Array vs)) \<Rightarrow> Some vs
     | (K_Instance, Some (Obj_Instance vs)) \<Rightarrow> Some vs
     | (K_Enum, Some (Obj_Enum t vs)) \<Rightarrow> Some vs
     | (K_Closure, Some (Obj_Closure f vs)) \<Rightarrow> Some vs
     | _ \<Rightarrow> None)"

definition is_container :: "kind \<Rightarrow> bool" where
  "is_container k = (k = K_Array \<or> k = K_Instance \<or> k = K_Enum \<or> k = K_Closure)"

text \<open>The alternatives of the variant for which \<open>IsSendValue\<close> answers true at once.\<close>

definition send_kind :: "kind \<Rightarrow> bool" where
  "send_kind k = (k \<in> {K_Function, K_Native, K_Task, K_Channel, K_Context, K_Module})"

text \<open>\<open>IsSyncValue\<close> has the same table: mutexes and actors are neither.\<close>

definition sync_kind :: "kind \<Rightarrow> bool" where
  "sync_kind k = (k \<in> {K_Function, K_Native, K_Task, K_Channel, K_Context, K_Module})"

section \<open>The walk\<close>

text \<open>\<open>None\<close> is fuel exhausted; else the answer and the addresses seen.\<close>

fun walk :: "(kind \<Rightarrow> bool) \<Rightarrow> heap \<Rightarrow> nat \<Rightarrow> value \<Rightarrow> nat set \<Rightarrow> (bool \<times> nat set) option"
  and walk_all :: "(kind \<Rightarrow> bool) \<Rightarrow> heap \<Rightarrow> nat \<Rightarrow> value list \<Rightarrow> nat set \<Rightarrow> (bool \<times> nat set) option" where
  "walk safe h n (VRef k a) seen =
     (if \<not> is_container k then Some (safe k, seen)
      else case contents h k a of None \<Rightarrow> Some (True, seen)
      | Some vs \<Rightarrow> if a \<in> seen then Some (True, seen)
          else (case n of 0 \<Rightarrow> None | Suc m \<Rightarrow> walk_all safe h m vs (insert a seen)))"
| "walk safe h n v seen = Some (True, seen)"
| "walk_all safe h n [] seen = Some (True, seen)"
| "walk_all safe h n (v # vs) seen = (case walk safe h n v seen of
       None \<Rightarrow> None
     | Some (ok, seen') \<Rightarrow> if ok then walk_all safe h n vs seen' else Some (False, seen'))"

definition is_send_value :: "heap \<Rightarrow> nat \<Rightarrow> value \<Rightarrow> bool option" where
  "is_send_value h n v = map_option fst (walk send_kind h n v {})"

definition is_sync_value :: "heap \<Rightarrow> nat \<Rightarrow> value \<Rightarrow> bool option" where
  "is_sync_value h n v = map_option fst (walk sync_kind h n v {})"

text \<open>
  \<open>EstimateDeepSize\<close>: \<open>sizeof\<close> of the container objects is a parameter, scalars and pointers take eight
  bytes, a boolean one. The total is an \<open>int64_t\<close>.
\<close>

fun deep_size :: "(kind \<Rightarrow> nat) \<Rightarrow> heap \<Rightarrow> nat \<Rightarrow> value \<Rightarrow> nat set \<Rightarrow> (nat \<times> nat set) option"
  and deep_size_all :: "(kind \<Rightarrow> nat) \<Rightarrow> heap \<Rightarrow> nat \<Rightarrow> value list \<Rightarrow> nat set \<Rightarrow> (nat \<times> nat set) option" where
  "deep_size sizes h n (VRef k a) seen =
     (if is_container k then
        (case contents h k a of None \<Rightarrow> Some (0, seen)
         | Some vs \<Rightarrow> if a \<in> seen then Some (0, seen)
             else (case n of 0 \<Rightarrow> None
             | Suc m \<Rightarrow> map_option (\<lambda>(total, seen'). (sizes k + total, seen')) (deep_size_all sizes h m vs (insert a seen))))
      else if k = K_Module then Some (case h a of Some (Obj_Module name c es) \<Rightarrow> length name | _ \<Rightarrow> 0, seen)
      else if k \<in> {K_Thread, K_Mutex, K_HttpRequest, K_StringMap, K_Map, K_Actor, K_ActorMethods, K_Handlers}
      then Some (0, seen)
      else Some (8, seen))"
| "deep_size sizes h n VNull seen = Some (0, seen)"
| "deep_size sizes h n (VBool b) seen = Some (1, seen)"
| "deep_size sizes h n (VInt i) seen = Some (8, seen)"
| "deep_size sizes h n (VDouble d) seen = Some (8, seen)"
| "deep_size sizes h n (VString t) seen = Some (length (text_or_empty t), seen)"
| "deep_size_all sizes h n [] seen = Some (0, seen)"
| "deep_size_all sizes h n (v # vs) seen = (case deep_size sizes h n v seen of
       None \<Rightarrow> None
     | Some (x, seen') \<Rightarrow> map_option (\<lambda>(y, seen''). (x + y, seen'')) (deep_size_all sizes h n vs seen'))"

section \<open>Native functions\<close>

definition of_walk :: "'a option \<Rightarrow> ('a \<Rightarrow> value vm_proc) \<Rightarrow> value vm_proc" where
  "of_walk r f = (case r of None \<Rightarrow> raise OutOfFuel | Some x \<Rightarrow> f x)"

definition memory_is_send :: native where
  "memory_is_send args = (\<lambda>s. of_walk (is_send_value (heap s) (next_address s) (args ! 0)) (\<lambda>b. ret (VBool b)) s)"

definition memory_is_sync :: native where
  "memory_is_sync args = (\<lambda>s. of_walk (is_sync_value (heap s) (next_address s) (args ! 0)) (\<lambda>b. ret (VBool b)) s)"

definition memory_assert_send :: native where
  "memory_assert_send args = (\<lambda>s. of_walk (is_send_value (heap s) (next_address s) (args ! 0))
     (\<lambda>b. if b then ret (VBool True) else native_fail ''Value is not Send-safe'') s)"

definition memory_assert_sync :: native where
  "memory_assert_sync args = (\<lambda>s. of_walk (is_sync_value (heap s) (next_address s) (args ! 0))
     (\<lambda>b. if b then ret (VBool True) else native_fail ''Value is not Sync-safe'') s)"

definition memory_deep_size :: "(kind \<Rightarrow> nat) \<Rightarrow> native" where
  "memory_deep_size sizes args = (\<lambda>s. of_walk (deep_size sizes (heap s) (next_address s) (args ! 0) {})
     (\<lambda>(n, seen). ret (vint (int n))) s)"

definition memory_count :: "(alloc_stats \<Rightarrow> nat) \<Rightarrow> native" where
  "memory_count field args = bindE (reads (\<lambda>s. field (allocation_stats (allocs s)))) (\<lambda>n. ret (vint (int n)))"

definition memory_active_allocations :: native where
  "memory_active_allocations = memory_count active_allocations"

definition memory_active_bytes :: native where
  "memory_active_bytes = memory_count active_bytes"

definition memory_total_allocations :: native where
  "memory_total_allocations = memory_count total_allocations"

definition memory_total_bytes :: native where
  "memory_total_bytes = memory_count total_bytes"

definition memory_assert_no_leaks :: native where
  "memory_assert_no_leaks args = bindE (reads (\<lambda>s. active_allocations (allocation_stats (allocs s)))) (\<lambda>n.
     if n \<noteq> 0 then native_fail (''Memory leak detected: '' @ show_nat n @ '' allocation(s) still active'')
     else ret (VBool True))"

text \<open>\<open>raw\<close> is the address of the block that the C++ allocator returns.\<close>

definition memory_alloc :: "nat \<Rightarrow> native" where
  "memory_alloc raw args = bindE (lift_out (as_int64 (args ! 0))) (\<lambda>n.
     if n \<le> 0 then native_fail ''alloc expects a positive byte count''
     else seqE (modify (\<lambda>s. s\<lparr>allocs := pool_allocate raw (nat n) (allocs s)\<rparr>))
       (bindE (new_object (Obj_Pointer (Target_Cell VNull True raw) (''&heap:'' @ show_nat raw))) (\<lambda>a.
         ret (VRef K_Pointer a))))"

text \<open>\<open>deallocate\<close> is set for the pointers of \<open>alloc\<close> only.\<close>

definition memory_free :: native where
  "memory_free args = (\<lambda>s. case args ! 0 of
       VRef k a \<Rightarrow>
         if k \<noteq> K_Pointer then native_fail ''free expects a pointer'' s
         else (case heap s a of
             Some (Obj_Pointer (Target_Cell v alive raw) name) \<Rightarrow>
               if \<not> alive then native_fail ''Double free detected'' s
               else (case pool_release raw (allocs s) of (ok, al) \<Rightarrow>
                 (if ok then ret VNull else native_fail ''Double free detected'')
                   (s\<lparr>allocs := al, heap := (heap s)(a \<mapsto> Obj_Pointer (Target_Cell v False raw) name)\<rparr>))
           | _ \<Rightarrow> native_fail ''Pointer is not owned by std.memory.alloc'' s)
     | _ \<Rightarrow> native_fail ''free expects a pointer'' s)"

section \<open>The walk sees everything\<close>

definition members :: "heap \<Rightarrow> value \<Rightarrow> value set" where
  "members h v = (case v of VRef k a \<Rightarrow>
       if is_container k then (case contents h k a of None \<Rightarrow> {} | Some vs \<Rightarrow> set vs) else {}
     | _ \<Rightarrow> {})"

inductive reaches_value :: "heap \<Rightarrow> value \<Rightarrow> value \<Rightarrow> bool" for h where
  reaches_self: "reaches_value h v v"
| reaches_member: "w \<in> members h v \<Longrightarrow> reaches_value h w u \<Longrightarrow> reaches_value h v u"

text \<open>A leaf that is not safe.\<close>

definition unsafe :: "(kind \<Rightarrow> bool) \<Rightarrow> value \<Rightarrow> bool" where
  "unsafe safe v = (case v of VRef k a \<Rightarrow> \<not> is_container k \<and> \<not> safe k | _ \<Rightarrow> False)"

text \<open>The value is safe itself or a container that has been seen.\<close>

definition settled :: "(kind \<Rightarrow> bool) \<Rightarrow> heap \<Rightarrow> nat set \<Rightarrow> value \<Rightarrow> bool" where
  "settled safe h seen v = (\<not> unsafe safe v \<and> (\<forall>w \<in> members h v. case v of VRef k a \<Rightarrow> a \<in> seen | _ \<Rightarrow> True))"

definition members_settled :: "(kind \<Rightarrow> bool) \<Rightarrow> heap \<Rightarrow> nat set \<Rightarrow> nat \<Rightarrow> bool" where
  "members_settled safe h seen a \<longleftrightarrow> (\<forall>k vs. is_container k \<longrightarrow> contents h k a = Some vs \<longrightarrow>
     (\<forall>w \<in> set vs. settled safe h seen w))"

lemma settled_mono: "settled safe h S v \<Longrightarrow> S \<subseteq> T \<Longrightarrow> settled safe h T v"
  by (cases v) (auto simp: settled_def)

lemma members_settled_mono: "members_settled safe h S a \<Longrightarrow> S \<subseteq> T \<Longrightarrow> members_settled safe h T a"
  unfolding members_settled_def by (meson settled_mono)

lemma contents_unique: "contents h k a = Some vs \<Longrightarrow> contents h l a = Some ws \<Longrightarrow> k = l \<and> vs = ws"
  by (auto simp: contents_def split: kind.splits option.splits hobj.splits)

text \<open>A walk that answers true leaves every address it added settled; one that answers false found an
  unsafe value.\<close>

lemma walk_true:
  "walk safe h n v S = Some (True, T) \<Longrightarrow>
    S \<subseteq> T \<and> settled safe h T v \<and> (\<forall>a \<in> T - S. members_settled safe h T a)"
  "walk_all safe h n vs S = Some (True, T) \<Longrightarrow>
    S \<subseteq> T \<and> (\<forall>v \<in> set vs. settled safe h T v) \<and> (\<forall>a \<in> T - S. members_settled safe h T a)"
proof (induction safe h n v S and safe h n vs S arbitrary: T and T rule: walk_walk_all.induct)
  case (1 safe h n k a S)
  show ?case
  proof (cases "is_container k \<and> contents h k a \<noteq> None \<and> a \<notin> S")
    case True
    with 1(2) obtain vs m where m: "is_container k" "contents h k a = Some vs" "a \<notin> S" "n = Suc m"
      "walk_all safe h m vs (insert a S) = Some (True, T)"
      by (auto split: nat.splits)
    from 1(1) [OF _ m(2,3,4,5)] m(1) have ih: "insert a S \<subseteq> T" "\<forall>v \<in> set vs. settled safe h T v"
      "\<forall>b \<in> T - insert a S. members_settled safe h T b" by auto
    from ih(2) m(2) have "members_settled safe h T a"
      unfolding members_settled_def by (metis contents_unique)
    with ih m show ?thesis by (auto simp: settled_def unsafe_def)
  next
    case False
    with 1(2) show ?thesis
      by (auto simp: settled_def unsafe_def members_def split: if_splits option.splits)
  qed
next
  case (4 safe h n v vs S)
  from 4(3) obtain U where u: "walk safe h n v S = Some (True, U)" "walk_all safe h n vs U = Some (True, T)"
    by (auto split: option.splits if_splits)
  from 4(1) [OF u(1)] 4(2) [OF u(1) refl _ u(2)] show ?case
    by (auto intro: settled_mono members_settled_mono)
qed (auto simp: settled_def unsafe_def members_def)

lemma walk_false:
  "walk safe h n v S = Some (False, T) \<Longrightarrow> \<exists>u. reaches_value h v u \<and> unsafe safe u"
  "walk_all safe h n vs S = Some (False, T) \<Longrightarrow> \<exists>v \<in> set vs. \<exists>u. reaches_value h v u \<and> unsafe safe u"
proof (induction safe h n v S and safe h n vs S arbitrary: T and T rule: walk_walk_all.induct)
  case (1 safe h n k a S)
  show ?case
  proof (cases "is_container k")
    case True
    with 1(2) obtain vs m where m: "contents h k a = Some vs" "a \<notin> S" "n = Suc m"
      "walk_all safe h m vs (insert a S) = Some (False, T)"
      by (auto split: nat.splits option.splits if_splits)
    from 1(1) [OF _ m] True obtain v u where "v \<in> set vs" "reaches_value h v u" "unsafe safe u" by auto
    moreover from m(1) True calculation(1) have "v \<in> members h (VRef k a)" by (simp add: members_def)
    ultimately show ?thesis using reaches_member by blast
  next
    case False
    with 1(2) have "unsafe safe (VRef k a)" by (simp add: unsafe_def)
    then show ?thesis using reaches_self by blast
  qed
next
  case (4 safe h n v vs S)
  show ?case
  proof (cases "walk safe h n v S")
    case (Some r)
    obtain ok U where r: "r = (ok, U)" by (cases r)
    show ?thesis
    proof (cases ok)
      case True
      with 4(3) Some r have "walk_all safe h n vs U = Some (False, T)" by simp
      from 4(2) [OF Some _ True this] r show ?thesis by simp
    next
      case False
      with 4(1) [of T] 4(3) Some r show ?thesis by simp
    qed
  qed (use 4 in simp)
qed simp_all

lemma settled_everywhere:
  assumes "reaches_value h v u" "settled safe h T v" "\<forall>a \<in> T. members_settled safe h T a"
  shows "settled safe h T u"
  using assms
proof (induction rule: reaches_value.induct)
  case (reaches_member w v u)
  from reaches_member(1) obtain k a vs where v: "v = VRef k a" "is_container k" "contents h k a = Some vs" "w \<in> set vs"
    by (cases v) (auto simp: members_def split: if_splits option.splits)
  with reaches_member(1,4) have "a \<in> T" by (auto simp: settled_def)
  with v reaches_member(5) have "settled safe h T w" unfolding members_settled_def by blast
  with reaches_member show ?case by blast
qed

lemma walk_exact:
  assumes "walk safe h n v {} = Some (ok, T)"
  shows "ok \<longleftrightarrow> (\<forall>u. reaches_value h v u \<longrightarrow> \<not> unsafe safe u)"
proof (cases ok)
  case True
  with walk_true(1) [of safe h n v "{}" T] assms have "settled safe h T v" "\<forall>a \<in> T. members_settled safe h T a" by auto
  from settled_everywhere [OF _ this] have "\<not> unsafe safe u" if "reaches_value h v u" for u
    using that by (simp add: settled_def)
  with True show ?thesis by blast
next
  case False
  with walk_false(1) [of safe h n v "{}" T] assms show ?thesis by auto
qed

text \<open>Each level of nesting sees a new address, so the addresses that are left bound the fuel.\<close>

lemma walk_seen: "walk safe h n v S = Some (ok, T) \<Longrightarrow> S \<subseteq> T" "walk_all safe h n vs S = Some (ok, T) \<Longrightarrow> S \<subseteq> T"
proof (induction safe h n v S and safe h n vs S arbitrary: ok T and ok T rule: walk_walk_all.induct)
  case (1 safe h n k a S)
  then show ?case by (auto split: if_splits option.splits nat.splits)
next
  case (4 safe h n v vs S)
  then show ?case by (fastforce split: if_splits option.splits)
qed auto

lemma walk_returns:
  "\<forall>a. h a \<noteq> None \<longrightarrow> a < b \<Longrightarrow> card ({..<b} - S) \<le> n \<Longrightarrow> walk safe h n v S \<noteq> None"
  "\<forall>a. h a \<noteq> None \<longrightarrow> a < b \<Longrightarrow> card ({..<b} - S) \<le> n \<Longrightarrow> walk_all safe h n vs S \<noteq> None"
proof (induction safe h n v S and safe h n vs S rule: walk_walk_all.induct)
  case (1 safe h n k a S)
  show ?case
  proof (cases "is_container k \<and> contents h k a \<noteq> None \<and> a \<notin> S")
    case True
    then obtain vs where vs: "contents h k a = Some vs" by blast
    then have "h a \<noteq> None" by (auto simp: contents_def split: kind.splits option.splits)
    with 1(2) True have a: "a \<in> {..<b} - S" by auto
    have "{..<b} - insert a S = ({..<b} - S) - {a}" by blast
    with card_Suc_Diff1 [OF _ a] have "card ({..<b} - S) = Suc (card ({..<b} - insert a S))" by simp
    with 1(3) have "Suc (card ({..<b} - insert a S)) \<le> n" by simp
    then obtain m where m: "n = Suc m" "card ({..<b} - insert a S) \<le> m" by (cases n) simp_all
    have "walk_all safe h m vs (insert a S) \<noteq> None"
      by (rule 1(1) [OF _ vs _ m(1) 1(2) m(2)]) (use True in simp_all)
    then show ?thesis using True by (simp add: m(1) vs)
  qed (auto split: option.splits)
next
  case (4 safe h n v vs S)
  from 4(1) [OF 4(3,4)] obtain ok T where t: "walk safe h n v S = Some (ok, T)" by auto
  from walk_seen(1) [OF t] have "card ({..<b} - T) \<le> card ({..<b} - S)" by (intro card_mono) auto
  with 4(2) [OF t refl _ 4(3)] 4(4) t show ?case by auto
qed auto

text \<open>C35: \<open>is_send\<close> answers on every value, cyclic ones included, and answers true exactly when nothing
  the value reaches through arrays, structures, enums and captures is of a kind that may not cross
  threads.\<close>
theorem is_send_exact:
  assumes "\<forall>a. heap s a \<noteq> None \<longrightarrow> a < next_address s"
  shows "memory_is_send [v] s = (Ok (VBool (\<forall>u. reaches_value (heap s) v u \<longrightarrow> \<not> unsafe send_kind u)), s)"
proof -
  have "walk send_kind (heap s) (next_address s) v {} \<noteq> None"
    by (rule walk_returns(1) [OF assms]) simp
  then obtain ok T where w: "walk send_kind (heap s) (next_address s) v {} = Some (ok, T)" by auto
  from walk_exact [OF w] show ?thesis
    by (simp add: memory_is_send_def is_send_value_def w of_walk_def)
qed

text \<open>An array that contains itself and a pointer.\<close>
theorem is_send_exact_witness:
  "\<exists>s u. memory_is_send [VRef K_Array 1] s = (Ok (VBool False), s) \<and>
     heap s 1 = Some (Obj_Array [VRef K_Array 1, VInt 3, VRef K_Pointer 2]) \<and> reaches_value (heap s) (VRef K_Array 1) u \<and>
     unsafe send_kind u"
proof -
  let ?h = "[1 \<mapsto> Obj_Array [VRef K_Array 1, VInt 3, VRef K_Pointer 2], 2 \<mapsto> Obj_Pointer (Target_Global ''x'') ''x'']"
  let ?s = "init_state\<lparr>heap := ?h, next_address := 3\<rparr>"
  have r: "reaches_value ?h (VRef K_Array 1) (VRef K_Pointer 2)"
    by (rule reaches_member [of "VRef K_Pointer 2"])
      (simp_all add: members_def is_container_def contents_def reaches_self)
  have u: "unsafe send_kind (VRef K_Pointer 2)" by (simp add: unsafe_def is_container_def send_kind_def)
  have "\<forall>a. heap ?s a \<noteq> None \<longrightarrow> a < next_address ?s" by auto
  from is_send_exact [OF this, of "VRef K_Array 1"] r u
  have "memory_is_send [VRef K_Array 1] ?s = (Ok (VBool False), ?s)" by auto
  with r u show ?thesis by (intro exI [of _ ?s] exI [of _ "VRef K_Pointer 2"]) simp
qed

section \<open>Cells\<close>

text \<open>After \<open>free\<close> every access through the pointer fails, and so does a second \<open>free\<close>.\<close>
theorem free_twice_fails:
  assumes "heap s a = Some (Obj_Pointer (Target_Cell v True raw) name)" "memory_free [VRef K_Pointer a] s = (Ok r, s')"
    "error_message s' = []"
  shows "memory_free [VRef K_Pointer a] s' = (Ok VNull, s'\<lparr>error_message := ''Double free detected''\<rparr>)"
  using assms
  by (auto simp: memory_free_def native_fail_def raise_error_def seqE_def bindE_def split: prod.splits if_splits)

end
