(* ===== verification/StdlibProps.thy ===== *)
theory StdlibProps
  imports TextModule ValueProps "HOL-Library.Char_ord" "HOL-Library.List_Lexorder" "HOL-Library.Multiset"
begin

text \<open>
  What the functions of the standard library promise: sorting a transactional array, splitting and joining
  strings, reading a printed integer, with the two places where \<open>std.core\<close> departs from it.
\<close>

section \<open>Values the comparison orders\<close>

text \<open>
  The client \<open>stable_sort\<close> sees of its elements only what \<open>compare_values\<close> answers; a type of elements
  that it orders like a linear order is sorted like that order.
\<close>

locale ordered_values =
  fixes embed :: "'a::linorder \<Rightarrow> value" and good :: "'a \<Rightarrow> bool"
  assumes compares: "good a \<Longrightarrow> good b \<Longrightarrow>
    compare_values domain (embed a) (embed b) = Ok (if a < b then - 1 else if b < a then 1 else 0)"
begin

lemma insert_value_insort:
  "good x \<Longrightarrow> \<forall>y \<in> set ys. good y \<Longrightarrow> sorted ys \<Longrightarrow>
    insert_value domain (embed x) (map embed ys) = Ok (map embed (insort x ys))"
proof (induction ys)
  case (Cons y ys)
  show ?case
  proof (cases "x < y")
    case True
    with Cons show ?thesis by (simp add: compares less_imp_le)
  next
    case False
    with Cons have i: "insert_value domain (embed x) (map embed ys) = Ok (map embed (insort x ys))" "good y" by simp_all
    show ?thesis
    proof (cases "x = y")
      case True
      with Cons.prems have "insort y ys = y # ys" by (simp add: insort_is_Cons)
      with True i Cons.prems show ?thesis by (simp add: compares)
    next
      case neq: False
      with False i Cons.prems show ?thesis by (simp add: compares)
    qed
  qed
qed simp

lemma stable_sort_sorts:
  "\<forall>x \<in> set xs. good x \<Longrightarrow> \<forall>y \<in> set ys. good y \<Longrightarrow> sorted ys \<Longrightarrow>
    stable_sort domain (map embed ys) (map embed xs) = Ok (map embed (sort (ys @ xs)))"
proof (induction xs arbitrary: ys)
  case Nil
  then show ?case by (simp add: sorted_sort_id)
next
  case (Cons x xs)
  have "sort (insort x ys @ xs) = sort (ys @ x # xs)"
    by (rule properties_for_sort) (simp_all add: union_assoc)
  moreover have "\<forall>y \<in> set (insort x ys). good y" using Cons.prems by (simp add: set_insort_key)
  ultimately show ?case using Cons by (simp add: insert_value_insort sorted_insort)
qed

end

interpretation small_integers: ordered_values vint "\<lambda>i. \<bar>i\<bar> < 2 ^ 52"
proof
  fix a b :: int and domain
  assume a: "\<bar>a\<bar> < 2 ^ 52" "\<bar>b\<bar> < 2 ^ 52"
  then have s: "sint (word_of_int a :: 64 word) = a" "sint (word_of_int b :: 64 word) = b"
    by (auto intro!: sint_vint)
  show "compare_values domain (vint a) (vint b) = Ok (if a < b then - 1 else if b < a then 1 else 0)"
    using a by (simp add: compare_values_def is_number_def vint_def s small_comparisons)
qed

interpretation booleans: ordered_values VBool "\<lambda>_. True"
  by standard (auto simp: compare_values_def is_number_def)

lemma string_less_order: "string_less s t \<longleftrightarrow> s < t"
  by (induction s t rule: string_less.induct) (auto simp: less_char_def)

interpretation texts: ordered_values vstr "\<lambda>_. True"
  by standard (auto simp: compare_values_def is_number_def vstr_def text_or_empty_def string_less_order)

section \<open>Sorting an array\<close>

lemma read_all:
  assumes "visible_array s a = Some es"
  shows "read_elements a [0..<length es] s = Some es"
proof -
  have "map (\<lambda>i. get_array_element a i s) [0..<length es] = map Some es"
    using assms by (intro nth_equalityI) (auto simp: get_array_element_def)
  moreover have "those (map Some es) = Some es" by (induction es) auto
  ultimately show ?thesis by (simp add: read_elements_def)
qed

lemma visible_replaced:
  assumes "visible_array s a = Some es"
  shows "\<exists>s'. replace_array a new s = (True, s') \<and> visible_array s' a = Some new"
proof -
  obtain es0 where e: "array_elements (heap s) a = Some es0"
    using assms by (auto simp: visible_array_def split: option.splits)
  show ?thesis
  proof (cases "txns s")
    case Nil
    with e show ?thesis by (simp add: replace_array_def visible_array_def array_elements_def)
  next
    case (Cons t ts)
    with e show ?thesis
      by (simp add: replace_array_def visible_array_def update_txn_def set_pending_array_def array_elements_def
        update_conv')
  qed
qed

lemma core_sort_sorts:
  assumes "visible_array s a = Some es" "stable_sort ''std.core'' [] es = Ok zs"
  shows "\<exists>s'. core_sort [VRef K_Array a] s = (Ok (VRef K_Array a), s') \<and> visible_array s' a = Some zs"
proof -
  from visible_replaced [OF assms(1)] obtain s' where "replace_array a zs s = (True, s')" "visible_array s' a = Some zs"
    by blast
  moreover from assms(1) have "array_of (VRef K_Array a) s = Some a" "get_array_size a s = Some (length es)"
    by (auto simp: array_of_def get_array_size_def visible_array_def split: option.splits)
  ultimately show ?thesis
    by (simp add: core_sort_def with_array_def require_array_def catching_def read_all [OF assms(1)] assms(2)
      replacing_def bindE_def)
qed

text \<open>C40: sorting an array of integers below 2^52 in magnitude, inside a transaction or outside, leaves
  the visible array with the same integers in ascending order and returns the array.\<close>
theorem core_sort_integers:
  assumes "visible_array s a = Some (map vint is)" "\<forall>i \<in> set is. \<bar>i\<bar> < 2 ^ 52"
  shows "\<exists>s'. core_sort [VRef K_Array a] s = (Ok (VRef K_Array a), s') \<and> visible_array s' a = Some (map vint (sort is))"
  using core_sort_sorts [OF assms(1)] small_integers.stable_sort_sorts [of "is" "[]"] assms(2) by simp

text \<open>Strings are sorted too, although the operators of the language do not order them.\<close>
theorem core_sort_strings:
  assumes "visible_array s a = Some (map vstr ts)"
  shows "\<exists>s'. core_sort [VRef K_Array a] s = (Ok (VRef K_Array a), s') \<and> visible_array s' a = Some (map vstr (sort ts))"
  using core_sort_sorts [OF assms] texts.stable_sort_sorts [of ts "[]"] by simp

text \<open>Integers are compared as doubles: beyond 2^53 neighbours count as equal and stay unsorted.\<close>
theorem large_integers_stay_unsorted:
  "stable_sort ''std.core'' [] [vint (2 ^ 53 + 1), vint (2 ^ 53)] = Ok [vint (2 ^ 53 + 1), vint (2 ^ 53)]"
  by code_simp

text \<open>\<open>len\<close> looks at the shared elements: what a transaction pushed does not count.\<close>
theorem len_ignores_pending:
  assumes "array_elements (heap s) a = Some es" "txns s \<noteq> []" "push_array_element a v s = (True, s')"
  shows "get_array_size a s' = Some (length (pending_copy a (update_txn (stage_array a es) s)) + 1)"
    and "fst (core_len [VRef K_Array a] s') = Ok (vint (int (length es)))"
proof -
  from assms have s': "s' = update_txn (set_pending_array a (pending_copy a (update_txn (stage_array a es) s) @ [v]))
      (update_txn (stage_array a es) s)" by (simp add: push_array_element_def Let_def)
  obtain t ts where t: "txns s = t # ts" using assms(2) by (cases "txns s") auto
  show "get_array_size a s' = Some (length (pending_copy a (update_txn (stage_array a es) s)) + 1)"
    using assms(1) t by (simp add: s' get_array_size_def visible_array_def update_txn_def set_pending_array_def
      update_conv' array_elements_def)
  show "fst (core_len [VRef K_Array a] s') = Ok (vint (int (length es)))"
    using assms(1) t by (simp add: s' core_len_def require_array_def array_of_def update_txn_def bindE_def)
qed

section \<open>Splitting and joining\<close>

lemma find_text_none_before:
  assumes "find_from n s i = Some p" "j < p - i"
  shows "take (length n) (drop j s) \<noteq> n"
  using assms
proof (induction n s i arbitrary: j rule: find_from.induct)
  case (2 n c s i)
  then show ?case
    by (cases j) (auto split: if_splits simp: less_diff_conv)
qed (simp split: if_splits)

lemma join_Cons: "xs \<noteq> [] \<Longrightarrow> join_strings d (x # xs) = x @ d @ join_strings d xs"
  by (cases xs) auto

lemma split_nonempty: "d \<noteq> [] \<Longrightarrow> split_from s d c \<noteq> []"
  by (simp add: split_from.simps [of s d c] split: option.splits)

lemma join_split_from:
  assumes "d \<noteq> []"
  shows "join_strings d (split_from s d c) = drop c s"
  using assms
proof (induction s d c rule: split_from.induct)
  case (1 s d c)
  show ?case
  proof (cases "find_text s d c")
    case None
    with 1(2) show ?thesis by (simp add: split_from.simps [of s d c])
  next
    case (Some p)
    note f = find_text_some [OF Some]
    have "drop c s = take (p - c) (drop c s) @ drop p s"
      using f(1) by (metis append_take_drop_id drop_drop le_add_diff_inverse2)
    also have "drop p s = d @ drop (p + length d) s"
      using f(3) by (metis append_take_drop_id drop_drop add.commute)
    finally have "drop c s = take (p - c) (drop c s) @ d @ drop (p + length d) s" .
    with 1 Some show ?thesis
      by (simp add: split_from.simps [of s d c] join_Cons split_nonempty)
  qed
qed

lemma join_characters: "join_strings [] (map (\<lambda>c. [c]) s) = s"
proof (induction s)
  case (Cons c s)
  then show ?case by (cases s) auto
qed simp

text \<open>joining the pieces of a split string with the delimiter gives the string back, whatever the
  delimiter, the empty one included.\<close>
theorem join_split: "join_strings d (split_text s d) = s"
  by (simp add: split_text_def join_split_from join_characters)

section \<open>Printing and reading integers\<close>

lemma read_int_nat: "read_int s = int (read_nat s)"
proof -
  have "foldl (\<lambda>n c. 10 * n + int (digit_value c)) (int k) s = int (foldl (\<lambda>a c. 10 * a + digit_value c) k s)" for k
  proof (induction s arbitrary: k)
    case (Cons c s)
    have "10 * int k + int (digit_value c) = int (10 * k + digit_value c)" by simp
    then show ?case by (simp only: foldl_Cons Cons.IH)
  qed simp
  from this [of 0] show ?thesis by (simp add: read_int_def read_nat_def)
qed

lemma digits_no_space: "is_digit c \<Longrightarrow> \<not> is_space c \<and> c \<noteq> CHR ''-'' \<and> c \<noteq> CHR ''+''"
  by (auto simp: is_digit_def is_space_def Let_def)

lemma stoll_show_int:
  assumes "- (2 ^ 63) \<le> i" "i < 2 ^ 63"
  shows "stoll (show_int i) = Some i"
proof (cases "i < 0")
  case True
  have "list_all is_digit (show_nat (nat (- i)))" by (simp add: list_all_iff show_nat_digits)
  with True assms show ?thesis
    by (simp add: stoll_def show_int_def is_space_def strip_sign_def read_int_nat signed_def Let_def)
next
  case False
  obtain c t where c: "show_nat (nat i) = c # t" by (cases "show_nat (nat i)") auto
  have d: "list_all is_digit (c # t)" using show_nat_digits [of _ "nat i"] by (auto simp: list_all_iff c)
  have "read_int (c # t) = i" using False by (simp add: read_int_nat c [symmetric])
  with False assms c d digits_no_space [of c] show ?thesis
    by (simp add: stoll_def show_int_def strip_sign_def signed_def Let_def)
qed

text \<open>An integer printed by \<open>to_string\<close> is read back by \<open>to_int\<close>.\<close>
theorem to_int_of_to_string:
  "bindE (core_to_string [VInt i]) (\<lambda>v. core_to_int [v]) s = (Ok (VInt i), s)"
proof -
  have "to_string (heap s) (VInt i) = Ok (show_int (sint i))" by (simp add: to_string_def)
  moreover have "stoll (show_int (sint i)) = Some (sint i)"
    using sint_bounds [of i] by (intro stoll_show_int) auto
  ultimately show ?thesis
    by (simp add: core_to_string_def core_to_int_def convert_to_int_def vstr_def vint_def bindE_def)
qed

text \<open>An array of three integers.\<close>
theorem core_sort_integers_witness:
  "\<exists>s'. core_sort [VRef K_Array 1] (init_state\<lparr>heap := [1 \<mapsto> Obj_Array [vint 5, vint (- 2), vint 3]]\<rparr>) =
      (Ok (VRef K_Array 1), s') \<and> visible_array s' 1 = Some [vint (- 2), vint 3, vint 5]"
proof -
  let ?s = "init_state\<lparr>heap := [1 \<mapsto> Obj_Array [vint 5, vint (- 2), vint 3]]\<rparr>"
  have "visible_array ?s 1 = Some (map vint [5, - 2, 3])"
    by (simp add: visible_array_def array_elements_def init_state_def)
  moreover have "\<forall>i \<in> set [5, - 2, 3 :: int]. \<bar>i\<bar> < 2 ^ 52" by simp
  ultimately show ?thesis using core_sort_integers [of ?s 1 "[5, - 2, 3]"] by simp
qed

end
