(* ===== verification/Lexer.thy ===== *)
theory Lexer
  imports Prelude "HOL-Library.Sublist"
begin

text \<open>
  The lexer (src/src/lexer): the reader over the source text (reader/Reader.cpp), the rules for white
  space, identifiers, numbers, strings and operators (rules), and \<open>Lexer\<close> itself. The string stream
  of the reader is the text behind and ahead of its position. Reading a character shortens the text
  ahead, so every loop ends.
\<close>

section \<open>Tokens\<close>

text \<open>
  The enumeration \<open>TokenType\<close>: an integer per enumerator, in the order of the declaration.
\<close>

type_synonym token_type = nat

abbreviation (input) T_ERROR :: token_type where "T_ERROR \<equiv> 0"
abbreviation (input) T_EOF_TOKEN :: token_type where "T_EOF_TOKEN \<equiv> 1"
abbreviation (input) T_PARAN_OPEN :: token_type where "T_PARAN_OPEN \<equiv> 2"
abbreviation (input) T_PARAN_CLOSE :: token_type where "T_PARAN_CLOSE \<equiv> 3"
abbreviation (input) T_CURLY_OPEN :: token_type where "T_CURLY_OPEN \<equiv> 4"
abbreviation (input) T_CURLY_CLOSE :: token_type where "T_CURLY_CLOSE \<equiv> 5"
abbreviation (input) T_BRACKET_OPEN :: token_type where "T_BRACKET_OPEN \<equiv> 6"
abbreviation (input) T_BRACKET_CLOSE :: token_type where "T_BRACKET_CLOSE \<equiv> 7"
abbreviation (input) T_SEMICOLON :: token_type where "T_SEMICOLON \<equiv> 8"
abbreviation (input) T_COMMA :: token_type where "T_COMMA \<equiv> 9"
abbreviation (input) T_COLON :: token_type where "T_COLON \<equiv> 10"
abbreviation (input) T_DOT :: token_type where "T_DOT \<equiv> 11"
abbreviation (input) T_ELLIPSIS :: token_type where "T_ELLIPSIS \<equiv> 12"
abbreviation (input) T_PIPE :: token_type where "T_PIPE \<equiv> 13"
abbreviation (input) T_ARROW :: token_type where "T_ARROW \<equiv> 14"
abbreviation (input) T_OP_PLUS :: token_type where "T_OP_PLUS \<equiv> 15"
abbreviation (input) T_OP_MINUS :: token_type where "T_OP_MINUS \<equiv> 16"
abbreviation (input) T_OP_MUL :: token_type where "T_OP_MUL \<equiv> 17"
abbreviation (input) T_OP_DIVISION :: token_type where "T_OP_DIVISION \<equiv> 18"
abbreviation (input) T_OP_ASSIGNMENT :: token_type where "T_OP_ASSIGNMENT \<equiv> 19"
abbreviation (input) T_OP_EQUAL :: token_type where "T_OP_EQUAL \<equiv> 20"
abbreviation (input) T_OP_NOT_EQUAL :: token_type where "T_OP_NOT_EQUAL \<equiv> 21"
abbreviation (input) T_OP_LESS :: token_type where "T_OP_LESS \<equiv> 22"
abbreviation (input) T_OP_GREATER :: token_type where "T_OP_GREATER \<equiv> 23"
abbreviation (input) T_OP_LESS_OR_EQUAL :: token_type where "T_OP_LESS_OR_EQUAL \<equiv> 24"
abbreviation (input) T_OP_GREATER_OR_EQUAL :: token_type where "T_OP_GREATER_OR_EQUAL \<equiv> 25"
abbreviation (input) T_OP_AMPERSAND :: token_type where "T_OP_AMPERSAND \<equiv> 26"
abbreviation (input) T_OP_DOUBLE_AMPERSAND :: token_type where "T_OP_DOUBLE_AMPERSAND \<equiv> 27"
abbreviation (input) T_OP_DOUBLE_PIPE :: token_type where "T_OP_DOUBLE_PIPE \<equiv> 28"
abbreviation (input) T_KW_AND :: token_type where "T_KW_AND \<equiv> 29"
abbreviation (input) T_KW_OR :: token_type where "T_KW_OR \<equiv> 30"
abbreviation (input) T_KW_NOT :: token_type where "T_KW_NOT \<equiv> 31"
abbreviation (input) T_KW_MOD :: token_type where "T_KW_MOD \<equiv> 32"
abbreviation (input) T_KW_DIV :: token_type where "T_KW_DIV \<equiv> 33"
abbreviation (input) T_KW_MODULE :: token_type where "T_KW_MODULE \<equiv> 34"
abbreviation (input) T_KW_IMPORT :: token_type where "T_KW_IMPORT \<equiv> 35"
abbreviation (input) T_KW_AS :: token_type where "T_KW_AS \<equiv> 36"
abbreviation (input) T_KW_EXPORT :: token_type where "T_KW_EXPORT \<equiv> 37"
abbreviation (input) T_KW_TYPE :: token_type where "T_KW_TYPE \<equiv> 38"
abbreviation (input) T_KW_STRUCT :: token_type where "T_KW_STRUCT \<equiv> 39"
abbreviation (input) T_KW_ENUM :: token_type where "T_KW_ENUM \<equiv> 40"
abbreviation (input) T_KW_INTERFACE :: token_type where "T_KW_INTERFACE \<equiv> 41"
abbreviation (input) T_KW_IMPLEMENTS :: token_type where "T_KW_IMPLEMENTS \<equiv> 42"
abbreviation (input) T_KW_FN :: token_type where "T_KW_FN \<equiv> 43"
abbreviation (input) T_KW_VAR :: token_type where "T_KW_VAR \<equiv> 44"
abbreviation (input) T_KW_CONST :: token_type where "T_KW_CONST \<equiv> 45"
abbreviation (input) T_KW_SHARED :: token_type where "T_KW_SHARED \<equiv> 46"
abbreviation (input) T_KW_THREAD_LOCAL :: token_type where "T_KW_THREAD_LOCAL \<equiv> 47"
abbreviation (input) T_KW_ACTOR :: token_type where "T_KW_ACTOR \<equiv> 48"
abbreviation (input) T_KW_STATE :: token_type where "T_KW_STATE \<equiv> 49"
abbreviation (input) T_KW_MSG :: token_type where "T_KW_MSG \<equiv> 50"
abbreviation (input) T_KW_QUERY :: token_type where "T_KW_QUERY \<equiv> 51"
abbreviation (input) T_KW_EFFECT :: token_type where "T_KW_EFFECT \<equiv> 52"
abbreviation (input) T_KW_IF :: token_type where "T_KW_IF \<equiv> 53"
abbreviation (input) T_KW_ELSE :: token_type where "T_KW_ELSE \<equiv> 54"
abbreviation (input) T_KW_WHILE :: token_type where "T_KW_WHILE \<equiv> 55"
abbreviation (input) T_KW_ITER :: token_type where "T_KW_ITER \<equiv> 56"
abbreviation (input) T_KW_OF :: token_type where "T_KW_OF \<equiv> 57"
abbreviation (input) T_KW_RETURN :: token_type where "T_KW_RETURN \<equiv> 58"
abbreviation (input) T_KW_UNSAFE :: token_type where "T_KW_UNSAFE \<equiv> 59"
abbreviation (input) T_KW_TRUE :: token_type where "T_KW_TRUE \<equiv> 60"
abbreviation (input) T_KW_FALSE :: token_type where "T_KW_FALSE \<equiv> 61"
abbreviation (input) T_KW_NULL :: token_type where "T_KW_NULL \<equiv> 62"
abbreviation (input) T_KW_VOID :: token_type where "T_KW_VOID \<equiv> 63"
abbreviation (input) T_KW_NEVER :: token_type where "T_KW_NEVER \<equiv> 64"
abbreviation (input) T_KW_INT :: token_type where "T_KW_INT \<equiv> 65"
abbreviation (input) T_KW_FLOAT :: token_type where "T_KW_FLOAT \<equiv> 66"
abbreviation (input) T_KW_BOOL :: token_type where "T_KW_BOOL \<equiv> 67"
abbreviation (input) T_KW_STRING :: token_type where "T_KW_STRING \<equiv> 68"
abbreviation (input) T_KW_MAP :: token_type where "T_KW_MAP \<equiv> 69"
abbreviation (input) T_KW_PTR :: token_type where "T_KW_PTR \<equiv> 70"
abbreviation (input) T_KW_REF :: token_type where "T_KW_REF \<equiv> 71"
abbreviation (input) T_KW_REQUIRES :: token_type where "T_KW_REQUIRES \<equiv> 72"
abbreviation (input) T_KW_ENSURES :: token_type where "T_KW_ENSURES \<equiv> 73"
abbreviation (input) T_KW_INVARIANT :: token_type where "T_KW_INVARIANT \<equiv> 74"
abbreviation (input) T_KW_RAISES :: token_type where "T_KW_RAISES \<equiv> 75"
abbreviation (input) T_KW_WITH :: token_type where "T_KW_WITH \<equiv> 76"
abbreviation (input) T_KW_DROP :: token_type where "T_KW_DROP \<equiv> 77"
abbreviation (input) T_KW_TAKE :: token_type where "T_KW_TAKE \<equiv> 78"
abbreviation (input) T_KW_REVERSE :: token_type where "T_KW_REVERSE \<equiv> 79"
abbreviation (input) T_KW_FILTER :: token_type where "T_KW_FILTER \<equiv> 80"
abbreviation (input) T_KW_TRANSFORM :: token_type where "T_KW_TRANSFORM \<equiv> 81"
abbreviation (input) T_KW_HANDLE :: token_type where "T_KW_HANDLE \<equiv> 82"
abbreviation (input) T_KW_TRANSACTION :: token_type where "T_KW_TRANSACTION \<equiv> 83"
abbreviation (input) T_KW_CONTEXT :: token_type where "T_KW_CONTEXT \<equiv> 84"
abbreviation (input) T_KW_COMPTIME :: token_type where "T_KW_COMPTIME \<equiv> 85"
abbreviation (input) T_KW_GO :: token_type where "T_KW_GO \<equiv> 86"
abbreviation (input) T_KW_AWAIT :: token_type where "T_KW_AWAIT \<equiv> 87"
abbreviation (input) T_KW_PRINT :: token_type where "T_KW_PRINT \<equiv> 88"
abbreviation (input) T_INTEGER_LITERAL :: token_type where "T_INTEGER_LITERAL \<equiv> 89"
abbreviation (input) T_FLOAT_LITERAL :: token_type where "T_FLOAT_LITERAL \<equiv> 90"
abbreviation (input) T_STRING_LITERAL :: token_type where "T_STRING_LITERAL \<equiv> 91"
abbreviation (input) T_ID :: token_type where "T_ID \<equiv> 92"

datatype lex_error =
  E_NONE | E_UNEXPECTED_CHARACTER | E_INVALID_NUMBER | E_UNCLOSED_STRING | E_EMPTY_INPUT |
  E_INVALID_ID | E_TERM_EXPECTED | E_PARAN_CLOSE_EXPECTED

record token =
  tok_type :: token_type
  tok_value :: string
  tok_pos :: nat
  tok_line :: nat
  tok_error :: lex_error

definition make_token :: "token_type \<Rightarrow> string \<Rightarrow> nat \<Rightarrow> nat \<Rightarrow> lex_error \<Rightarrow> token" where
  "make_token ty s pos line e =
     \<lparr>tok_type = ty, tok_value = s, tok_pos = pos, tok_line = line, tok_error = e\<rparr>"

definition keyword_map :: "(string \<times> token_type) list" where
  "keyword_map =
    [(''module'', T_KW_MODULE), (''import'', T_KW_IMPORT), (''as'', T_KW_AS),
     (''export'', T_KW_EXPORT), (''type'', T_KW_TYPE), (''struct'', T_KW_STRUCT),
     (''enum'', T_KW_ENUM), (''interface'', T_KW_INTERFACE), (''implements'', T_KW_IMPLEMENTS),
     (''fn'', T_KW_FN), (''var'', T_KW_VAR), (''const'', T_KW_CONST), (''shared'', T_KW_SHARED),
     (''thread_local'', T_KW_THREAD_LOCAL), (''actor'', T_KW_ACTOR), (''state'', T_KW_STATE),
     (''msg'', T_KW_MSG), (''query'', T_KW_QUERY), (''effect'', T_KW_EFFECT), (''if'', T_KW_IF),
     (''else'', T_KW_ELSE), (''while'', T_KW_WHILE), (''iter'', T_KW_ITER), (''of'', T_KW_OF),
     (''return'', T_KW_RETURN), (''unsafe'', T_KW_UNSAFE), (''true'', T_KW_TRUE),
     (''false'', T_KW_FALSE), (''null'', T_KW_NULL), (''void'', T_KW_VOID),
     (''never'', T_KW_NEVER), (''int'', T_KW_INT), (''float'', T_KW_FLOAT),
     (''bool'', T_KW_BOOL), (''string'', T_KW_STRING), (''map'', T_KW_MAP), (''ptr'', T_KW_PTR),
     (''ref'', T_KW_REF), (''requires'', T_KW_REQUIRES), (''ensures'', T_KW_ENSURES),
     (''invariant'', T_KW_INVARIANT), (''raises'', T_KW_RAISES), (''with'', T_KW_WITH),
     (''drop'', T_KW_DROP), (''take'', T_KW_TAKE), (''reverse'', T_KW_REVERSE),
     (''filter'', T_KW_FILTER), (''transform'', T_KW_TRANSFORM), (''handle'', T_KW_HANDLE),
     (''transaction'', T_KW_TRANSACTION), (''context'', T_KW_CONTEXT),
     (''comptime'', T_KW_COMPTIME), (''go'', T_KW_GO), (''await'', T_KW_AWAIT),
     (''print'', T_KW_PRINT), (''and'', T_KW_AND), (''or'', T_KW_OR), (''not'', T_KW_NOT),
     (''mod'', T_KW_MOD), (''div'', T_KW_DIV)]"

definition lookup_keyword :: "string \<Rightarrow> token_type" where
  "lookup_keyword s = (case map_of keyword_map s of Some t \<Rightarrow> t | None \<Rightarrow> T_ID)"

section \<open>Characters\<close>

text \<open>The predicates of \<open>cctype\<close> in the C locale.\<close>

definition is_alpha :: "char \<Rightarrow> bool" where
  "is_alpha c \<longleftrightarrow> (let n = (of_char c :: nat) in 65 \<le> n \<and> n \<le> 90 \<or> 97 \<le> n \<and> n \<le> 122)"

definition is_alnum :: "char \<Rightarrow> bool" where
  "is_alnum c \<longleftrightarrow> is_alpha c \<or> is_digit c"

definition newline :: char where
  "newline = CHR 0x0A"

definition starts_identifier :: "char \<Rightarrow> bool" where
  "starts_identifier c \<longleftrightarrow> is_alpha c \<or> c = CHR ''_''"

definition continues_identifier :: "char \<Rightarrow> bool" where
  "continues_identifier c \<longleftrightarrow> is_alnum c \<or> c = CHR ''_''"

section \<open>Reader\<close>

text \<open>
  \<open>rd_behind\<close> is the text before the position, last character first. The error flags of the stream
  are not modelled: the lexer asks for the end of the text at most once before it puts a character
  back, and a stream puts back after one such question.
\<close>

record reader =
  rd_behind :: string
  rd_ahead :: string
  rd_count :: nat
  rd_line_count :: nat
  rd_prev_count :: nat
  rd_record :: string

definition new_reader :: "string \<Rightarrow> reader" where
  "new_reader s =
     \<lparr>rd_behind = [], rd_ahead = s, rd_count = 0, rd_line_count = 0, rd_prev_count = 0,
      rd_record = []\<rparr>"

definition end_of_file :: "reader \<Rightarrow> bool" where
  "end_of_file r \<longleftrightarrow> rd_ahead r = []"

text \<open>At the end \<open>peek\<close> returns \<open>EOF\<close>, which the cast turns into the character 255.\<close>

definition reader_peek :: "reader \<Rightarrow> char" where
  "reader_peek r = (case rd_ahead r of [] \<Rightarrow> CHR 0xFF | c # _ \<Rightarrow> c)"

text \<open>The counting of a character that \<open>Get\<close> and \<open>Seek\<close> share.\<close>

definition count_char :: "char \<Rightarrow> reader \<Rightarrow> reader" where
  "count_char c r =
     (if c = newline
      then r\<lparr>rd_prev_count := rd_count r, rd_line_count := rd_line_count r + 1, rd_count := 0\<rparr>
      else r\<lparr>rd_count := rd_count r + 1\<rparr>)"

definition reader_get :: "(reader, char) proc" where
  "reader_get r = (case rd_ahead r of
       [] \<Rightarrow> (Raise (CppExc ''EOF Error: tried to get char from an empty reader''), r)
     | c # cs \<Rightarrow>
         let r' = count_char c (r\<lparr>rd_behind := c # rd_behind r, rd_ahead := cs\<rparr>)
         in (Ok c, r'\<lparr>rd_record := rd_record r' @ [c]\<rparr>))"

definition reader_unget :: "(reader, unit) proc" where
  "reader_unget r =
     (if rd_record r = [] then (Raise (CppExc ''Cannot unget: no characters consumed''), r)
      else if last (rd_record r) = newline \<and> rd_line_count r = 0
        then (Raise (CppExc ''Cannot unget newline: no newlines to undo''), r)
      else if last (rd_record r) \<noteq> newline \<and> rd_count r = 0
        then (Raise (CppExc ''Cannot unget: count underflow''), r)
      else
        let r1 = (if last (rd_record r) = newline
                  then r\<lparr>rd_line_count := rd_line_count r - 1, rd_count := rd_prev_count r\<rparr>
                  else r\<lparr>rd_count := rd_count r - 1\<rparr>);
            r2 = r1\<lparr>rd_record := butlast (rd_record r1)\<rparr>
        in (Ok (), case rd_behind r2 of
             [] \<Rightarrow> r2
           | c # cs \<Rightarrow> r2\<lparr>rd_behind := cs, rd_ahead := c # rd_ahead r2\<rparr>))"

text \<open>\<open>Seek\<close> rewinds and reads \<open>pos\<close> characters without recording them.\<close>

fun seek_forward :: "nat \<Rightarrow> (reader, unit) proc" where
  "seek_forward 0 r = (Ok (), r)"
| "seek_forward (Suc n) r = (case rd_ahead r of
       [] \<Rightarrow> (Raise (CppExc ''Seek beyond EOF''), r)
     | c # cs \<Rightarrow> seek_forward n (count_char c (r\<lparr>rd_behind := c # rd_behind r, rd_ahead := cs\<rparr>)))"

definition reader_seek :: "nat \<Rightarrow> (reader, unit) proc" where
  "reader_seek pos r = seek_forward pos (new_reader (rev (rd_behind r) @ rd_ahead r))"

definition start_record :: "reader \<Rightarrow> reader" where
  "start_record r = r\<lparr>rd_record := []\<rparr>"

definition stop_record :: "reader \<Rightarrow> string" where
  "stop_record r = rd_record r"

section \<open>Reading ahead\<close>

text \<open>\<open>consume s r\<close> is the reader after it has read the characters of \<open>s\<close>.\<close>

definition read_char :: "char \<Rightarrow> reader \<Rightarrow> reader" where
  "read_char c r = snd (reader_get (r\<lparr>rd_ahead := c # tl (rd_ahead r)\<rparr>))"

fun consume :: "string \<Rightarrow> reader \<Rightarrow> reader" where
  "consume [] r = r"
| "consume (c # cs) r = consume cs (read_char c r)"

lemma read_char_ahead [simp]: "rd_ahead (read_char c r) = tl (rd_ahead r)"
  by (simp add: read_char_def reader_get_def count_char_def Let_def)

lemma read_char_behind [simp]: "rd_behind (read_char c r) = c # rd_behind r"
  by (simp add: read_char_def reader_get_def count_char_def Let_def)

lemma consume_append: "consume (s @ t) r = consume t (consume s r)"
  by (induction s arbitrary: r) auto

lemma consume_ahead [simp]: "rd_ahead (consume s r) = drop (length s) (rd_ahead r)"
  by (induction s arbitrary: r) (simp_all add: drop_Suc)

lemma consume_behind [simp]: "rd_behind (consume s r) = rev s @ rd_behind r"
  by (induction s arbitrary: r) simp_all

lemma reader_get_Cons: "rd_ahead r = c # cs \<Longrightarrow> reader_get r = (Ok c, read_char c r)"
  by (cases r) (simp add: read_char_def reader_get_def count_char_def Let_def)

lemma reader_get_shorter:
  "reader_get r = (Ok c, r') \<Longrightarrow> length (rd_ahead r') < length (rd_ahead r)"
  using reader_get_Cons [of r] by (cases "rd_ahead r") (auto simp: reader_get_def)

lemma reader_unget_get:
  "rd_ahead r = c # cs \<Longrightarrow> c \<noteq> newline \<Longrightarrow> reader_unget (read_char c r) = (Ok (), r)"
  by (cases r)
    (simp add: reader_unget_def read_char_def reader_get_def count_char_def Let_def)

text \<open>The loop that reads while the next character satisfies \<open>p\<close>.\<close>

function read_while :: "(char \<Rightarrow> bool) \<Rightarrow> string \<Rightarrow> (reader, string) proc" where
  "read_while p s r =
     (if end_of_file r \<or> \<not> p (reader_peek r) then (Ok s, r)
      else case reader_get r of
          (Ok c, r') \<Rightarrow> read_while p (s @ [c]) r'
        | (Raise e, r') \<Rightarrow> (Raise e, r'))"
  by pat_completeness auto
termination
  by (relation "measure (\<lambda>(p, s, r). length (rd_ahead r))") (auto dest!: reader_get_shorter [OF sym])

declare read_while.simps [simp del]

lemma read_while_eq:
  "read_while p s r =
     (Ok (s @ takeWhile p (rd_ahead r)), consume (takeWhile p (rd_ahead r)) r)"
proof (induction p s r rule: read_while.induct)
  case (1 p s r)
  show ?case
  proof (cases "rd_ahead r")
    case Nil
    then show ?thesis by (simp add: read_while.simps [of p s r] end_of_file_def)
  next
    case (Cons c cs)
    with 1 [OF _ reader_get_Cons [OF Cons, symmetric]] show ?thesis
      by (auto simp: read_while.simps [of p s r] end_of_file_def reader_peek_def reader_get_Cons)
  qed
qed

text \<open>
  \<open>runs m r x w\<close>: from \<open>r\<close> the procedure returns \<open>x\<close> and has read exactly the characters \<open>w\<close>.
\<close>

definition runs :: "(reader, 'a) proc \<Rightarrow> reader \<Rightarrow> 'a \<Rightarrow> string \<Rightarrow> bool" where
  "runs m r x w \<longleftrightarrow> prefix w (rd_ahead r) \<and> m r = (Ok x, consume w r)"

lemma runsI: "rd_ahead r = w @ z \<Longrightarrow> m r = (Ok x, consume w r) \<Longrightarrow> runs m r x w"
  by (simp add: runs_def)

lemma runs_ahead: "runs m r x w \<Longrightarrow> rd_ahead r = w @ rd_ahead (consume w r)"
  by (auto simp: runs_def prefix_def)

lemma runs_state: "runs m r x w \<Longrightarrow> m r = (Ok x, consume w r)"
  by (simp add: runs_def)

lemma runs_bindE:
  assumes "runs m r x v" and "runs (f x) (consume v r) y w"
  shows "runs (bindE m f) r y (v @ w)"
  using assms by (auto simp: runs_def prefix_def bindE_def consume_append)

lemma prefix_append_drop: "prefix v a \<Longrightarrow> prefix w (drop (length v) a) \<Longrightarrow> prefix (v @ w) a"
  by (auto simp: prefix_def)

lemma runs_ret: "runs (ret x) r x []"
  by (simp add: runs_def)

lemma runs_read_while: "runs (read_while p s) r (s @ takeWhile p (rd_ahead r)) (takeWhile p (rd_ahead r))"
  by (simp add: runs_def read_while_eq takeWhile_is_prefix)

lemma runs_get: "rd_ahead r = c # cs \<Longrightarrow> runs reader_get r c [c]"
  by (simp add: runs_def reader_get_Cons)

section \<open>White space and comments\<close>

function skip_line :: "(reader, unit) proc" where
  "skip_line r =
     (if end_of_file r then (Ok (), r)
      else case reader_get r of
          (Ok c, r') \<Rightarrow> if c = newline then (Ok (), r') else skip_line r'
        | (Raise e, r') \<Rightarrow> (Raise e, r'))"
  by pat_completeness auto
termination
  by (relation "measure (\<lambda>r. length (rd_ahead r))") (auto dest!: reader_get_shorter [OF sym])

function skip_block :: "(reader, unit) proc" where
  "skip_block r =
     (if end_of_file r then (Ok (), r)
      else case reader_get r of
          (Ok c, r') \<Rightarrow>
            if c = CHR ''*'' \<and> \<not> end_of_file r' \<and> reader_peek r' = CHR ''/''
            then bindE reader_get (\<lambda>_. ret ()) r'
            else skip_block r'
        | (Raise e, r') \<Rightarrow> (Raise e, r'))"
  by pat_completeness auto
termination
  by (relation "measure (\<lambda>r. length (rd_ahead r))") (auto dest!: reader_get_shorter [OF sym])

declare skip_line.simps [simp del] skip_block.simps [simp del]

text \<open>What a line comment and a block comment consist of after their opening.\<close>

fun rest_of_line :: "string \<Rightarrow> string" where
  "rest_of_line [] = []"
| "rest_of_line (c # cs) = (if c = newline then [c] else c # rest_of_line cs)"

fun rest_of_block :: "string \<Rightarrow> string" where
  "rest_of_block [] = []"
| "rest_of_block (c # cs) =
     (if c = CHR ''*'' \<and> cs \<noteq> [] \<and> hd cs = CHR ''/'' then [c, CHR ''/''] else c # rest_of_block cs)"

lemma runs_skip_line: "runs skip_line r () (rest_of_line (rd_ahead r))"
proof (induction "rd_ahead r" arbitrary: r)
  case Nil
  then show ?case by (simp add: runs_def skip_line.simps [of r] end_of_file_def)
next
  case (Cons c cs)
  note eq = Cons.hyps(2) [symmetric]
  show ?case
  proof (cases "c = newline")
    case True
    then show ?thesis
      using eq by (simp add: runs_def skip_line.simps [of r] end_of_file_def reader_get_Cons)
  next
    case False
    have "runs skip_line (read_char c r) () (rest_of_line cs)"
      using Cons.hyps(1) [of "read_char c r"] eq by simp
    then show ?thesis
      using False eq by (simp add: runs_def skip_line.simps [of r] end_of_file_def reader_get_Cons)
  qed
qed

lemma runs_skip_block: "runs skip_block r () (rest_of_block (rd_ahead r))"
proof (induction "rd_ahead r" arbitrary: r)
  case Nil
  then show ?case by (simp add: runs_def skip_block.simps [of r] end_of_file_def)
next
  case (Cons c cs)
  note eq = Cons.hyps(2) [symmetric]
  show ?case
  proof (cases "c = CHR ''*'' \<and> cs \<noteq> [] \<and> hd cs = CHR ''/''")
    case True
    then obtain ds where "cs = CHR ''/'' # ds" by (cases cs) auto
    with True eq show ?thesis
      by (simp add: runs_def skip_block.simps [of r] end_of_file_def reader_get_Cons reader_peek_def
          bindE_def)
  next
    case False
    have "runs skip_block (read_char c r) () (rest_of_block cs)"
      using Cons.hyps(1) [of "read_char c r"] eq by simp
    then show ?thesis
      using False eq by (cases cs)
        (auto simp: runs_def skip_block.simps [of r] end_of_file_def reader_get_Cons reader_peek_def)
  qed
qed

definition is_blank :: "char \<Rightarrow> bool" where
  "is_blank c \<longleftrightarrow> c \<in> {CHR '' '', CHR 0x09, CHR 0x0D, newline}"

lemma skip_line_shorter:
  "skip_line r = (x, r') \<Longrightarrow> length (rd_ahead r') \<le> length (rd_ahead r)"
  using runs_skip_line [of r] by (auto simp: runs_def)

lemma skip_block_shorter:
  "skip_block r = (x, r') \<Longrightarrow> length (rd_ahead r') \<le> length (rd_ahead r)"
  using runs_skip_block [of r] by (auto simp: runs_def)

function skip_whitespaces_and_comments :: "(reader, unit) proc" where
  "skip_whitespaces_and_comments r =
     (if end_of_file r then (Ok (), r)
      else if is_blank (reader_peek r) then
        (case reader_get r of
            (Ok _, r1) \<Rightarrow> skip_whitespaces_and_comments r1
          | (Raise e, r1) \<Rightarrow> (Raise e, r1))
      else if reader_peek r = CHR ''/'' then
        (case reader_get r of
            (Ok _, r1) \<Rightarrow>
              if end_of_file r1 then reader_unget r1
              else if reader_peek r1 = CHR ''/'' then
                (case reader_get r1 of
                    (Ok _, r2) \<Rightarrow>
                      (case skip_line r2 of
                          (Ok _, r3) \<Rightarrow> skip_whitespaces_and_comments r3
                        | (Raise e, r3) \<Rightarrow> (Raise e, r3))
                  | (Raise e, r2) \<Rightarrow> (Raise e, r2))
              else if reader_peek r1 = CHR ''*'' then
                (case reader_get r1 of
                    (Ok _, r2) \<Rightarrow>
                      (case skip_block r2 of
                          (Ok _, r3) \<Rightarrow> skip_whitespaces_and_comments r3
                        | (Raise e, r3) \<Rightarrow> (Raise e, r3))
                  | (Raise e, r2) \<Rightarrow> (Raise e, r2))
              else reader_unget r1
          | (Raise e, r1) \<Rightarrow> (Raise e, r1))
      else (Ok (), r))"
  by pat_completeness auto
termination
  by (relation "measure (\<lambda>r. length (rd_ahead r))")
    (auto dest!: reader_get_shorter [OF sym] skip_line_shorter [OF sym] skip_block_shorter [OF sym])

declare skip_whitespaces_and_comments.simps [simp del]

text \<open>The text that the loop skips.\<close>

function skipped :: "string \<Rightarrow> string" where
  "skipped [] = []"
| "skipped (c # cs) =
     (if is_blank c then c # skipped cs
      else if c = CHR ''/'' \<and> cs \<noteq> [] \<and> hd cs = CHR ''/'' then
        let w = rest_of_line (tl cs) in [c, hd cs] @ w @ skipped (drop (length w) (tl cs))
      else if c = CHR ''/'' \<and> cs \<noteq> [] \<and> hd cs = CHR ''*'' then
        let w = rest_of_block (tl cs) in [c, hd cs] @ w @ skipped (drop (length w) (tl cs))
      else [])"
  by pat_completeness auto
termination by (relation "measure length") auto

lemma runs_skip: "runs skip_whitespaces_and_comments r () (skipped (rd_ahead r))"
proof (induction "length (rd_ahead r)" arbitrary: r rule: less_induct)
  case less
  show ?case
  proof (cases "rd_ahead r")
    case Nil
    then show ?thesis
      by (simp add: runs_def skip_whitespaces_and_comments.simps [of r] end_of_file_def)
  next
    case (Cons c cs)
    note [simp] = skip_whitespaces_and_comments.simps [of r] end_of_file_def reader_peek_def
      reader_get_Cons Cons
    consider (blank) "is_blank c"
      | (line) ds where "\<not> is_blank c" "c = CHR ''/''" "cs = CHR ''/'' # ds"
      | (block) ds where "\<not> is_blank c" "c = CHR ''/''" "cs = CHR ''*'' # ds"
      | (slash) "\<not> is_blank c" "c = CHR ''/''" "cs = [] \<or> hd cs \<noteq> CHR ''/'' \<and> hd cs \<noteq> CHR ''*''"
      | (other) "\<not> is_blank c" "c \<noteq> CHR ''/''"
      by (cases cs) auto
    then show ?thesis
    proof cases
      case blank
      with less [of "read_char c r"] show ?thesis by (simp add: runs_def)
    next
      case line
      let ?r2 = "read_char (CHR ''/'') (read_char c r)"
      have l: "runs skip_line ?r2 () (rest_of_line ds)"
        using runs_skip_line [of ?r2] line by simp
      with line less [of "consume (rest_of_line ds) ?r2"] show ?thesis
        by (auto simp: runs_def consume_append Let_def intro!: prefix_append_drop)
    next
      case block
      let ?r2 = "read_char (CHR ''*'') (read_char c r)"
      have l: "runs skip_block ?r2 () (rest_of_block ds)"
        using runs_skip_block [of ?r2] block by simp
      with block less [of "consume (rest_of_block ds) ?r2"] show ?thesis
        by (auto simp: runs_def consume_append Let_def intro!: prefix_append_drop)
    next
      case slash
      have "reader_unget (read_char c r) = (Ok (), r)"
        using slash Cons by (intro reader_unget_get [of _ _ cs]) (auto simp: newline_def)
      with slash show ?thesis by (cases cs) (auto simp: runs_def)
    next
      case other
      then show ?thesis by (simp add: runs_def)
    qed
  qed
qed

section \<open>The rules\<close>

function read_segments :: "string \<Rightarrow> (reader, string) proc" where
  "read_segments s r =
     (if end_of_file r \<or> reader_peek r \<noteq> CHR '':'' then (Ok s, r)
      else case reader_get r of
          (Ok _, r1) \<Rightarrow>
            if end_of_file r1 \<or> reader_peek r1 \<noteq> CHR '':''
            then bindE reader_unget (\<lambda>_. ret s) r1
            else (case reader_get r1 of
                (Ok _, r2) \<Rightarrow>
                  if end_of_file r2 \<or> \<not> starts_identifier (reader_peek r2) then (Ok (s @ ''::''), r2)
                  else (case reader_get r2 of
                      (Ok c, r3) \<Rightarrow>
                        (case read_while continues_identifier (s @ ''::'' @ [c]) r3 of
                            (Ok s', r4) \<Rightarrow> read_segments s' r4
                          | (Raise e, r4) \<Rightarrow> (Raise e, r4))
                    | (Raise e, r3) \<Rightarrow> (Raise e, r3))
              | (Raise e, r2) \<Rightarrow> (Raise e, r2))
        | (Raise e, r1) \<Rightarrow> (Raise e, r1))"
  by pat_completeness auto
termination
  by (relation "measure (\<lambda>(s, r). length (rd_ahead r))")
    (auto simp: read_while_eq dest!: reader_get_shorter [OF sym])

declare read_segments.simps [simp del]

definition has_scope :: "string \<Rightarrow> bool" where
  "has_scope s \<longleftrightarrow> list_ex (\<lambda>i. take 2 (drop i s) = ''::'') [0..<length s]"

definition parse_identifier :: "nat \<Rightarrow> nat \<Rightarrow> (reader, token) proc" where
  "parse_identifier pos line =
     bindE (reads reader_peek) (\<lambda>first.
       if \<not> starts_identifier first then ret (make_token T_ERROR [] pos line E_UNEXPECTED_CHARACTER)
       else bindE reader_get (\<lambda>c.
         bindE (read_while continues_identifier [c]) (\<lambda>s.
         bindE (read_segments s) (\<lambda>s'.
           ret (if \<not> has_scope s' \<and> lookup_keyword s' \<noteq> T_ID
                then make_token (lookup_keyword s') s' pos line E_NONE
                else make_token T_ID s' pos line E_NONE)))))"

definition parse_number :: "nat \<Rightarrow> nat \<Rightarrow> (reader, token) proc" where
  "parse_number pos line =
     bindE (read_while is_digit []) (\<lambda>s.
     bindE (reads (\<lambda>r. \<not> end_of_file r \<and> reader_peek r = CHR ''.'')) (\<lambda>dot.
       if \<not> dot then ret (make_token T_INTEGER_LITERAL s pos line E_NONE)
       else bindE reader_get (\<lambda>_.
         bindE (reads (\<lambda>r. \<not> end_of_file r \<and> is_digit (reader_peek r))) (\<lambda>digit.
           if digit
           then bindE (read_while is_digit (s @ ''.'')) (\<lambda>s'.
                  ret (make_token T_FLOAT_LITERAL s' pos line E_NONE))
           else bindE reader_unget (\<lambda>_.
                  ret (make_token T_INTEGER_LITERAL s pos line E_NONE))))))"

abbreviation (input) backslash :: char where "backslash \<equiv> CHR 0x5C"
abbreviation (input) double_quote :: char where "double_quote \<equiv> CHR 0x22"

function string_loop :: "string \<Rightarrow> nat \<Rightarrow> nat \<Rightarrow> (reader, token) proc" where
  "string_loop s pos line r =
     (if end_of_file r then (Ok (make_token T_ERROR s pos line E_UNCLOSED_STRING), r)
      else case reader_get r of
          (Ok c, r1) \<Rightarrow>
            if c = backslash then
              (if end_of_file r1 then string_loop (s @ [c]) pos line r1
               else case reader_get r1 of
                   (Ok d, r2) \<Rightarrow> string_loop (s @ [c, d]) pos line r2
                 | (Raise e, r2) \<Rightarrow> (Raise e, r2))
            else if c = double_quote
              then (Ok (make_token T_STRING_LITERAL (s @ [c]) pos line E_NONE), r1)
            else if c = newline
              then (Ok (make_token T_ERROR (s @ [c]) pos line E_UNCLOSED_STRING), r1)
            else string_loop (s @ [c]) pos line r1
        | (Raise e, r1) \<Rightarrow> (Raise e, r1))"
  by pat_completeness auto
termination
  by (relation "measure (\<lambda>(s, pos, line, r). length (rd_ahead r))")
    (auto dest!: reader_get_shorter [OF sym])

declare string_loop.simps [simp del]

definition parse_string :: "nat \<Rightarrow> nat \<Rightarrow> (reader, token) proc" where
  "parse_string pos line = bindE reader_get (\<lambda>c. string_loop [c] pos line)"

definition double_operators :: "(string \<times> token_type) list" where
  "double_operators =
    [(''=='', T_OP_EQUAL), (''!='', T_OP_NOT_EQUAL), (''<='', T_OP_LESS_OR_EQUAL),
     (''>='', T_OP_GREATER_OR_EQUAL), (''->'', T_ARROW), (''&&'', T_OP_DOUBLE_AMPERSAND),
     (''||'', T_OP_DOUBLE_PIPE)]"

definition single_operators :: "(char \<times> token_type) list" where
  "single_operators =
    [(CHR ''('', T_PARAN_OPEN), (CHR '')'', T_PARAN_CLOSE), (CHR ''{'', T_CURLY_OPEN),
     (CHR ''}'', T_CURLY_CLOSE), (CHR ''['', T_BRACKET_OPEN), (CHR '']'', T_BRACKET_CLOSE),
     (CHR '';'', T_SEMICOLON), (CHR '','', T_COMMA), (CHR '':'', T_COLON), (CHR ''.'', T_DOT),
     (CHR ''|'', T_PIPE), (CHR ''+'', T_OP_PLUS), (CHR ''-'', T_OP_MINUS), (CHR ''*'', T_OP_MUL),
     (CHR ''/'', T_OP_DIVISION), (CHR ''='', T_OP_ASSIGNMENT), (CHR ''<'', T_OP_LESS),
     (CHR ''>'', T_OP_GREATER), (CHR ''&'', T_OP_AMPERSAND)]"
definition parse_single :: "char \<Rightarrow> nat \<Rightarrow> nat \<Rightarrow> token" where
  "parse_single c pos line = (case map_of single_operators c of
       Some ty \<Rightarrow> make_token ty [c] pos line E_NONE
     | None \<Rightarrow> make_token T_ERROR [c] pos line E_UNEXPECTED_CHARACTER)"

definition parse_operator :: "nat \<Rightarrow> nat \<Rightarrow> (reader, token) proc" where
  "parse_operator pos line =
     bindE reader_get (\<lambda>c.
     bindE (reads end_of_file) (\<lambda>eof.
     bindE (reads reader_peek) (\<lambda>next.
       if \<not> eof \<and> c = CHR ''.'' \<and> next = CHR ''.'' then
         bindE reader_get (\<lambda>_.
         bindE (reads (\<lambda>r. \<not> end_of_file r \<and> reader_peek r = CHR ''.'')) (\<lambda>third.
           if third then bindE reader_get (\<lambda>_. ret (make_token T_ELLIPSIS ''...'' pos line E_NONE))
           else ret (make_token T_ERROR ''..'' pos line E_UNEXPECTED_CHARACTER)))
       else if \<not> eof \<and> map_of double_operators [c, next] \<noteq> None then
         bindE reader_get (\<lambda>_.
           ret (make_token (the (map_of double_operators [c, next])) [c, next] pos line E_NONE))
       else ret (parse_single c pos line))))"

section \<open>The lexer\<close>

definition lexer_get :: "(reader, token) proc" where
  "lexer_get =
     bindE skip_whitespaces_and_comments (\<lambda>_.
     bindE (reads end_of_file) (\<lambda>eof.
     bindE (reads rd_count) (\<lambda>pos.
     bindE (reads rd_line_count) (\<lambda>line.
     bindE (reads reader_peek) (\<lambda>c.
       if eof then ret (make_token T_EOF_TOKEN [] pos line E_NONE)
       else if starts_identifier c then parse_identifier pos line
       else if is_digit c then parse_number pos line
       else if c = double_quote then parse_string pos line
       else parse_operator pos line)))))"

definition lexer_empty :: "(reader, bool) proc" where
  "lexer_empty = bindE skip_whitespaces_and_comments (\<lambda>_. reads end_of_file)"

definition lexer_peek :: "(reader, token) proc" where
  "lexer_peek =
     bindE lexer_empty (\<lambda>eof.
     bindE (reads rd_count) (\<lambda>pos.
     bindE (reads rd_line_count) (\<lambda>line.
       if eof then ret (make_token T_ERROR [] pos line E_EMPTY_INPUT)
       else bindE lexer_get (\<lambda>t. bindE (reader_seek pos) (\<lambda>_. ret t)))))"

end
