(* ===== verification/LexerProps.thy ===== *)
theory LexerProps
  imports Lexer
begin

text \<open>
  What the lexer promises: it returns on every text, the tokens and the white space between them are
  the text, every token carries the line and column it starts at, and tokens written with white space
  between them are read back.
\<close>

section \<open>One token\<close>

text \<open>\<open>reads_token m pos line r\<close>: the token that \<open>m\<close> returns spells what \<open>m\<close> has read.\<close>

definition reads_token :: "(reader, token) proc \<Rightarrow> nat \<Rightarrow> nat \<Rightarrow> reader \<Rightarrow> bool" where
  "reads_token m pos line r \<longleftrightarrow> (\<exists>t. runs m r t (tok_value t) \<and> tok_value t \<noteq> []
     \<and> tok_type t \<noteq> T_EOF_TOKEN \<and> tok_pos t = pos \<and> tok_line t = line)"

lemma make_token_simps [simp]:
  "tok_type (make_token ty s pos line e) = ty" "tok_value (make_token ty s pos line e) = s"
  "tok_pos (make_token ty s pos line e) = pos" "tok_line (make_token ty s pos line e) = line"
  "tok_error (make_token ty s pos line e) = e"
  by (simp_all add: make_token_def)

lemma runs_reads: "f r = x \<Longrightarrow> runs (reads f) r x []"
  by (simp add: runs_def)

lemma bindE_reads: "bindE (reads f) g r = g (f r) r"
  by (simp add: bindE_def)

lemma runs_bindE_reads: "runs (g (f r)) r x w \<Longrightarrow> runs (bindE (reads f) g) r x w"
  by (simp add: runs_def bindE_reads)

text \<open>The segments after the first: as many as follow, each introduced by two colons.\<close>

lemma runs_read_segments: "\<exists>w. runs (read_segments s) r (s @ w) w"
proof (induction "length (rd_ahead r)" arbitrary: s r rule: less_induct)
  case less
  consider (stop) "rd_ahead r = [] \<or> hd (rd_ahead r) \<noteq> CHR '':''"
    | (single) cs where "rd_ahead r = CHR '':'' # cs" "cs = [] \<or> hd cs \<noteq> CHR '':''"
    | (double) ds where "rd_ahead r = CHR '':'' # CHR '':'' # ds"
    by (cases "rd_ahead r") (auto, metis list.exhaust_sel)
  then show ?case
  proof cases
    case stop
    then have "read_segments s r = (Ok s, r)"
      by (cases "rd_ahead r") (auto simp: read_segments.simps [of s r] end_of_file_def reader_peek_def)
    then show ?thesis by (intro exI [of _ "[]"]) (simp add: runs_def)
  next
    case single
    have "reader_unget (read_char (CHR '':'') r) = (Ok (), r)"
      using single by (intro reader_unget_get [of _ _ cs]) (auto simp: newline_def)
    with single have "read_segments s r = (Ok s, r)"
      by (cases cs) (auto simp: read_segments.simps [of s r] end_of_file_def reader_peek_def
          reader_get_Cons bindE_def)
    then show ?thesis by (intro exI [of _ "[]"]) (simp add: runs_def)
  next
    case double
    note d = double
    let ?r2 = "read_char (CHR '':'') (read_char (CHR '':'') r)"
    note [simp] = read_segments.simps [of s r] end_of_file_def reader_peek_def reader_get_Cons
    show ?thesis
    proof (cases "ds = [] \<or> \<not> starts_identifier (hd ds)")
      case True
      with d have "read_segments s r = (Ok (s @ ''::''), ?r2)"
        by (cases ds) auto
      with d show ?thesis by (intro exI [of _ "''::''"]) (simp add: runs_def)
    next
      case False
      then obtain c es where ds: "ds = c # es" "starts_identifier c" by (cases ds) auto
      let ?w = "takeWhile continues_identifier es"
      let ?r4 = "consume ?w (read_char c ?r2)"
      have eq: "read_segments s r = read_segments (s @ ''::'' @ [c] @ ?w) ?r4"
        using d ds by (simp add: read_while_eq)
      have "\<exists>v. runs (read_segments (s @ ''::'' @ [c] @ ?w)) ?r4
        ((s @ ''::'' @ [c] @ ?w) @ v) v"
        using d ds by (intro less) simp
      then obtain v where v: "runs (read_segments (s @ ''::'' @ [c] @ ?w)) ?r4
        ((s @ ''::'' @ [c] @ ?w) @ v) v" by blast
      have "prefix (?w @ v) es"
        using v d ds by (intro prefix_append_drop) (auto simp: runs_def takeWhile_is_prefix)
      with v d ds eq show ?thesis
        by (intro exI [of _ "''::'' @ [c] @ ?w @ v"]) (simp add: runs_def consume_append)
    qed
  qed
qed

lemma lookup_keyword_not_eof: "lookup_keyword s \<noteq> T_EOF_TOKEN"
proof -
  have "\<forall>p \<in> set keyword_map. snd p \<noteq> T_EOF_TOKEN" by (simp add: keyword_map_def)
  then show ?thesis
    by (auto simp: lookup_keyword_def split: option.splits dest!: map_of_SomeD)
qed

lemma identifier_reads_token:
  assumes "rd_ahead r = c # cs" and "starts_identifier c"
  shows "reads_token (parse_identifier pos line) pos line r"
proof -
  let ?w = "takeWhile continues_identifier cs"
  let ?r = "consume ?w (read_char c r)"
  obtain v where v: "runs (read_segments ([c] @ ?w)) ?r (([c] @ ?w) @ v) v"
    using runs_read_segments by blast
  let ?s = "([c] @ ?w) @ v"
  let ?t = "if \<not> has_scope ?s \<and> lookup_keyword ?s \<noteq> T_ID
    then make_token (lookup_keyword ?s) ?s pos line E_NONE else make_token T_ID ?s pos line E_NONE"
  have "prefix (?w @ v) cs"
    using v assms by (intro prefix_append_drop) (auto simp: runs_def takeWhile_is_prefix)
  with v assms have "runs (parse_identifier pos line) r ?t ?s"
    by (simp add: runs_def parse_identifier_def bindE_def reader_peek_def reader_get_Cons
        read_while_eq consume_append)
  then show ?thesis
    unfolding reads_token_def by (intro exI [of _ ?t]) (auto simp: lookup_keyword_not_eof [unfolded One_nat_def])
qed

lemma split_while:
  obtains w z where "xs = w @ z" "\<forall>c \<in> set w. p c" "z = [] \<or> \<not> p (hd z)"
  using that [of "takeWhile p xs" "dropWhile p xs"] hd_dropWhile [of p xs]
  by (auto dest: set_takeWhileD)

lemma read_while_exact:
  assumes "rd_ahead r = w @ z" and "\<forall>c \<in> set w. p c" and "z = [] \<or> \<not> p (hd z)"
  shows "read_while p s r = (Ok (s @ w), consume w r)"
proof -
  have "takeWhile p (w @ z) = w"
    using assms(2,3) by (cases z) (auto simp: takeWhile_append2 [of w p])
  with assms(1) show ?thesis by (simp add: read_while_eq)
qed

lemma dot_not_digit [simp]: "\<not> is_digit (CHR ''.'')"
  by (simp add: is_digit_def)

lemma parse_number_integer:
  assumes r: "rd_ahead r = w @ z" and w: "\<forall>c \<in> set w. is_digit c" and z: "z = [] \<or> \<not> is_digit (hd z)"
    and no: "\<And>d y. z = CHR ''.'' # d # y \<Longrightarrow> \<not> is_digit d"
  shows "parse_number pos line r = (Ok (make_token T_INTEGER_LITERAL w pos line E_NONE), consume w r)"
proof -
  note first = read_while_exact [OF r w z, of "[]"]
  have ahead: "rd_ahead (consume w r) = z" using r by simp
  show ?thesis
  proof (cases "z \<noteq> [] \<and> hd z = CHR ''.''")
    case False
    with first ahead show ?thesis
      by (cases z) (auto simp: parse_number_def bindE_def end_of_file_def reader_peek_def)
  next
    case True
    then obtain y where y: "z = CHR ''.'' # y" by (cases z) auto
    have "reader_unget (read_char (CHR ''.'') (consume w r)) = (Ok (), consume w r)"
      using ahead y by (intro reader_unget_get [of _ _ y]) (auto simp: newline_def)
    with first ahead y no show ?thesis
      by (cases y)
        (auto simp: parse_number_def bindE_def end_of_file_def reader_peek_def reader_get_Cons)
  qed
qed

lemma parse_number_float:
  assumes r: "rd_ahead r = w @ CHR ''.'' # v @ z" and w: "\<forall>c \<in> set w. is_digit c"
    and v: "\<forall>c \<in> set v. is_digit c" "v \<noteq> []" and z: "z = [] \<or> \<not> is_digit (hd z)"
  shows "parse_number pos line r =
    (Ok (make_token T_FLOAT_LITERAL (w @ ''.'' @ v) pos line E_NONE), consume (w @ ''.'' @ v) r)"
proof -
  have first: "read_while is_digit [] r = (Ok w, consume w r)"
    using read_while_exact [OF r w, of "[]"] by simp
  let ?r1 = "read_char (CHR ''.'') (consume w r)"
  have second: "read_while is_digit (w @ ''.'') ?r1 = (Ok ((w @ ''.'') @ v), consume v ?r1)"
    using r by (intro read_while_exact [OF _ v(1) z]) simp
  obtain d ds where "v = d # ds" using v(2) by (cases v) auto
  with first second r v show ?thesis
    by (simp add: parse_number_def bindE_def end_of_file_def reader_peek_def reader_get_Cons
        consume_append)
qed

lemma reads_tokenI:
  assumes "m r = (Ok (make_token ty v pos line e), consume v r)" and "rd_ahead r = v @ z"
    and "v \<noteq> []" and "ty \<noteq> T_EOF_TOKEN"
  shows "reads_token m pos line r"
  using assms unfolding reads_token_def
  by (intro exI [of _ "make_token ty v pos line e"]) (simp add: runs_def)

lemma number_reads_token:
  assumes c: "rd_ahead r = c # cs" "is_digit c"
  shows "reads_token (parse_number pos line) pos line r"
proof -
  obtain w z where wz: "rd_ahead r = w @ z" "\<forall>c \<in> set w. is_digit c" "z = [] \<or> \<not> is_digit (hd z)"
    using split_while .
  have w: "w \<noteq> []" using wz c by auto
  show ?thesis
  proof (cases "\<exists>d y. z = CHR ''.'' # d # y \<and> is_digit d")
    case False
    then have "parse_number pos line r =
        (Ok (make_token T_INTEGER_LITERAL w pos line E_NONE), consume w r)"
      by (intro parse_number_integer [OF wz]) auto
    then show ?thesis by (rule reads_tokenI [where m = "parse_number pos line", OF _ wz(1) w]) simp
  next
    case True
    then obtain d y where d: "z = CHR ''.'' # d # y" "is_digit d" by blast
    obtain v x where vx: "d # y = v @ x" "\<forall>c \<in> set v. is_digit c" "x = [] \<or> \<not> is_digit (hd x)"
      using split_while .
    have v: "v \<noteq> []" using vx d by auto
    have r: "rd_ahead r = w @ CHR ''.'' # v @ x" using wz d vx by simp
    show ?thesis
      by (rule reads_tokenI [where m = "parse_number pos line", OF parse_number_float [OF r wz(2) vx(2) v vx(3)]]) (simp_all add: r)
  qed
qed

lemma runs_string_loop:
  "\<exists>ty w e. runs (string_loop s pos line) r (make_token ty (s @ w) pos line e) w
     \<and> ty \<noteq> T_EOF_TOKEN"
proof (induction "length (rd_ahead r)" arbitrary: s r rule: less_induct)
  case less
  note [simp] = string_loop.simps [of s pos line r] end_of_file_def reader_get_Cons
  show ?case
  proof (cases "rd_ahead r")
    case Nil
    then have "runs (string_loop s pos line) r (make_token T_ERROR (s @ []) pos line E_UNCLOSED_STRING) []"
      by (simp add: runs_def)
    then show ?thesis by (metis zero_neq_one)
  next
    case (Cons c cs)
    have stop: ?thesis if "string_loop s pos line r = (Ok (make_token ty (s @ [c]) pos line e), read_char c r)"
      "ty \<noteq> T_EOF_TOKEN" for ty e
    proof -
      have "runs (string_loop s pos line) r (make_token ty (s @ [c]) pos line e) [c]"
        using that Cons by (simp add: runs_def)
      with that(2) show ?thesis by blast
    qed
    have go: ?thesis if "string_loop s pos line r = string_loop (s @ v) pos line (consume v r)"
      "prefix v (c # cs)" "v \<noteq> []" for v
    proof -
      have "length (rd_ahead (consume v r)) < length (rd_ahead r)"
        using that(2,3) Cons by (auto simp: prefix_def)
      from less [OF this, of "s @ v"] obtain ty w e where w: "runs (string_loop (s @ v) pos line)
          (consume v r) (make_token ty ((s @ v) @ w) pos line e) w" "ty \<noteq> T_EOF_TOKEN"
        by blast
      have "runs (string_loop s pos line) r (make_token ty (s @ v @ w) pos line e) (v @ w)"
        using w(1) that Cons by (auto simp: runs_def consume_append intro!: prefix_append_drop)
      with w(2) show ?thesis by blast
    qed
    show ?thesis
    proof (cases "c = backslash")
      case True
      show ?thesis
      proof (cases cs)
        case Nil
        with True Cons show ?thesis by (intro go [of "[c]"]) simp_all
      next
        case (Cons d ds)
        with True \<open>rd_ahead r = c # cs\<close> show ?thesis by (intro go [of "[c, d]"]) simp_all
      qed
    next
      case False
      consider "c = double_quote" | "c = newline" | "c \<noteq> double_quote" "c \<noteq> newline" by blast
      then show ?thesis
      proof cases
        case 1
        with False Cons show ?thesis by (intro stop [of T_STRING_LITERAL E_NONE]) simp_all
      next
        case 2
        with False Cons show ?thesis
          by (intro stop [of T_ERROR E_UNCLOSED_STRING]) (simp_all add: newline_def)
      next
        case 3
        with False Cons show ?thesis by (intro go [of "[c]"]) simp_all
      qed
    qed
  qed
qed

lemma string_reads_token:
  assumes "rd_ahead r = c # cs"
  shows "reads_token (parse_string pos line) pos line r"
proof -
  obtain ty w e where w: "runs (string_loop [c] pos line) (read_char c r)
      (make_token ty ([c] @ w) pos line e) w" "ty \<noteq> T_EOF_TOKEN"
    using runs_string_loop by blast
  have eq: "parse_string pos line r = (Ok (make_token ty ([c] @ w) pos line e), consume ([c] @ w) r)"
    using w(1) assms by (simp add: parse_string_def runs_def bindE_def reader_get_Cons)
  have "rd_ahead r = ([c] @ w) @ drop (length w) cs"
    using w(1) assms by (auto simp: runs_def prefix_def)
  from reads_tokenI [where m = "parse_string pos line", OF eq this _ w(2)] show ?thesis by simp
qed

lemma single_operator_type: "map_of single_operators c = Some ty \<Longrightarrow> ty \<noteq> T_EOF_TOKEN"
  by (auto simp: single_operators_def split: if_splits)

lemma double_operator_type: "map_of double_operators w = Some ty \<Longrightarrow> ty \<noteq> T_EOF_TOKEN"
  by (auto simp: double_operators_def split: if_splits)

lemma operator_reads_token:
  assumes c: "rd_ahead r = c # cs"
  shows "reads_token (parse_operator pos line) pos line r"
proof -
  note [simp] = c bindE_def end_of_file_def reader_peek_def reader_get_Cons
  consider (dots) ds where "c = CHR ''.''" "cs = CHR ''.'' # ds"
    | (double) d ds ty where "\<not> (c = CHR ''.'' \<and> d = CHR ''.'')" "cs = d # ds"
        "map_of double_operators [c, d] = Some ty"
    | (single) "\<not> (c = CHR ''.'' \<and> cs \<noteq> [] \<and> hd cs = CHR ''.'')"
        "cs = [] \<or> map_of double_operators [c, hd cs] = None"
    by (cases cs; cases "map_of double_operators [c, hd cs]") force+
  then show ?thesis
  proof cases
    case dots
    show ?thesis
    proof (cases "ds \<noteq> [] \<and> hd ds = CHR ''.''")
      case True
      then obtain es where "ds = CHR ''.'' # es" by (cases ds) auto
      with dots show ?thesis
        by (intro reads_tokenI [of _ _ T_ELLIPSIS "''...''" _ _ _ es]) (simp_all add: parse_operator_def)
    next
      case False
      with dots show ?thesis
        by (intro reads_tokenI [of _ _ T_ERROR "''..''" _ _ _ ds])
          (cases ds; auto simp: parse_operator_def)+
    qed
  next
    case double
    then show ?thesis
      using double_operator_type [OF double(3)]
      by (intro reads_tokenI [of _ _ ty "[c, d]" _ _ _ ds]) (auto simp: parse_operator_def)
  next
    case single
    then have eq: "parse_operator pos line r = (Ok (parse_single c pos line), read_char c r)"
      by (cases cs) (auto simp: parse_operator_def)
    show ?thesis
    proof (cases "map_of single_operators c")
      case None
      with eq show ?thesis
        by (intro reads_tokenI [of _ _ T_ERROR "[c]" _ _ _ cs]) (simp_all add: parse_single_def)
    next
      case (Some ty)
      with eq single_operator_type [OF Some] show ?thesis
        by (intro reads_tokenI [of _ _ ty "[c]" _ _ _ cs]) (simp_all add: parse_single_def)
    qed
  qed
qed

section \<open>Every text is tokens and gaps\<close>

text \<open>White space and comments; an open gap ends with the text inside a comment.\<close>

inductive closed_gap :: "string \<Rightarrow> bool" where
  gap_end: "closed_gap []"
| gap_blank: "is_blank c \<Longrightarrow> closed_gap g \<Longrightarrow> closed_gap (c # g)"
| gap_line: "newline \<notin> set w \<Longrightarrow> closed_gap g \<Longrightarrow> closed_gap (''//'' @ w @ newline # g)"
| gap_block: "\<not> sublist ''*/'' w \<Longrightarrow> closed_gap g \<Longrightarrow> closed_gap (''/*'' @ w @ ''*/'' @ g)"

inductive gap :: "string \<Rightarrow> bool" where
  "closed_gap g \<Longrightarrow> gap g"
| "closed_gap g \<Longrightarrow> newline \<notin> set w \<Longrightarrow> gap (g @ ''//'' @ w)"
| "closed_gap g \<Longrightarrow> \<not> sublist ''*/'' w \<Longrightarrow> gap (g @ ''/*'' @ w)"

lemma gap_prepend:
  assumes "closed_gap g" and "gap h"
  shows "gap (g @ h)"
proof -
  have closed: "closed_gap g \<Longrightarrow> closed_gap h \<Longrightarrow> closed_gap (g @ h)" for g h
  proof (induction g rule: closed_gap.induct)
    case (gap_line w g)
    then show ?case using closed_gap.gap_line [of w "g @ h"] by simp
  next
    case (gap_block w g)
    then show ?case using closed_gap.gap_block [of w "g @ h"] by simp
  qed (simp_all add: closed_gap.gap_blank)
  note g = assms(1)
  from assms(2) show "gap (g @ h)"
  proof cases
    case 1
    with g show ?thesis by (intro gap.intros(1) closed)
  next
    case (2 h' w)
    with gap.intros(2) [of "g @ h'" w] g closed show ?thesis by simp
  next
    case (3 h' w)
    with gap.intros(3) [of "g @ h'" w] g closed show ?thesis by simp
  qed
qed

lemma rest_of_line_cases:
  obtains (closed) w z where "s = w @ newline # z" "newline \<notin> set w" "rest_of_line s = w @ [newline]"
  | (unclosed) "newline \<notin> set s" "rest_of_line s = s"
proof (induction s arbitrary: thesis)
  case (Cons c s)
  show ?case
  proof (cases "c = newline")
    case True
    then show ?thesis using Cons.prems(1) [of "[]" s] by simp
  next
    case False
    show ?thesis
    proof (rule Cons.IH)
      fix w z assume "s = w @ newline # z" "newline \<notin> set w" "rest_of_line s = w @ [newline]"
      then show ?thesis using False Cons.prems(1) [of "c # w" z] by simp
    next
      assume "newline \<notin> set s" "rest_of_line s = s"
      then show ?thesis using False Cons.prems(2) by simp
    qed
  qed
qed simp

lemma rest_of_block_cases:
  obtains (closed) w z where "s = w @ ''*/'' @ z" "\<not> sublist ''*/'' w" "rest_of_block s = w @ ''*/''"
  | (unclosed) "\<not> sublist ''*/'' s" "rest_of_block s = s"
proof (induction s arbitrary: thesis)
  case (Cons c s)
  have sub: "sublist ''*/'' (c # v) \<longleftrightarrow> (c = CHR ''*'' \<and> v \<noteq> [] \<and> hd v = CHR ''/'') \<or> sublist ''*/'' v" for v
    by (cases v) (auto simp: sublist_Cons_right)
  show ?case
  proof (cases "c = CHR ''*'' \<and> s \<noteq> [] \<and> hd s = CHR ''/''")
    case True
    then obtain z where "s = CHR ''/'' # z" by (cases s) auto
    with True show ?thesis using Cons.prems(1) [of "[]" z] by simp
  next
    case False
    show ?thesis
    proof (rule Cons.IH)
      fix w z assume w: "s = w @ ''*/'' @ z" "\<not> sublist ''*/'' w" "rest_of_block s = w @ ''*/''"
      have "\<not> sublist ''*/'' (c # w)" using False w by (cases w) (auto simp: sub)
      with w False show ?thesis using Cons.prems(1) [of "c # w" z] by auto
    next
      assume "\<not> sublist ''*/'' s" "rest_of_block s = s"
      then show ?thesis using False Cons.prems(2) by (auto simp: sub)
    qed
  qed
qed simp

lemma skipped_gap: "gap (skipped s)"
proof (induction s rule: skipped.induct)
  case (2 c cs)
  consider (blank) "is_blank c"
    | (line) ds where "\<not> is_blank c" "c = CHR ''/''" "cs = CHR ''/'' # ds"
    | (block) ds where "\<not> is_blank c" "c = CHR ''/''" "cs = CHR ''*'' # ds"
    | (stop) "\<not> is_blank c" "c \<noteq> CHR ''/'' \<or> cs = [] \<or> hd cs \<noteq> CHR ''/'' \<and> hd cs \<noteq> CHR ''*''"
    by (cases cs) auto
  then show ?case
  proof cases
    case blank
    then have "closed_gap [c]" by (intro closed_gap.intros)
    with blank 2(1) gap_prepend [of "[c]" "skipped cs"] show ?thesis by simp
  next
    case line
    show ?thesis
    proof (cases rule: rest_of_line_cases [of ds])
      case (closed w z)
      with line 2(2) have "gap (skipped z)" by (simp add: Let_def)
      moreover have "closed_gap (''//'' @ w @ newline # [])" using closed by (intro closed_gap.intros)
      ultimately show ?thesis using line closed gap_prepend by (fastforce simp: Let_def)
    next
      case unclosed
      with line gap.intros(2) [of "[]" ds] show ?thesis by (auto simp: Let_def intro: closed_gap.intros)
    qed
  next
    case block
    show ?thesis
    proof (cases rule: rest_of_block_cases [of ds])
      case (closed w z)
      with block 2(3) have "gap (skipped z)" by (simp add: Let_def)
      moreover have "closed_gap (''/*'' @ w @ ''*/'' @ [])" using closed by (intro closed_gap.intros)
      ultimately show ?thesis using block closed gap_prepend by (fastforce simp: Let_def)
    next
      case unclosed
      with block gap.intros(3) [of "[]" ds] show ?thesis by (auto simp: Let_def intro: closed_gap.intros)
    qed
  next
    case stop
    then have "skipped (c # cs) = []" by (cases cs) auto
    then show ?thesis by (auto intro: gap.intros closed_gap.intros)
  qed
qed (auto intro: gap.intros closed_gap.intros)

text \<open>Counting follows the text behind.\<close>

definition line_of :: "string \<Rightarrow> nat" where
  "line_of s = count_list s newline"

definition column_of :: "string \<Rightarrow> nat" where
  "column_of s = length (takeWhile (\<lambda>c. c \<noteq> newline) (rev s))"

definition counted :: "reader \<Rightarrow> bool" where
  "counted r \<longleftrightarrow> rd_line_count r = line_of (rev (rd_behind r)) \<and> rd_count r = column_of (rev (rd_behind r))"

lemma counted_read_char: "counted r \<Longrightarrow> counted (read_char c r)"
  by (simp add: counted_def read_char_def reader_get_def count_char_def Let_def line_of_def
      column_of_def)

lemma counted_consume: "counted r \<Longrightarrow> counted (consume w r)"
  by (induction w arbitrary: r) (simp_all add: counted_read_char)

lemma counted_new_reader: "counted (new_reader s)"
  by (simp add: counted_def new_reader_def line_of_def column_of_def)

lemma lexer_get_exact:
  defines "g r \<equiv> skipped (rd_ahead r)"
  obtains (eof) "rd_ahead r = g r"
      "lexer_get r = (Ok (make_token T_EOF_TOKEN [] (rd_count (consume (g r) r))
         (rd_line_count (consume (g r) r)) E_NONE), consume (g r) r)"
  | (token) t z where "rd_ahead r = g r @ tok_value t @ z" "tok_value t \<noteq> []"
      "tok_type t \<noteq> T_EOF_TOKEN" "tok_pos t = rd_count (consume (g r) r)"
      "tok_line t = rd_line_count (consume (g r) r)"
      "lexer_get r = (Ok t, consume (tok_value t) (consume (g r) r))"
proof -
  let ?r = "consume (g r) r"
  let ?pos = "rd_count ?r" and ?line = "rd_line_count ?r"
  have skip: "skip_whitespaces_and_comments r = (Ok (), ?r)"
    using runs_skip by (simp add: runs_def g_def)
  have ahead: "rd_ahead r = g r @ rd_ahead ?r"
    using runs_ahead [OF runs_skip [of r]] by (simp only: g_def)
  show thesis
  proof (cases "rd_ahead ?r")
    case Nil
    with ahead skip show thesis
      by (intro eof) (simp_all add: lexer_get_def bindE_def end_of_file_def)
  next
    case (Cons c cs)
    define m where "m = (if starts_identifier c then parse_identifier ?pos ?line
      else if is_digit c then parse_number ?pos ?line
      else if c = double_quote then parse_string ?pos ?line else parse_operator ?pos ?line)"
    have eq: "lexer_get r = m ?r"
      using Cons skip
      by (simp add: lexer_get_def bindE_def end_of_file_def reader_peek_def m_def)
    have "reads_token m ?pos ?line ?r"
      using Cons identifier_reads_token number_reads_token string_reads_token operator_reads_token
      by (auto simp: m_def)
    then obtain t where t: "runs m ?r t (tok_value t)" "tok_value t \<noteq> []"
      "tok_type t \<noteq> T_EOF_TOKEN" "tok_pos t = ?pos" "tok_line t = ?line"
      by (auto simp: reads_token_def)
    obtain z where "rd_ahead ?r = tok_value t @ z" using t(1) by (auto simp: runs_def prefix_def)
    with ahead have "rd_ahead r = g r @ tok_value t @ z" by simp
    with t eq show thesis by (intro token [of t z]) (auto simp: runs_def)
  qed
qed

lemma lexer_get_shorter:
  assumes "lexer_get r = (Ok t, r')" and "tok_type t \<noteq> T_EOF_TOKEN"
  shows "length (rd_ahead r') < length (rd_ahead r)"
proof (cases rule: lexer_get_exact [of r])
  case eof
  with assms show ?thesis by auto
next
  case (token u z)
  from token(1,2) have "rd_ahead r \<noteq> []" by (cases "tok_value u") auto
  with token assms show ?thesis by (auto intro!: diff_less)
qed

text \<open>The tokens of a text are those that repeated calls of \<open>Get\<close> return, up to the end.\<close>

function lex_tokens :: "reader \<Rightarrow> token list" where
  "lex_tokens r = (case lexer_get r of
       (Ok t, r') \<Rightarrow> if tok_type t = T_EOF_TOKEN then [t] else t # lex_tokens r'
     | (Raise e, r') \<Rightarrow> [])"
  by pat_completeness auto
termination
  by (relation "measure (\<lambda>r. length (rd_ahead r))")
    (auto dest!: lexer_get_shorter [OF sym, unfolded One_nat_def])

declare lex_tokens.simps [simp del]

text \<open>
  \<open>covers b s ts\<close>: after the text \<open>b\<close>, the text \<open>s\<close> is gaps and the spellings of the tokens \<open>ts\<close> in
  turn; each token has the line and column where it starts, and the last one is the end of the file.
\<close>

inductive covers :: "string \<Rightarrow> string \<Rightarrow> token list \<Rightarrow> bool" where
  covers_end: "gap g \<Longrightarrow> covers b g [make_token T_EOF_TOKEN [] (column_of (b @ g)) (line_of (b @ g)) E_NONE]"
| covers_token: "gap g \<Longrightarrow> tok_type t \<noteq> T_EOF_TOKEN \<Longrightarrow> tok_value t \<noteq> []
    \<Longrightarrow> tok_pos t = column_of (b @ g) \<Longrightarrow> tok_line t = line_of (b @ g)
    \<Longrightarrow> covers (b @ g @ tok_value t) s ts \<Longrightarrow> covers b (g @ tok_value t @ s) (t # ts)"

lemma lex_tokens_cover:
  "counted r \<Longrightarrow> covers (rev (rd_behind r)) (rd_ahead r) (lex_tokens r)"
proof (induction "length (rd_ahead r)" arbitrary: r rule: less_induct)
  case less
  let ?g = "skipped (rd_ahead r)" and ?b = "rev (rd_behind r)"
  let ?r = "consume ?g r"
  have at: "rd_count ?r = column_of (?b @ ?g)" "rd_line_count ?r = line_of (?b @ ?g)"
    using counted_consume [OF less.prems, of ?g] by (simp_all add: counted_def)
  show ?case
  proof (cases rule: lexer_get_exact [of r])
    case eof
    then have "lex_tokens r = [make_token T_EOF_TOKEN [] (column_of (?b @ ?g)) (line_of (?b @ ?g)) E_NONE]"
      using at [folded eof(1)] by (simp add: lex_tokens.simps [of r] flip: eof(1))
    with eof(1) covers_end [OF skipped_gap, of ?b "rd_ahead r"] show ?thesis by simp
  next
    case (token t z)
    let ?r' = "consume (tok_value t) ?r"
    have tokens: "lex_tokens r = t # lex_tokens ?r'"
      using token by (simp add: lex_tokens.simps [of r])
    have ahead: "rd_ahead ?r' = z"
      unfolding consume_ahead by (subst token(1)) simp
    have "length (rd_ahead ?r') < length (rd_ahead r)"
      using token(1,2) ahead by (metis length_append length_greater_0_conv less_add_same_cancel2
          add.assoc add.commute trans_less_add2)
    then have "covers (rev (rd_behind ?r')) z (lex_tokens ?r')"
      using less.hyps [of ?r'] less.prems ahead by (simp add: counted_consume)
    then have "covers ?b (?g @ tok_value t @ z) (t # lex_tokens ?r')"
      using token at by (intro covers_token skipped_gap) simp_all
    with token(1) tokens show ?thesis by simp
  qed
qed

text \<open>C5: The lexer returns on every text, and what it returns is the text: the spellings of the
  tokens and the white space and comments between them, put together again, are the text, each token
  carries the line and the column at which it starts, and the last token is the end of the file.\<close>
theorem tokens_cover_text: "covers [] code (lex_tokens (new_reader code))"
  using lex_tokens_cover [OF counted_new_reader [of code]] by (simp add: new_reader_def)

section \<open>Reading back\<close>

definition segment :: "string \<Rightarrow> bool" where
  "segment s \<longleftrightarrow> s \<noteq> [] \<and> starts_identifier (hd s) \<and> (\<forall>c \<in> set (tl s). continues_identifier c)"

fun string_body :: "string \<Rightarrow> bool" where
  "string_body [] \<longleftrightarrow> True"
| "string_body (c # cs) \<longleftrightarrow>
     (if c = backslash then (case cs of [] \<Rightarrow> False | d # ds \<Rightarrow> string_body ds)
      else c \<noteq> double_quote \<and> c \<noteq> newline \<and> string_body cs)"

fun scoped :: "string list \<Rightarrow> string" where
  "scoped [] = []"
| "scoped (x # ss) = ''::'' @ x @ scoped ss"

inductive lexeme :: "token_type \<Rightarrow> string \<Rightarrow> bool" where
  "(w, ty) \<in> set keyword_map \<Longrightarrow> lexeme ty w"
| "segment s \<Longrightarrow> \<forall>x \<in> set ss. segment x \<Longrightarrow> ss \<noteq> [] \<or> s \<notin> fst ` set keyword_map
     \<Longrightarrow> lexeme T_ID (s @ scoped ss)"
| "w \<noteq> [] \<Longrightarrow> \<forall>c \<in> set w. is_digit c \<Longrightarrow> lexeme T_INTEGER_LITERAL w"
| "w \<noteq> [] \<Longrightarrow> v \<noteq> [] \<Longrightarrow> \<forall>c \<in> set (w @ v). is_digit c \<Longrightarrow> lexeme T_FLOAT_LITERAL (w @ ''.'' @ v)"
| "string_body w \<Longrightarrow> lexeme T_STRING_LITERAL ([double_quote] @ w @ [double_quote])"
| "(c, ty) \<in> set single_operators \<Longrightarrow> lexeme ty [c]"
| "(w, ty) \<in> set double_operators \<Longrightarrow> lexeme ty w"
| "lexeme T_ELLIPSIS ''...''"

definition separator :: "string \<Rightarrow> bool" where
  "separator g \<longleftrightarrow> g \<noteq> [] \<and> is_blank (hd g) \<and> closed_gap g"

lemma continues_not_colon: "continues_identifier c \<Longrightarrow> c \<noteq> CHR '':''"
  by (auto simp: continues_identifier_def is_alnum_def is_alpha_def is_digit_def)

lemma starts_continues: "starts_identifier c \<Longrightarrow> continues_identifier c"
  by (auto simp: starts_identifier_def continues_identifier_def is_alnum_def)

lemma blank_stops:
  assumes "is_blank c"
  shows "\<not> continues_identifier c" "\<not> is_digit c" "c \<noteq> CHR '':''" "c \<noteq> CHR ''.''"
    "map_of double_operators [d, c] = None"
  using assms by (auto simp: is_blank_def newline_def continues_identifier_def is_alnum_def
      is_alpha_def is_digit_def double_operators_def)

lemma segment_no_colon: "segment s \<Longrightarrow> CHR '':'' \<notin> set s"
  using continues_not_colon starts_continues by (cases s) (auto simp: segment_def)

lemma read_segments_exact:
  assumes "rd_ahead r = scoped ss @ z" and "\<forall>x \<in> set ss. segment x"
    and "z = [] \<or> is_blank (hd z)"
  shows "read_segments s r = (Ok (s @ scoped ss),
    consume (scoped ss) r)"
  using assms(1,2)
proof (induction ss arbitrary: s r)
  case Nil
  with assms(3) show ?case
    by (cases z) (auto simp: read_segments.simps [of s r] end_of_file_def reader_peek_def
        dest: blank_stops(3))
next
  case (Cons x ss)
  let ?rest = "scoped ss @ z"
  obtain c w where x: "x = c # w" "starts_identifier c" "\<forall>d \<in> set w. continues_identifier d"
    using Cons.prems(2) by (cases x) (auto simp: segment_def)
  let ?r3 = "read_char c (read_char (CHR '':'') (read_char (CHR '':'') r))"
  have stop: "?rest = [] \<or> \<not> continues_identifier (hd ?rest)"
    using assms(3) blank_stops(1) continues_not_colon by (cases ss) (auto simp: hd_append)
  have "rd_ahead ?r3 = w @ ?rest" using Cons.prems(1) x by simp
  from read_while_exact [OF this x(3) stop]
  have "read_while continues_identifier (s @ ''::'' @ [c]) ?r3 =
    (Ok ((s @ ''::'' @ [c]) @ w), consume w ?r3)" .
  then have "read_segments s r = read_segments (s @ ''::'' @ x) (consume w ?r3)"
    using Cons.prems(1) x
    by (simp add: read_segments.simps [of s r] end_of_file_def reader_peek_def reader_get_Cons)
  also have "\<dots> = (Ok ((s @ ''::'' @ x) @ scoped ss),
      consume (scoped ss) (consume w ?r3))"
    using Cons.prems x by (intro Cons.IH) simp_all
  finally show ?case using x by (simp add: consume_append)
qed

definition stops :: "string \<Rightarrow> bool" where
  "stops z \<longleftrightarrow> z = [] \<or> is_blank (hd z)"

lemma scope_iff:
  assumes "segment s" and "\<forall>x \<in> set ss. segment x"
  shows "has_scope (s @ scoped ss) \<longleftrightarrow> ss \<noteq> []"
proof (cases ss)
  case Nil
  have "CHR '':'' \<notin> set s" using assms(1) by (rule segment_no_colon)
  then have "take 2 (drop i s) \<noteq> ''::''" for i
    by (metis in_set_dropD in_set_takeD list.set_intros(1))
  with Nil show ?thesis by (simp add: has_scope_def list_ex_iff)
next
  case (Cons x xs)
  have "take 2 (drop (length s) (s @ ''::'' @ y)) = ''::''" for y by simp
  with Cons show ?thesis
    by (auto simp: has_scope_def list_ex_iff intro!: bexI [of _ "length s"])
qed

lemma parse_identifier_exact:
  assumes r: "rd_ahead r = (s @ scoped ss) @ z" (is "_ = ?w @ z")
    and seg: "segment s" "\<forall>x \<in> set ss. segment x" and z: "stops z"
  shows "parse_identifier pos line r =
    (Ok (make_token (if ss = [] then lookup_keyword s else T_ID) ?w pos line E_NONE), consume ?w r)"
proof -
  let ?rest = "scoped ss"
  obtain c v where s: "s = c # v" "starts_identifier c" "\<forall>d \<in> set v. continues_identifier d"
    using seg(1) by (cases s) (auto simp: segment_def)
  have stop: "?rest @ z = [] \<or> \<not> continues_identifier (hd (?rest @ z))"
    using z blank_stops(1) continues_not_colon by (cases ss) (auto simp: stops_def hd_append)
  have "rd_ahead (read_char c r) = v @ (?rest @ z)" using r s by simp
  from read_while_exact [OF this s(3) stop]
  have first: "read_while continues_identifier [c] (read_char c r) = (Ok s, consume s r)"
    using s by simp
  have "rd_ahead (consume s r) = ?rest @ z" using r by simp
  from read_segments_exact [OF this seg(2)] z
  have second: "read_segments s (consume s r) = (Ok ?w, consume ?w r)"
    by (simp add: stops_def consume_append)
  have whole: "parse_identifier pos line r = (Ok (if \<not> has_scope ?w \<and> lookup_keyword ?w \<noteq> T_ID
      then make_token (lookup_keyword ?w) ?w pos line E_NONE else make_token T_ID ?w pos line E_NONE),
      consume ?w r)"
    using r s first second
    by (simp add: parse_identifier_def bindE_def reader_peek_def reader_get_Cons)
  show ?thesis
    unfolding whole scope_iff [OF seg] by (cases ss) auto
qed

lemma string_loop_exact:
  "rd_ahead r = w @ double_quote # z \<Longrightarrow> string_body w
   \<Longrightarrow> string_loop s pos line r =
    (Ok (make_token T_STRING_LITERAL (s @ w @ [double_quote]) pos line E_NONE),
     consume (w @ [double_quote]) r)"
proof (induction w arbitrary: s r rule: string_body.induct)
  case 1
  then show ?case by (simp add: string_loop.simps [of s pos line r] end_of_file_def reader_get_Cons)
next
  case (2 c cs)
  note [simp] = string_loop.simps [of s pos line r] end_of_file_def reader_get_Cons
  show ?case
  proof (cases "c = backslash")
    case True
    then obtain d ds where d: "cs = d # ds" "string_body ds" using 2(4) by (cases cs) auto
    with 2(1) [OF True d(1), of "read_char d (read_char c r)" "s @ [c, d]"] 2(3) True
    show ?thesis by simp
  next
    case False
    with 2(2) [OF False, of "read_char c r" "s @ [c]"] 2(3,4) show ?thesis by simp
  qed
qed

lemma keyword_segments: "(w, ty) \<in> set keyword_map \<Longrightarrow> segment w"
proof -
  have "\<forall>p \<in> set keyword_map. segment (fst p)"
    by (simp add: keyword_map_def segment_def starts_identifier_def continues_identifier_def
        is_alnum_def is_alpha_def)
  then show "(w, ty) \<in> set keyword_map \<Longrightarrow> segment w" by force
qed

lemma keyword_lookup: "(w, ty) \<in> set keyword_map \<Longrightarrow> lookup_keyword w = ty"
proof -
  have "distinct (map fst keyword_map)" by (simp add: keyword_map_def)
  then show "(w, ty) \<in> set keyword_map \<Longrightarrow> lookup_keyword w = ty"
    by (simp add: lookup_keyword_def)
qed

text \<open>The first character decides the rule.\<close>

lemma rule_identifier:
  assumes "segment s" shows "\<exists>c cs. s = c # cs \<and> starts_identifier c"
  using assms by (cases s) (auto simp: segment_def)

lemma digit_class: "is_digit c \<Longrightarrow> \<not> starts_identifier c"
  by (auto simp: is_digit_def starts_identifier_def is_alpha_def)

definition token_rule :: "char \<Rightarrow> nat \<Rightarrow> nat \<Rightarrow> (reader, token) proc" where
  "token_rule c = (if starts_identifier c then parse_identifier else if is_digit c then parse_number
     else if c = double_quote then parse_string else parse_operator)"

lemma operator_class:
  "(c, ty) \<in> set single_operators \<Longrightarrow> token_rule c = parse_operator \<and> \<not> is_blank c"
  "(c # w, ty) \<in> set double_operators \<Longrightarrow> token_rule c = parse_operator \<and> \<not> is_blank c \<and> c \<noteq> CHR ''/''"
  by (auto simp: single_operators_def double_operators_def token_rule_def starts_identifier_def
      is_alpha_def is_digit_def is_blank_def newline_def)

lemma parse_single_exact:
  assumes "rd_ahead r = c # z" and "(c, ty) \<in> set single_operators" and "stops z"
  shows "parse_operator pos line r = (Ok (make_token ty [c] pos line E_NONE), read_char c r)"
proof -
  have "distinct (map fst single_operators)" by (simp add: single_operators_def)
  with assms(2) have ty: "map_of single_operators c = Some ty" by simp
  have next_char: "z = [] \<or> hd z \<noteq> CHR ''.'' \<and> map_of double_operators [c, hd z] = None"
    using assms(3) blank_stops by (auto simp: stops_def)
  then show ?thesis
    using assms(1) ty
    by (cases z) (auto simp: parse_operator_def bindE_def end_of_file_def reader_peek_def
        reader_get_Cons parse_single_def)
qed

lemma parse_double_exact:
  assumes "rd_ahead r = w @ z" and "(w, ty) \<in> set double_operators"
  shows "parse_operator pos line r = (Ok (make_token ty w pos line E_NONE), consume w r)"
proof -
  have "distinct (map fst double_operators)" by (simp add: double_operators_def)
  with assms(2) have ty: "map_of double_operators w = Some ty" by simp
  obtain c d where w: "w = [c, d]" "c \<noteq> CHR ''.''"
    using assms(2) by (auto simp: double_operators_def)
  show ?thesis
    using assms(1) ty unfolding w(1)
    by (auto simp: parse_operator_def bindE_def end_of_file_def reader_peek_def reader_get_Cons w(2))
qed

lemma lexeme_read:
  assumes "lexeme ty w" and "rd_ahead r = w @ z" and "stops z"
  shows "w \<noteq> [] \<and> \<not> is_blank (hd w) \<and> (hd w = CHR ''/'' \<longrightarrow> w = ''/'')
    \<and> token_rule (hd w) pos line r = (Ok (make_token ty w pos line E_NONE), consume w r)"
  using assms(1)
proof cases
  case 1
  note seg = keyword_segments [OF 1]
  obtain c cs where c: "w = c # cs" "starts_identifier c" using rule_identifier [OF seg] by blast
  with parse_identifier_exact [of r w "[]" z pos line] seg keyword_lookup [OF 1] assms(2,3)
  show ?thesis by (auto simp: token_rule_def starts_identifier_def is_alpha_def is_blank_def newline_def)
next
  case (2 s ss)
  obtain c cs where c: "s = c # cs" "starts_identifier c" using rule_identifier [OF 2(3)] by blast
  have "ss = [] \<Longrightarrow> lookup_keyword s = T_ID"
    using 2(5) by (simp add: lookup_keyword_def map_of_eq_None_iff [THEN iffD2])
  with c parse_identifier_exact [of r s ss z pos line] 2 assms(2,3)
  show ?thesis by (auto simp: token_rule_def starts_identifier_def is_alpha_def is_blank_def newline_def)
next
  case 3
  then obtain c cs where c: "w = c # cs" "is_digit c" by (cases w) auto
  have "z = [] \<or> \<not> is_digit (hd z)" "\<And>d y. z = CHR ''.'' # d # y \<Longrightarrow> \<not> is_digit d"
    using assms(3) blank_stops(2,4) by (auto simp: stops_def)
  from parse_number_integer [OF assms(2) 3(3) this] c digit_class [OF c(2)] 3(1)
  show ?thesis by (auto simp: token_rule_def is_digit_def is_blank_def newline_def)
next
  case (4 u v)
  then obtain c cs where c: "u = c # cs" "is_digit c" by (cases u) auto
  have z: "z = [] \<or> \<not> is_digit (hd z)" using assms(3) blank_stops(2) by (auto simp: stops_def)
  have "rd_ahead r = u @ CHR ''.'' # v @ z" using assms(2) 4(2) by simp
  from parse_number_float [OF this _ _ 4(4) z] 4 c digit_class [OF c(2)]
  show ?thesis by (auto simp: token_rule_def is_digit_def is_blank_def newline_def)
next
  case (5 b)
  have "rd_ahead (read_char double_quote r) = b @ double_quote # z" using assms(2) 5(2) by simp
  from string_loop_exact [OF this 5(3)] 5 assms(2)
  show ?thesis
    by (auto simp: token_rule_def starts_identifier_def is_alpha_def is_digit_def is_blank_def
        newline_def parse_string_def bindE_def reader_get_Cons)
next
  case (6 c)
  with parse_single_exact [of r c z ty pos line] operator_class(1) [OF 6(2)] assms(2,3)
  show ?thesis by simp
next
  case 7
  then obtain c cs where c: "w = c # cs" by (cases w) (auto simp: double_operators_def)
  with parse_double_exact [OF assms(2) 7] operator_class(2) [of c cs ty] 7
  show ?thesis by simp
next
  case 8
  with assms(2) show ?thesis
    by (simp add: token_rule_def starts_identifier_def is_alpha_def is_digit_def is_blank_def
        newline_def parse_operator_def bindE_def end_of_file_def reader_peek_def reader_get_Cons)
qed

lemma rest_of_line_closed: "newline \<notin> set w \<Longrightarrow> rest_of_line (w @ newline # z) = w @ [newline]"
  by (induction w) auto

lemma rest_of_block_closed: "\<not> sublist ''*/'' w \<Longrightarrow> rest_of_block (w @ ''*/'' @ z) = w @ ''*/''"
proof (induction w)
  case (Cons c w)
  have "\<not> (c = CHR ''*'' \<and> w \<noteq> [] \<and> hd w = CHR ''/'')"
    using Cons.prems by (cases w) (auto simp: sublist_Cons_right)
  moreover have "\<not> sublist ''*/'' w" using Cons.prems by (simp add: sublist_Cons_right)
  ultimately show ?case using Cons.IH by (cases w) auto
qed simp

lemma slash_not_blank [simp]: "\<not> is_blank (CHR ''/'')"
  by (simp add: is_blank_def newline_def)

lemma skipped_closed: "closed_gap g \<Longrightarrow> skipped (g @ s) = g @ skipped s"
proof (induction g rule: closed_gap.induct)
  case (gap_line w g)
  then show ?case by (simp add: rest_of_line_closed Let_def)
next
  case (gap_block w g)
  then show ?case using rest_of_block_closed [of w "g @ s"] by (simp add: Let_def)
qed simp_all

lemma skipped_lexeme:
  assumes "w \<noteq> []" and "\<not> is_blank (hd w)" and "hd w = CHR ''/'' \<longrightarrow> w = ''/''" and "stops z"
  shows "skipped (w @ z) = []"
proof -
  have "z = [] \<or> hd z \<noteq> CHR ''/'' \<and> hd z \<noteq> CHR ''*''"
    using assms(4) by (auto simp: stops_def is_blank_def newline_def)
  with assms(1,2,3) show ?thesis by (cases w) auto
qed

lemma lexer_get_lexeme:
  assumes "lexeme ty w" and "closed_gap g" and "rd_ahead r = g @ w @ z" and "stops z"
  shows "\<exists>pos line. lexer_get r = (Ok (make_token ty w pos line E_NONE), consume (g @ w) r)"
proof -
  let ?r = "consume g r"
  have ahead: "rd_ahead ?r = w @ z" using assms(3) by simp
  note l = lexeme_read [OF assms(1) ahead assms(4), of "rd_count ?r" "rd_line_count ?r"]
  have "skipped (w @ z) = []" using l assms(4) by (intro skipped_lexeme) auto
  with assms(2,3) have "skipped (rd_ahead r) = g" by (simp add: skipped_closed)
  then have skip: "skip_whitespaces_and_comments r = (Ok (), ?r)"
    using runs_skip [of r] by (simp add: runs_def)
  obtain c cs where w: "w = c # cs" using l by (cases w) auto
  have "lexer_get r = token_rule c (rd_count ?r) (rd_line_count ?r) ?r"
    using skip ahead w
    by (simp add: lexer_get_def bindE_def end_of_file_def reader_peek_def token_rule_def)
  with l w have "lexer_get r =
      (Ok (make_token ty w (rd_count ?r) (rd_line_count ?r) E_NONE), consume (g @ w) r)"
    by (simp add: consume_append)
  then show ?thesis by blast
qed

lemma lexeme_not_eof: "lexeme ty w \<Longrightarrow> ty \<noteq> T_EOF_TOKEN"
  by (erule lexeme.cases) (auto simp: keyword_map_def single_operators_def double_operators_def)

definition spelled :: "(token_type \<times> string \<times> string) list \<Rightarrow> string" where
  "spelled ps = concat (map (\<lambda>(ty, w, g). w @ g) ps)"

lemma lex_spelled:
  assumes "\<forall>(ty, w, g) \<in> set ps. lexeme ty w \<and> separator g" and "closed_gap g0"
    and "rd_ahead r = g0 @ spelled ps"
  shows "map (\<lambda>t. (tok_type t, tok_value t, tok_error t)) (lex_tokens r)
    = map (\<lambda>(ty, w, g). (ty, w, E_NONE)) ps @ [(T_EOF_TOKEN, [], E_NONE)]"
  using assms
proof (induction ps arbitrary: g0 r)
  case Nil
  then have "skipped (rd_ahead r) = rd_ahead r"
    using skipped_closed [of g0 "[]"] by (simp add: spelled_def)
  then show ?case
    by (cases rule: lexer_get_exact [of r]) (auto simp: lex_tokens.simps [of r])
next
  case (Cons p ps)
  obtain ty w g where p: "p = (ty, w, g)" by (cases p)
  have l: "lexeme ty w" and g: "separator g" using Cons.prems(1) p by auto
  have ahead: "rd_ahead r = g0 @ w @ (g @ spelled ps)"
    using Cons.prems(3) p by (simp add: spelled_def)
  have "stops (g @ spelled ps)" using g by (auto simp: separator_def stops_def)
  from lexer_get_lexeme [OF l Cons.prems(2) ahead this] obtain pos line where
    get: "lexer_get r = (Ok (make_token ty w pos line E_NONE), consume (g0 @ w) r)" by blast
  have "rd_ahead (consume (g0 @ w) r) = g @ spelled ps" using ahead by simp
  from Cons.IH [OF _ _ this] Cons.prems(1) g have
    "map (\<lambda>t. (tok_type t, tok_value t, tok_error t)) (lex_tokens (consume (g0 @ w) r))
      = map (\<lambda>(ty, w, g). (ty, w, E_NONE)) ps @ [(T_EOF_TOKEN, [], E_NONE)]"
    by (simp add: separator_def)
  then show ?case
    using get p lexeme_not_eof [OF l] by (simp add: lex_tokens.simps [of r])
qed

text \<open>C6: Tokens that are written one after the other, each followed by white space or comments that
  begin with a blank, are read back: the lexer returns exactly these tokens, with these spellings and
  without an error, and then the end of the file.\<close>
theorem written_tokens_are_read_back:
  assumes "\<forall>(ty, w, g) \<in> set ps. lexeme ty w \<and> separator g" and "closed_gap g"
  shows "map (\<lambda>t. (tok_type t, tok_value t, tok_error t)) (lex_tokens (new_reader (g @ spelled ps)))
    = map (\<lambda>(ty, w, g). (ty, w, E_NONE)) ps @ [(T_EOF_TOKEN, [], E_NONE)]"
  using assms by (rule lex_spelled) (simp add: new_reader_def)

lemma written_tokens_are_read_back_witness:
  "map (\<lambda>t. (tok_type t, tok_value t, tok_error t))
     (lex_tokens (new_reader (''/* a */ '' @ ''var x = a::b + 1.5 '' @ ''// c'' @ [newline])))
   = [(T_KW_VAR, ''var'', E_NONE), (T_ID, ''x'', E_NONE), (T_OP_ASSIGNMENT, ''='', E_NONE),
      (T_ID, ''a::b'', E_NONE), (T_OP_PLUS, ''+'', E_NONE), (T_FLOAT_LITERAL, ''1.5'', E_NONE),
      (T_EOF_TOKEN, [], E_NONE)]"
proof -
  have blank: "closed_gap '' ''" by (auto simp: is_blank_def intro: closed_gap.intros)
  have gaps: "separator '' ''" "separator ('' // c'' @ [newline])"
    "closed_gap ''/* a */ ''"
    using closed_gap.intros(2) [OF _ gap_line [of "'' c''" "[]"], of "CHR '' ''"]
      gap_block [of "'' a ''" "'' ''"] blank
    by (auto simp: separator_def is_blank_def newline_def sublist_code intro: closed_gap.intros)
  let ?ps = "[(T_KW_VAR, ''var'', '' ''), (T_ID, ''x'', '' ''), (T_OP_ASSIGNMENT, ''='', '' ''),
    (T_ID, ''a::b'', '' ''), (T_OP_PLUS, ''+'', '' ''), (T_FLOAT_LITERAL, ''1.5'', '' // c'' @ [newline])]"
  have segs: "segment ''x''" "segment ''a''" "segment ''b''"
    by (simp_all add: segment_def starts_identifier_def is_alpha_def)
  have "lexeme T_KW_VAR ''var''" "lexeme T_ID ''x''" "lexeme T_OP_ASSIGNMENT ''=''"
    "lexeme T_ID ''a::b''" "lexeme T_OP_PLUS ''+''" "lexeme T_FLOAT_LITERAL ''1.5''"
    using lexeme.intros(2) [OF segs(1), of "[]"] lexeme.intros(2) [OF segs(2), of "[''b'']"] segs
      lexeme.intros(4) [of "''1''" "''5''"]
    by (auto intro!: lexeme.intros(1,6) simp: keyword_map_def single_operators_def is_digit_def)
  with gaps blank written_tokens_are_read_back [of ?ps "''/* a */ ''"] show ?thesis
    by (simp add: spelled_def)
qed

section \<open>Looking ahead\<close>

text \<open>
  \<open>Peek\<close> rewinds to the column it started from, counted from the beginning of the text: after the
  first line the next token is a different one.
\<close>

theorem peek_loses_its_place:
  "case lexer_get (new_reader (''a'' @ [newline] @ ''b c'')) of
     (Ok t, r) \<Rightarrow> tok_value t = ''a'' \<and> (case lexer_peek r of
       (Ok u, r') \<Rightarrow> tok_value u = ''b'' \<and> (case lexer_get r' of
         (Ok v, _) \<Rightarrow> tok_value v = ''a''
       | _ \<Rightarrow> False) | _ \<Rightarrow> False) | _ \<Rightarrow> False"
  by code_simp

end
