(* ===== verification/Grammar.thy ===== *)
theory Grammar
  imports Prelude "HOL-Library.Char_ord" "HOL-Library.List_Lexorder" "HOL-Library.Product_Lexorder"
begin

text \<open>
  The grammar and its tables: reading the rules from the text of the grammar, the FIRST and FOLLOW sets
  (src/src/rulesBuilder/RulesBuilder.cpp), and the SLR automaton with its action and goto tables
  (src/src/parser/TableBuilder.cpp). A \<open>std::set\<close> is a sorted list of distinct elements, an
  unordered set a list of distinct elements; an unordered map from symbols to sets is the list of its
  pairs. Each fixpoint loop ends because it only adds pairs of symbols of the grammar.
\<close>

section \<open>Reading the grammar\<close>

record guided_rule =
  rule_lhs :: string
  rule_rhs :: "string list"
  rule_guides :: "string list"

definition plain_rule :: "string \<Rightarrow> string list \<Rightarrow> guided_rule" where
  "plain_rule l r = \<lparr>rule_lhs = l, rule_rhs = r, rule_guides = []\<rparr>"

text \<open>\<open>operator>>\<close> on a string stream: the maximal pieces without white space.\<close>

definition is_separator :: "char \<Rightarrow> bool" where
  "is_separator c \<longleftrightarrow> c \<in> {CHR '' '', CHR 0x09, CHR 0x0A, CHR 0x0B, CHR 0x0C, CHR 0x0D}"

function stream_words :: "string \<Rightarrow> string list" where
  "stream_words s = (let t = dropWhile is_separator s in
     if t = [] then []
     else takeWhile (\<lambda>c. \<not> is_separator c) t # stream_words (dropWhile (\<lambda>c. \<not> is_separator c) t))"
  by pat_completeness auto
termination
proof (relation "measure length")
  fix s t :: string
  assume t: "t = dropWhile is_separator s" "t \<noteq> []"
  then have "\<not> is_separator (hd t)" using hd_dropWhile [of is_separator s] by simp
  with t(2) have "length (dropWhile (\<lambda>c. \<not> is_separator c) t) < length t"
    by (cases t) (simp_all add: le_imp_less_Suc length_dropWhile_le)
  also have "length t \<le> length s" by (simp add: t(1) length_dropWhile_le)
  finally show "(dropWhile (\<lambda>c. \<not> is_separator c) t, s) \<in> measure length" by simp
qed simp

declare stream_words.simps [simp del]

record rules_builder =
  rb_rules :: "guided_rule list"
  rb_non_terms :: "string list"
  rb_lhs :: string
  rb_rhs :: "string list"
  rb_expect_eq :: bool

definition insert_unordered :: "'a \<Rightarrow> 'a list \<Rightarrow> 'a list" where
  "insert_unordered x xs = (if x \<in> set xs then xs else xs @ [x])"

definition unquote :: "string \<Rightarrow> string" where
  "unquote w = (if 2 \<le> length w \<and> hd w = CHR 0x22 \<and> last w = CHR 0x22 then butlast (tl w) else w)"

definition initial_builder :: rules_builder where
  "initial_builder =
     \<lparr>rb_rules = [plain_rule ''_S_PRIME_'' [''program'']], rb_non_terms = [''_S_PRIME_''],
      rb_lhs = [], rb_rhs = [], rb_expect_eq = False\<rparr>"

definition read_word :: "rules_builder \<Rightarrow> string \<Rightarrow> rules_builder" where
  "read_word b w =
     (if rb_lhs b = [] then
        b\<lparr>rb_lhs := w, rb_non_terms := insert_unordered w (rb_non_terms b), rb_expect_eq := True\<rparr>
      else if rb_expect_eq b then
        (if w = ''='' then b\<lparr>rb_expect_eq := False\<rparr> else b)
      else if w = '';'' then
        b\<lparr>rb_rules := rb_rules b @ [plain_rule (rb_lhs b) (rb_rhs b)], rb_rhs := [], rb_lhs := []\<rparr>
      else if w = ''|'' then
        b\<lparr>rb_rules := rb_rules b @ [plain_rule (rb_lhs b) (rb_rhs b)], rb_rhs := []\<rparr>
      else if w = ''EPSILON'' then b
      else b\<lparr>rb_rhs := rb_rhs b @ [unquote w]\<rparr>)"

definition read_grammar :: "string \<Rightarrow> rules_builder" where
  "read_grammar s = foldl read_word initial_builder (stream_words s)"

definition lexemes_of :: "guided_rule list \<Rightarrow> string list \<Rightarrow> string list" where
  "lexemes_of rules nts =
     filter (\<lambda>s. s \<notin> set nts) (remdups (concat (map rule_rhs rules)))"

section \<open>FIRST and FOLLOW\<close>

text \<open>A map from symbols to sets is a list of pairs without repetitions.\<close>

type_synonym symbol_sets = "(string \<times> string) list"

definition set_at :: "symbol_sets \<Rightarrow> string \<Rightarrow> string list" where
  "set_at m x = map snd (filter (\<lambda>(a, b). a = x) m)"

definition insert_at :: "string \<Rightarrow> string list \<Rightarrow> symbol_sets \<Rightarrow> symbol_sets" where
  "insert_at x ys m = foldl (\<lambda>m y. insert_unordered (x, y) m) m ys"

lemma set_insert_unordered [simp]: "set (insert_unordered x xs) = insert x (set xs)"
  by (auto simp: insert_unordered_def)

lemma insert_at_Cons: "insert_at x (y # ys) m = insert_at x ys (insert_unordered (x, y) m)"
  by (simp add: insert_at_def)

lemma set_insert_at [simp]: "set (insert_at x ys m) = set m \<union> {x} \<times> set ys"
  by (induction ys arbitrary: m) (auto simp: insert_at_def)

lemma set_set_at [simp]: "y \<in> set (set_at m x) \<longleftrightarrow> (x, y) \<in> set m"
  by (force simp: set_at_def)

lemma set_at_symbols: "set (set_at m x) \<subseteq> snd ` set m"
  by (auto simp: set_at_def)

definition get_first :: "string list \<Rightarrow> symbol_sets \<Rightarrow> string list \<Rightarrow> string list" where
  "get_first lexemes gs rhs =
     (let step = (\<lambda>x rest. if x \<in> set lexemes then [x]
        else if ''EPSILON'' \<notin> set (set_at gs x) then set_at gs x
        else filter (\<lambda>f. f \<noteq> ''EPSILON'') (set_at gs x) @ rest)
      in foldr step rhs [''EPSILON''])"

lemma get_first_simps [simp]:
  "get_first lexemes gs [] = [''EPSILON'']"
  "get_first lexemes gs (x # xs) = (if x \<in> set lexemes then [x]
     else if ''EPSILON'' \<notin> set (set_at gs x) then set_at gs x
     else filter (\<lambda>f. f \<noteq> ''EPSILON'') (set_at gs x) @ get_first lexemes gs xs)"
  by (simp_all add: get_first_def)

definition first_pass :: "string list \<Rightarrow> guided_rule list \<Rightarrow> symbol_sets \<Rightarrow> symbol_sets" where
  "first_pass lexemes rules gs =
     foldl (\<lambda>gs r. insert_at (rule_lhs r) (get_first lexemes gs (rule_rhs r)) gs) gs rules"

definition first_symbols :: "string list \<Rightarrow> symbol_sets \<Rightarrow> string set" where
  "first_symbols lexemes gs = insert ''EPSILON'' (set lexemes \<union> snd ` set gs)"

lemma get_first_symbols: "set (get_first lexemes gs rhs) \<subseteq> first_symbols lexemes gs"
proof (induction rhs)
  case (Cons x rhs)
  have "set (set_at gs x) \<subseteq> first_symbols lexemes gs" by (force simp: first_symbols_def)
  then show ?case using Cons by (auto simp: first_symbols_def)
qed (simp add: first_symbols_def)

lemma first_pass_bounds:
  "set gs \<subseteq> set (first_pass lexemes rules gs)
   \<and> set (first_pass lexemes rules gs) \<subseteq> set gs \<union> (rule_lhs ` set rules) \<times> first_symbols lexemes gs"
proof (induction rules arbitrary: gs)
  case (Cons r rules)
  let ?gs = "insert_at (rule_lhs r) (get_first lexemes gs (rule_rhs r)) gs"
  have sub: "first_symbols lexemes ?gs \<subseteq> first_symbols lexemes gs"
    using get_first_symbols [of lexemes gs "rule_rhs r"] by (auto simp: first_symbols_def)
  have "first_pass lexemes (r # rules) gs = first_pass lexemes rules ?gs"
    by (simp add: first_pass_def)
  with Cons.IH [of ?gs] sub get_first_symbols [of lexemes gs "rule_rhs r"] show ?case by auto
qed (simp add: first_pass_def)

lemma saturation_decreases:
  assumes "finite U" and "A \<subseteq> B" and "B \<subseteq> A \<union> U" and "U' \<subseteq> U" and "B \<noteq> A"
  shows "card (U' - B) < card (U - A)"
proof -
  obtain x where "x \<in> B" "x \<notin> A" using assms(2,5) by blast
  with assms have "U' - B \<subset> U - A" by blast
  with assms(1) show ?thesis by (intro psubset_card_mono) auto
qed

lemma insert_at_same: "{x} \<times> set ys \<subseteq> set m \<Longrightarrow> insert_at x ys m = m"
  by (induction ys arbitrary: m) (auto simp: insert_at_def insert_unordered_def)

lemma first_pass_same: "set (first_pass lexemes rules gs) = set gs \<Longrightarrow> first_pass lexemes rules gs = gs"
proof (induction rules arbitrary: gs)
  case (Cons r rules)
  let ?gs = "insert_at (rule_lhs r) (get_first lexemes gs (rule_rhs r)) gs"
  have eq: "first_pass lexemes (r # rules) gs = first_pass lexemes rules ?gs"
    by (simp add: first_pass_def)
  have "set ?gs \<subseteq> set gs" using first_pass_bounds [of ?gs lexemes rules] Cons.prems eq by auto
  then have "?gs = gs" by (intro insert_at_same) auto
  with Cons eq show ?case by simp
qed (simp add: first_pass_def)

function first_loop :: "string list \<Rightarrow> guided_rule list \<Rightarrow> symbol_sets \<Rightarrow> symbol_sets" where
  "first_loop lexemes rules gs =
     (let gs' = first_pass lexemes rules gs in
      if gs' = gs then gs else first_loop lexemes rules gs')"
  by pat_completeness auto
termination
proof (relation "measure (\<lambda>(lexemes, rules, gs).
    card ((rule_lhs ` set rules) \<times> first_symbols lexemes gs - set gs))")
  fix lexemes rules gs gs'
  assume gs': "gs' = first_pass lexemes rules gs" "gs' \<noteq> gs"
  have "set gs' \<noteq> set gs" using first_pass_same gs' by metis
  moreover have "snd ` set gs' \<subseteq> snd ` set gs \<union> first_symbols lexemes gs"
    using first_pass_bounds [of gs lexemes rules] gs'(1) by fastforce
  then have "first_symbols lexemes gs' \<subseteq> first_symbols lexemes gs"
    by (auto simp: first_symbols_def)
  ultimately have "card ((rule_lhs ` set rules) \<times> first_symbols lexemes gs' - set gs')
      < card ((rule_lhs ` set rules) \<times> first_symbols lexemes gs - set gs)"
    using first_pass_bounds [of gs lexemes rules] gs'(1)
    by (intro saturation_decreases) (auto simp: first_symbols_def)
  then show "((lexemes, rules, gs'), lexemes, rules, gs) \<in> measure (\<lambda>(lexemes, rules, gs).
      card ((rule_lhs ` set rules) \<times> first_symbols lexemes gs - set gs))" by simp
qed simp

declare first_loop.simps [simp del]

text \<open>
  One rule of a pass of the FOLLOW sets: for every nonterminal of the right-hand side the FIRST set of
  what follows it, and the FOLLOW set of the left-hand side when that can be empty.
\<close>

fun follow_rule :: "string list \<Rightarrow> string list \<Rightarrow> symbol_sets \<Rightarrow> string \<Rightarrow> string list \<Rightarrow> symbol_sets
    \<Rightarrow> symbol_sets" where
  "follow_rule nts lexemes gs lhs [] m = m"
| "follow_rule nts lexemes gs lhs (b # rest) m =
     (let first_rest = get_first lexemes gs rest;
          m1 = insert_at b (filter (\<lambda>f. f \<noteq> ''EPSILON'') first_rest) m;
          m2 = (if ''EPSILON'' \<in> set first_rest \<or> rest = [] then insert_at b (set_at m1 lhs) m1 else m1)
      in follow_rule nts lexemes gs lhs rest (if b \<in> set nts then m2 else m))"

definition follow_pass :: "string list \<Rightarrow> string list \<Rightarrow> symbol_sets \<Rightarrow> guided_rule list \<Rightarrow> symbol_sets
    \<Rightarrow> symbol_sets" where
  "follow_pass nts lexemes gs rules m =
     foldl (\<lambda>m r. follow_rule nts lexemes gs (rule_lhs r) (rule_rhs r) m) m rules"

definition follow_symbols :: "string list \<Rightarrow> symbol_sets \<Rightarrow> symbol_sets \<Rightarrow> string set" where
  "follow_symbols lexemes gs m = first_symbols lexemes gs \<union> snd ` set m"

lemma follow_symbols_mono:
  assumes "set m' \<subseteq> set m \<union> A \<times> follow_symbols lexemes gs m"
  shows "follow_symbols lexemes gs m' \<subseteq> follow_symbols lexemes gs m"
proof
  fix y assume "y \<in> follow_symbols lexemes gs m'"
  then consider "y \<in> first_symbols lexemes gs" | x where "(x, y) \<in> set m'"
    by (auto simp: follow_symbols_def)
  then show "y \<in> follow_symbols lexemes gs m"
  proof cases
    case 2
    with assms have "(x, y) \<in> set m \<or> y \<in> follow_symbols lexemes gs m" by blast
    then show ?thesis by (force simp: follow_symbols_def)
  qed (simp add: follow_symbols_def)
qed

lemma set_at_follow: "set (set_at m x) \<subseteq> follow_symbols lexemes gs m"
  using set_at_symbols [of m x] by (auto simp: follow_symbols_def)

definition sets_grow :: "string list \<Rightarrow> symbol_sets \<Rightarrow> string set \<Rightarrow> symbol_sets \<Rightarrow> symbol_sets \<Rightarrow> bool" where
  "sets_grow lexemes gs A m m' \<longleftrightarrow> set m \<subseteq> set m' \<and> set m' \<subseteq> set m \<union> A \<times> follow_symbols lexemes gs m
     \<and> (set m' = set m \<longrightarrow> m' = m)"

lemma sets_grow_refl: "sets_grow lexemes gs A m m"
  by (simp add: sets_grow_def)

lemma sets_grow_trans:
  assumes "sets_grow lexemes gs A m m1" and "sets_grow lexemes gs B m1 m2"
  shows "sets_grow lexemes gs (A \<union> B) m m2"
proof -
  have "follow_symbols lexemes gs m1 \<subseteq> follow_symbols lexemes gs m"
    using assms(1) by (intro follow_symbols_mono [of _ _ A]) (simp add: sets_grow_def)
  then have "B \<times> follow_symbols lexemes gs m1 \<subseteq> (A \<union> B) \<times> follow_symbols lexemes gs m" by auto
  moreover have "set m1 \<subseteq> set m \<union> (A \<union> B) \<times> follow_symbols lexemes gs m"
    using assms(1) by (auto simp: sets_grow_def)
  ultimately have "set m2 \<subseteq> set m \<union> (A \<union> B) \<times> follow_symbols lexemes gs m"
    using assms(2) by (auto simp: sets_grow_def)
  moreover have "set m \<subseteq> set m2" using assms by (auto simp: sets_grow_def)
  moreover have "m2 = m" if "set m2 = set m"
  proof -
    have "set m1 = set m" using assms that unfolding sets_grow_def by blast
    then show ?thesis using assms that unfolding sets_grow_def by metis
  qed
  ultimately show ?thesis by (simp add: sets_grow_def)
qed

lemma sets_grow_insert_at:
  "set ys \<subseteq> follow_symbols lexemes gs m \<Longrightarrow> sets_grow lexemes gs {x} m (insert_at x ys m)"
  by (auto simp: sets_grow_def intro: insert_at_same)

lemma sets_grow_follow_rule:
  "sets_grow lexemes gs (set rhs) m (follow_rule nts lexemes gs lhs rhs m)"
proof (induction rhs arbitrary: m)
  case (Cons b rest)
  let ?first = "get_first lexemes gs rest"
  let ?m1 = "insert_at b (filter (\<lambda>f. f \<noteq> ''EPSILON'') ?first) m"
  let ?m2 = "if ''EPSILON'' \<in> set ?first \<or> rest = [] then insert_at b (set_at ?m1 lhs) ?m1 else ?m1"
  let ?m = "if b \<in> set nts then ?m2 else m"
  have m1: "sets_grow lexemes gs {b} m ?m1"
    using get_first_symbols [of lexemes gs rest]
    by (intro sets_grow_insert_at) (auto simp: follow_symbols_def)
  have "sets_grow lexemes gs {b} ?m1 (insert_at b (set_at ?m1 lhs) ?m1)"
    by (intro sets_grow_insert_at set_at_follow)
  from m1 sets_grow_trans [OF m1 this] have "sets_grow lexemes gs {b} m ?m"
    by (simp add: sets_grow_refl)
  from sets_grow_trans [OF this Cons.IH] show ?case by (simp add: Let_def)
qed (simp add: sets_grow_refl)

lemma sets_grow_follow_pass:
  "sets_grow lexemes gs (\<Union> (set ` rule_rhs ` set rules)) m (follow_pass nts lexemes gs rules m)"
proof (induction rules arbitrary: m)
  case (Cons r rules)
  have "sets_grow lexemes gs (set (rule_rhs r)) m
      (follow_rule nts lexemes gs (rule_lhs r) (rule_rhs r) m)"
    by (rule sets_grow_follow_rule)
  from sets_grow_trans [OF this Cons.IH] show ?case by (simp add: follow_pass_def)
qed (simp add: follow_pass_def sets_grow_refl)

function follow_loop :: "string list \<Rightarrow> string list \<Rightarrow> symbol_sets \<Rightarrow> guided_rule list \<Rightarrow> symbol_sets
    \<Rightarrow> symbol_sets" where
  "follow_loop nts lexemes gs rules m =
     (let m' = follow_pass nts lexemes gs rules m in
      if m' = m then m else follow_loop nts lexemes gs rules m')"
  by pat_completeness auto
termination
proof (relation "measure (\<lambda>(nts, lexemes, gs, rules, m).
    card (\<Union> (set ` rule_rhs ` set rules) \<times> follow_symbols lexemes gs m - set m))")
  fix nts lexemes gs rules m m'
  assume m': "m' = follow_pass nts lexemes gs rules m" "m' \<noteq> m"
  let ?U = "\<Union> (set ` rule_rhs ` set rules)"
  have g: "sets_grow lexemes gs ?U m m'" unfolding m'(1) by (rule sets_grow_follow_pass)
  then have "follow_symbols lexemes gs m' \<subseteq> follow_symbols lexemes gs m"
    by (intro follow_symbols_mono [of _ _ ?U]) (simp add: sets_grow_def)
  then have "?U \<times> follow_symbols lexemes gs m' \<subseteq> ?U \<times> follow_symbols lexemes gs m" by blast
  moreover have "finite (?U \<times> follow_symbols lexemes gs m)"
    by (simp add: follow_symbols_def first_symbols_def)
  moreover have "set m' \<noteq> set m" using g m'(2) by (auto simp: sets_grow_def)
  ultimately have "card (?U \<times> follow_symbols lexemes gs m' - set m')
      < card (?U \<times> follow_symbols lexemes gs m - set m)"
    using g unfolding sets_grow_def by (intro saturation_decreases) blast+
  then show "((nts, lexemes, gs, rules, m'), nts, lexemes, gs, rules, m) \<in> measure (\<lambda>(nts, lexemes, gs,
      rules, m). card (\<Union> (set ` rule_rhs ` set rules) \<times> follow_symbols lexemes gs m - set m))" by simp
qed simp

declare follow_loop.simps [simp del]

text \<open>
  \<open>BuildGuidedRules\<close> leaves the FIRST sets in \<open>m_guides\<close>; \<open>GetFollows\<close> computes the FOLLOW sets again,
  from the end of the file after \<open>_S_PRIME_\<close> instead of after \<open>program\<close>.
\<close>

definition guide_sets :: "rules_builder \<Rightarrow> symbol_sets" where
  "guide_sets b = first_loop (lexemes_of (rb_rules b) (rb_non_terms b)) (rb_rules b) []"

definition build_guided_rules :: "rules_builder \<Rightarrow> guided_rule list" where
  "build_guided_rules b =
     (let rules = rb_rules b; nts = rb_non_terms b; lexemes = lexemes_of rules nts;
          gs = guide_sets b;
          follows = follow_loop nts lexemes gs rules [(''program'', ''EOF'')]
      in map (\<lambda>r. r\<lparr>rule_guides := fold (\<lambda>f guides.
           if f \<noteq> ''EPSILON'' then insort_insert f guides
           else foldl (\<lambda>gs f. insort_insert f gs) guides (set_at follows (rule_lhs r)))
           (get_first lexemes gs (rule_rhs r)) []\<rparr>) rules)"

definition get_follows :: "rules_builder \<Rightarrow> symbol_sets" where
  "get_follows b =
     (let rules = rb_rules b; nts = rb_non_terms b
      in follow_loop nts (lexemes_of rules nts) (guide_sets b) rules [(''_S_PRIME_'', ''EOF'')])"

section \<open>The automaton\<close>

datatype action = Shift nat | Reduce nat | Accept

text \<open>An item is a rule's index and the position of the dot; a state a sorted list of items.\<close>

type_synonym lr0_item = "nat \<times> nat"

type_synonym lr0_state = "lr0_item list"

definition rule_at :: "guided_rule list \<Rightarrow> nat \<Rightarrow> guided_rule" where
  "rule_at rules k = (if k < length rules then rules ! k else plain_rule [] [])"

abbreviation rhs_at :: "guided_rule list \<Rightarrow> nat \<Rightarrow> string list" where
  "rhs_at rules k \<equiv> rule_rhs (rule_at rules k)"

abbreviation lhs_at :: "guided_rule list \<Rightarrow> nat \<Rightarrow> string" where
  "lhs_at rules k \<equiv> rule_lhs (rule_at rules k)"

definition predicted :: "guided_rule list \<Rightarrow> string list \<Rightarrow> lr0_item \<Rightarrow> lr0_item list" where
  "predicted rules nts item =
     (case item of (r, d) \<Rightarrow>
        if d < length (rhs_at rules r) \<and> rhs_at rules r ! d \<in> set nts
        then map (\<lambda>k. (k, 0)) (filter (\<lambda>k. lhs_at rules k = rhs_at rules r ! d) [0..<length rules])
        else [])"

definition closure_pass :: "guided_rule list \<Rightarrow> string list \<Rightarrow> lr0_state \<Rightarrow> lr0_state" where
  "closure_pass rules nts S =
     foldl (\<lambda>S item. insort_insert item S) S (concat (map (predicted rules nts) S))"

lemma set_insort_all: "set (foldl (\<lambda>S x. insort_insert x S) S xs) = set S \<union> set xs"
  by (induction xs arbitrary: S) (auto simp: set_insort_insert)

lemma insort_all_same: "set xs \<subseteq> set S \<Longrightarrow> foldl (\<lambda>S x. insort_insert x S) S xs = S"
  by (induction xs arbitrary: S) (auto simp: insort_insert_key_def insort_insert_insort_key)

lemma closure_pass_bounds:
  "set S \<subseteq> set (closure_pass rules nts S)"
  "set (closure_pass rules nts S) \<subseteq> set S \<union> {0..<length rules} \<times> {0}"
  "set (closure_pass rules nts S) = set S \<Longrightarrow> closure_pass rules nts S = S"
proof -
  have items: "set (predicted rules nts i) \<subseteq> {0..<length rules} \<times> {0}" for i
    by (auto simp: predicted_def split: prod.splits)
  show "set S \<subseteq> set (closure_pass rules nts S)"
    "set (closure_pass rules nts S) \<subseteq> set S \<union> {0..<length rules} \<times> {0}"
    using items by (auto simp: closure_pass_def set_insort_all)
  show "closure_pass rules nts S = S" if "set (closure_pass rules nts S) = set S"
    using that unfolding closure_pass_def by (intro insort_all_same) (auto simp: set_insort_all)
qed

function closure :: "guided_rule list \<Rightarrow> string list \<Rightarrow> lr0_state \<Rightarrow> lr0_state" where
  "closure rules nts S =
     (let S' = closure_pass rules nts S in if S' = S then S else closure rules nts S')"
  by pat_completeness auto
termination
proof (relation "measure (\<lambda>(rules, nts, S). card ({0..<length rules} \<times> {0 :: nat} - set S))")
  fix rules nts S S'
  assume "S' = closure_pass rules nts S" "S' \<noteq> S"
  with closure_pass_bounds [where rules = rules and nts = nts and S = S]
  have "card ({0..<length rules} \<times> {0 :: nat} - set S') < card ({0..<length rules} \<times> {0} - set S)"
    by (intro saturation_decreases) auto
  then show "((rules, nts, S'), rules, nts, S)
      \<in> measure (\<lambda>(rules, nts, S). card ({0..<length rules} \<times> {0 :: nat} - set S))" by simp
qed simp

declare closure.simps [simp del]

definition sort_insert_all :: "'a :: linorder list \<Rightarrow> 'a list" where
  "sort_insert_all xs = foldl (\<lambda>S x. insort_insert x S) [] xs"

definition go_to :: "guided_rule list \<Rightarrow> string list \<Rightarrow> lr0_state \<Rightarrow> string \<Rightarrow> lr0_state" where
  "go_to rules nts S x =
     closure rules nts (sort_insert_all (map (\<lambda>(r, d). (r, Suc d))
       (filter (\<lambda>(r, d). d < length (rhs_at rules r) \<and> rhs_at rules r ! d = x) S)))"

definition possible_symbols :: "guided_rule list \<Rightarrow> lr0_state \<Rightarrow> string list" where
  "possible_symbols rules S =
     sort_insert_all (map (\<lambda>(r, d). rhs_at rules r ! d)
       (filter (\<lambda>(r, d). d < length (rhs_at rules r)) S))"

definition get_or_add_state :: "lr0_state list \<Rightarrow> lr0_state \<Rightarrow> nat \<times> lr0_state list" where
  "get_or_add_state states S =
     (let i = length (takeWhile (\<lambda>T. T \<noteq> S) states)
      in if i < length states then (i, states) else (length states, states @ [S]))"

text \<open>
  An entry of the action table is absent when the inner map of its state has no such token; the two
  lookups of the code are one.
\<close>

record tables =
  tb_states :: "lr0_state list"
  tb_action :: "nat \<times> string \<Rightarrow> action option"
  tb_goto :: "nat \<times> string \<Rightarrow> nat option"

definition add_transition :: "guided_rule list \<Rightarrow> string list \<Rightarrow> nat \<Rightarrow> tables \<Rightarrow> string \<Rightarrow> tables" where
  "add_transition rules nts i t x =
     (let next = go_to rules nts (tb_states t ! i) x in
      if next = [] then t
      else case get_or_add_state (tb_states t) next of (n, states) \<Rightarrow>
        if x \<in> set nts
        then t\<lparr>tb_states := states, tb_goto := (tb_goto t)((i, x) \<mapsto> n)\<rparr>
        else t\<lparr>tb_states := states, tb_action := (tb_action t)((i, x) \<mapsto> Shift n)\<rparr>)"

definition add_reduction :: "nat \<Rightarrow> nat \<Rightarrow> tables \<Rightarrow> string \<Rightarrow> tables" where
  "add_reduction r i t f = (case tb_action t (i, f) of
       Some (Shift n) \<Rightarrow> t
     | _ \<Rightarrow> t\<lparr>tb_action := (tb_action t)((i, f) \<mapsto> Reduce r)\<rparr>)"

definition complete_item :: "guided_rule list \<Rightarrow> symbol_sets \<Rightarrow> nat \<Rightarrow> tables \<Rightarrow> lr0_item \<Rightarrow> tables" where
  "complete_item rules follows i t item = (case item of (r, d) \<Rightarrow>
       if d \<noteq> length (rhs_at rules r) then t
       else if lhs_at rules r = ''_S_PRIME_''
         then t\<lparr>tb_action := (tb_action t)((i, ''EOF'') \<mapsto> Accept)\<rparr>
       else foldl (add_reduction r i) t (set_at follows (lhs_at rules r)))"

definition build_state :: "guided_rule list \<Rightarrow> string list \<Rightarrow> symbol_sets \<Rightarrow> nat \<Rightarrow> tables \<Rightarrow> tables" where
  "build_state rules nts follows i t =
     (let S = tb_states t ! i;
          t1 = foldl (add_transition rules nts i) t (possible_symbols rules S)
      in foldl (complete_item rules follows i) t1 (tb_states t1 ! i))"

text \<open>The states are sets of items of the grammar, so only finitely many are ever added.\<close>

definition grammar_items :: "guided_rule list \<Rightarrow> lr0_item set" where
  "grammar_items rules = (SIGMA k:{0..<length rules}. {0..length (rhs_at rules k)})"

definition grammar_states :: "guided_rule list \<Rightarrow> lr0_state set" where
  "grammar_states rules = {S. sorted S \<and> distinct S \<and> set S \<subseteq> grammar_items rules}"

lemma finite_grammar_states: "finite (grammar_states rules)"
proof -
  have "finite {S. set S \<subseteq> grammar_items rules \<and> distinct S}"
    by (rule finite_subset_distinct) (simp add: grammar_items_def)
  then show ?thesis
    by (rule finite_subset [rotated]) (auto simp: grammar_states_def)
qed

lemma insort_all_sorted:
  "sorted S \<Longrightarrow> distinct S \<Longrightarrow> sorted (foldl (\<lambda>S x. insort_insert x S) S xs)
    \<and> distinct (foldl (\<lambda>S x. insort_insert x S) S xs)"
  by (induction xs arbitrary: S) (simp_all add: sorted_insort_insert distinct_insort_insert)

lemma closure_induct:
  "P S \<Longrightarrow> (\<And>T. P T \<Longrightarrow> P (closure_pass rules nts T)) \<Longrightarrow> P (closure rules nts S)"
proof (induction rules nts S rule: closure.induct)
  case (1 rules nts S)
  then show ?case by (subst closure.simps) (simp add: Let_def)
qed

lemma closure_set:
  "set S \<subseteq> set (closure rules nts S)"
  "set (closure rules nts S) \<subseteq> set S \<union> {0..<length rules} \<times> {0}"
proof -
  have "set S \<subseteq> set (closure rules nts S) \<and> set (closure rules nts S) \<subseteq> set S \<union> {0..<length rules} \<times> {0}"
    by (rule closure_induct [where P = "\<lambda>T. set S \<subseteq> set T \<and> set T \<subseteq> set S \<union> {0..<length rules} \<times> {0}"])
      (use closure_pass_bounds(1,2) in blast)+
  then show "set S \<subseteq> set (closure rules nts S)"
    "set (closure rules nts S) \<subseteq> set S \<union> {0..<length rules} \<times> {0}" by blast+
qed

lemma closure_sorted: "sorted S \<Longrightarrow> distinct S \<Longrightarrow> sorted (closure rules nts S) \<and> distinct (closure rules nts S)"
  by (rule closure_induct [where P = "\<lambda>T. sorted T \<and> distinct T"])
    (simp_all add: closure_pass_def insort_all_sorted)

lemma set_sort_insert_all [simp]: "set (sort_insert_all xs) = set xs"
  by (simp add: sort_insert_all_def set_insort_all)

lemma go_to_items: "go_to rules nts S x \<in> grammar_states rules"
proof -
  let ?kernel = "sort_insert_all (map (\<lambda>(r, d). (r, Suc d))
    (filter (\<lambda>(r, d). d < length (rhs_at rules r) \<and> rhs_at rules r ! d = x) S))"
  have "set ?kernel \<subseteq> grammar_items rules"
    by (auto simp: grammar_items_def rule_at_def plain_rule_def split: if_splits)
  moreover have "{0..<length rules} \<times> {0} \<subseteq> grammar_items rules"
    by (auto simp: grammar_items_def)
  ultimately have "set (closure rules nts ?kernel) \<subseteq> grammar_items rules"
    using closure_set(2) [of rules nts ?kernel] by blast
  moreover have "sorted ?kernel \<and> distinct ?kernel"
    unfolding sort_insert_all_def by (rule insort_all_sorted) simp_all
  ultimately show ?thesis
    using closure_sorted [of ?kernel rules nts] by (simp add: grammar_states_def go_to_def)
qed

text \<open>\<open>tables_extend rules t t'\<close>: \<open>t'\<close> has the states of \<open>t\<close> and, after them, new states of the grammar.\<close>

definition tables_extend :: "guided_rule list \<Rightarrow> tables \<Rightarrow> tables \<Rightarrow> bool" where
  "tables_extend rules t t' \<longleftrightarrow> (\<exists>new. tb_states t' = tb_states t @ new \<and> set new \<subseteq> grammar_states rules
     \<and> set new \<inter> set (tb_states t) = {})"

lemma tables_extend_refl: "tb_states t' = tb_states t \<Longrightarrow> tables_extend rules t t'"
  by (simp add: tables_extend_def)

lemma tables_extend_trans: "tables_extend rules t u \<Longrightarrow> tables_extend rules u v \<Longrightarrow> tables_extend rules t v"
  by (auto simp: tables_extend_def)

lemma tables_extend_foldl:
  "(\<And>t x. x \<in> set xs \<Longrightarrow> tables_extend rules t (f t x)) \<Longrightarrow> tables_extend rules t (foldl f t xs)"
  by (induction xs arbitrary: t) (auto intro: tables_extend_refl tables_extend_trans)

lemma get_or_add_state:
  assumes "get_or_add_state states S = (n, states')"
  shows "n < length states' \<and> states' ! n = S \<and> (states' = states \<or> states' = states @ [S] \<and> S \<notin> set states)"
proof (cases "S \<in> set states")
  case True
  then have i: "length (takeWhile (\<lambda>T. T \<noteq> S) states) < length states"
    by (induction states) auto
  then have "states ! length (takeWhile (\<lambda>T. T \<noteq> S) states) = S"
    using nth_length_takeWhile by blast
  with i assms show ?thesis by (auto simp: get_or_add_state_def Let_def)
next
  case False
  then have "takeWhile (\<lambda>T. T \<noteq> S) states = states" by (auto simp: takeWhile_eq_all_conv)
  with False assms show ?thesis by (auto simp: get_or_add_state_def)
qed

lemma tables_extend_add_transition: "tables_extend rules t (add_transition rules nts i t x)"
proof -
  obtain n states where g: "get_or_add_state (tb_states t) (go_to rules nts (tb_states t ! i) x) = (n, states)"
    by fastforce
  from get_or_add_state [OF g] go_to_items [of rules nts "tb_states t ! i" x] g show ?thesis
    by (auto simp: add_transition_def Let_def tables_extend_def)
qed

lemma states_complete_item [simp]: "tb_states (complete_item rules follows i t item) = tb_states t"
proof -
  have one: "tb_states (add_reduction r i t f) = tb_states t" for r t f
    by (simp add: add_reduction_def split: option.split action.split)
  have "tb_states (foldl (add_reduction r i) t fs) = tb_states t" for r fs
    by (induction fs arbitrary: t) (simp_all add: one)
  then show ?thesis by (simp add: complete_item_def split: prod.split)
qed

lemma tables_extend_build_state: "tables_extend rules t (build_state rules nts follows i t)"
proof -
  let ?t1 = "foldl (add_transition rules nts i) t (possible_symbols rules (tb_states t ! i))"
  have "tables_extend rules t ?t1" by (rule tables_extend_foldl) (rule tables_extend_add_transition)
  moreover have "tables_extend rules ?t1 (foldl (complete_item rules follows i) ?t1 (tb_states ?t1 ! i))"
    by (rule tables_extend_foldl) (simp add: tables_extend_refl)
  ultimately show ?thesis unfolding build_state_def Let_def by (rule tables_extend_trans)
qed

function build_from :: "guided_rule list \<Rightarrow> string list \<Rightarrow> symbol_sets \<Rightarrow> nat \<Rightarrow> tables \<Rightarrow> tables" where
  "build_from rules nts follows i t =
     (if i < length (tb_states t)
      then build_from rules nts follows (Suc i) (build_state rules nts follows i t) else t)"
  by pat_completeness auto
termination
proof (relation "inv_image (less_than <*lex*> less_than) (\<lambda>(rules, nts, follows, i, t).
    (card (grammar_states rules - set (tb_states t)), length (tb_states t) - i))")
  fix rules nts follows i and t :: tables
  assume i: "i < length (tb_states t)"
  let ?t = "build_state rules nts follows i t"
  obtain new where new: "tb_states ?t = tb_states t @ new" "set new \<subseteq> grammar_states rules"
    "set new \<inter> set (tb_states t) = {}"
    using tables_extend_build_state [of rules t nts follows i] unfolding tables_extend_def by blast
  show "((rules, nts, follows, Suc i, ?t), rules, nts, follows, i, t)
    \<in> inv_image (less_than <*lex*> less_than) (\<lambda>(rules, nts, follows, i, t).
        (card (grammar_states rules - set (tb_states t)), length (tb_states t) - i))"
  proof (cases "new = []")
    case True
    with new i show ?thesis by simp
  next
    case False
    then have "card (grammar_states rules - set (tb_states ?t)) < card (grammar_states rules - set (tb_states t))"
      using new finite_grammar_states [of rules]
      by (intro saturation_decreases) (auto simp: neq_Nil_conv)
    then show ?thesis by simp
  qed
qed (simp add: wf_inv_image wf_lex_prod)

declare build_from.simps [simp del]

definition build_tables :: "guided_rule list \<Rightarrow> string list \<Rightarrow> symbol_sets \<Rightarrow> tables" where
  "build_tables rules nts follows =
     build_from rules nts follows 0
       \<lparr>tb_states = [closure rules nts [(0, 0)]], tb_action = Map.empty, tb_goto = Map.empty\<rparr>"

end
