(* ===== verification/Parser.thy ===== *)
theory Parser
  imports Ast Lexer Grammar
begin

text \<open>
  The shift-reduce parser (src/src/parser/Parser.cpp, RemapToken.h): the name of a token in the grammar,
  one turn of the loop of \<open>SLRParser::Parse\<close>, the loop, and the cache of tables. The parser's stacks
  have their top first.
\<close>

definition token_strings :: "(token_type \<times> string) list" where
  "token_strings =
    [(T_EOF_TOKEN, ''EOF''), (T_ID, ''identifier''), (T_INTEGER_LITERAL, ''integer_literal''),
     (T_FLOAT_LITERAL, ''float_literal''), (T_STRING_LITERAL, ''string_literal''),
     (T_KW_MODULE, ''module''), (T_KW_IMPORT, ''import''), (T_KW_AS, ''as''),
     (T_KW_EXPORT, ''export''), (T_KW_VAR, ''var''), (T_KW_CONST, ''const''), (T_KW_FN, ''fn''),
     (T_KW_TYPE, ''type''), (T_KW_STRUCT, ''struct''), (T_KW_ENUM, ''enum''),
     (T_KW_INTERFACE, ''interface''), (T_KW_IMPLEMENTS, ''implements''),
     (T_KW_SHARED, ''shared''), (T_KW_THREAD_LOCAL, ''thread_local''), (T_KW_ACTOR, ''actor''),
     (T_KW_STATE, ''state''), (T_KW_MSG, ''msg''), (T_KW_QUERY, ''query''),
     (T_KW_EFFECT, ''effect''), (T_KW_COMPTIME, ''comptime''), (T_KW_GO, ''go''),
     (T_KW_AWAIT, ''await''), (T_KW_PRINT, ''print''), (T_KW_IF, ''if''), (T_KW_ELSE, ''else''),
     (T_KW_WHILE, ''while''), (T_KW_ITER, ''iter''), (T_KW_OF, ''of''),
     (T_KW_RETURN, ''return''), (T_KW_HANDLE, ''handle''), (T_KW_WITH, ''with''),
     (T_KW_TRANSACTION, ''transaction''), (T_KW_UNSAFE, ''unsafe''), (T_KW_INT, ''int''),
     (T_KW_FLOAT, ''float''), (T_KW_BOOL, ''bool''), (T_KW_STRING, ''string''),
     (T_KW_MAP, ''map''), (T_KW_VOID, ''void''), (T_KW_NEVER, ''never''), (T_KW_PTR, ''ptr''),
     (T_KW_REF, ''ref''), (T_KW_TRUE, ''true''), (T_KW_FALSE, ''false''), (T_KW_NULL, ''null''),
     (T_KW_REQUIRES, ''requires''), (T_KW_ENSURES, ''ensures''), (T_KW_INVARIANT, ''invariant''),
     (T_KW_RAISES, ''raises''), (T_KW_DROP, ''drop''), (T_KW_TAKE, ''take''),
     (T_KW_REVERSE, ''reverse''), (T_KW_FILTER, ''filter''), (T_KW_TRANSFORM, ''transform''),
     (T_SEMICOLON, '';''), (T_COLON, '':''), (T_COMMA, '',''), (T_DOT, ''.''),
     (T_ELLIPSIS, ''...''), (T_PIPE, ''|''), (T_PARAN_OPEN, ''(''), (T_PARAN_CLOSE, '')''),
     (T_CURLY_OPEN, ''{''), (T_CURLY_CLOSE, ''}''), (T_BRACKET_OPEN, ''[''),
     (T_BRACKET_CLOSE, '']''), (T_ARROW, ''->''), (T_OP_ASSIGNMENT, ''=''), (T_OP_PLUS, ''+''),
     (T_OP_MINUS, ''-''), (T_OP_MUL, ''*''), (T_OP_DIVISION, ''/''), (T_KW_MOD, ''mod''),
     (T_KW_DIV, ''div''), (T_OP_EQUAL, ''==''), (T_OP_NOT_EQUAL, ''!=''), (T_OP_LESS, ''<''),
     (T_OP_GREATER, ''>''), (T_OP_LESS_OR_EQUAL, ''<=''), (T_OP_GREATER_OR_EQUAL, ''>=''),
     (T_OP_AMPERSAND, ''&''), (T_OP_DOUBLE_AMPERSAND, ''&&''), (T_OP_DOUBLE_PIPE, ''||''),
     (T_KW_NOT, ''not''), (T_KW_AND, ''and''), (T_KW_OR, ''or'')]"

definition remap_token_type_to_string :: "token \<Rightarrow> string" where
  "remap_token_type_to_string t =
     (case map_of token_strings (tok_type t) of Some s \<Rightarrow> s | None \<Rightarrow> tok_value t)"

record parser_tables =
  pt_rules :: "guided_rule list"
  pt_action :: "nat \<times> string \<Rightarrow> action option"
  pt_goto :: "nat \<times> string \<Rightarrow> nat option"

definition build_parser_tables :: "string \<Rightarrow> parser_tables" where
  "build_parser_tables grammar =
     (let b = read_grammar grammar;
          t = build_tables (rb_rules b) (rb_non_terms b) (get_follows b)
      in \<lparr>pt_rules = rb_rules b, pt_action = tb_action t, pt_goto = tb_goto t\<rparr>)"

text \<open>The tables of a grammar are built once; the cache is static in the code.\<close>

type_synonym table_cache = "(string \<times> parser_tables) list"

definition get_cached_parser_tables :: "string \<Rightarrow> (table_cache, parser_tables) proc" where
  "get_cached_parser_tables grammar cache = (case map_of cache grammar of
       Some t \<Rightarrow> (Ok t, cache)
     | None \<Rightarrow> (let t = build_parser_tables grammar in (Ok t, emplace grammar t cache)))"

record parser_state =
  ps_states :: "nat list"
  ps_nodes :: "node list"
  ps_token :: token
  ps_reader :: reader

text \<open>
  What \<open>Parse\<close> ends with: true with the tree that is handed to the tree builder, false for a
  syntax error, or what it throws. \<open>stack::top\<close> of an empty stack is undefined.
\<close>

datatype parse_end = Parse_Accepted "node option" | Parse_Rejected | Parse_Failed exn

datatype parse_turn = Parse_On parser_state | Parse_End parse_end

definition shift_token :: "nat \<Rightarrow> parser_state \<Rightarrow> parse_turn" where
  "shift_token s p = (case lexer_get (ps_reader p) of
       (Ok t, r) \<Rightarrow> Parse_On (p\<lparr>ps_states := s # ps_states p,
         ps_nodes := Leaf (remap_token_type_to_string (ps_token p)) (tok_value (ps_token p)) # ps_nodes p,
         ps_token := t, ps_reader := r\<rparr>)
     | (Raise e, r) \<Rightarrow> Parse_End (Parse_Failed e))"

text \<open>One symbol of the right-hand side: a node, when there is one, and a state leave the stacks.\<close>

definition pop_symbol :: "string \<Rightarrow> nat list \<times> node list \<times> node list \<Rightarrow> nat list \<times> node list \<times> node list" where
  "pop_symbol rh st = (case st of (states, nodes, children) \<Rightarrow>
     if rh = ''EPSILON'' then st
     else (tl states, tl nodes, (if nodes = [] then children else children @ [hd nodes])))"

definition reduce_rule :: "parser_tables \<Rightarrow> nat \<Rightarrow> parser_state \<Rightarrow> parse_turn" where
  "reduce_rule tables k p =
     (let rule = rule_at (pt_rules tables) k in
      case fold pop_symbol (rule_rhs rule) (ps_states p, ps_nodes p, []) of (states, nodes, children) \<Rightarrow>
        if states = [] then Parse_End (Parse_Failed (Undefined ''top of an empty stack''))
        else case pt_goto tables (hd states, rule_lhs rule) of
            None \<Rightarrow> Parse_End (Parse_Failed (CppExc ''map::at''))
          | Some s \<Rightarrow> Parse_On (p\<lparr>ps_states := s # states,
              ps_nodes := Raw (rule_lhs rule) (map Some (rev children)) # nodes\<rparr>))"

definition parse_turn :: "parser_tables \<Rightarrow> parser_state \<Rightarrow> parse_turn" where
  "parse_turn tables p =
     (if ps_states p = [] then Parse_End (Parse_Failed (Undefined ''top of an empty stack''))
      else case pt_action tables (hd (ps_states p), remap_token_type_to_string (ps_token p)) of
          None \<Rightarrow> Parse_End Parse_Rejected
        | Some (Shift s) \<Rightarrow> shift_token s p
        | Some (Reduce k) \<Rightarrow> reduce_rule tables k p
        | Some Accept \<Rightarrow> Parse_End (Parse_Accepted (if ps_nodes p = [] then None else Some (hd (ps_nodes p)))))"

partial_function (option) parse_loop :: "parser_tables \<Rightarrow> parser_state \<Rightarrow> parse_end option" where
  "parse_loop tables p = (case parse_turn tables p of
       Parse_On p' \<Rightarrow> parse_loop tables p'
     | Parse_End e \<Rightarrow> Some e)"

declare parse_loop.simps [code]

text \<open>\<open>Parse\<close> reads the first token and enters the loop with state 0.\<close>

definition parse_source :: "parser_tables \<Rightarrow> string \<Rightarrow> parse_end option" where
  "parse_source tables code = (case lexer_get (new_reader code) of
       (Ok t, r) \<Rightarrow> parse_loop tables \<lparr>ps_states = [0], ps_nodes = [], ps_token = t, ps_reader = r\<rparr>
     | (Raise e, r) \<Rightarrow> Some (Parse_Failed e))"

end
