(* ===== verification/ParserProps.thy ===== *)
theory ParserProps
  imports Parser LexerProps
begin

text \<open>
  What the parser promises for every grammar: no entry of its tables is ever missed, and a text is
  accepted only with a tree that derives its tokens from the start symbol.
\<close>

section \<open>Closures and transitions\<close>

lemma closure_fixpoint: "closure_pass rules nts (closure rules nts S) = closure rules nts S"
proof (induction rules nts S rule: closure.induct)
  case (1 rules nts S)
  then show ?case by (subst (1 2) closure.simps) (simp add: Let_def)
qed

lemma closure_predicts:
  assumes "(q, e) \<in> set (closure rules nts S)" and "e < length (rhs_at rules q)"
    and "rhs_at rules q ! e \<in> set nts" and "k < length rules" and "lhs_at rules k = rhs_at rules q ! e"
  shows "(k, 0) \<in> set (closure rules nts S)"
proof -
  let ?C = "closure rules nts S"
  have "(k, 0) \<in> set (predicted rules nts (q, e))" using assms(2-5) by (simp add: predicted_def)
  then have "(k, 0) \<in> set (closure_pass rules nts ?C)"
    using assms(1) by (force simp: closure_pass_def set_insort_all)
  then show ?thesis by (simp add: closure_fixpoint)
qed

lemma closure_origin:
  assumes "(k, 0) \<in> set (closure rules nts S)"
  shows "(k, 0) \<in> set S \<or> (\<exists>q e. (q, e) \<in> set (closure rules nts S) \<and> e < length (rhs_at rules q)
    \<and> rhs_at rules q ! e = lhs_at rules k \<and> rhs_at rules q ! e \<in> set nts)"
proof -
  let ?P = "\<lambda>T. \<forall>k. (k, 0) \<in> set T \<longrightarrow> (k, 0) \<in> set S \<or> (\<exists>q e. (q, e) \<in> set T
    \<and> e < length (rhs_at rules q) \<and> rhs_at rules q ! e = lhs_at rules k \<and> rhs_at rules q ! e \<in> set nts)"
  have "?P (closure rules nts S)"
  proof (rule closure_induct [where P = ?P])
    fix T assume T: "?P T"
    show "?P (closure_pass rules nts T)"
    proof (intro allI impI)
      fix k assume "(k, 0) \<in> set (closure_pass rules nts T)"
      then consider "(k, 0) \<in> set T" | q e where "(q, e) \<in> set T" "(k, 0) \<in> set (predicted rules nts (q, e))"
        by (auto simp: closure_pass_def set_insort_all)
      then show "(k, 0) \<in> set S \<or> (\<exists>q e. (q, e) \<in> set (closure_pass rules nts T)
          \<and> e < length (rhs_at rules q) \<and> rhs_at rules q ! e = lhs_at rules k \<and> rhs_at rules q ! e \<in> set nts)"
      proof cases
        case 1
        with T closure_pass_bounds(1) [of T rules nts] show ?thesis by blast
      next
        case 2
        then have "e < length (rhs_at rules q) \<and> rhs_at rules q ! e = lhs_at rules k
            \<and> rhs_at rules q ! e \<in> set nts"
          by (auto simp: predicted_def split: if_splits)
        with 2(1) closure_pass_bounds(1) [of T rules nts] show ?thesis by blast
      qed
    qed
  qed blast
  with assms show ?thesis by blast
qed

lemma closure_Nil: "closure rules nts [] = []"
  by (subst closure.simps) (simp add: closure_pass_def)

lemma go_to_back:
  assumes "(r, Suc d) \<in> set (go_to rules nts S x)"
  shows "(r, d) \<in> set S \<and> d < length (rhs_at rules r) \<and> rhs_at rules r ! d = x"
proof -
  from assms closure_set(2) have "(r, Suc d) \<in> set (sort_insert_all (map (\<lambda>(r, d). (r, Suc d))
      (filter (\<lambda>(r, d). d < length (rhs_at rules r) \<and> rhs_at rules r ! d = x) S)))"
    unfolding go_to_def by fastforce
  then show ?thesis by auto
qed

lemma go_to_start_item:
  assumes "(k, 0) \<in> set (go_to rules nts S x)"
  shows "\<exists>q e. (q, e) \<in> set (go_to rules nts S x) \<and> e < length (rhs_at rules q)
    \<and> rhs_at rules q ! e = lhs_at rules k \<and> rhs_at rules q ! e \<in> set nts"
  using closure_origin [OF assms [unfolded go_to_def]] unfolding go_to_def by auto

lemma go_to_nonempty:
  "(r, d) \<in> set S \<Longrightarrow> d < length (rhs_at rules r) \<Longrightarrow> rhs_at rules r ! d = x \<Longrightarrow> go_to rules nts S x \<noteq> []"
proof -
  assume "(r, d) \<in> set S" "d < length (rhs_at rules r)" "rhs_at rules r ! d = x"
  then have "(r, Suc d) \<in> set (go_to rules nts S x)"
    using closure_set(1) unfolding go_to_def by fastforce
  then show ?thesis by auto
qed

lemma go_to_symbol:
  assumes "go_to rules nts S x \<noteq> []"
  shows "\<exists>r \<in> set rules. x \<in> set (rule_rhs r)"
proof -
  let ?K = "filter (\<lambda>(r, d). d < length (rhs_at rules r) \<and> rhs_at rules r ! d = x) S"
  have "?K \<noteq> []"
    using assms by (auto simp: go_to_def sort_insert_all_def closure_Nil)
  then obtain r d where "d < length (rhs_at rules r)" "rhs_at rules r ! d = x"
    by (auto simp: filter_empty_conv)
  then show ?thesis
    by (auto simp: rule_at_def plain_rule_def split: if_splits intro!: bexI [of _ "rules ! r"])
qed

section \<open>The tables\<close>

text \<open>What every entry of the tables stands for.\<close>

definition start_state :: "guided_rule list \<Rightarrow> string list \<Rightarrow> lr0_state" where
  "start_state rules nts = closure rules nts [(0, 0)]"

definition leads :: "guided_rule list \<Rightarrow> string list \<Rightarrow> lr0_state list \<Rightarrow> nat \<Rightarrow> string \<Rightarrow> nat \<Rightarrow> bool" where
  "leads rules nts states i x n \<longleftrightarrow> i < length states \<and> n < length states
     \<and> states ! n = go_to rules nts (states ! i) x \<and> states ! n \<noteq> []"

definition entry_sound :: "guided_rule list \<Rightarrow> string list \<Rightarrow> lr0_state list \<Rightarrow> nat \<Rightarrow> string \<Rightarrow> action \<Rightarrow> bool" where
  "entry_sound rules nts states i x a = (case a of
       Shift n \<Rightarrow> x \<notin> set nts \<and> leads rules nts states i x n
     | Reduce r \<Rightarrow> i < length states \<and> (r, length (rhs_at rules r)) \<in> set (states ! i)
         \<and> lhs_at rules r \<noteq> ''_S_PRIME_''
     | Accept \<Rightarrow> x = ''EOF'' \<and> i < length states \<and> (\<exists>r. (r, length (rhs_at rules r)) \<in> set (states ! i)
         \<and> lhs_at rules r = ''_S_PRIME_''))"

definition tables_sound :: "guided_rule list \<Rightarrow> string list \<Rightarrow> tables \<Rightarrow> bool" where
  "tables_sound rules nts t \<longleftrightarrow>
     tb_states t \<noteq> [] \<and> tb_states t ! 0 = start_state rules nts
     \<and> (\<forall>i x a. tb_action t (i, x) = Some a \<longrightarrow> entry_sound rules nts (tb_states t) i x a)
     \<and> (\<forall>i x n. tb_goto t (i, x) = Some n \<longrightarrow> x \<in> set nts \<and> leads rules nts (tb_states t) i x n)"

lemma leads_extend: "leads rules nts states i x n \<Longrightarrow> leads rules nts (states @ new) i x n"
  by (auto simp: leads_def nth_append)

lemma entry_sound_extend:
  "entry_sound rules nts states i x a \<Longrightarrow> entry_sound rules nts (states @ new) i x a"
  by (cases a) (auto simp: entry_sound_def leads_extend nth_append)

lemma tables_sound_add_transition:
  assumes "tables_sound rules nts t" and "i < length (tb_states t)"
  shows "tables_sound rules nts (add_transition rules nts i t x)"
proof -
  let ?S = "tb_states t"
  let ?next = "go_to rules nts (?S ! i) x"
  obtain n states where g: "get_or_add_state ?S ?next = (n, states)" by fastforce
  have n: "n < length states" "states ! n = ?next" and ext: "\<exists>new. states = ?S @ new"
    using get_or_add_state [OF g] by auto
  then obtain new where new: "states = ?S @ new" by blast
  have i: "states ! i = ?S ! i" "i < length states" using assms(2) new by (auto simp: nth_append)
  have lead: "?next \<noteq> [] \<Longrightarrow> leads rules nts states i x n"
    using n i assms(2) by (simp add: leads_def)
  have old: "states \<noteq> []" "states ! 0 = start_state rules nts"
    using assms(1) new by (auto simp: tables_sound_def nth_append)
  have actions: "tb_action t (j, y) = Some a \<Longrightarrow> entry_sound rules nts states j y a" for j y a
    using assms(1) new by (auto simp: tables_sound_def intro: entry_sound_extend)
  have gotos: "tb_goto t (j, y) = Some m \<Longrightarrow> y \<in> set nts \<and> leads rules nts states j y m" for j y m
    using assms(1) new by (auto simp: tables_sound_def intro: leads_extend)
  consider (none) "?next = []" | (goto) "?next \<noteq> []" "x \<in> set nts" | (shift) "?next \<noteq> []" "x \<notin> set nts"
    by blast
  then show ?thesis
  proof cases
    case none
    with assms(1) show ?thesis by (simp add: add_transition_def)
  next
    case goto
    with g have "add_transition rules nts i t x = t\<lparr>tb_states := states, tb_goto := (tb_goto t)((i, x) \<mapsto> n)\<rparr>"
      by (simp add: add_transition_def)
    with goto lead old actions gotos show ?thesis by (auto simp: tables_sound_def)
  next
    case shift
    with g have "add_transition rules nts i t x = t\<lparr>tb_states := states, tb_action := (tb_action t)((i, x) \<mapsto> Shift n)\<rparr>"
      by (simp add: add_transition_def)
    with shift lead old actions gotos show ?thesis
      by (auto simp: tables_sound_def entry_sound_def split: if_splits)
  qed
qed

lemma tables_sound_action:
  assumes "tables_sound rules nts t" and "entry_sound rules nts (tb_states t) i x a"
  shows "tables_sound rules nts (t\<lparr>tb_action := (tb_action t)((i, x) \<mapsto> a)\<rparr>)"
  using assms by (auto simp: tables_sound_def)

lemma tables_sound_complete_item:
  assumes "tables_sound rules nts t" and "i < length (tb_states t)" and "item \<in> set (tb_states t ! i)"
  shows "tables_sound rules nts (complete_item rules follows i t item)"
proof -
  obtain r d where item: "item = (r, d)" by fastforce
  have reduce: "tables_sound rules nts (foldl (add_reduction r i) u fs)"
    if "tables_sound rules nts u" "tb_states u = tb_states t" "d = length (rhs_at rules r)"
      "lhs_at rules r \<noteq> ''_S_PRIME_''" for u fs
    using that
  proof (induction fs arbitrary: u)
    case (Cons f fs)
    have "entry_sound rules nts (tb_states u) i f (Reduce r)"
      using Cons.prems assms(2,3) item by (simp add: entry_sound_def)
    from tables_sound_action [OF Cons.prems(1) this] Cons.prems(1)
    have "tables_sound rules nts (add_reduction r i u f)"
      by (auto simp: add_reduction_def split: option.split action.split)
    moreover have "tb_states (add_reduction r i u f) = tb_states t"
      using Cons.prems(2) by (simp add: add_reduction_def split: option.split action.split)
    ultimately show ?case using Cons by simp
  qed simp
  have "entry_sound rules nts (tb_states t) i ''EOF'' Accept"
    if "d = length (rhs_at rules r)" "lhs_at rules r = ''_S_PRIME_''"
    using that assms(2,3) item by (auto simp: entry_sound_def)
  from tables_sound_action [OF assms(1) this] reduce [OF assms(1)] assms(1) item show ?thesis
    by (simp add: complete_item_def)
qed

lemma length_add_transition: "length (tb_states t) \<le> length (tb_states (add_transition rules nts i t x))"
  using tables_extend_add_transition [of rules t nts i x] by (auto simp: tables_extend_def)

lemma tables_sound_transitions:
  "tables_sound rules nts t \<Longrightarrow> i < length (tb_states t)
   \<Longrightarrow> tables_sound rules nts (foldl (add_transition rules nts i) t xs)
    \<and> i < length (tb_states (foldl (add_transition rules nts i) t xs))"
proof (induction xs arbitrary: t)
  case (Cons x xs)
  then show ?case
    using tables_sound_add_transition [OF Cons.prems, of x] length_add_transition [of t rules nts i x]
    by simp
qed simp

lemma tables_sound_items:
  "tables_sound rules nts t \<Longrightarrow> i < length (tb_states t) \<Longrightarrow> set xs \<subseteq> set (tb_states t ! i)
   \<Longrightarrow> tables_sound rules nts (foldl (complete_item rules follows i) t xs)"
  by (induction xs arbitrary: t) (simp_all add: tables_sound_complete_item)

lemma tables_sound_build_state:
  assumes "tables_sound rules nts t" and "i < length (tb_states t)"
  shows "tables_sound rules nts (build_state rules nts follows i t)"
  using tables_sound_transitions [OF assms, of "possible_symbols rules (tb_states t ! i)"]
  by (simp add: build_state_def Let_def tables_sound_items)

text \<open>Once a state has been processed, every nonterminal after a dot has a goto entry.\<close>

definition goto_done :: "guided_rule list \<Rightarrow> string list \<Rightarrow> tables \<Rightarrow> nat \<Rightarrow> bool" where
  "goto_done rules nts t i \<longleftrightarrow> (\<forall>r d. (r, d) \<in> set (tb_states t ! i) \<longrightarrow> d < length (rhs_at rules r)
     \<longrightarrow> rhs_at rules r ! d \<in> set nts \<longrightarrow> tb_goto t (i, rhs_at rules r ! d) \<noteq> None)"

lemma goto_kept:
  "tb_goto t k \<noteq> None \<Longrightarrow> tb_goto (add_transition rules nts i t x) k \<noteq> None"
  by (auto simp: add_transition_def Let_def split: prod.split)

lemma goto_complete_item [simp]: "tb_goto (complete_item rules follows i t item) = tb_goto t"
proof -
  have "tb_goto (add_reduction r i u f) = tb_goto u" for r u f
    by (simp add: add_reduction_def split: option.split action.split)
  then have "tb_goto (foldl (add_reduction r i) u fs) = tb_goto u" for r u fs
    by (induction fs arbitrary: u) simp_all
  then show ?thesis by (simp add: complete_item_def split: prod.split)
qed

lemma goto_items [simp]: "tb_goto (foldl (complete_item rules follows i) t xs) = tb_goto t"
  "tb_states (foldl (complete_item rules follows i) t xs) = tb_states t"
  by (induction xs arbitrary: t) simp_all

lemma goto_transitions_kept:
  "tb_goto t k \<noteq> None \<Longrightarrow> tb_goto (foldl (add_transition rules nts i) t xs) k \<noteq> None"
  by (induction xs arbitrary: t) (simp_all add: goto_kept del: not_None_eq)

lemma goto_transitions:
  assumes "i < length (tb_states t)" and "x \<in> set xs" and "x \<in> set nts"
    and "go_to rules nts (tb_states t ! i) x \<noteq> []"
  shows "tb_goto (foldl (add_transition rules nts i) t xs) (i, x) \<noteq> None"
  using assms(1,2,4)
proof (induction xs arbitrary: t)
  case (Cons y xs)
  let ?t = "add_transition rules nts i t y"
  have state: "tb_states ?t ! i = tb_states t ! i"
    using tables_extend_add_transition [of rules t nts i y] Cons.prems(1)
    by (auto simp: tables_extend_def nth_append)
  show ?case
  proof (cases "y = x")
    case True
    have "tb_goto ?t (i, x) \<noteq> None"
      using True Cons.prems(3) assms(3) by (auto simp: add_transition_def Let_def split: prod.split)
    then show ?thesis using goto_transitions_kept by simp
  next
    case False
    then show ?thesis
      using Cons.IH [of ?t] Cons.prems state length_add_transition [of t rules nts i y] by simp
  qed
qed simp

lemma state_build_state:
  "j < length (tb_states t) \<Longrightarrow> tb_states (build_state rules nts follows i t) ! j = tb_states t ! j
     \<and> j < length (tb_states (build_state rules nts follows i t))"
  using tables_extend_build_state [of rules t nts follows i] by (auto simp: tables_extend_def nth_append)

lemma goto_done_build_state:
  assumes "i < length (tb_states t)"
  shows "goto_done rules nts (build_state rules nts follows i t) i"
proof -
  have "tb_goto (build_state rules nts follows i t) (i, rhs_at rules r ! d) \<noteq> None"
    if "(r, d) \<in> set (tb_states t ! i)" "d < length (rhs_at rules r)" "rhs_at rules r ! d \<in> set nts" for r d
  proof -
    have "rhs_at rules r ! d \<in> set (possible_symbols rules (tb_states t ! i))"
      using that by (force simp: possible_symbols_def)
    from goto_transitions [OF assms this that(3)] go_to_nonempty [OF that(1,2) refl]
    show ?thesis by (simp add: build_state_def Let_def)
  qed
  with state_build_state [OF assms, of rules nts follows i] show ?thesis by (simp add: goto_done_def)
qed

lemma goto_done_kept:
  assumes "goto_done rules nts t j" and "j < length (tb_states t)"
  shows "goto_done rules nts (build_state rules nts follows i t) j"
  using assms state_build_state [OF assms(2), of rules nts follows i]
  by (simp add: goto_done_def build_state_def Let_def goto_transitions_kept)

lemma build_from_ok:
  assumes "tables_sound rules nts t" and "i \<le> length (tb_states t)" and "\<forall>j < i. goto_done rules nts t j"
  shows "tables_sound rules nts (build_from rules nts follows i t)
    \<and> (\<forall>j < length (tb_states (build_from rules nts follows i t)).
         goto_done rules nts (build_from rules nts follows i t) j)"
  using assms
proof (induction rules nts follows i t rule: build_from.induct)
  case (1 rules nts follows i t)
  show ?case
  proof (cases "i < length (tb_states t)")
    case True
    let ?t = "build_state rules nts follows i t"
    have "\<forall>j < Suc i. goto_done rules nts ?t j"
      using goto_done_build_state [OF True, of rules nts follows] goto_done_kept [of rules nts t]
        1(4) True by (auto simp: less_Suc_eq)
    with 1(1) [OF True] tables_sound_build_state [OF 1(2) True] state_build_state [OF True]
    show ?thesis by (subst (1 2 3) build_from.simps) (simp add: True Suc_leI)
  next
    case False
    with 1(2,3,4) show ?thesis by (subst (1 2 3) build_from.simps) simp
  qed
qed

lemma build_tables_ok:
  "tables_sound rules nts (build_tables rules nts follows)"
  "j < length (tb_states (build_tables rules nts follows))
   \<Longrightarrow> goto_done rules nts (build_tables rules nts follows) j"
proof -
  let ?t = "\<lparr>tb_states = [closure rules nts [(0, 0)]], tb_action = Map.empty, tb_goto = Map.empty\<rparr>"
  have "tables_sound rules nts ?t" by (simp add: tables_sound_def start_state_def)
  from build_from_ok [OF this, of 0 follows]
  show "tables_sound rules nts (build_tables rules nts follows)"
    "j < length (tb_states (build_tables rules nts follows))
     \<Longrightarrow> goto_done rules nts (build_tables rules nts follows) j"
    by (simp_all add: build_tables_def)
qed

section \<open>The stacks\<close>

fun node_label :: "node \<Rightarrow> string" where
  "node_label (Leaf s v) = s"
| "node_label (Raw s ns) = s"
| "node_label n = []"

text \<open>The stack of states is the path of the automaton along the labels of the nodes.\<close>

fun stack_path :: "guided_rule list \<Rightarrow> string list \<Rightarrow> lr0_state list \<Rightarrow> nat list \<Rightarrow> node list \<Rightarrow> bool" where
  "stack_path rules nts states [s] [] \<longleftrightarrow> s = 0"
| "stack_path rules nts states (s' # s # ss) (n # ns) \<longleftrightarrow>
     leads rules nts states s (node_label n) s' \<and> stack_path rules nts states (s # ss) ns"
| "stack_path rules nts states _ _ \<longleftrightarrow> False"

lemma stack_path_length: "stack_path rules nts states ss ns \<Longrightarrow> length ss = Suc (length ns)"
  by (induction rules nts states ss ns rule: stack_path.induct) auto

lemma stack_path_drop:
  "stack_path rules nts states ss ns \<Longrightarrow> d \<le> length ns \<Longrightarrow> stack_path rules nts states (drop d ss) (drop d ns)"
proof (induction rules nts states ss ns arbitrary: d rule: stack_path.induct)
  case (2 rules nts states s' s ss n ns)
  then show ?case by (cases d) auto
qed auto

text \<open>An item with its dot after \<open>d\<close> symbols: these are the labels on top, and below them the item starts.\<close>

lemma viable:
  assumes "stack_path rules nts states ss ns" and "(r, d) \<in> set (states ! hd ss)"
    and "states ! 0 = start_state rules nts"
  shows "d \<le> length ns \<and> map node_label (rev (take d ns)) = take d (rhs_at rules r)
    \<and> d \<le> length (rhs_at rules r) \<and> (r, 0) \<in> set (states ! (ss ! d))"
  using assms(1,2)
proof (induction d arbitrary: ss ns)
  case 0
  then show ?case by (cases ss) auto
next
  case (Suc d)
  show ?case
  proof (cases "(rules, nts, states, ss, ns)" rule: stack_path.cases)
    case (1 rules' nts' states' s)
    then have "(r, Suc d) \<in> set (start_state rules nts)" using Suc.prems assms(3) by simp
    then show ?thesis using closure_set(2) [of rules nts "[(0, 0)]"] by (auto simp: start_state_def)
  next
    case (2 rules' nts' states' s' s ss' n ns')
    then have p: "leads rules nts states s (node_label n) s'" "stack_path rules nts states (s # ss') ns'"
      using Suc.prems by auto
    then have "(r, Suc d) \<in> set (go_to rules nts (states ! s) (node_label n))"
      using Suc.prems(2) 2 by (simp add: leads_def)
    from go_to_back [OF this] have b: "(r, d) \<in> set (states ! s)" "d < length (rhs_at rules r)"
      "rhs_at rules r ! d = node_label n" by auto
    with Suc.IH [OF p(2)] 2 show ?thesis by (auto simp: take_Suc_conv_app_nth)
  qed (use Suc.prems in auto)
qed

section \<open>One turn\<close>

text \<open>
  A proper grammar: the start rule is the only one of the start symbol, and no rule mentions the start
  symbol, the end of the file or a quoted \<open>EPSILON\<close>.
\<close>

definition proper_rules :: "guided_rule list \<Rightarrow> bool" where
  "proper_rules rules \<longleftrightarrow> rules \<noteq> [] \<and> hd rules = plain_rule ''_S_PRIME_'' [''program'']
     \<and> (\<forall>r \<in> set (tl rules). rule_lhs r \<noteq> ''_S_PRIME_'')
     \<and> (\<forall>r \<in> set rules. set (rule_rhs r) \<inter> {''_S_PRIME_'', ''EOF'', ''EPSILON''} = {})"

lemma proper_start:
  assumes "proper_rules rules"
  shows "rhs_at rules 0 = [''program'']" "lhs_at rules k = ''_S_PRIME_'' \<longleftrightarrow> k = 0"
proof -
  have ne: "rules \<noteq> []" "hd rules = plain_rule ''_S_PRIME_'' [''program'']"
    using assms by (simp_all add: proper_rules_def)
  have zero: "rule_at rules 0 = plain_rule ''_S_PRIME_'' [''program'']"
    using ne by (simp add: rule_at_def hd_conv_nth)
  then show "rhs_at rules 0 = [''program'']" by (simp add: plain_rule_def)
  show "lhs_at rules k = ''_S_PRIME_'' \<longleftrightarrow> k = 0"
  proof (cases k)
    case 0
    with zero show ?thesis by (simp add: plain_rule_def)
  next
    case (Suc j)
    have "rules ! Suc j \<in> set (tl rules)" if "Suc j < length rules"
      using that ne(1) by (cases rules) auto
    with assms Suc show ?thesis by (auto simp: rule_at_def proper_rules_def plain_rule_def)
  qed
qed

lemma proper_rhs:
  assumes "proper_rules rules" and "x \<in> set (rhs_at rules k)"
  shows "x \<noteq> ''_S_PRIME_'' \<and> x \<noteq> ''EOF'' \<and> x \<noteq> ''EPSILON''"
  using assms by (cases "k < length rules") (auto simp: proper_rules_def rule_at_def plain_rule_def)

text \<open>A tree of the grammar: every inner node is a rule, every leaf a terminal.\<close>

fun derivation :: "guided_rule list \<Rightarrow> string list \<Rightarrow> node \<Rightarrow> bool" where
  "derivation rules nts (Leaf s v) \<longleftrightarrow> s \<notin> set nts"
| "derivation rules nts (Raw s cs) \<longleftrightarrow>
     (\<exists>r \<in> set rules. rule_lhs r = s \<and> map Some (rule_rhs r) = map (map_option node_label) cs)
     \<and> (\<forall>c \<in> set cs. case c of None \<Rightarrow> False | Some n \<Rightarrow> derivation rules nts n)"
| "derivation rules nts n \<longleftrightarrow> False"

fun tree_leaves :: "node \<Rightarrow> (string \<times> string) list" where
  "tree_leaves (Leaf s v) = [(s, v)]"
| "tree_leaves (Raw s cs) = concat (map (\<lambda>c. case c of None \<Rightarrow> [] | Some n \<Rightarrow> tree_leaves n) cs)"
| "tree_leaves n = []"

lemma tree_leaves_Raw [simp]: "tree_leaves (Raw s (map Some ns)) = concat (map tree_leaves ns)"
  by (simp add: o_def)

lemma derivation_Raw:
  "derivation rules nts (Raw s (map Some ns)) \<longleftrightarrow>
     (\<exists>r \<in> set rules. rule_lhs r = s \<and> rule_rhs r = map node_label ns) \<and> (\<forall>n \<in> set ns. derivation rules nts n)"
proof -
  have "map Some xs = map (map_option node_label) (map Some ns) \<longleftrightarrow> xs = map node_label ns" for xs
  proof (induction xs arbitrary: ns)
    case Nil
    then show ?case by (cases ns) auto
  next
    case (Cons x xs)
    then show ?case by (cases ns) auto
  qed
  then show ?thesis by (simp only: derivation.simps(2)) (auto split: option.split)
qed

declare tree_leaves.simps(2) [simp del] derivation.simps(2) [simp del]

lemma pop_symbols:
  "''EPSILON'' \<notin> set rhs \<Longrightarrow> length rhs \<le> length ns
   \<Longrightarrow> fold pop_symbol rhs (ss, ns, cs) = (drop (length rhs) ss, drop (length rhs) ns, cs @ take (length rhs) ns)"
proof (induction rhs arbitrary: ss ns cs)
  case (Cons x rhs)
  then obtain n ns' where ns: "ns = n # ns'" by (cases ns) auto
  moreover have "x \<noteq> ''EPSILON''" using Cons.prems(1) by auto
  ultimately show ?case using Cons by (cases ss) (simp_all add: pop_symbol_def)
qed simp

text \<open>What every turn keeps, over the tables \<open>t\<close> of the rules.\<close>

definition consistent :: "guided_rule list \<Rightarrow> string list \<Rightarrow> tables \<Rightarrow> parser_state \<Rightarrow> bool" where
  "consistent rules nts t p \<longleftrightarrow> stack_path rules nts (tb_states t) (ps_states p) (ps_nodes p)
     \<and> (\<forall>n \<in> set (ps_nodes p). derivation rules nts n)"

definition tables_for :: "guided_rule list \<Rightarrow> string list \<Rightarrow> tables \<Rightarrow> bool" where
  "tables_for rules nts t \<longleftrightarrow> proper_rules rules \<and> tables_sound rules nts t
     \<and> (\<forall>j < length (tb_states t). goto_done rules nts t j)"

definition of_tables :: "guided_rule list \<Rightarrow> tables \<Rightarrow> parser_tables" where
  "of_tables rules t = \<lparr>pt_rules = rules, pt_action = tb_action t, pt_goto = tb_goto t\<rparr>"

lemma stack_states: "stack_path rules nts states ss ns \<Longrightarrow> states \<noteq> [] \<Longrightarrow> s \<in> set ss \<Longrightarrow> s < length states"
  by (induction rules nts states ss ns rule: stack_path.induct) (auto simp: leads_def)

lemma start_item_needs_prediction:
  assumes "proper_rules rules" and "k \<noteq> 0" and "(k, 0) \<in> set (states ! s)"
    and "states ! s = start_state rules nts \<or> (\<exists>S x. states ! s = go_to rules nts S x)"
  shows "\<exists>q e. (q, e) \<in> set (states ! s) \<and> e < length (rhs_at rules q)
    \<and> rhs_at rules q ! e = lhs_at rules k \<and> rhs_at rules q ! e \<in> set nts"
  using assms(4)
proof
  assume s: "states ! s = start_state rules nts"
  with closure_origin [of k rules nts "[(0, 0)]"] assms(2,3) show ?thesis
    by (auto simp: start_state_def)
next
  assume "\<exists>S x. states ! s = go_to rules nts S x"
  with go_to_start_item assms(3) show ?thesis by metis
qed

lemma stack_state_origin:
  "stack_path rules nts states ss ns \<Longrightarrow> s \<in> set ss \<Longrightarrow> states ! 0 = start_state rules nts
   \<Longrightarrow> states ! s = start_state rules nts \<or> (\<exists>S x. states ! s = go_to rules nts S x)"
  by (induction rules nts states ss ns rule: stack_path.induct) (auto simp: leads_def)

lemma item_in_range:
  assumes "proper_rules rules" and "(k, d) \<in> set S"
    and "S = start_state rules nts \<or> (\<exists>T y. S = go_to rules nts T y)"
  shows "k < length rules"
  using assms(3)
proof
  assume "S = start_state rules nts"
  with assms(1,2) closure_set(2) [of rules nts "[(0, 0)]"] show ?thesis
    by (auto simp: start_state_def proper_rules_def)
next
  assume "\<exists>T y. S = go_to rules nts T y"
  with assms(2) show ?thesis
    using go_to_items by (fastforce simp: grammar_states_def grammar_items_def)
qed

lemma reduce_turn:
  assumes t: "tables_for rules nts t" and p: "consistent rules nts t p"
    and a: "tb_action t (hd (ps_states p), x) = Some (Reduce k)"
  shows "\<exists>s ss ns cs. ps_nodes p = rev cs @ ns \<and> ps_states p \<noteq> [] \<and> drop (length cs) (ps_states p) = ss
    \<and> ss \<noteq> [] \<and> map node_label cs = rhs_at rules k \<and> k < length rules
    \<and> reduce_rule (of_tables rules t) k p =
        Parse_On (p\<lparr>ps_states := s # ss, ps_nodes := Raw (lhs_at rules k) (map Some cs) # ns\<rparr>)
    \<and> consistent rules nts t (p\<lparr>ps_states := s # ss, ps_nodes := Raw (lhs_at rules k) (map Some cs) # ns\<rparr>)"
proof -
  let ?states = "tb_states t"
  have proper: "proper_rules rules" and sound: "tables_sound rules nts t"
    using t by (simp_all add: tables_for_def)
  have start: "?states ! 0 = start_state rules nts" "?states \<noteq> []"
    using sound by (simp_all add: tables_sound_def)
  have path: "stack_path rules nts ?states (ps_states p) (ps_nodes p)"
    using p by (simp add: consistent_def)
  have e: "entry_sound rules nts ?states (hd (ps_states p)) x (Reduce k)"
    using sound a by (auto simp: tables_sound_def)
  let ?rhs = "rhs_at rules k" let ?d = "length ?rhs"
  have item: "(k, ?d) \<in> set (?states ! hd (ps_states p))" and lhs: "lhs_at rules k \<noteq> ''_S_PRIME_''"
    using e by (simp_all add: entry_sound_def)
  from viable [OF path item start(1)] have
    d: "?d \<le> length (ps_nodes p)" and labels: "map node_label (rev (take ?d (ps_nodes p))) = ?rhs"
    and below: "(k, 0) \<in> set (?states ! (ps_states p ! ?d))" by auto
  let ?ss = "drop ?d (ps_states p)" and ?ns = "drop ?d (ps_nodes p)"
  let ?cs = "rev (take ?d (ps_nodes p))"
  have len: "length (ps_states p) = Suc (length (ps_nodes p))" using stack_path_length [OF path] .
  then have ss: "?ss \<noteq> []" "hd ?ss = ps_states p ! ?d" "hd ?ss \<in> set (ps_states p)"
    using d by (auto simp: hd_drop_conv_nth)
  have k0: "k \<noteq> 0" using lhs proper_start(2) [OF proper] by metis
  have origin: "?states ! s = start_state rules nts \<or> (\<exists>S y. ?states ! s = go_to rules nts S y)"
    if "s \<in> set (ps_states p)" for s
    using stack_state_origin [OF path that start(1)] .
  have k: "k < length rules"
    using below origin [OF ss(3)] ss(2) by (intro item_in_range [OF proper]) auto
  have "(k, 0) \<in> set (?states ! hd ?ss)" using below ss(2) by simp
  from start_item_needs_prediction [OF proper k0 this origin [OF ss(3)]] obtain q e where
    q: "(q, e) \<in> set (?states ! hd ?ss)" "e < length (rhs_at rules q)"
      "rhs_at rules q ! e = lhs_at rules k" "rhs_at rules q ! e \<in> set nts" by blast
  have "hd ?ss < length ?states" using stack_states [OF path start(2) ss(3)] .
  then have "goto_done rules nts t (hd ?ss)" using t by (simp add: tables_for_def)
  with q have "tb_goto t (hd ?ss, lhs_at rules k) \<noteq> None" unfolding goto_done_def by metis
  then obtain s where s: "tb_goto t (hd ?ss, lhs_at rules k) = Some s" by blast
  then have lead: "leads rules nts ?states (hd ?ss) (lhs_at rules k) s"
    using sound by (auto simp: tables_sound_def)
  let ?p = "p\<lparr>ps_states := s # ?ss, ps_nodes := Raw (lhs_at rules k) (map Some ?cs) # ?ns\<rparr>"
  have "''EPSILON'' \<notin> set ?rhs" using proper_rhs [OF proper, of "''EPSILON''" k] by blast
  then have reduce: "reduce_rule (of_tables rules t) k p = Parse_On ?p"
    using d ss(1) s by (simp add: reduce_rule_def pop_symbols of_tables_def Let_def)
  have "stack_path rules nts ?states ?ss ?ns" using stack_path_drop [OF path d] .
  with lead ss(1) have path': "stack_path rules nts ?states (s # ?ss) (Raw (lhs_at rules k) (map Some ?cs) # ?ns)"
    by (cases ?ss) simp_all
  have "rule_at rules k \<in> set rules" using k by (simp add: rule_at_def)
  then have "derivation rules nts (Raw (lhs_at rules k) (map Some ?cs))"
    using p labels by (auto simp: derivation_Raw consistent_def dest: in_set_takeD
        intro!: bexI [of _ "rule_at rules k"])
  with path' p have "consistent rules nts t ?p"
    by (auto simp: consistent_def dest: in_set_dropD)
  moreover have "ps_nodes p = rev ?cs @ ?ns" by simp
  moreover have "length ?cs = ?d" using d by simp
  ultimately show ?thesis using reduce labels k ss(1) len by (metis length_0_conv nat.distinct(1))
qed

text \<open>Only the end of the file is called \<open>EOF\<close>.\<close>

lemma parse_identifier_type:
  "parse_identifier pos line r = (Ok t, r') \<Longrightarrow> starts_identifier (reader_peek r)
   \<Longrightarrow> tok_type t = lookup_keyword (tok_value t) \<or> tok_type t = T_ID"
  by (auto simp: parse_identifier_def elim!: bindE_eq_OkE split: if_splits)

lemma identifier_EOF: "lookup_keyword ''EOF'' = T_ID"
  by (simp add: lookup_keyword_def keyword_map_def)

lemma token_strings_EOF:
  "map_of token_strings ty = Some ''EOF'' \<Longrightarrow> ty = T_EOF_TOKEN" "map_of token_strings T_ID \<noteq> None"
  by (auto simp: token_strings_def split: if_splits)

lemma lexed_EOF:
  assumes "lexer_get r = (Ok t, r')" and "remap_token_type_to_string t = ''EOF''"
  shows "tok_type t = T_EOF_TOKEN"
proof (cases "map_of token_strings (tok_type t)")
  case (Some s)
  with assms(2) token_strings_EOF(1) show ?thesis by (simp add: remap_token_type_to_string_def)
next
  case None
  then have spell: "tok_value t = ''EOF''" using assms(2) by (simp add: remap_token_type_to_string_def)
  show ?thesis
  proof (cases rule: lexer_get_exact [of r])
    case eof
    with assms(1) show ?thesis by auto
  next
    case (token u z)
    let ?r = "consume (skipped (rd_ahead r)) r"
    have u: "u = t" using token assms(1) by simp
    have ahead: "rd_ahead ?r = ''EOF'' @ z" by (subst consume_ahead, subst token(1)) (simp add: u spell)
    have skip: "skip_whitespaces_and_comments r = (Ok (), ?r)"
      using runs_skip by (simp add: runs_def)
    have "lexer_get r = parse_identifier (rd_count ?r) (rd_line_count ?r) ?r"
      using skip ahead
      by (simp add: lexer_get_def bindE_def end_of_file_def reader_peek_def starts_identifier_def
          is_alpha_def)
    moreover have "starts_identifier (reader_peek ?r)"
      using ahead by (simp add: reader_peek_def starts_identifier_def is_alpha_def del: consume_ahead)
    ultimately have "tok_type t = lookup_keyword (tok_value t) \<or> tok_type t = T_ID"
      using assms(1) by (metis parse_identifier_type)
    then have "tok_type t = T_ID" using spell identifier_EOF by auto
    with None token_strings_EOF(2) show ?thesis by metis
  qed
qed

lemma lexer_get_returns: "\<exists>t r'. lexer_get r = (Ok t, r')"
  by (cases rule: lexer_get_exact [of r]) blast+

definition token_pair :: "token \<Rightarrow> string \<times> string" where
  "token_pair t = (remap_token_type_to_string t, tok_value t)"

text \<open>The token in hand and those the lexer has yet to return.\<close>

definition upcoming :: "token \<Rightarrow> reader \<Rightarrow> token list" where
  "upcoming t r = t # (if tok_type t = T_EOF_TOKEN then [] else lex_tokens r)"

lemma lex_tokens_upcoming: "lexer_get r = (Ok t, r') \<Longrightarrow> lex_tokens r = upcoming t r'"
  by (subst lex_tokens.simps) (simp add: upcoming_def)

definition well_parsed :: "guided_rule list \<Rightarrow> string list \<Rightarrow> tables \<Rightarrow> token list \<Rightarrow> parser_state \<Rightarrow> bool" where
  "well_parsed rules nts t ts p \<longleftrightarrow> consistent rules nts t p
     \<and> concat (map tree_leaves (rev (ps_nodes p))) @ map token_pair (upcoming (ps_token p) (ps_reader p))
        = map token_pair ts
     \<and> (remap_token_type_to_string (ps_token p) = ''EOF'' \<longrightarrow> tok_type (ps_token p) = T_EOF_TOKEN)"

lemma shift_turn:
  assumes t: "tables_for rules nts t" and p: "well_parsed rules nts t ts p"
    and a: "tb_action t (hd (ps_states p), remap_token_type_to_string (ps_token p)) = Some (Shift s)"
  shows "\<exists>p'. shift_token s p = Parse_On p' \<and> well_parsed rules nts t ts p'
    \<and> length (upcoming (ps_token p') (ps_reader p')) < length (upcoming (ps_token p) (ps_reader p))"
proof -
  let ?x = "remap_token_type_to_string (ps_token p)"
  have path: "stack_path rules nts (tb_states t) (ps_states p) (ps_nodes p)"
    using p by (simp add: well_parsed_def consistent_def)
  have "entry_sound rules nts (tb_states t) (hd (ps_states p)) ?x (Shift s)"
    using t a by (auto simp: tables_for_def tables_sound_def)
  then have x: "?x \<notin> set nts" and lead: "leads rules nts (tb_states t) (hd (ps_states p)) ?x s"
    by (simp_all add: entry_sound_def)
  then have "\<exists>r \<in> set rules. ?x \<in> set (rule_rhs r)" using go_to_symbol by (auto simp: leads_def)
  then have "?x \<noteq> ''EOF''" using t by (auto simp: tables_for_def proper_rules_def)
  then have eof: "tok_type (ps_token p) \<noteq> T_EOF_TOKEN"
    by (auto simp: remap_token_type_to_string_def token_strings_def)
  obtain u r where get: "lexer_get (ps_reader p) = (Ok u, r)" using lexer_get_returns by blast
  let ?p = "p\<lparr>ps_states := s # ps_states p, ps_nodes := Leaf ?x (tok_value (ps_token p)) # ps_nodes p,
    ps_token := u, ps_reader := r\<rparr>"
  have "shift_token s p = Parse_On ?p" using get by (simp add: shift_token_def)
  moreover have upcoming: "upcoming (ps_token p) (ps_reader p) = ps_token p # upcoming u r"
    using eof lex_tokens_upcoming [OF get] by (simp add: upcoming_def)
  with p path lead x lexed_EOF [OF get] have "well_parsed rules nts t ts ?p"
    by (cases "ps_states p") (auto simp: well_parsed_def consistent_def token_pair_def)
  moreover have "length (upcoming (ps_token ?p) (ps_reader ?p)) < length (upcoming (ps_token p) (ps_reader p))"
    using upcoming by simp
  ultimately show ?thesis by blast
qed

lemma accept_turn:
  assumes t: "tables_for rules nts t" and p: "well_parsed rules nts t ts p"
    and a: "tb_action t (hd (ps_states p), remap_token_type_to_string (ps_token p)) = Some Accept"
  shows "\<exists>n. ps_nodes p = [n] \<and> derivation rules nts n \<and> node_label n = ''program''
    \<and> map token_pair ts = tree_leaves n @ [token_pair (ps_token p)] \<and> tok_type (ps_token p) = T_EOF_TOKEN"
proof -
  let ?states = "tb_states t"
  have proper: "proper_rules rules" and sound: "tables_sound rules nts t"
    using t by (simp_all add: tables_for_def)
  have start: "?states ! 0 = start_state rules nts"
    using sound by (simp add: tables_sound_def)
  have path: "stack_path rules nts ?states (ps_states p) (ps_nodes p)"
    using p by (simp add: well_parsed_def consistent_def)
  have "entry_sound rules nts ?states (hd (ps_states p)) (remap_token_type_to_string (ps_token p)) Accept"
    using sound a by (auto simp: tables_sound_def)
  then obtain r where eof: "remap_token_type_to_string (ps_token p) = ''EOF''"
    and r: "(r, length (rhs_at rules r)) \<in> set (?states ! hd (ps_states p))" "lhs_at rules r = ''_S_PRIME_''"
    by (auto simp: entry_sound_def)
  have "r = 0" using r(2) proper_start(2) [OF proper] by blast
  then have item: "(0, 1) \<in> set (?states ! hd (ps_states p))"
    using r(1) proper_start(1) [OF proper] by simp
  from viable [OF path item start] proper_start(1) [OF proper] have
    one: "1 \<le> length (ps_nodes p)" "map node_label (rev (take 1 (ps_nodes p))) = [''program'']"
      "(0, 0) \<in> set (?states ! (ps_states p ! 1))" by auto
  then obtain n ns where n: "ps_nodes p = n # ns" "node_label n = ''program''"
    by (cases "ps_nodes p") auto
  obtain s s' ss where ss: "ps_states p = s # s' # ss"
    using stack_path_length [OF path] n by (metis Suc_length_conv length_Cons)
  have "ns = []"
  proof (rule ccontr)
    assume "ns \<noteq> []"
    then obtain m ms where m: "ns = m # ms" by (cases ns) auto
    have "stack_path rules nts ?states (s' # ss) ns" using path n ss by simp
    with m obtain s'' where "leads rules nts ?states s'' (node_label m) s'"
      by (cases ss) auto
    then have "(0, 0) \<in> set (go_to rules nts (?states ! s'') (node_label m))"
      using one(3) ss by (simp add: leads_def)
    from go_to_start_item [OF this] obtain q e where "e < length (rhs_at rules q)"
      "rhs_at rules q ! e = lhs_at rules 0" by blast
    then have "''_S_PRIME_'' \<in> set (rhs_at rules q)"
      using proper_start(2) [OF proper, of 0] by (metis nth_mem)
    with proper_rhs [OF proper] show False by blast
  qed
  moreover have "tok_type (ps_token p) = T_EOF_TOKEN" using p eof by (simp add: well_parsed_def)
  ultimately show ?thesis
    using p n by (auto simp: well_parsed_def consistent_def upcoming_def)
qed

section \<open>The whole parser\<close>

lemma parse_loop_invariant:
  assumes step: "\<And>p p'. I p \<Longrightarrow> parse_turn tables p = Parse_On p' \<Longrightarrow> I p'"
    and stop: "\<And>p e. I p \<Longrightarrow> parse_turn tables p = Parse_End e \<Longrightarrow> Q e"
    and run: "parse_loop tables p = Some e" and start: "I p"
  shows "Q e"
proof -
  have "tables' = tables \<longrightarrow> I p \<longrightarrow> Q e" if "parse_loop tables' p = Some e" for tables' p e
    using that
  proof (rule parse_loop.raw_induct [rotated])
    fix loop tables' p e
    assume IH: "\<And>t p e. loop t p = Some e \<Longrightarrow> t = tables \<longrightarrow> I p \<longrightarrow> Q e"
      and turn: "(case parse_turn tables' p of Parse_On p' \<Rightarrow> loop tables' p' | Parse_End e \<Rightarrow> Some e) = Some e"
    show "tables' = tables \<longrightarrow> I p \<longrightarrow> Q e"
      using turn IH step stop by (auto split: parse_turn.splits)
  qed
  with run start show ?thesis by blast
qed

lemma token_pair_eof: "tok_type t = T_EOF_TOKEN \<Longrightarrow> token_pair t = (''EOF'', tok_value t)"
  by (simp add: token_pair_def remap_token_type_to_string_def token_strings_def)

definition turn_result :: "guided_rule list \<Rightarrow> string list \<Rightarrow> tables \<Rightarrow> token list \<Rightarrow> parse_turn \<Rightarrow> bool" where
  "turn_result rules nts t ts r = (case r of
       Parse_On p \<Rightarrow> well_parsed rules nts t ts p
     | Parse_End Parse_Rejected \<Rightarrow> True
     | Parse_End (Parse_Accepted (Some n)) \<Rightarrow> derivation rules nts n \<and> node_label n = ''program''
         \<and> map fst (tree_leaves n) @ [''EOF''] = map (fst \<circ> token_pair) ts
         \<and> tree_leaves n = map token_pair (butlast ts)
     | Parse_End _ \<Rightarrow> False)"

lemma turn_sound:
  assumes t: "tables_for rules nts t" and p: "well_parsed rules nts t ts p"
  shows "turn_result rules nts t ts (parse_turn (of_tables rules t) p)"
proof -
  let ?a = "tb_action t (hd (ps_states p), remap_token_type_to_string (ps_token p))"
  have cons: "consistent rules nts t p" using p by (simp add: well_parsed_def)
  then have ne: "ps_states p \<noteq> []"
    using stack_path_length by (fastforce simp: consistent_def)
  consider (none) "?a = None" | (shift) s where "?a = Some (Shift s)" | (reduce) k where "?a = Some (Reduce k)"
    | (accept) "?a = Some Accept"
    by (metis action.exhaust not_Some_eq)
  then show ?thesis
  proof cases
    case none
    with ne show ?thesis by (simp add: parse_turn_def of_tables_def turn_result_def)
  next
    case shift
    with shift_turn [OF t p] ne show ?thesis
      by (fastforce simp: parse_turn_def of_tables_def turn_result_def)
  next
    case reduce
    from reduce_turn [OF t cons reduce] obtain s ss ns cs where
      r: "ps_nodes p = rev cs @ ns" "reduce_rule (of_tables rules t) k p =
        Parse_On (p\<lparr>ps_states := s # ss, ps_nodes := Raw (lhs_at rules k) (map Some cs) # ns\<rparr>)"
      "consistent rules nts t (p\<lparr>ps_states := s # ss, ps_nodes := Raw (lhs_at rules k) (map Some cs) # ns\<rparr>)"
      by blast
    with p have "well_parsed rules nts t ts
        (p\<lparr>ps_states := s # ss, ps_nodes := Raw (lhs_at rules k) (map Some cs) # ns\<rparr>)"
      by (simp add: well_parsed_def)
    with r(2) reduce ne show ?thesis
      by (simp add: parse_turn_def of_tables_def turn_result_def)
  next
    case accept
    from accept_turn [OF t p accept] obtain n where n: "ps_nodes p = [n]" "derivation rules nts n"
      "node_label n = ''program''" "map token_pair ts = tree_leaves n @ [token_pair (ps_token p)]"
      "tok_type (ps_token p) = T_EOF_TOKEN" by blast
    have "tree_leaves n = map token_pair (butlast ts)"
      using n(4) by (metis butlast_snoc map_butlast)
    moreover have "map fst (tree_leaves n) @ [''EOF''] = map (fst \<circ> token_pair) ts"
      using arg_cong [OF n(4), of "map fst"] token_pair_eof [OF n(5)] by simp
    ultimately show ?thesis
      using n accept ne by (simp add: parse_turn_def of_tables_def turn_result_def)
  qed
qed

definition proper_grammar :: "string \<Rightarrow> bool" where
  "proper_grammar g \<longleftrightarrow> proper_rules (rb_rules (read_grammar g))"

lemma parser_tables_for:
  assumes "proper_grammar g"
  defines "b \<equiv> read_grammar g"
  shows "\<exists>t. tables_for (rb_rules b) (rb_non_terms b) t \<and> build_parser_tables g = of_tables (rb_rules b) t"
  using assms build_tables_ok [where rules = "rb_rules b" and nts = "rb_non_terms b" and follows = "get_follows b"]
  by (intro exI [of _ "build_tables (rb_rules b) (rb_non_terms b) (get_follows b)"])
    (auto simp: tables_for_def proper_grammar_def build_parser_tables_def of_tables_def Let_def)

lemma parse_source_result:
  assumes g: "proper_grammar g" and run: "parse_source (build_parser_tables g) code = Some e"
  shows "turn_result (rb_rules (read_grammar g)) (rb_non_terms (read_grammar g)) t
    (lex_tokens (new_reader code)) (Parse_End e)"
proof -
  let ?rules = "rb_rules (read_grammar g)" and ?nts = "rb_non_terms (read_grammar g)"
  obtain t where t: "tables_for ?rules ?nts t" "build_parser_tables g = of_tables ?rules t"
    using parser_tables_for [OF g] by blast
  obtain u r where get: "lexer_get (new_reader code) = (Ok u, r)" using lexer_get_returns by blast
  let ?p = "\<lparr>ps_states = [0], ps_nodes = [], ps_token = u, ps_reader = r\<rparr>"
  have start: "well_parsed ?rules ?nts t (lex_tokens (new_reader code)) ?p"
    using lexed_EOF [OF get] lex_tokens_upcoming [OF get]
    by (simp add: well_parsed_def consistent_def)
  have "parse_loop (of_tables ?rules t) ?p = Some e"
    using run get t(2) by (simp add: parse_source_def)
  then have "turn_result ?rules ?nts t (lex_tokens (new_reader code)) (Parse_End e)"
  proof (rule parse_loop_invariant [where I = "well_parsed ?rules ?nts t (lex_tokens (new_reader code))",
        rotated 2])
    show "well_parsed ?rules ?nts t (lex_tokens (new_reader code)) ?p" by (rule start)
  next
    fix p p' assume "well_parsed ?rules ?nts t (lex_tokens (new_reader code)) p"
      "parse_turn (of_tables ?rules t) p = Parse_On p'"
    with turn_sound [OF t(1)] show "well_parsed ?rules ?nts t (lex_tokens (new_reader code)) p'"
      by (fastforce simp: turn_result_def)
  next
    fix p e assume "well_parsed ?rules ?nts t (lex_tokens (new_reader code)) p"
      "parse_turn (of_tables ?rules t) p = Parse_End e"
    with turn_sound [OF t(1)] show "turn_result ?rules ?nts t (lex_tokens (new_reader code)) (Parse_End e)"
      by metis
  qed
  then show ?thesis by (simp add: turn_result_def)
qed

text \<open>C7: What the parser accepts is a sentence of the grammar: the tree it hands on is a derivation from
  \<open>program\<close>, every inner node a rule of the grammar and every leaf a terminal, whose leaves are, in
  order, all the tokens of the source text.\<close>
theorem accepted_source_is_derived:
  assumes "proper_grammar g" and "parse_source (build_parser_tables g) code = Some (Parse_Accepted tree)"
  shows "\<exists>n. tree = Some n \<and> node_label n = ''program''
    \<and> derivation (rb_rules (read_grammar g)) (rb_non_terms (read_grammar g)) n
    \<and> tree_leaves n = map token_pair (butlast (lex_tokens (new_reader code)))"
  using parse_source_result [OF assms] by (auto simp: turn_result_def split: option.splits)


end
