(* ===== verification/ParserReturns.thy ===== *)
theory ParserReturns
  imports ParserProps
begin

text \<open>
  The parser returns. Shifts use up tokens; between two shifts every reduction makes the stack of
  labels grow in the lexicographic order of ranks, and the stack stays short because labels that
  derive nothing cannot follow each other for long. Both need that the grammar is not left-recursive.
\<close>

section \<open>Left recursion\<close>

inductive nullable :: "guided_rule list \<Rightarrow> string \<Rightarrow> bool" for rules where
  "r \<in> set rules \<Longrightarrow> \<forall>x \<in> set (rule_rhs r). nullable rules x \<Longrightarrow> nullable rules (rule_lhs r)"

text \<open>
  \<open>rank\<close> shows that no symbol can begin with itself: a symbol of a right-hand side that only nullable
  symbols precede ranks below the left-hand side.
\<close>

definition left_ranked :: "guided_rule list \<Rightarrow> (string \<Rightarrow> nat) \<Rightarrow> bool" where
  "left_ranked rules rank \<longleftrightarrow> (\<forall>r \<in> set rules. \<forall>i < length (rule_rhs r).
     (\<forall>j < i. nullable rules (rule_rhs r ! j)) \<longrightarrow> rank (rule_rhs r ! i) < rank (rule_lhs r))"

lemma left_rankedD:
  assumes "left_ranked rules rank" and "i < length (rhs_at rules k)"
    and "\<forall>j < i. nullable rules (rhs_at rules k ! j)"
  shows "rank (rhs_at rules k ! i) < rank (lhs_at rules k)"
proof -
  have "k < length rules"
    using assms(2) by (auto simp: rule_at_def plain_rule_def split: if_splits)
  then have "rule_at rules k \<in> set rules" by (simp add: rule_at_def)
  with assms show ?thesis by (auto simp: left_ranked_def)
qed

text \<open>Both conditions can be computed once a set of symbols closed under the rules is given.\<close>

lemma nullable_closed:
  "nullable rules x \<Longrightarrow> \<forall>r \<in> set rules. list_all N (rule_rhs r) \<longrightarrow> N (rule_lhs r) \<Longrightarrow> N x"
  by (induction rule: nullable.induct) (auto simp: list_all_iff)

fun leading :: "(string \<Rightarrow> bool) \<Rightarrow> string list \<Rightarrow> string list" where
  "leading N [] = []"
| "leading N (x # xs) = x # (if N x then leading N xs else [])"

lemma nth_leading: "i < length xs \<Longrightarrow> \<forall>j < i. N (xs ! j) \<Longrightarrow> xs ! i \<in> set (leading N xs)"
proof (induction xs arbitrary: i)
  case (Cons x xs)
  show ?case
  proof (cases i)
    case (Suc k)
    from Cons.prems(2) Suc have "N x" "\<forall>j < k. N (xs ! j)" by (metis nth_Cons_0 zero_less_Suc, auto)
    with Cons Suc show ?thesis by simp
  qed simp
qed simp

lemma left_rankedI:
  assumes "\<forall>r \<in> set rules. list_all N (rule_rhs r) \<longrightarrow> N (rule_lhs r)"
    and "\<forall>r \<in> set rules. \<forall>x \<in> set (leading N (rule_rhs r)). rank x < rank (rule_lhs r)"
  shows "left_ranked rules rank"
  using assms nullable_closed [OF _ assms(1)] nth_leading unfolding left_ranked_def by metis

lemma nullable_tree:
  "derivation rules nts n \<Longrightarrow> tree_leaves n = [] \<Longrightarrow> nullable rules (node_label n)"
proof (induction rules nts n rule: derivation.induct)
  case (2 rules nts s cs)
  then obtain r where r: "r \<in> set rules" "rule_lhs r = s"
    "map Some (rule_rhs r) = map (map_option node_label) cs"
    and cs: "\<forall>c \<in> set cs. case c of None \<Rightarrow> False | Some n \<Rightarrow> derivation rules nts n"
    by (auto simp: derivation.simps(2))
  have "nullable rules x" if "x \<in> set (rule_rhs r)" for x
  proof -
    have "Some x \<in> set (map (map_option node_label) cs)" using that by (simp flip: r(3))
    then obtain c where c: "c \<in> set cs" "Some x = map_option node_label c"
      unfolding set_map by (elim imageE)
    from c(2) obtain n where "c = Some n" "node_label n = x" by (cases c) auto
    with c have n: "Some n \<in> set cs" "node_label n = x" by simp_all
    then have "derivation rules nts n" using cs by fastforce
    moreover have "tree_leaves n = []" using 2(3) n(1) by (force simp: tree_leaves.simps(2))
    ultimately show ?thesis using 2(1) [OF n(1)] n by auto
  qed
  then show ?case using r nullable.intros [of r rules] by auto
qed auto

section \<open>The height of the stack\<close>

definition rank_bound :: "guided_rule list \<Rightarrow> (string \<Rightarrow> nat) \<Rightarrow> nat" where
  "rank_bound rules rank = Max (insert 0 (rank ` rule_lhs ` set rules))"

definition rhs_bound :: "guided_rule list \<Rightarrow> nat" where
  "rhs_bound rules = Max (insert 1 ((\<lambda>r. length (rule_rhs r)) ` set rules))"

lemma rank_bound: "k < length rules \<Longrightarrow> rank (lhs_at rules k) \<le> rank_bound rules rank"
  by (auto simp: rank_bound_def rule_at_def intro!: Max_ge)

lemma rhs_bound: "length (rhs_at rules k) \<le> rhs_bound rules"
  by (cases "k < length rules") (auto simp: rhs_bound_def rule_at_def plain_rule_def intro!: Max_ge)

lemma closure_rank:
  assumes rank: "left_ranked rules rank" and k: "(k, 0) \<in> set (closure rules nts S)"
  shows "\<exists>q e. (q, e) \<in> set S \<and> ((q, e) = (k, 0) \<or>
    e < length (rhs_at rules q) \<and> rank (lhs_at rules k) \<le> rank (rhs_at rules q ! e))"
proof -
  let ?from = "\<lambda>k. \<exists>q e. (q, e) \<in> set S \<and> ((q, e) = (k, 0) \<or>
    e < length (rhs_at rules q) \<and> rank (lhs_at rules k) \<le> rank (rhs_at rules q ! e))"
  let ?P = "\<lambda>T. set T \<subseteq> set S \<union> {0..<length rules} \<times> {0} \<and> (\<forall>k. (k, 0) \<in> set T \<longrightarrow> ?from k)"
  have "?P (closure rules nts S)"
  proof (rule closure_induct [where P = ?P])
    show "?P S" by blast
    fix T assume T: "?P T"
    have "?from k" if "(k, 0) \<in> set (closure_pass rules nts T)" for k
    proof -
      from that consider "(k, 0) \<in> set T" | q e where "(q, e) \<in> set T" "(k, 0) \<in> set (predicted rules nts (q, e))"
        by (auto simp: closure_pass_def set_insort_all)
      then show ?thesis
      proof cases
        case 1
        with T show ?thesis by blast
      next
        case 2
        then have e: "e < length (rhs_at rules q)" "rhs_at rules q ! e = lhs_at rules k"
          by (auto simp: predicted_def split: if_splits)
        show ?thesis
        proof (cases "(q, e) \<in> set S")
          case True
          with e show ?thesis by (intro exI [of _ q] exI [of _ e]) simp
        next
          case False
          then have e0: "e = 0" using T 2(1) by auto
          then obtain q' e' where q': "(q', e') \<in> set S" "(q', e') = (q, 0) \<or>
              e' < length (rhs_at rules q') \<and> rank (lhs_at rules q) \<le> rank (rhs_at rules q' ! e')"
            using T 2(1) by blast
          have "rank (lhs_at rules k) < rank (lhs_at rules q)"
            using left_rankedD [OF rank, of 0 q] e e0 by simp
          with q' e e0 show ?thesis using False by (intro exI [of _ q'] exI [of _ e']) auto
        qed
      qed
    qed
    with T closure_pass_bounds(2) [of rules nts T] show "?P (closure_pass rules nts T)" by blast
  qed
  with k show ?thesis by blast
qed

text \<open>A transition keeps an item whose dot has moved.\<close>

lemma go_to_kernel:
  assumes "go_to rules nts S x \<noteq> []"
  shows "\<exists>q e. (q, Suc e) \<in> set (go_to rules nts S x)"
proof -
  let ?K = "sort_insert_all (map (\<lambda>(r, d). (r, Suc d))
    (filter (\<lambda>(r, d). d < length (rhs_at rules r) \<and> rhs_at rules r ! d = x) S))"
  have "?K \<noteq> []" using assms by (auto simp: go_to_def closure_Nil)
  then obtain i where i: "i \<in> set ?K" by (meson list.set_sel(1))
  then have "\<exists>q e. i = (q, Suc e)" by auto
  with i obtain q e where "(q, Suc e) \<in> set ?K" by blast
  then have "(q, Suc e) \<in> set (go_to rules nts S x)"
    using closure_set(1) unfolding go_to_def by blast
  then show ?thesis by blast
qed

lemma go_to_rank:
  assumes "left_ranked rules rank" and "(k, 0) \<in> set (go_to rules nts S x)"
  shows "\<exists>q e. (q, Suc e) \<in> set (go_to rules nts S x) \<and> Suc e < length (rhs_at rules q)
    \<and> rank (lhs_at rules k) \<le> rank (rhs_at rules q ! Suc e)"
proof -
  let ?K = "sort_insert_all (map (\<lambda>(r, d). (r, Suc d))
    (filter (\<lambda>(r, d). d < length (rhs_at rules r) \<and> rhs_at rules r ! d = x) S))"
  obtain q e where q: "(q, e) \<in> set ?K" "(q, e) = (k, 0) \<or>
      e < length (rhs_at rules q) \<and> rank (lhs_at rules k) \<le> rank (rhs_at rules q ! e)"
    using closure_rank [OF assms(1) assms(2) [unfolded go_to_def]] by blast
  then obtain e' where e: "e = Suc e'" by auto
  have "(q, Suc e') \<in> set (go_to rules nts S x)"
    using q(1) e closure_set(1) unfolding go_to_def by blast
  with q(2) e show ?thesis by auto
qed

text \<open>
  A run of \<open>m\<close> labels on top of the stack that derive nothing: the items of the states below it rank
  higher and higher, so the run is short.
\<close>

lemma null_run:
  assumes rank: "left_ranked rules rank"
    and path: "stack_path rules nts states ss ns" and start: "states ! 0 = start_state rules nts"
    and item: "(r, Suc d) \<in> set (states ! hd ss)" and m: "m \<le> length ns"
    and null: "\<forall>n \<in> set (take m ns). nullable rules (node_label n)"
  shows "m + rank (lhs_at rules r) * rhs_bound rules
    \<le> (rank_bound rules rank + 2) * rhs_bound rules"
  using path item m null
proof (induction m arbitrary: ss ns r d rule: less_induct)
  case (less m)
  let ?W = "rhs_bound rules" and ?B = "rank_bound rules rank"
  note v = viable [OF less.prems(1,2) start]
  have d: "Suc d \<le> ?W" using v rhs_bound [of rules r] by auto
  have "r < length rules" using v by (auto simp: rule_at_def plain_rule_def split: if_splits)
  then have B: "rank (lhs_at rules r) * ?W \<le> ?B * ?W"
    by (intro mult_le_mono1 rank_bound)
  show ?case
  proof (cases "m \<le> Suc d")
    case True
    then have "m \<le> ?W" using d by simp
    with B show ?thesis unfolding add_mult_distrib by linarith
  next
    case False
    let ?ss = "drop (Suc d) ss" and ?ns = "drop (Suc d) ns"
    have len: "Suc d < length ns" using False less.prems(3) by simp
    have path: "stack_path rules nts states ?ss ?ns"
      using stack_path_drop [OF less.prems(1)] len by simp
    have hd: "hd ?ss = ss ! Suc d"
      using stack_path_length [OF less.prems(1)] len by (simp add: hd_drop_conv_nth)
    obtain n ms where n: "?ns = n # ms" using len by (metis Cons_nth_drop_Suc)
    with path obtain s where "leads rules nts states s (node_label n) (hd ?ss)"
      by (cases "(rules, nts, states, ?ss, ?ns)" rule: stack_path.cases) auto
    then have state: "states ! hd ?ss = go_to rules nts (states ! s) (node_label n)"
      by (simp add: leads_def)
    have "(r, 0) \<in> set (states ! hd ?ss)" using v hd by simp
    from go_to_rank [OF rank this [unfolded state]] obtain q e where
      q: "(q, Suc e) \<in> set (states ! hd ?ss)" "Suc e < length (rhs_at rules q)"
        "rank (lhs_at rules r) \<le> rank (rhs_at rules q ! Suc e)"
      unfolding state by blast
    let ?m = "m - Suc d"
    have null: "\<forall>n \<in> set (take ?m ?ns). nullable rules (node_label n)"
      using less.prems(4) False by (auto dest!: in_set_dropD simp: take_drop)
    show ?thesis
    proof (cases "Suc e \<le> ?m")
      case True
      have "nullable rules (rhs_at rules q ! j)" if "j < Suc e" for j
      proof -
        have "rhs_at rules q ! j \<in> set (take (Suc e) (rhs_at rules q))"
          using that q(2) by (force simp: in_set_conv_nth)
        also have "take (Suc e) (rhs_at rules q) = map node_label (rev (take (Suc e) ?ns))"
          using viable [OF path q(1) start] by simp
        finally show ?thesis using null True by (auto dest: set_take_subset_set_take [THEN subsetD])
      qed
      then have "rank (lhs_at rules r) < rank (lhs_at rules q)"
        using left_rankedD [OF rank q(2)] q(3) by auto
      then have "(rank (lhs_at rules r) + 1) * ?W \<le> rank (lhs_at rules q) * ?W"
        by (intro mult_le_mono1) simp
      moreover have "?m + rank (lhs_at rules q) * ?W \<le> (?B + 2) * ?W"
        using less.IH [OF _ path q(1) _ null] False len less.prems(3) by simp
      ultimately show ?thesis using d False unfolding add_mult_distrib by linarith
    next
      case False
      then have "?m \<le> ?W" using q(2) rhs_bound [of rules q] by simp
      with B d show ?thesis unfolding add_mult_distrib by linarith
    qed
  qed
qed

lemma null_run_bound:
  assumes rank: "left_ranked rules rank"
    and path: "stack_path rules nts states ss ns" and start: "states ! 0 = start_state rules nts"
    and null: "\<forall>n \<in> set (take m ns). nullable rules (node_label n)" and m: "m \<le> length ns"
  shows "m \<le> (rank_bound rules rank + 2) * rhs_bound rules"
proof (cases ns)
  case Nil
  with m show ?thesis by simp
next
  case (Cons n ns')
  with path obtain s where lead: "leads rules nts states s (node_label n) (hd ss)"
    by (cases "(rules, nts, states, ss, ns)" rule: stack_path.cases) auto
  then have "states ! hd ss = go_to rules nts (states ! s) (node_label n)" by (simp add: leads_def)
  moreover have "states ! hd ss \<noteq> []" using lead unfolding leads_def by blast
  ultimately obtain q e where "(q, Suc e) \<in> set (states ! hd ss)" using go_to_kernel by metis
  from null_run [OF rank path start this m null] show ?thesis by simp
qed

lemma long_list:
  assumes run: "\<And>d m. m + d \<le> length xs \<Longrightarrow> \<forall>x \<in> set (take m (drop d xs)). P x \<Longrightarrow> m \<le> R"
    and many: "length (filter (\<lambda>x. \<not> P x) xs) \<le> N"
  shows "length xs \<le> R + N * Suc R"
  using assms
proof (induction "length xs" arbitrary: xs N rule: less_induct)
  case less
  obtain w y where xs: "xs = w @ y" "\<forall>x \<in> set w. P x" "y = [] \<or> \<not> P (hd y)"
    using split_while .
  have w: "length w \<le> R" using less.prems(1) [of "length w" 0] xs by simp
  show ?case
  proof (cases y)
    case Nil
    with xs w show ?thesis by simp
  next
    case (Cons z zs)
    have "m \<le> R" if "m + d \<le> length zs" "\<forall>x \<in> set (take m (drop d zs)). P x" for d m
      using that less.prems(1) [of m "d + Suc (length w)"] xs(1) Cons by simp
    moreover have "filter (\<lambda>x. \<not> P x) xs = z # filter (\<lambda>x. \<not> P x) zs"
      using xs Cons by simp
    with less.prems(2) have N: "length (filter (\<lambda>x. \<not> P x) zs) \<le> N - 1" "N > 0" by auto
    moreover have "length zs < length xs" using xs(1) Cons by simp
    ultimately have "length zs \<le> R + (N - 1) * Suc R" using less.hyps [of zs "N - 1"] by blast
    then show ?thesis using w xs(1) Cons N(2) by (cases N) simp_all
  qed
qed

lemma leaves_count:
  "length (filter (\<lambda>n. tree_leaves n \<noteq> []) ns) \<le> length (concat (map tree_leaves ns))"
proof (induction ns)
  case (Cons n ns)
  then show ?case by (cases "tree_leaves n") simp_all
qed simp

definition stack_bound :: "guided_rule list \<Rightarrow> (string \<Rightarrow> nat) \<Rightarrow> nat \<Rightarrow> nat" where
  "stack_bound rules rank N =
     (let R = (rank_bound rules rank + 2) * rhs_bound rules in R + N * Suc R)"

lemma stack_height:
  assumes rank: "left_ranked rules rank" and t: "tables_for rules nts t"
    and p: "well_parsed rules nts t ts p"
  shows "length (ps_nodes p) \<le> stack_bound rules rank (length ts)"
proof -
  let ?ns = "ps_nodes p" and ?null = "\<lambda>n. tree_leaves n = []"
  have path: "stack_path rules nts (tb_states t) (ps_states p) ?ns"
    and trees: "\<forall>n \<in> set ?ns. derivation rules nts n"
    using p by (simp_all add: well_parsed_def consistent_def)
  have start: "tb_states t ! 0 = start_state rules nts"
    using t by (simp add: tables_for_def tables_sound_def)
  have "m \<le> (rank_bound rules rank + 2) * rhs_bound rules"
    if m: "m + d \<le> length ?ns" and null: "\<forall>n \<in> set (take m (drop d ?ns)). ?null n" for d m
  proof (rule null_run_bound [OF rank stack_path_drop [OF path] start])
    show "d \<le> length ?ns" "m \<le> length (drop d ?ns)" using m by auto
    show "\<forall>n \<in> set (take m (drop d ?ns)). nullable rules (node_label n)"
    proof
      fix n assume n: "n \<in> set (take m (drop d ?ns))"
      then have "n \<in> set ?ns" by (meson in_set_dropD in_set_takeD)
      with trees null n nullable_tree show "nullable rules (node_label n)" by blast
    qed
  qed
  moreover have "length (filter (\<lambda>n. \<not> ?null n) ?ns) \<le> length ts"
  proof -
    have "concat (map tree_leaves (rev ?ns)) @ map token_pair (upcoming (ps_token p) (ps_reader p))
        = map token_pair ts"
      using p by (simp add: well_parsed_def)
    then have "length (concat (map tree_leaves (rev ?ns))) \<le> length ts"
      by (metis le_add1 length_append length_map)
    then have "length (concat (map tree_leaves ?ns)) \<le> length ts"
      by (simp add: length_concat sum_list_rev flip: rev_map)
    with leaves_count [of ?ns] show ?thesis by simp
  qed
  ultimately show ?thesis unfolding stack_bound_def Let_def by (rule long_list)
qed

section \<open>The end of the loop\<close>

text \<open>
  The stack from the bottom as digits of a fixed number of places: a label counts the less the higher it
  ranks, and an empty place most of all.
\<close>

definition places :: "(string \<Rightarrow> nat) \<Rightarrow> nat \<Rightarrow> nat \<Rightarrow> node list \<Rightarrow> nat list" where
  "places rank B L ns = map (\<lambda>n. B - rank (node_label n)) (rev ns) @ replicate (L - length ns) (Suc B)"

lemma length_places: "length ns \<le> L \<Longrightarrow> length (places rank B L ns) = L"
  by (simp add: places_def)

lemma places_decrease:
  assumes "length (n # ns) \<le> L" and "length (cs @ ns) \<le> L" and "rank (node_label n) \<le> B"
    and "cs \<noteq> [] \<Longrightarrow> rank (node_label (last cs)) < rank (node_label n)"
  shows "(places rank B L (n # ns), places rank B L (cs @ ns)) \<in> lexn less_than L"
proof -
  let ?d = "\<lambda>n. B - rank (node_label n)"
  let ?new = "replicate (L - Suc (length ns)) (Suc B)"
  obtain y ys where old: "places rank B L (cs @ ns) = map ?d (rev ns) @ y # ys" and y: "?d n < y"
  proof (cases cs rule: rev_cases)
    case Nil
    have "L - length ns = Suc (L - Suc (length ns))" using assms(1) by simp
    then have "places rank B L (cs @ ns) = map ?d (rev ns) @ Suc B # ?new"
      using Nil by (simp add: places_def)
    then show thesis by (rule that) simp
  next
    case (snoc cs' c)
    then have "places rank B L (cs @ ns) = map ?d (rev ns) @ ?d c
        # (map ?d (rev cs') @ replicate (L - length (cs @ ns)) (Suc B))"
      by (simp add: places_def)
    then show thesis by (rule that) (use snoc assms(3,4) in auto)
  qed
  have new: "places rank B L (n # ns) = map ?d (rev ns) @ ?d n # ?new" by (simp add: places_def)
  have "length (places rank B L (n # ns)) = L" "length (places rank B L (cs @ ns)) = L"
    using assms(1,2) by (simp_all add: length_places)
  with old new y show ?thesis unfolding lexn_conv by (auto intro!: exI [of _ "map ?d (rev ns)"])
qed

definition turn_order :: "nat \<Rightarrow> (string \<Rightarrow> nat) \<Rightarrow> nat \<Rightarrow> (parser_state \<times> parser_state) set" where
  "turn_order L rank B = inv_image (less_than <*lex*> lexn less_than L)
     (\<lambda>p. (length (upcoming (ps_token p) (ps_reader p)), places rank B L (ps_nodes p)))"

lemma wf_turn_order: "wf (turn_order L rank B)"
  unfolding turn_order_def by (intro wf_inv_image wf_lex_prod wf_lexn wf_less_than)

lemma parse_loop_returns:
  assumes rank: "left_ranked rules rank" and t: "tables_for rules nts t"
    and p: "well_parsed rules nts t ts p"
  shows "\<exists>e. parse_loop (of_tables rules t) p = Some e"
  using p
proof (induction p rule: wf_induct_rule [OF wf_turn_order [of "stack_bound rules rank (length ts)" rank
      "rank_bound rules rank"]])
  case (1 p)
  let ?L = "stack_bound rules rank (length ts)" and ?B = "rank_bound rules rank"
  let ?a = "tb_action t (hd (ps_states p), remap_token_type_to_string (ps_token p))"
  have sound: "turn_result rules nts t ts (parse_turn (of_tables rules t) p)"
    using turn_sound [OF t 1(2)] .
  show ?case
  proof (cases "parse_turn (of_tables rules t) p")
    case (Parse_End e)
    then show ?thesis by (subst parse_loop.simps) simp
  next
    case (Parse_On p')
    with sound have p': "well_parsed rules nts t ts p'" by (simp add: turn_result_def)
    have "(p', p) \<in> turn_order ?L rank ?B"
    proof (cases ?a)
      case None
      with Parse_On show ?thesis by (auto simp: parse_turn_def of_tables_def split: if_splits)
    next
      case (Some a)
      have ne: "ps_states p \<noteq> []"
        using Parse_On by (auto simp: parse_turn_def split: if_splits)
      show ?thesis
      proof (cases a)
        case (Shift s)
        with Some have a: "?a = Some (Shift s)" by simp
        from a Parse_On ne have "shift_token s p = Parse_On p'"
          by (simp add: parse_turn_def of_tables_def)
        with shift_turn [OF t 1(2) a] show ?thesis by (auto simp: turn_order_def)
      next
        case (Reduce k)
        with Some have a: "?a = Some (Reduce k)" by simp
        have "consistent rules nts t p" using 1(2) by (simp add: well_parsed_def)
        from reduce_turn [OF t this a] obtain u ss ns cs where r: "ps_nodes p = rev cs @ ns"
          "map node_label cs = rhs_at rules k" "k < length rules" "reduce_rule (of_tables rules t) k p =
            Parse_On (p\<lparr>ps_states := u # ss, ps_nodes := Raw (lhs_at rules k) (map Some cs) # ns\<rparr>)"
          by blast
        let ?n = "Raw (lhs_at rules k) (map Some cs)"
        have p'_eq: "p' = p\<lparr>ps_states := u # ss, ps_nodes := ?n # ns\<rparr>"
          using r(4) a Parse_On ne by (simp add: parse_turn_def of_tables_def)
        have "rank (node_label (last (rev cs))) < rank (node_label ?n)" if "rev cs \<noteq> []"
        proof -
          have "node_label (hd cs) = rhs_at rules k ! 0" "0 < length (rhs_at rules k)"
            using that r(2) by (cases cs; force simp flip: r(2))+
          with left_rankedD [OF rank, of 0 k] that show ?thesis by (simp add: last_rev)
        qed
        moreover have "length (?n # ns) \<le> ?L" "length (rev cs @ ns) \<le> ?L"
          using stack_height [OF rank t p'] stack_height [OF rank t 1(2)] p'_eq r(1) by simp_all
        ultimately have "(places rank ?B ?L (?n # ns), places rank ?B ?L (rev cs @ ns)) \<in> lexn less_than ?L"
          using rank_bound [OF r(3), of rank] by (intro places_decrease) simp_all
        then show ?thesis using p'_eq r(1) by (simp add: turn_order_def)
      next
        case Accept
        with Some Parse_On ne show ?thesis by (simp add: parse_turn_def of_tables_def)
      qed
    qed
    from 1(1) [OF this p'] Parse_On show ?thesis by (subst parse_loop.simps) simp
  qed
qed


section \<open>A grammar\<close>

definition sample_grammar :: string where
  "sample_grammar = ''program = list ; list = item list | EPSILON ; item = \"(\" list \")\" | identifier ;''"

lemma sample_rules: "rb_rules (read_grammar sample_grammar) =
  [plain_rule ''_S_PRIME_'' [''program''], plain_rule ''program'' [''list''],
   plain_rule ''list'' [''item'', ''list''], plain_rule ''list'' [],
   plain_rule ''item'' [''('', ''list'', '')''], plain_rule ''item'' [''identifier'']]"
  unfolding sample_grammar_def by code_simp

lemma sample_proper: "proper_grammar sample_grammar"
  by (simp add: proper_grammar_def sample_rules proper_rules_def plain_rule_def)

definition sample_tree :: node where
  "sample_tree = Raw ''program'' [Some (Raw ''list'' [Some (Raw ''item'' [Some (Leaf ''('' ''(''),
     Some (Raw ''list'' []), Some (Leaf '')'' '')'')]), Some (Raw ''list'' [])])]"

lemma sample_parse: "parse_source (build_parser_tables sample_grammar) ''()'' = Some (Parse_Accepted (Some sample_tree))"
  unfolding sample_grammar_def sample_tree_def by code_simp

lemma accepted_source_is_derived_witness:
  "tree_leaves sample_tree = map token_pair (butlast (lex_tokens (new_reader ''()'')))"
  using accepted_source_is_derived [OF sample_proper sample_parse] by auto


definition sample_rank :: "string \<Rightarrow> nat" where
  "sample_rank x = (if x = ''_S_PRIME_'' then 4 else if x = ''program'' then 3 else if x = ''list'' then 2
     else if x = ''item'' then 1 else 0)"

lemma sample_ranked: "left_ranked (rb_rules (read_grammar sample_grammar)) sample_rank"
  by (rule left_rankedI [of _ "\<lambda>x. x \<in> {''list'', ''program'', ''_S_PRIME_''}"])
    (simp_all add: sample_rules plain_rule_def sample_rank_def)


end
