(* ===== verification/TreeParts.thy ===== *)
theory TreeParts
  imports Ast
begin

text \<open>
  Reading parse trees: the casts of src/src/ast/builder to leaves and inner nodes, the names and types
  of src/src/ast/common/ASTBuilderSupport.h, and the lists of parameters, effects, bindings, fields and
  variants that hold no expressions. A child that the code reads without looking at the number of
  children is undefined when there are fewer.
\<close>

section \<open>Casts\<close>

definition leaf_of :: "node option \<Rightarrow> (string \<times> string) option" where
  "leaf_of p = (case p of Some (Leaf t v) \<Rightarrow> Some (t, v) | _ \<Rightarrow> None)"

definition raw_of :: "node option \<Rightarrow> (string \<times> node option list) option" where
  "raw_of p = (case p of Some (Raw r cs) \<Rightarrow> Some (r, cs) | _ \<Rightarrow> None)"

text \<open>\<open>dynamic_cast\<close> to \<open>RawNode\<close> keeps the pointer or makes it null.\<close>

definition as_raw :: "node option \<Rightarrow> node option" where
  "as_raw p = (if raw_of p = None then None else p)"

definition child_at :: "nat \<Rightarrow> node option list \<Rightarrow> node option outcome" where
  "child_at i cs = (if i < length cs then Ok (cs ! i) else Raise (Undefined ''read past the end of the children''))"

lemma leaf_of_simps [simp]:
  "leaf_of None = None" "leaf_of (Some (Leaf t v)) = Some (t, v)" "leaf_of (Some (Raw r cs)) = None"
  by (simp_all add: leaf_of_def)

lemma raw_of_simps [simp]:
  "raw_of None = None" "raw_of (Some (Leaf t v)) = None" "raw_of (Some (Raw r cs)) = Some (r, cs)"
  by (simp_all add: raw_of_def)

lemma raw_of_eq_Some [simp]: "raw_of p = Some (r, cs) \<longleftrightarrow> p = Some (Raw r cs)"
  by (auto simp: raw_of_def split: option.splits node.splits)

lemma leaf_of_eq_Some [simp]: "leaf_of p = Some (t, v) \<longleftrightarrow> p = Some (Leaf t v)"
  by (auto simp: leaf_of_def split: option.splits node.splits)

lemma child_at_Ok [simp]: "i < length cs \<Longrightarrow> child_at i cs = Ok (cs ! i)"
  by (simp add: child_at_def)

lemma as_raw_simps [simp]:
  "as_raw None = None" "as_raw (Some (Leaf t v)) = None" "as_raw (Some (Raw r cs)) = Some (Raw r cs)"
  by (simp_all add: as_raw_def)

text \<open>The size of a tree, for the recursions that follow: a child is smaller than its node.\<close>

abbreviation tree_size :: "node option \<Rightarrow> nat" where
  "tree_size \<equiv> size_option size"

lemma size_child: "i < length cs \<Longrightarrow> tree_size (cs ! i) < Suc (size_list tree_size cs)"
  using size_list_estimation' [of "cs ! i" cs "tree_size (cs ! i)" tree_size] by (simp add: less_Suc_eq_le)

lemma size_children:
  "p = Some (Raw r cs) \<Longrightarrow> i < length cs \<Longrightarrow> tree_size (cs ! i) < tree_size p"
  using size_child [of i cs] by simp

lemma size_children_last: "p = Some (Raw r cs) \<Longrightarrow> cs \<noteq> [] \<Longrightarrow> tree_size (last cs) < tree_size p"
  using size_children [of p r cs "length cs - 1"] by (simp add: last_conv_nth)

lemma size_member: "p = Some (Raw r cs) \<Longrightarrow> c \<in> set cs \<Longrightarrow> tree_size c < tree_size p"
  using size_children by (metis in_set_conv_nth)

lemma size_as_raw: "tree_size (as_raw p) \<le> tree_size p"
  by (cases p) (simp_all add: as_raw_def)

lemmas tree_sizes = size_children size_children_last size_member size_as_raw [THEN le_less_trans]

text \<open>A loop over the children that can fail.\<close>

fun fold_outcome :: "('a \<Rightarrow> 'c \<Rightarrow> 'a outcome) \<Rightarrow> 'a \<Rightarrow> 'c list \<Rightarrow> 'a outcome" where
  "fold_outcome f a [] = Ok a"
| "fold_outcome f a (c # cs) = bind_outcome (f a c) (\<lambda>b. fold_outcome f b cs)"

lemma bind_outcome_cong [fundef_cong]:
  "m = m' \<Longrightarrow> (\<And>x. m' = Ok x \<Longrightarrow> f x = f' x) \<Longrightarrow> bind_outcome m f = bind_outcome m' f'"
  by (cases m') simp_all

lemma fold_outcome_cong [fundef_cong]:
  assumes "a = a'" "cs = cs'" and "\<And>c b. c \<in> set cs' \<Longrightarrow> f b c = f' b c"
  shows "fold_outcome f a cs = fold_outcome f' a' cs'"
proof -
  have "fold_outcome f a cs = fold_outcome f' a cs" if "\<And>c b. c \<in> set cs \<Longrightarrow> f b c = f' b c" for a
    using that by (induction cs arbitrary: a) simp_all
  with assms show ?thesis by simp
qed

section \<open>Qualified names\<close>

function extract_qualified_id :: "node option \<Rightarrow> string"
  and first_qualified_id :: "node option list \<Rightarrow> string" where
  "extract_qualified_id p = (case leaf_of p of
       Some (t, v) \<Rightarrow> v
     | None \<Rightarrow> (case raw_of p of
           None \<Rightarrow> []
         | Some (r, cs) \<Rightarrow>
             if r = ''qualified_id'' \<and> 2 \<le> length cs
             then extract_qualified_id (cs ! 0) @ extract_qualified_id (cs ! 1)
             else if r = ''qualified_id_tail'' then
               (if 2 \<le> length cs then ''.'' @ extract_qualified_id (cs ! 1) else [])
               @ (if 3 \<le> length cs then extract_qualified_id (cs ! 2) else [])
             else first_qualified_id cs))"
| "first_qualified_id [] = []"
| "first_qualified_id (c # cs) =
     (let name = extract_qualified_id c in if name \<noteq> [] then name else first_qualified_id cs)"
  by pat_completeness auto
termination
  by (relation "measure (\<lambda>x. case x of Inl p \<Rightarrow> tree_size p | Inr cs \<Rightarrow> size_list tree_size cs)")
    (auto intro: tree_sizes simp: size_children)

section \<open>Types\<close>

text \<open>The text of a function type: a list of several arguments is put in parentheses.\<close>

definition arrow_type :: "string \<Rightarrow> string \<Rightarrow> string" where
  "arrow_type left right =
     (if CHR '','' \<in> set left \<and> \<not> (2 \<le> length left \<and> hd left = CHR ''('' \<and> last left = CHR '')'')
      then ''('' @ left @ '')->'' @ right else left @ ''->'' @ right)"

definition with_separator :: "string \<Rightarrow> string \<Rightarrow> string \<Rightarrow> string" where
  "with_separator result sep tail = (if tail = [] then result else result @ sep @ tail)"

text \<open>\<open>nested i\<close> below stands for the type of the child \<open>i\<close>.\<close>

definition extract_base :: "(nat \<Rightarrow> string outcome) \<Rightarrow> node option list \<Rightarrow> string outcome" where
  "extract_base nested cs =
     (case raw_of (cs ! 0) of
        Some (q, qs) \<Rightarrow>
          if q = ''qualified_id'' then
            (let name = extract_qualified_id (cs ! 0) in
             if 2 \<le> length cs then bind_outcome (nested 1) (\<lambda>args. Ok (name @ args)) else Ok name)
          else Ok ''auto''
      | None \<Rightarrow> (case leaf_of (cs ! 0) of
          None \<Rightarrow> Ok ''auto''
        | Some (t, v) \<Rightarrow>
            if v = ''['' then bind_outcome (nested 1) (\<lambda>x. Ok (''['' @ x @ '']''))
            else if v = ''map'' \<and> 4 \<le> length cs then
              bind_outcome (nested 2) (\<lambda>k. bind_outcome (nested 4) (\<lambda>x. Ok (''map<'' @ k @ '','' @ x @ ''>'')))
            else if (v = ''ptr'' \<or> v = ''ref'') \<and> 3 \<le> length cs then
              bind_outcome (nested 2) (\<lambda>x. Ok (v @ ''<'' @ x @ ''>''))
            else if t = ''identifier'' then
              (if 2 \<le> length cs then bind_outcome (nested 1) (\<lambda>args. Ok (v @ args)) else Ok v)
            else if v = ''('' \<and> 2 \<le> length cs then
              bind_outcome (nested 1) (\<lambda>inner. Ok (if CHR '','' \<in> set inner then ''('' @ inner @ '')'' else inner))
            else Ok v))"

lemma extract_base_cong [fundef_cong]:
  "cs = cs' \<Longrightarrow> (\<And>i. nested i = nested' i) \<Longrightarrow> extract_base nested cs = extract_base nested' cs'"
  by presburger

text \<open>The type of a child, where there is one.\<close>

definition no_child :: "string outcome" where
  "no_child = Raise (Undefined ''read past the end of the children'')"

function extracted_type :: "node option \<Rightarrow> string outcome" where
  "extracted_type p = (case leaf_of p of
       Some (t, v) \<Rightarrow> Ok v
     | None \<Rightarrow> (case raw_of p of
           None \<Rightarrow> Ok ''auto''
         | Some (r, cs) \<Rightarrow>
             if r = ''type_guide_opt'' \<and> 2 \<le> length cs then extracted_type (cs ! 1)
             else if r = ''dataType'' then
               (if cs = [] then Ok ''auto''
                else bind_outcome (extracted_type (cs ! 0)) (\<lambda>left.
                  if length cs < 2 then Ok left
                  else (case raw_of (cs ! 1) of
                      None \<Rightarrow> Ok left
                    | Some (t, ts) \<Rightarrow>
                        if length ts < 2 then Ok left
                        else bind_outcome (extracted_type (ts ! 1)) (\<lambda>right. Ok (arrow_type left right)))))
             else if r = ''base_dataType'' \<and> cs \<noteq> [] then
               extract_base (\<lambda>i. if i < length cs then extracted_type (cs ! i) else no_child) cs
             else if r = ''type_args_opt'' then
               (if 2 \<le> length cs
                then bind_outcome (extracted_type (cs ! 1)) (\<lambda>x. Ok (''<'' @ x @ ''>'')) else Ok [])
             else if r = ''dataType_list'' \<or> r = ''dataType_list_tail'' then
               (let offset = (if r = ''dataType_list'' then 0 else 1) in
                if cs = [] then Ok []
                else bind_outcome (if offset < length cs then extracted_type (cs ! offset) else no_child) (\<lambda>result.
                  if offset + 1 < length cs
                  then bind_outcome (extracted_type (last cs)) (\<lambda>tail. Ok (with_separator result '','' tail))
                  else Ok result))
             else if r = ''type_constraint'' then
               (if cs = [] then Ok []
                else bind_outcome (extracted_type (cs ! 0)) (\<lambda>result.
                  if 1 < length cs
                  then bind_outcome (extracted_type (cs ! 1)) (\<lambda>tail. Ok (with_separator result ''+'' tail))
                  else Ok result))
             else if r = ''type_constraint_tail'' then
               (if length cs < 2 then Ok []
                else bind_outcome (extracted_type (cs ! 1)) (\<lambda>result.
                  if 2 < length cs
                  then bind_outcome (extracted_type (cs ! 2)) (\<lambda>tail. Ok (with_separator result ''+'' tail))
                  else Ok result))
             else Ok ''auto''))"
  by pat_completeness auto
termination
  by (relation "measure tree_size") (auto intro: tree_sizes less_trans [OF size_children size_children] split: if_splits)

declare extracted_type.simps [simp del] extract_qualified_id.simps [simp del]

lemma extract_qualified_id_simps [simp]:
  "extract_qualified_id None = []" "extract_qualified_id (Some (Leaf t v)) = v"
  by (simp_all add: extract_qualified_id.simps)

lemma extracted_type_simps [simp]:
  "extracted_type None = Ok ''auto''" "extracted_type (Some (Leaf t v)) = Ok v"
  by (simp_all add: extracted_type.simps)

section \<open>Lists of types and names\<close>

text \<open>
  The grammar writes a list as a head and a tail. A flattened list is returned where the code appends
  to its second argument.
\<close>

definition append_outcomes :: "'a list outcome \<Rightarrow> 'a list outcome \<Rightarrow> 'a list outcome" where
  "append_outcomes m n = bind_outcome m (\<lambda>xs. bind_outcome n (\<lambda>ys. Ok (xs @ ys)))"

lemma append_outcomes_Ok [simp]: "append_outcomes (Ok xs) (Ok ys) = Ok (xs @ ys)"
  by (simp add: append_outcomes_def)

text \<open>The first identifier among the leaves gives a name.\<close>

definition name_leaf :: "string \<Rightarrow> string \<Rightarrow> string \<Rightarrow> string" where
  "name_leaf name t v = (if t = ''identifier'' \<and> name = [] then v else name)"

text \<open>The constraints of a type parameter are the non-empty pieces between plus signs.\<close>

function split_constraints :: "string \<Rightarrow> string list" where
  "split_constraints s =
     (let piece = takeWhile (\<lambda>c. c \<noteq> CHR ''+'') s; rest = dropWhile (\<lambda>c. c \<noteq> CHR ''+'') s
      in (if piece = [] then [] else [piece]) @ (if rest = [] then [] else split_constraints (tl rest)))"
  by pat_completeness auto
termination
proof (relation "measure length")
  fix s :: string and piece rest
  assume "rest = dropWhile (\<lambda>c. c \<noteq> CHR ''+'') s" "rest \<noteq> []"
  then have "length rest \<le> length s" "0 < length rest" by (simp_all add: length_dropWhile_le)
  then have "length (tl rest) < length s" unfolding length_tl by linarith
  then show "(tl rest, s) \<in> measure length" by simp
qed simp

declare split_constraints.simps [simp del]

definition type_param_child :: "string \<times> string list \<Rightarrow> node option \<Rightarrow> (string \<times> string list) outcome" where
  "type_param_child tp child = (case tp of (name, constraints) \<Rightarrow>
     (case leaf_of child of
        Some (t, v) \<Rightarrow> Ok (name_leaf name t v, constraints)
      | None \<Rightarrow> (case raw_of child of
          Some (r, cs) \<Rightarrow>
            if r = ''type_constraint_opt'' \<and> 2 \<le> length cs then
              bind_outcome (extracted_type (cs ! 1)) (\<lambda>text. Ok (name, constraints @ split_constraints text))
            else Ok tp
        | None \<Rightarrow> Ok tp)))"

function flatten_type_params :: "node option \<Rightarrow> (string \<times> string list) list outcome" where
  "flatten_type_params p = (case raw_of p of
       None \<Rightarrow> Ok []
     | Some (r, cs) \<Rightarrow>
         if r = ''type_params_opt'' then
           (if 2 \<le> length cs then flatten_type_params (cs ! 1) else Ok [])
         else if r = ''type_params'' then
           append_outcomes (if 0 < length cs then flatten_type_params (cs ! 0) else Ok [])
             (if 1 < length cs then flatten_type_params (cs ! 1) else Ok [])
         else if r = ''type_params_tail'' then
           append_outcomes (if 2 \<le> length cs then flatten_type_params (cs ! 1) else Ok [])
             (if 2 < length cs then flatten_type_params (cs ! 2) else Ok [])
         else if r = ''type_param'' then
           bind_outcome (fold_outcome type_param_child ([], []) cs) (\<lambda>tp. Ok (if fst tp = [] then [] else [tp]))
         else Ok [])"
  by pat_completeness auto
termination
  by (relation "measure tree_size") (auto intro: tree_sizes)

definition context_binding_child :: "string \<times> string \<Rightarrow> node option \<Rightarrow> (string \<times> string) outcome" where
  "context_binding_child b child =
     (case leaf_of child of
        Some (t, v) \<Rightarrow> Ok (name_leaf (fst b) t v, snd b)
      | None \<Rightarrow> (case raw_of child of
          Some (r, cs) \<Rightarrow>
            if r = ''dataType'' then bind_outcome (extracted_type child) (\<lambda>text. Ok (fst b, text)) else Ok b
        | None \<Rightarrow> Ok b))"

function flatten_context_bindings :: "node option \<Rightarrow> context_binding list outcome" where
  "flatten_context_bindings p = (case raw_of p of
       None \<Rightarrow> Ok []
     | Some (r, cs) \<Rightarrow>
         if r = ''context_req_opt'' then
           (if 3 \<le> length cs then flatten_context_bindings (cs ! 2) else Ok [])
         else if r = ''context_binding_list'' then
           append_outcomes (if 0 < length cs then flatten_context_bindings (cs ! 0) else Ok [])
             (if 1 < length cs then flatten_context_bindings (cs ! 1) else Ok [])
         else if r = ''context_binding_list_tail'' then
           append_outcomes (if 2 \<le> length cs then flatten_context_bindings (cs ! 1) else Ok [])
             (if 2 < length cs then flatten_context_bindings (cs ! 2) else Ok [])
         else if r = ''context_binding'' then
           bind_outcome (fold_outcome context_binding_child ([], []) cs) (\<lambda>b. Ok (if fst b = [] then [] else [b]))
         else Ok [])"
  by pat_completeness auto
termination
  by (relation "measure tree_size") (auto intro: tree_sizes)

function flatten_raised_effects :: "node option \<Rightarrow> string list" where
  "flatten_raised_effects p = (case raw_of p of
       None \<Rightarrow> []
     | Some (r, cs) \<Rightarrow>
         if r = ''effect_spec_opt'' then
           (if 3 \<le> length cs then flatten_raised_effects (cs ! 2) else [])
         else if r = ''effect_type_list'' then
           (if 0 < length cs then flatten_raised_effects (cs ! 0) else [])
           @ (if 1 < length cs then flatten_raised_effects (cs ! 1) else [])
         else if r = ''effect_type_list_tail'' then
           (if 2 \<le> length cs then flatten_raised_effects (cs ! 1) else [])
           @ (if 2 < length cs then flatten_raised_effects (cs ! 2) else [])
         else if r = ''effect_type'' then
           take 1 (List.map_filter (\<lambda>c. case leaf_of c of
              Some (t, v) \<Rightarrow> if t = ''identifier'' then Some v else None | None \<Rightarrow> None) cs)
         else [])"
  by pat_completeness auto
termination
  by (relation "measure tree_size") (auto intro: tree_sizes)

function flatten_qualified_type_list :: "node option \<Rightarrow> string list outcome" where
  "flatten_qualified_type_list p = (case raw_of p of
       None \<Rightarrow> Ok []
     | Some (r, cs) \<Rightarrow>
         if r = ''EPSILON'' \<or> cs = [] then Ok []
         else if r = ''implements_opt'' then
           (if 2 \<le> length cs then flatten_qualified_type_list (cs ! 1) else Ok [])
         else if r = ''interface_type_list'' then
           bind_outcome (extracted_type (cs ! 0)) (\<lambda>x. append_outcomes (Ok [x])
             (if 1 < length cs then flatten_qualified_type_list (cs ! 1) else Ok []))
         else if r = ''interface_type_list_tail'' then
           append_outcomes
             (if 1 < length cs then bind_outcome (extracted_type (cs ! 1)) (\<lambda>x. Ok [x]) else Ok [])
             (if 2 < length cs then flatten_qualified_type_list (cs ! 2) else Ok [])
         else Ok [])"
  by pat_completeness auto
termination
  by (relation "measure tree_size") (auto intro: tree_sizes)

section \<open>Fields and variants\<close>

definition field_child :: "string \<times> string \<Rightarrow> node option \<Rightarrow> (string \<times> string) outcome" where
  "field_child f child = context_binding_child f child"

function flatten_struct_fields :: "node option \<Rightarrow> (string \<times> string) list outcome" where
  "flatten_struct_fields p = (case raw_of p of
       None \<Rightarrow> Ok []
     | Some (r, cs) \<Rightarrow>
         if r = ''EPSILON'' \<or> cs = [] then Ok []
         else if r = ''field_decl_list'' then
           append_outcomes (flatten_struct_fields (cs ! 0))
             (if 1 < length cs then flatten_struct_fields (cs ! 1) else Ok [])
         else if r = ''field_decl'' then
           bind_outcome (fold_outcome field_child ([], ''auto'') cs) (\<lambda>f. Ok [f])
         else Ok [])"
  by pat_completeness auto
termination
  by (relation "measure tree_size") (auto intro: tree_sizes)

text \<open>The argument types of an enum variant.\<close>

function flatten_type_list :: "node option \<Rightarrow> string list outcome" where
  "flatten_type_list p = (case raw_of p of
       None \<Rightarrow> Ok []
     | Some (r, cs) \<Rightarrow>
         if r = ''EPSILON'' \<or> cs = [] then Ok []
         else if r = ''dataType_list'' \<or> r = ''dataType_list_tail'' then
           (let offset = (if r = ''dataType_list'' then 0 else 1) in
            append_outcomes
              (if offset < length cs then bind_outcome (extracted_type (cs ! offset)) (\<lambda>x. Ok [x]) else Ok [])
              (if offset + 1 < length cs then flatten_type_list (last cs) else Ok []))
         else Ok [])"
  by pat_completeness auto
termination
  by (relation "measure tree_size") (auto intro: tree_sizes)

definition variant_child :: "string \<times> string list \<Rightarrow> node option \<Rightarrow> (string \<times> string list) outcome" where
  "variant_child variant child = (case variant of (name, args) \<Rightarrow>
     (case leaf_of child of
        Some (t, v) \<Rightarrow> Ok (name_leaf name t v, args)
      | None \<Rightarrow> (case raw_of child of
          Some (r, cs) \<Rightarrow>
            if r = ''variant_args_opt'' \<and> 2 \<le> length cs then
              bind_outcome (flatten_type_list (as_raw (cs ! 1))) (\<lambda>more. Ok (name, args @ more))
            else Ok variant
        | None \<Rightarrow> Ok variant)))"

function flatten_enum_variants :: "node option \<Rightarrow> (string \<times> string list) list outcome" where
  "flatten_enum_variants p = (case raw_of p of
       None \<Rightarrow> Ok []
     | Some (r, cs) \<Rightarrow>
         if r = ''EPSILON'' \<or> cs = [] then Ok []
         else if r = ''variant_list'' then
           append_outcomes (flatten_enum_variants (cs ! 0))
             (if 1 < length cs then flatten_enum_variants (cs ! 1) else Ok [])
         else if r = ''variant_list_tail'' then
           append_outcomes (if 1 < length cs then flatten_enum_variants (cs ! 1) else Ok [])
             (if 2 < length cs then flatten_enum_variants (cs ! 2) else Ok [])
         else if r = ''variant_decl'' then
           bind_outcome (fold_outcome variant_child ([], []) cs) (\<lambda>v. Ok [v])
         else Ok [])"
  by pat_completeness auto
termination
  by (relation "measure tree_size") (auto intro: tree_sizes)

section \<open>Regions of a transaction\<close>

text \<open>A region that repeats the one before it is left out.\<close>

definition append_region :: "region list \<Rightarrow> bool \<Rightarrow> string \<Rightarrow> region list" where
  "append_region rs shared name =
     (if name = [] \<or> rs \<noteq> [] \<and> last rs = Region shared name then rs else rs @ [Region shared name])"

definition region_child :: "bool \<times> string \<Rightarrow> node option \<Rightarrow> bool \<times> string" where
  "region_child acc child = (case leaf_of child of
       None \<Rightarrow> acc
     | Some (t, v) \<Rightarrow> if v = ''shared'' then (True, snd acc)
         else if t = ''identifier'' then (fst acc, v) else acc)"

function collect_regions :: "node option \<Rightarrow> region list \<Rightarrow> region list" where
  "collect_regions p rs = (case raw_of p of
       None \<Rightarrow> rs
     | Some (r, cs) \<Rightarrow>
         if r = ''region_expr''
         then (case foldl region_child (False, []) cs of (shared, name) \<Rightarrow> append_region rs shared name)
         else foldl (\<lambda>rs c. collect_regions c rs) rs cs)"
  by pat_completeness auto
termination
  by (relation "measure (\<lambda>(p, rs). tree_size p)") (auto intro: tree_sizes)

declare flatten_type_params.simps [simp del] flatten_context_bindings.simps [simp del]
  flatten_raised_effects.simps [simp del] flatten_qualified_type_list.simps [simp del]
  flatten_struct_fields.simps [simp del] flatten_type_list.simps [simp del]
  flatten_enum_variants.simps [simp del] collect_regions.simps [simp del]

end
