(* ===== verification/TreeBuilder.thy ===== *)
theory TreeBuilder
  imports TreeParts Natives
begin

text \<open>
  The tree builder (src/src/ast/builder): from the tree the parser hands over to the syntax tree that
  the later phases work on. Every \<open>Simplify\<close> function of \<open>ASTBuilder\<close> is a definition of its own; \<open>simp\<close>
  stands for \<open>Simplify\<close> on a child, and \<open>simplify\<close> ties the knot with fuel. The code moves children out of
  the tree; none is read again after it was moved. A declaration keeps of its parts what \<open>Ast\<close> keeps.
  Where the code stores a child that came out null in a place of a node that every later pass
  dereferences, the model stops with undefined behaviour.
\<close>

type_synonym simplifier = "node option \<Rightarrow> node option outcome"

definition needed :: "node option \<Rightarrow> node outcome" where
  "needed p = (case p of Some n \<Rightarrow> Ok n | None \<Rightarrow> Raise (Undefined ''null child''))"

text \<open>\<open>Simplify\<close> on the child \<open>i\<close>, which the code takes without looking, and on one that must not be null.\<close>

definition simplified_child :: "simplifier \<Rightarrow> nat \<Rightarrow> node option list \<Rightarrow> node option outcome" where
  "simplified_child simp i cs = bind_outcome (child_at i cs) simp"

definition needed_child :: "simplifier \<Rightarrow> nat \<Rightarrow> node option list \<Rightarrow> node outcome" where
  "needed_child simp i cs = bind_outcome (simplified_child simp i cs) needed"

definition leaf_text :: "node option \<Rightarrow> string outcome" where
  "leaf_text p = (case leaf_of p of Some (t, v) \<Rightarrow> Ok v | None \<Rightarrow> Raise (Undefined ''null leaf''))"

definition text_at :: "nat \<Rightarrow> node option list \<Rightarrow> string outcome" where
  "text_at i cs = bind_outcome (child_at i cs) leaf_text"

section \<open>Literals\<close>

fun unescape_string_literal :: "string \<Rightarrow> string" where
  "unescape_string_literal [] = []"
| "unescape_string_literal [c] = [c]"
| "unescape_string_literal (c # d # s) =
     (if c = CHR 0x5C then
        (if d = CHR ''n'' then CHR 0x0A else if d = CHR ''r'' then CHR 0x0D else if d = CHR ''t'' then CHR 0x09
         else d) # unescape_string_literal s
      else c # unescape_string_literal (d # s))"

text \<open>
  \<open>stoll\<close> and \<open>stod\<close> convert the longest prefix that is a number and throw when there is none or when it is
  out of range. A literal of the lexer is digits with at most one point.
\<close>

definition number_prefix :: "bool \<Rightarrow> string \<Rightarrow> string" where
  "number_prefix point s = (let whole = takeWhile is_digit s; rest = dropWhile is_digit s in
     if point \<and> rest \<noteq> [] \<and> hd rest = CHR ''.'' then whole @ CHR ''.'' # takeWhile is_digit (tl rest) else whole)"

definition simplify_leaf :: "string \<Rightarrow> string \<Rightarrow> node outcome" where
  "simplify_leaf t v =
     (if t = ''integer_literal'' then
        (case stoll (number_prefix False v) of Some i \<Rightarrow> Ok (IntegerLiteral (word_of_int i)) | None \<Rightarrow> Raise (CppExc ''stoll''))
      else if t = ''float_literal'' then
        (case stod (number_prefix True v) of Some d \<Rightarrow> Ok (FloatLiteral d) | None \<Rightarrow> Raise (CppExc ''stod''))
      else if t = ''string_literal'' then
        Ok (StringLiteral (if 2 \<le> length v then unescape_string_literal (butlast (tl v)) else v))
      else if t = ''identifier'' then Ok (Identifier v)
      else Ok (Leaf t v))"

section \<open>Lists that hold expressions\<close>

text \<open>One parameter; \<open>None\<close> when the code gives up on the whole list.\<close>

definition read_param :: "simplifier \<Rightarrow> string \<Rightarrow> node option list \<Rightarrow> node parameter option outcome" where
  "read_param simp r cs =
     (case (if r = ''parameter'' \<and> cs \<noteq> [] then raw_of (cs ! 0) else Some (r, cs)) of
        None \<Rightarrow> Ok None
      | Some (q, ps) \<Rightarrow>
          let variadic = (q = ''variadic_param'');
              i = (if variadic then 1 else 0);
              j = (if variadic then 3 else 1)
          in (case (if i < length ps then leaf_of (ps ! i) else None) of
               None \<Rightarrow> Ok None
             | Some (t, name) \<Rightarrow>
                 bind_outcome
                   (if variadic then bind_outcome (child_at j ps) (\<lambda>c. extracted_type (as_raw c))
                    else if 1 < length ps then extracted_type (as_raw (ps ! 1)) else Ok ''auto'') (\<lambda>ty.
                 bind_outcome
                   (if \<not> variadic \<and> 2 < length ps then
                      (case raw_of (ps ! 2) of
                         Some (a, as) \<Rightarrow> if a = ''assign_expr_opt'' \<and> 2 \<le> length as then simp (as ! 1) else Ok None
                       | None \<Rightarrow> Ok None)
                    else Ok None) (\<lambda>default.
                 Ok (Some (Parameter name ty default variadic))))))"

function flatten_params :: "simplifier \<Rightarrow> node option \<Rightarrow> node parameter list outcome" where
  "flatten_params simp p = (case raw_of p of
       None \<Rightarrow> Ok []
     | Some (r, cs) \<Rightarrow>
         if r = ''EPSILON'' then Ok []
         else if r = ''param_list_opt'' \<and> cs \<noteq> [] then flatten_params simp (cs ! 0)
         else if r = ''param_list'' \<or> r = ''param_list_tail'' then
           (let offset = (if r = ''param_list'' then 0 else 1);
                rest = (if offset + 1 < length cs then flatten_params simp (last cs) else Ok [])
            in (case (if offset < length cs then raw_of (cs ! offset) else None) of
                 None \<Rightarrow> rest
               | Some (q, ps) \<Rightarrow> bind_outcome (read_param simp q ps) (\<lambda>param.
                   case param of None \<Rightarrow> Ok [] | Some x \<Rightarrow> append_outcomes (Ok [x]) rest)))
         else Ok [])"
  by pat_completeness auto
termination
  by (relation "measure (\<lambda>(simp, p). tree_size p)") (auto intro: tree_sizes)

function flatten_args :: "simplifier \<Rightarrow> node option \<Rightarrow> node list outcome" where
  "flatten_args simp p = (case raw_of p of
       None \<Rightarrow> Ok []
     | Some (r, cs) \<Rightarrow>
         if r = ''EPSILON'' then Ok []
         else if r = ''arg_list_opt'' \<and> cs \<noteq> [] then flatten_args simp (cs ! 0)
         else if r = ''arg_list'' \<or> r = ''arg_list_tail'' then
           (let offset = (if r = ''arg_list'' then 0 else 1) in
            append_outcomes
              (if offset < length cs then bind_outcome (needed_child simp offset cs) (\<lambda>n. Ok [n]) else Ok [])
              (if offset + 1 < length cs then flatten_args simp (last cs) else Ok []))
         else Ok [])"
  by pat_completeness auto
termination
  by (relation "measure (\<lambda>(simp, p). tree_size p)") (auto intro: tree_sizes)

definition contract_kind_of :: "string \<Rightarrow> contract_kind" where
  "contract_kind_of v = (if v = ''ensures'' then Ensures else if v = ''invariant'' then Invariant else Requires)"

function flatten_contracts :: "simplifier \<Rightarrow> node option \<Rightarrow> node contract list outcome" where
  "flatten_contracts simp p = (case raw_of p of
       None \<Rightarrow> Ok []
     | Some (r, cs) \<Rightarrow>
         if r = ''EPSILON'' \<or> cs = [] then Ok []
         else if r = ''contract_list'' then
           append_outcomes (flatten_contracts simp (cs ! 0))
             (if 1 < length cs then flatten_contracts simp (cs ! 1) else Ok [])
         else if r \<noteq> ''contract'' \<or> length cs < 3 then Ok []
         else (case leaf_of (cs ! 0) of
             None \<Rightarrow> Ok []
           | Some (t, v) \<Rightarrow> bind_outcome (simp (cs ! 2)) (\<lambda>e. Ok [Contract_Clause (contract_kind_of v) e])))"
  by pat_completeness auto
termination
  by (relation "measure (\<lambda>(simp, p). tree_size p)") (auto intro: tree_sizes)

text \<open>The adapters of an \<open>iter\<close> statement: the first child that is an expression is the argument.\<close>

definition adapter_of :: "string \<Rightarrow> node option \<Rightarrow> node adapter list" where
  "adapter_of op argument =
     (if op = ''drop'' then [Adapter Drop_Adapter argument]
      else if op = ''take'' then [Adapter Take_Adapter argument]
      else if op = ''reverse'' then [Adapter Reverse_Adapter None]
      else if op = ''filter'' then [Adapter Filter_Adapter argument]
      else if op = ''transform'' then [Adapter Transform_Adapter argument] else [])"

definition is_rule :: "string \<Rightarrow> node option \<Rightarrow> bool" where
  "is_rule r p = (case raw_of p of Some (q, cs) \<Rightarrow> q = r | None \<Rightarrow> False)"

definition simplified_first :: "simplifier \<Rightarrow> string \<Rightarrow> node option list \<Rightarrow> node option outcome" where
  "simplified_first simp r cs = (case filter (is_rule r) cs of [] \<Rightarrow> Ok None | c # _ \<Rightarrow> simp c)"

function flatten_iter_adapters :: "simplifier \<Rightarrow> node option \<Rightarrow> node adapter list outcome" where
  "flatten_iter_adapters simp p = (case raw_of p of
       None \<Rightarrow> Ok []
     | Some (r, cs) \<Rightarrow>
         if r = ''EPSILON'' \<or> cs = [] then Ok []
         else if r = ''adapter_chain_opt'' then
           (if 3 \<le> length cs then flatten_iter_adapters simp (cs ! 2) else Ok [])
         else if r = ''adapter_list'' then
           append_outcomes (flatten_iter_adapters simp (cs ! 0))
             (if 1 < length cs then flatten_iter_adapters simp (cs ! 1) else Ok [])
         else if r = ''adapter_list_tail'' then
           append_outcomes (if 1 < length cs then flatten_iter_adapters simp (cs ! 1) else Ok [])
             (if 2 < length cs then flatten_iter_adapters simp (cs ! 2) else Ok [])
         else if r = ''adapter'' then
           (case leaf_of (cs ! 0) of
              None \<Rightarrow> Ok []
            | Some (t, op) \<Rightarrow> bind_outcome (simplified_first simp ''expression'' cs) (\<lambda>a. Ok (adapter_of op a)))
         else Ok [])"
  by pat_completeness auto
termination
  by (relation "measure (\<lambda>(simp, p). tree_size p)") (auto intro: tree_sizes)

section \<open>Functions, methods and signatures\<close>

text \<open>
  What the loops over the children of a function, a method or a signature collect; \<open>d_flag\<close> is
  \<open>isComptime\<close> of a function and whether an actor's method is a query.
\<close>

record declared =
  d_name :: string
  d_flag :: bool
  d_type :: string
  d_type_params :: "(string \<times> string list) list"
  d_params :: "node parameter list"
  d_contexts :: "context_binding list"
  d_effects :: "string list"
  d_contracts :: "node contract list"
  d_body :: "node option"

definition nothing_declared :: "string \<Rightarrow> declared" where
  "nothing_declared ty = \<lparr>d_name = [], d_flag = False, d_type = ty, d_type_params = [], d_params = [],
     d_contexts = [], d_effects = [], d_contracts = [], d_body = None\<rparr>"

definition parts_of :: "declared \<Rightarrow> node function_parts" where
  "parts_of d = Function_Parts (d_params d) (d_contexts d) (d_effects d) (d_contracts d) (d_type d) (d_body d)"

text \<open>A function may also be called \<open>print\<close>; the grammar wraps the name in \<open>function_name\<close>.\<close>

definition named_by_leaf :: "string \<Rightarrow> string \<Rightarrow> declared \<Rightarrow> declared" where
  "named_by_leaf t v d = (if (t = ''identifier'' \<or> v = ''print'') \<and> d_name d = [] then d\<lparr>d_name := v\<rparr> else d)"

definition named_by_rule :: "string \<Rightarrow> node option list \<Rightarrow> declared \<Rightarrow> declared" where
  "named_by_rule r cs d =
     (if r = ''function_name'' \<and> cs \<noteq> [] \<and> d_name d = [] then
        (case leaf_of (cs ! 0) of Some (t, v) \<Rightarrow> d\<lparr>d_name := v\<rparr> | None \<Rightarrow> d)
      else d)"

text \<open>The parts that functions, methods and signatures share, in the order of the code's chain of tests.\<close>

definition declared_part :: "simplifier \<Rightarrow> node option \<Rightarrow> string \<Rightarrow> declared \<Rightarrow> declared outcome" where
  "declared_part simp child r d =
     (if r = ''param_list_opt'' then
        bind_outcome (flatten_params simp child) (\<lambda>ps. Ok (d\<lparr>d_params := d_params d @ ps\<rparr>))
      else if r = ''context_req_opt'' then
        bind_outcome (flatten_context_bindings child) (\<lambda>bs. Ok (d\<lparr>d_contexts := d_contexts d @ bs\<rparr>))
      else if r = ''effect_spec_opt'' then Ok (d\<lparr>d_effects := d_effects d @ flatten_raised_effects child\<rparr>)
      else if r = ''contract_list'' then
        bind_outcome (flatten_contracts simp child) (\<lambda>cs. Ok (d\<lparr>d_contracts := d_contracts d @ cs\<rparr>))
      else if r = ''block_stmt'' then bind_outcome (simp child) (\<lambda>b. Ok (d\<lparr>d_body := b\<rparr>))
      else Ok d)"

definition result_type :: "node option \<Rightarrow> declared \<Rightarrow> declared outcome" where
  "result_type child d = bind_outcome (extracted_type child) (\<lambda>ty. Ok (d\<lparr>d_type := ty\<rparr>))"

definition func_decl_child :: "simplifier \<Rightarrow> declared \<Rightarrow> node option \<Rightarrow> declared outcome" where
  "func_decl_child simp d child =
     (case leaf_of child of
        Some (t, v) \<Rightarrow> Ok (named_by_leaf t v (if v = ''comptime'' then d\<lparr>d_flag := True\<rparr> else d))
      | None \<Rightarrow> (case raw_of child of
          None \<Rightarrow> Ok d
        | Some (r, cs) \<Rightarrow>
            bind_outcome (if r = ''type_guide_opt'' \<and> 2 \<le> length cs
              then result_type child (named_by_rule r cs d) else Ok (named_by_rule r cs d)) (\<lambda>d1.
            bind_outcome (if r = ''type_params_opt''
              then bind_outcome (flatten_type_params child) (\<lambda>ts. Ok (d1\<lparr>d_type_params := d_type_params d1 @ ts\<rparr>))
              else Ok d1) (\<lambda>d2.
            declared_part simp child r d2))))"

definition simplify_func_decl :: "simplifier \<Rightarrow> node option list \<Rightarrow> node outcome" where
  "simplify_func_decl simp cs =
     bind_outcome (fold_outcome (func_decl_child simp) (nothing_declared ''auto'') cs) (\<lambda>d.
       Ok (FunctionDecl (d_name d) (d_flag d) (parts_of d)))"

definition struct_method_child :: "simplifier \<Rightarrow> declared \<Rightarrow> node option \<Rightarrow> declared outcome" where
  "struct_method_child simp d child =
     (case leaf_of child of
        Some (t, v) \<Rightarrow> Ok (named_by_leaf t v d)
      | None \<Rightarrow> (case raw_of child of
          None \<Rightarrow> Ok d
        | Some (r, cs) \<Rightarrow>
            if r = ''type_guide_opt'' \<and> 2 \<le> length cs then result_type child (named_by_rule r cs d)
            else declared_part simp child r (named_by_rule r cs d)))"

definition simplify_struct_method :: "simplifier \<Rightarrow> node option list \<Rightarrow> (string \<times> node function_parts) outcome" where
  "simplify_struct_method simp cs =
     bind_outcome (fold_outcome (struct_method_child simp) (nothing_declared ''void'') cs) (\<lambda>d.
       Ok (d_name d, parts_of d))"

definition is_query_leaf :: "node option \<Rightarrow> bool" where
  "is_query_leaf c = (case leaf_of c of Some (t, v) \<Rightarrow> v = ''query'' | None \<Rightarrow> False)"

definition actor_method_child :: "simplifier \<Rightarrow> declared \<Rightarrow> node option \<Rightarrow> declared outcome" where
  "actor_method_child simp d child =
     (case leaf_of child of
        Some (t, v) \<Rightarrow> Ok (if v = ''query'' then d\<lparr>d_flag := True\<rparr> else named_by_leaf t v d)
      | None \<Rightarrow> (case raw_of child of
          None \<Rightarrow> Ok d
        | Some (r, cs) \<Rightarrow>
            if r = ''msg_or_query'' then Ok (if list_ex is_query_leaf cs then d\<lparr>d_flag := True\<rparr> else d)
            else if r = ''function_name'' \<and> cs \<noteq> [] \<and> d_name d = [] then Ok (named_by_rule r cs d)
            else if r = ''type_guide_opt'' \<and> 2 \<le> length cs then result_type child d
            else declared_part simp child r d))"

definition simplify_actor_method :: "simplifier \<Rightarrow> node option list \<Rightarrow> (bool \<times> string \<times> node function_parts) outcome" where
  "simplify_actor_method simp cs =
     bind_outcome (fold_outcome (actor_method_child simp) (nothing_declared ''void'') cs) (\<lambda>d.
       Ok (d_flag d, d_name d, parts_of d))"

text \<open>The signatures of interfaces and effects.\<close>

definition method_sig_child :: "simplifier \<Rightarrow> declared \<Rightarrow> node option \<Rightarrow> declared outcome" where
  "method_sig_child simp d child =
     (case leaf_of child of
        Some (t, v) \<Rightarrow> Ok (named_by_leaf t v d)
      | None \<Rightarrow> (case raw_of child of
          None \<Rightarrow> Ok d
        | Some (r, cs) \<Rightarrow>
            (let d' = named_by_rule r cs d in
             if r = ''param_list_opt'' then
               bind_outcome (flatten_params simp child) (\<lambda>ps. Ok (d'\<lparr>d_params := d_params d' @ ps\<rparr>))
             else if r = ''type_guide_opt'' \<and> 2 \<le> length cs then result_type child d'
             else if r = ''effect_spec_opt'' then Ok (d'\<lparr>d_effects := d_effects d' @ flatten_raised_effects child\<rparr>)
             else Ok d')))"

function flatten_interface_methods :: "simplifier \<Rightarrow> node option \<Rightarrow> declared list outcome" where
  "flatten_interface_methods simp p = (case raw_of p of
       None \<Rightarrow> Ok []
     | Some (r, cs) \<Rightarrow>
         if r = ''EPSILON'' \<or> cs = [] then Ok []
         else if r = ''method_sig_list'' then
           append_outcomes (flatten_interface_methods simp (cs ! 0))
             (if 1 < length cs then flatten_interface_methods simp (cs ! 1) else Ok [])
         else if r = ''method_sig'' then
           bind_outcome (fold_outcome (method_sig_child simp) (nothing_declared ''void'') cs) (\<lambda>d. Ok [d])
         else Ok [])"
  by pat_completeness auto
termination
  by (relation "measure (\<lambda>(simp, p). tree_size p)") (auto intro: tree_sizes)

text \<open>An arrow function whose body is an expression returns it.\<close>

definition arrow_child :: "simplifier \<Rightarrow> declared \<Rightarrow> node option \<Rightarrow> declared outcome" where
  "arrow_child simp d child =
     (case raw_of child of
        None \<Rightarrow> Ok d
      | Some (r, cs) \<Rightarrow>
          if r = ''param_list_opt'' then
            bind_outcome (flatten_params simp child) (\<lambda>ps. Ok (d\<lparr>d_params := d_params d @ ps\<rparr>))
          else if r = ''effect_spec_opt'' then Ok (d\<lparr>d_effects := d_effects d @ flatten_raised_effects child\<rparr>)
          else if r = ''arrow_body'' \<and> cs \<noteq> [] then
            bind_outcome (simp (cs ! 0)) (\<lambda>b. Ok (d\<lparr>d_body := b\<rparr>))
          else Ok d)"

definition is_block :: "node \<Rightarrow> bool" where
  "is_block n = (case n of Block ss \<Rightarrow> True | _ \<Rightarrow> False)"

definition arrow_body_block :: "node option \<Rightarrow> node option" where
  "arrow_body_block body = (case body of
       None \<Rightarrow> None
     | Some b \<Rightarrow> if is_block b then Some b else Some (Block [Some (Return (Some b))]))"

definition simplify_arrow_func :: "simplifier \<Rightarrow> node option list \<Rightarrow> node outcome" where
  "simplify_arrow_func simp cs =
     bind_outcome (fold_outcome (arrow_child simp) (nothing_declared ''auto'') cs) (\<lambda>d.
       Ok (FunctionExpr [] (parts_of (d\<lparr>d_body := arrow_body_block (d_body d)\<rparr>))))"

declare flatten_params.simps [simp del] flatten_args.simps [simp del] flatten_contracts.simps [simp del]
  flatten_iter_adapters.simps [simp del] flatten_interface_methods.simps [simp del]

end
