(* ===== verification/Simplify.thy ===== *)
theory Simplify
  imports TreeBuilder
begin

text \<open>
  The second half of the tree builder (src/src/ast/builder): structures, enums, actors, effects and
  interfaces, statements and expressions, the dispatch of \<open>SimplifyRaw\<close>, and \<open>Build\<close>.
\<close>

section \<open>Members\<close>

text \<open>The members of a structure: fields and methods.\<close>

type_synonym struct_members = "(string \<times> string) list \<times> (string \<times> node function_parts) list"

definition append_members :: "'a list \<times> 'b list \<Rightarrow> 'a list \<times> 'b list \<Rightarrow> 'a list \<times> 'b list" where
  "append_members m n = (fst m @ fst n, snd m @ snd n)"

definition both_members :: "('a list \<times> 'b list) outcome \<Rightarrow> ('a list \<times> 'b list) outcome \<Rightarrow> ('a list \<times> 'b list) outcome" where
  "both_members m n = bind_outcome m (\<lambda>a. bind_outcome n (\<lambda>b. Ok (append_members a b)))"

definition struct_member :: "simplifier \<Rightarrow> node option \<Rightarrow> struct_members outcome" where
  "struct_member simp p = (case raw_of p of
       None \<Rightarrow> Ok ([], [])
     | Some (r, cs) \<Rightarrow>
         if r = ''field_decl'' then bind_outcome (flatten_struct_fields p) (\<lambda>fs. Ok (fs, []))
         else if r = ''struct_method'' then bind_outcome (simplify_struct_method simp cs) (\<lambda>m. Ok ([], [m]))
         else Ok ([], []))"

function flatten_struct_members :: "simplifier \<Rightarrow> node option \<Rightarrow> struct_members outcome" where
  "flatten_struct_members simp p = (case raw_of p of
       None \<Rightarrow> Ok ([], [])
     | Some (r, cs) \<Rightarrow>
         if r = ''EPSILON'' \<or> cs = [] then Ok ([], [])
         else if r = ''struct_member_list'' then
           both_members (flatten_struct_members simp (cs ! 0))
             (if 1 < length cs then flatten_struct_members simp (cs ! 1) else Ok ([], []))
         else struct_member simp (if r = ''struct_member'' then cs ! 0 else p))"
  by pat_completeness auto
termination
  by (relation "measure (\<lambda>(simp, p). tree_size p)") (auto intro: tree_sizes)

type_synonym actor_field = "string \<times> string \<times> node option"
type_synonym actor_members = "actor_field list \<times> (bool \<times> string \<times> node function_parts) list"

definition actor_field_child :: "simplifier \<Rightarrow> actor_field \<Rightarrow> node option \<Rightarrow> actor_field outcome" where
  "actor_field_child simp f child = (case f of (name, ty, init) \<Rightarrow>
     (case leaf_of child of
        Some (t, v) \<Rightarrow> Ok (name_leaf name t v, ty, init)
      | None \<Rightarrow> (case raw_of child of
          None \<Rightarrow> Ok f
        | Some (r, cs) \<Rightarrow>
            if r = ''dataType'' then bind_outcome (extracted_type child) (\<lambda>x. Ok (name, x, init))
            else if r = ''assign_expr_opt'' \<and> 2 \<le> length cs then bind_outcome (simp (cs ! 1)) (\<lambda>i. Ok (name, ty, i))
            else Ok f)))"

function flatten_actor_body :: "simplifier \<Rightarrow> node option \<Rightarrow> actor_members outcome" where
  "flatten_actor_body simp p = (case raw_of p of
       None \<Rightarrow> Ok ([], [])
     | Some (r, cs) \<Rightarrow>
         if r = ''EPSILON'' \<or> cs = [] then Ok ([], [])
         else if r = ''actor_body'' \<or> r = ''actor_field_list'' \<or> r = ''actor_method_list'' then
           fold_outcome (\<lambda>ms c. both_members (Ok ms) (flatten_actor_body simp c)) ([], []) cs
         else if r = ''actor_field'' then
           bind_outcome (fold_outcome (actor_field_child simp) ([], [], None) cs) (\<lambda>f. Ok ([f], []))
         else if r = ''actor_method'' then bind_outcome (simplify_actor_method simp cs) (\<lambda>m. Ok ([], [m]))
         else Ok ([], []))"
  by pat_completeness auto
termination
  by (relation "measure (\<lambda>(simp, p). tree_size p)") (auto intro: tree_sizes)

section \<open>Declarations\<close>

text \<open>The loop of a declaration over its children: a leaf may name it, an inner node is handed on.\<close>

definition each_part ::
  "bool \<Rightarrow> (string \<Rightarrow> node option list \<Rightarrow> node option \<Rightarrow> 'a \<Rightarrow> 'a outcome) \<Rightarrow> string \<times> 'a \<Rightarrow> node option
    \<Rightarrow> (string \<times> 'a) outcome" where
  "each_part print_too part acc child = (case acc of (name, x) \<Rightarrow>
     (case leaf_of child of
        Some (t, v) \<Rightarrow>
          Ok (if (t = ''identifier'' \<or> print_too \<and> v = ''print'') \<and> name = [] then v else name, x)
      | None \<Rightarrow> (case raw_of child of
          None \<Rightarrow> Ok acc
        | Some (r, cs) \<Rightarrow> bind_outcome (part r cs child x) (\<lambda>y. Ok (name, y)))))"

definition struct_part ::
  "simplifier \<Rightarrow> string \<Rightarrow> node option list \<Rightarrow> node option \<Rightarrow>
    (string \<times> string list) list \<times> struct_members \<times> string list \<times> node contract list \<Rightarrow>
    ((string \<times> string list) list \<times> struct_members \<times> string list \<times> node contract list) outcome" where
  "struct_part simp r cs child x = (case x of (tps, ms, interfaces, contracts) \<Rightarrow>
     if r = ''struct_member_list'' then
       bind_outcome (flatten_struct_members simp child) (\<lambda>more. Ok (tps, append_members ms more, interfaces, contracts))
     else if r = ''type_params_opt'' then
       bind_outcome (flatten_type_params child) (\<lambda>more. Ok (tps @ more, ms, interfaces, contracts))
     else if r = ''implements_opt'' then
       bind_outcome (flatten_qualified_type_list child) (\<lambda>more. Ok (tps, ms, interfaces @ more, contracts))
     else if r = ''contract_list'' then
       bind_outcome (flatten_contracts simp child) (\<lambda>more. Ok (tps, ms, interfaces, contracts @ more))
     else Ok x)"

definition simplify_struct_decl :: "simplifier \<Rightarrow> node option list \<Rightarrow> node outcome" where
  "simplify_struct_decl simp cs =
     bind_outcome (fold_outcome (each_part True (struct_part simp)) ([], [], ([], []), [], []) cs)
       (\<lambda>(name, tps, (fields, methods), interfaces, contracts).
          Ok (StructDecl name (map fst tps) fields methods contracts))"

definition enum_part ::
  "string \<Rightarrow> node option list \<Rightarrow> node option \<Rightarrow> (string \<times> string list) list \<times> (string \<times> string list) list \<Rightarrow>
    ((string \<times> string list) list \<times> (string \<times> string list) list) outcome" where
  "enum_part r cs child x = (case x of (tps, variants) \<Rightarrow>
     if r = ''type_params_opt'' then bind_outcome (flatten_type_params child) (\<lambda>more. Ok (tps @ more, variants))
     else if r = ''variant_list'' then bind_outcome (flatten_enum_variants child) (\<lambda>more. Ok (tps, variants @ more))
     else Ok x)"

definition simplify_enum_decl :: "node option list \<Rightarrow> node outcome" where
  "simplify_enum_decl cs =
     bind_outcome (fold_outcome (each_part True enum_part) ([], [], []) cs)
       (\<lambda>(name, tps, variants). Ok (EnumDecl name (map (\<lambda>(v, args). (v, length args)) variants)))"

definition interface_part ::
  "simplifier \<Rightarrow> string \<Rightarrow> node option list \<Rightarrow> node option \<Rightarrow> (string \<times> string list) list \<times> declared list \<Rightarrow>
    ((string \<times> string list) list \<times> declared list) outcome" where
  "interface_part simp r cs child x = (case x of (tps, methods) \<Rightarrow>
     if r = ''type_params_opt'' then bind_outcome (flatten_type_params child) (\<lambda>more. Ok (tps @ more, methods))
     else if r = ''method_sig_list'' then
       bind_outcome (flatten_interface_methods simp child) (\<lambda>more. Ok (tps, methods @ more))
     else Ok x)"

definition simplify_interface_decl :: "simplifier \<Rightarrow> node option list \<Rightarrow> node outcome" where
  "simplify_interface_decl simp cs =
     bind_outcome (fold_outcome (each_part True (interface_part simp)) ([], [], []) cs)
       (\<lambda>(name, tps, methods). Ok (InterfaceDecl name (map d_name methods)))"

definition effect_part ::
  "simplifier \<Rightarrow> string \<Rightarrow> node option list \<Rightarrow> node option \<Rightarrow> declared list \<Rightarrow> declared list outcome" where
  "effect_part simp r cs child ops =
     (if r = ''effect_body_opt'' \<and> 2 \<le> length cs then
        bind_outcome (flatten_interface_methods simp (as_raw (cs ! 1))) (\<lambda>more. Ok (ops @ more))
      else Ok ops)"

definition simplify_effect_decl :: "simplifier \<Rightarrow> node option list \<Rightarrow> node outcome" where
  "simplify_effect_decl simp cs =
     bind_outcome (fold_outcome (each_part True (effect_part simp)) ([], []) cs)
       (\<lambda>(name, ops). Ok (EffectDecl name (map d_name ops)))"

definition actor_part ::
  "simplifier \<Rightarrow> string \<Rightarrow> node option list \<Rightarrow> node option \<Rightarrow> (string \<times> string list) list \<times> actor_members \<Rightarrow>
    ((string \<times> string list) list \<times> actor_members) outcome" where
  "actor_part simp r cs child x = (case x of (tps, ms) \<Rightarrow>
     if r = ''type_params_opt'' then bind_outcome (flatten_type_params child) (\<lambda>more. Ok (tps @ more, ms))
     else if r = ''actor_body'' then
       bind_outcome (flatten_actor_body simp child) (\<lambda>more. Ok (tps, append_members ms more))
     else Ok x)"

definition simplify_actor_decl :: "simplifier \<Rightarrow> node option list \<Rightarrow> node outcome" where
  "simplify_actor_decl simp cs =
     bind_outcome (fold_outcome (each_part False (actor_part simp)) ([], [], ([], [])) cs)
       (\<lambda>(name, tps, fields, methods). Ok (ActorDecl name fields methods))"

text \<open>\<open>SimplifyExportDecl\<close> returns at the first child that gives something to export.\<close>

fun simplify_export_decl :: "simplifier \<Rightarrow> node option list \<Rightarrow> node option outcome" where
  "simplify_export_decl simp [] = Ok None"
| "simplify_export_decl simp (c # cs) =
     (case leaf_of c of
        Some (t, v) \<Rightarrow> if t = ''identifier'' then Ok (Some (ExportDecl None)) else simplify_export_decl simp cs
      | None \<Rightarrow> (case raw_of c of
          None \<Rightarrow> simplify_export_decl simp cs
        | Some (r, ds) \<Rightarrow>
            if r \<noteq> ''exportable'' \<or> ds = [] then simplify_export_decl simp cs
            else (case leaf_of (ds ! 0) of
                Some (t, v) \<Rightarrow>
                  if t = ''identifier'' then Ok (Some (ExportDecl None))
                  else bind_outcome (simp c) (\<lambda>e.
                    case e of Some n \<Rightarrow> Ok (Some (ExportDecl (Some n))) | None \<Rightarrow> simplify_export_decl simp cs)
              | None \<Rightarrow> bind_outcome (simp c) (\<lambda>e.
                    case e of Some n \<Rightarrow> Ok (Some (ExportDecl (Some n))) | None \<Rightarrow> simplify_export_decl simp cs))))"

text \<open>Variables: the last identifier among the leaves is the name.\<close>

type_synonym variable_acc = "string \<times> string \<times> node option \<times> storage_class"

definition var_decl_child :: "simplifier \<Rightarrow> variable_acc \<Rightarrow> node option \<Rightarrow> variable_acc outcome" where
  "var_decl_child simp acc child = (case acc of (name, ty, init, storage) \<Rightarrow>
     (case leaf_of child of
        Some (t, v) \<Rightarrow> Ok (if t = ''identifier'' then v else name, ty, init,
          if v = ''thread_local'' then Thread_Local_Storage else if v = ''shared'' then Shared_Storage else storage)
      | None \<Rightarrow> (case raw_of child of
          None \<Rightarrow> Ok acc
        | Some (r, cs) \<Rightarrow>
            if r = ''type_guide_opt'' then bind_outcome (extracted_type child) (\<lambda>x. Ok (name, x, init, storage))
            else if r = ''assign_expr_opt'' \<and> 2 \<le> length cs then
              bind_outcome (simp (cs ! 1)) (\<lambda>i. Ok (name, ty, i, storage))
            else Ok acc)))"

definition simplify_var_decl_no_semi :: "simplifier \<Rightarrow> node option list \<Rightarrow> node outcome" where
  "simplify_var_decl_no_semi simp cs =
     bind_outcome (fold_outcome (var_decl_child simp) ([], ''auto'', None, Default_Storage) cs)
       (\<lambda>(name, ty, init, storage). Ok (VarDecl name ty init storage))"

definition const_decl_child ::
  "simplifier \<Rightarrow> string \<times> string \<times> node option \<Rightarrow> node option \<Rightarrow> (string \<times> string \<times> node option) outcome" where
  "const_decl_child simp acc child = (case acc of (name, ty, init) \<Rightarrow>
     (case leaf_of child of
        Some (t, v) \<Rightarrow> Ok (if t = ''identifier'' then v else name, ty, init)
      | None \<Rightarrow> (case raw_of child of
          None \<Rightarrow> Ok acc
        | Some (r, cs) \<Rightarrow>
            if r = ''type_guide_opt'' then bind_outcome (extracted_type child) (\<lambda>x. Ok (name, x, init))
            else if r = ''expression'' then bind_outcome (simp child) (\<lambda>i. Ok (name, ty, i))
            else Ok acc)))"

definition simplify_const_decl_no_semi :: "simplifier \<Rightarrow> node option list \<Rightarrow> node outcome" where
  "simplify_const_decl_no_semi simp cs =
     bind_outcome (fold_outcome (const_decl_child simp) ([], ''auto'', None) cs)
       (\<lambda>(name, ty, init). Ok (VarDecl name ty init Default_Storage))"

definition alias_part ::
  "string \<Rightarrow> node option list \<Rightarrow> node option \<Rightarrow> string \<times> (string \<times> string list) list \<Rightarrow>
    (string \<times> (string \<times> string list) list) outcome" where
  "alias_part r cs child x = (case x of (ty, tps) \<Rightarrow>
     if r = ''type_params_opt'' then bind_outcome (flatten_type_params child) (\<lambda>more. Ok (ty, tps @ more))
     else if r = ''dataType'' then bind_outcome (extracted_type child) (\<lambda>t. Ok (t, tps))
     else Ok x)"

definition simplify_type_alias_no_semi :: "node option list \<Rightarrow> node outcome" where
  "simplify_type_alias_no_semi cs =
     bind_outcome (fold_outcome (each_part False alias_part) ([], ''auto'', []) cs)
       (\<lambda>(name, ty, tps). Ok (TypeAlias name ty))"

definition simplify_module_decl :: "node option list \<Rightarrow> node" where
  "simplify_module_decl cs = (case filter (is_rule ''qualified_id'') cs of
       [] \<Rightarrow> ModuleDecl [] | c # _ \<Rightarrow> ModuleDecl (extract_qualified_id c))"

definition import_child :: "string \<times> string \<Rightarrow> node option \<Rightarrow> (string \<times> string) outcome" where
  "import_child acc child = (case raw_of child of
       None \<Rightarrow> Ok acc
     | Some (r, cs) \<Rightarrow>
         if r = ''qualified_id'' then Ok (extract_qualified_id child, snd acc)
         else if r = ''import_as_opt'' \<and> 2 \<le> length cs then
           bind_outcome (leaf_text (cs ! 1)) (\<lambda>v. Ok (fst acc, v))
         else Ok acc)"

text \<open>Without an alias the part after the last dot is the name of the import.\<close>

definition default_alias :: "string \<Rightarrow> string" where
  "default_alias name = rev (takeWhile (\<lambda>c. c \<noteq> CHR ''.'') (rev name))"

definition simplify_import_decl :: "node option list \<Rightarrow> node outcome" where
  "simplify_import_decl cs =
     bind_outcome (fold_outcome import_child ([], []) cs)
       (\<lambda>(name, alias). Ok (ImportDecl name (if alias = [] then default_alias name else alias)))"

declare flatten_struct_members.simps [simp del] flatten_actor_body.simps [simp del]

section \<open>Expressions\<close>

text \<open>A chain of operators of one level associates to the left; \<open>ts\<close> are the children of the tail.\<close>

function binary_tail :: "simplifier \<Rightarrow> node option \<Rightarrow> node option list \<Rightarrow> node option outcome" where
  "binary_tail simp left ts =
     (if ts = [] then Ok left
      else bind_outcome (leaf_text (ts ! 0)) (\<lambda>op.
        bind_outcome (needed_child simp 1 ts) (\<lambda>right.
        bind_outcome (needed left) (\<lambda>l.
          let chain = Some (BinaryExpr l op right) in
          if 2 < length ts then
            (case raw_of (ts ! 2) of None \<Rightarrow> Ok chain | Some (r, us) \<Rightarrow> binary_tail simp chain us)
          else Ok chain))))"
  by pat_completeness auto
termination
proof (relation "measure (\<lambda>(simp, left, ts). size_list tree_size ts)")
  fix simp :: simplifier and left ts op right l chain x r us
  assume "2 < length ts" "raw_of (ts ! 2) = Some x" "(r, us) = x"
  then have "Suc (size_list tree_size us) < Suc (size_list tree_size ts)" using size_child [of 2 ts] by auto
  then show "((simp, chain, us), (simp, left, ts)) \<in> measure (\<lambda>(simp, left, ts). size_list tree_size ts)" by simp
qed simp

definition simplify_binary_chain :: "simplifier \<Rightarrow> node option list \<Rightarrow> node option outcome" where
  "simplify_binary_chain simp cs =
     bind_outcome (simplified_child simp 0 cs) (\<lambda>left.
       if length cs < 2 then Ok left
       else (case raw_of (cs ! 1) of None \<Rightarrow> Ok left | Some (r, ts) \<Rightarrow> binary_tail simp left ts))"

text \<open>What follows a name: members, calls and indices.\<close>

definition member_name :: "node option \<Rightarrow> string" where
  "member_name p = (case leaf_of p of
       Some (t, v) \<Rightarrow> v
     | None \<Rightarrow> (case raw_of p of
         Some (r, cs) \<Rightarrow> if cs = [] then [] else (case leaf_of (cs ! 0) of Some (t, v) \<Rightarrow> v | None \<Rightarrow> [])
       | None \<Rightarrow> []))"

definition apply_trailer :: "simplifier \<Rightarrow> node \<Rightarrow> node option \<Rightarrow> node outcome" where
  "apply_trailer simp e p = (case raw_of p of
       None \<Rightarrow> Ok e
     | Some (r, cs) \<Rightarrow>
         if cs = [] then Ok e
         else bind_outcome (leaf_text (cs ! 0)) (\<lambda>kind.
           if kind = ''.'' then bind_outcome (child_at 1 cs) (\<lambda>m. Ok (MemberAccess e (member_name m)))
           else if kind = ''('' then
             bind_outcome (if 2 \<le> length cs then flatten_args simp (as_raw (cs ! 1)) else Ok []) (\<lambda>args. Ok (Call e args))
           else if kind = ''['' then bind_outcome (needed_child simp 1 cs) (\<lambda>i. Ok (Index e i))
           else Ok e))"

function apply_trailers :: "simplifier \<Rightarrow> node \<Rightarrow> node option list \<Rightarrow> node outcome" where
  "apply_trailers simp e ts =
     (if ts = [] then Ok e
      else bind_outcome (apply_trailer simp e (ts ! 0)) (\<lambda>e'.
        if 1 < length ts then
          (case raw_of (ts ! 1) of None \<Rightarrow> Ok e' | Some (r, us) \<Rightarrow> apply_trailers simp e' us)
        else Ok e'))"
  by pat_completeness auto
termination
proof (relation "measure (\<lambda>(simp, e, ts). size_list tree_size ts)")
  fix simp :: simplifier and e ts e' x r us
  assume "1 < length ts" "raw_of (ts ! 1) = Some x" "(r, us) = x"
  then have "Suc (size_list tree_size us) < Suc (size_list tree_size ts)" using size_child [of 1 ts] by auto
  then show "((simp, e', us), (simp, e, ts)) \<in> measure (\<lambda>(simp, e, ts). size_list tree_size ts)" by simp
qed simp

definition simplify_identifier_expr :: "simplifier \<Rightarrow> node option list \<Rightarrow> node outcome" where
  "simplify_identifier_expr simp cs =
     bind_outcome (text_at 0 cs) (\<lambda>name.
       if length cs < 2 then Ok (Identifier name)
       else (case raw_of (cs ! 1) of
           None \<Rightarrow> Ok (Identifier name)
         | Some (r, ts) \<Rightarrow> apply_trailers simp (Identifier name) ts))"

text \<open>
  What an assignment makes of its left-hand side. An element of anything but a variable, and anything
  that is no place at all, is returned as it is: the assignment is gone.
\<close>

definition assigned :: "node option \<Rightarrow> node option \<Rightarrow> node option outcome" where
  "assigned lhs val =
     (let assign = (\<lambda>f. bind_outcome (needed val) (\<lambda>v. Ok (Some (f v)))) in
      case lhs of
        Some (Identifier x) \<Rightarrow> assign (\<lambda>v. Assignment x None [] None v None)
      | Some (Index (Identifier x) i) \<Rightarrow> assign (\<lambda>v. Assignment x None [] None v (Some i))
      | Some (MemberAccess obj m) \<Rightarrow> assign (\<lambda>v. Assignment [] (Some obj) m None v None)
      | Some (UnaryExpr op operand) \<Rightarrow>
          if op = ''*'' then assign (\<lambda>v. Assignment [] None [] (Some operand) v None) else Ok lhs
      | _ \<Rightarrow> Ok lhs)"

definition simplify_assignment_expr :: "simplifier \<Rightarrow> node option list \<Rightarrow> node option outcome" where
  "simplify_assignment_expr simp cs =
     bind_outcome (simplified_child simp 0 cs) (\<lambda>lhs.
       if length cs < 2 then Ok lhs
       else (case raw_of (cs ! 1) of
           None \<Rightarrow> Ok lhs
         | Some (r, ts) \<Rightarrow>
             if length ts < 2 then Ok lhs else bind_outcome (simp (ts ! 1)) (assigned lhs)))"

text \<open>
  \<open>SimplifyUnary\<close>. With another number of children than one or two, and with two of which the first is
  no operator, the code simplifies the children and returns null.
\<close>

definition simplify_all :: "simplifier \<Rightarrow> node option list \<Rightarrow> node option list outcome" where
  "simplify_all simp cs = sequence_outcomes (map simp cs)"

definition unary_operator :: "node option \<Rightarrow> string option" where
  "unary_operator p = (case raw_of p of
       Some (r, cs) \<Rightarrow> if cs = [] then None else map_option snd (leaf_of (cs ! 0))
     | None \<Rightarrow> None)"

definition simplify_unary :: "simplifier \<Rightarrow> node option list \<Rightarrow> node option outcome" where
  "simplify_unary simp cs =
     (let give_up = bind_outcome (simplify_all simp cs) (\<lambda>_. Ok None);
          operand = (\<lambda>f. bind_outcome (needed_child simp 1 cs) (\<lambda>n. Ok (Some (f n))))
      in if length cs = 1 then simp (cs ! 0)
         else if length cs = 2 then
           (if map_option snd (leaf_of (cs ! 0)) = Some ''await'' then operand AwaitExpr
            else if map_option snd (leaf_of (cs ! 0)) = Some ''go'' then operand GoExpr
            else (case unary_operator (cs ! 0) of None \<Rightarrow> give_up | Some op \<Rightarrow> operand (UnaryExpr op)))
         else give_up)"

definition array_child :: "simplifier \<Rightarrow> node list \<Rightarrow> node option \<Rightarrow> node list outcome" where
  "array_child simp es child =
     (if is_rule ''arg_list_opt'' child then append_outcomes (Ok es) (flatten_args simp child) else Ok es)"

definition simplify_array_lit :: "simplifier \<Rightarrow> node option list \<Rightarrow> node outcome" where
  "simplify_array_lit simp cs = bind_outcome (fold_outcome (array_child simp) [] cs) (\<lambda>es. Ok (ArrayLiteral es))"

function flatten_entries :: "simplifier \<Rightarrow> node option \<Rightarrow> (node \<times> node) list outcome" where
  "flatten_entries simp p = (case raw_of p of
       None \<Rightarrow> Ok []
     | Some (r, cs) \<Rightarrow>
         if cs = [] then Ok []
         else if r = ''map_entry'' \<and> 3 \<le> length cs then
           bind_outcome (needed_child simp 0 cs) (\<lambda>k.
             bind_outcome (needed_child simp 2 cs) (\<lambda>v. Ok [(k, v)]))
         else fold_outcome (\<lambda>es c. append_outcomes (Ok es) (flatten_entries simp c)) [] cs)"
  by pat_completeness auto
termination
  by (relation "measure (\<lambda>(simp, p). tree_size p)") (auto intro: tree_sizes)

text \<open>The types of keys and values are the first two types; \<open>keyTypeName\<close> and \<open>valueTypeName\<close> start empty.\<close>

definition map_child ::
  "simplifier \<Rightarrow> string \<times> string \<times> (node \<times> node) list \<Rightarrow> node option \<Rightarrow> (string \<times> string \<times> (node \<times> node) list) outcome" where
  "map_child simp acc child = (case acc of (key, val, es) \<Rightarrow>
     if is_rule ''dataType'' child then
       (if key = [] then bind_outcome (extracted_type child) (\<lambda>t. Ok (t, val, es))
        else if val = [] then bind_outcome (extracted_type child) (\<lambda>t. Ok (key, t, es))
        else Ok acc)
     else if is_rule ''map_entry_list_opt'' child then
       bind_outcome (flatten_entries simp child) (\<lambda>more. Ok (key, val, es @ more))
     else Ok acc)"

definition simplify_map_lit :: "simplifier \<Rightarrow> node option list \<Rightarrow> node outcome" where
  "simplify_map_lit simp cs =
     bind_outcome (fold_outcome (map_child simp) ([], [], []) cs) (\<lambda>(key, val, es). Ok (MapLiteral es))"

text \<open>\<open>SimplifyPrimaryComptime\<close> gives null, and leaves the children alone, where it does not apply.\<close>

definition is_comptime_primary :: "node option list \<Rightarrow> bool" where
  "is_comptime_primary cs \<longleftrightarrow> map_option snd (leaf_of (cs ! 0)) = Some ''comptime''"

definition simplify_primary_comptime :: "simplifier \<Rightarrow> node option list \<Rightarrow> node outcome" where
  "simplify_primary_comptime simp cs = bind_outcome (simplified_child simp 1 cs) (\<lambda>b. Ok (Comptime b))"

section \<open>Statements\<close>

text \<open>
  A block, a list or a program: its first child is a statement, its second the rest of the list. The
  first child of a block is its brace.
\<close>

function block_chain :: "simplifier \<Rightarrow> node option list \<Rightarrow> node option list outcome" where
  "block_chain simp cs =
     (if cs = [] then Ok []
      else bind_outcome (simp (cs ! 0)) (\<lambda>item.
        append_outcomes (Ok (case item of None \<Rightarrow> [] | Some n \<Rightarrow> [Some n]))
          (if 1 < length cs then
             (case raw_of (cs ! 1) of None \<Rightarrow> Ok [] | Some (r, ds) \<Rightarrow> block_chain simp ds)
           else Ok [])))"
  by pat_completeness auto
termination
proof (relation "measure (\<lambda>(simp, cs). size_list tree_size cs)")
  fix simp :: simplifier and cs item x r ds
  assume "1 < length cs" "raw_of (cs ! 1) = Some x" "(r, ds) = x"
  then have "Suc (size_list tree_size ds) < Suc (size_list tree_size cs)" using size_child [of 1 cs] by auto
  then show "((simp, ds), (simp, cs)) \<in> measure (\<lambda>(simp, cs). size_list tree_size cs)" by simp
qed simp

definition simplify_block_chain :: "simplifier \<Rightarrow> node option list \<Rightarrow> node outcome" where
  "simplify_block_chain simp cs = bind_outcome (block_chain simp cs) (\<lambda>ss. Ok (Block ss))"

definition simplify_if_stmt :: "simplifier \<Rightarrow> node option list \<Rightarrow> node outcome" where
  "simplify_if_stmt simp cs =
     bind_outcome (needed_child simp 2 cs) (\<lambda>c. bind_outcome (needed_child simp 4 cs) (\<lambda>t.
       bind_outcome (if 5 < length cs then simplified_child simp 5 cs else Ok None) (\<lambda>e. Ok (IfStatement c t e))))"

definition simplify_while_stmt :: "simplifier \<Rightarrow> node option list \<Rightarrow> node outcome" where
  "simplify_while_stmt simp cs =
     bind_outcome (needed_child simp 2 cs) (\<lambda>c. bind_outcome (needed_child simp 4 cs) (\<lambda>b. Ok (WhileStatement c b)))"

text \<open>
  \<open>SimplifyIterStmt\<close> compares the rule name of a child with three names, also after the first
  comparison has moved the child away and its node is freed; the definition goes on with the name the
  node had.
\<close>

type_synonym iter_acc = "string \<times> node option \<times> node adapter list \<times> node option"

definition iter_child :: "simplifier \<Rightarrow> iter_acc \<Rightarrow> node option \<Rightarrow> iter_acc outcome" where
  "iter_child simp acc child = (case acc of (var, coll, adapters, body) \<Rightarrow>
     (case leaf_of child of
        Some (t, v) \<Rightarrow> Ok (if t = ''identifier'' then v else var, coll, adapters, body)
      | None \<Rightarrow> (case raw_of child of
          None \<Rightarrow> Ok acc
        | Some (r, cs) \<Rightarrow>
            if r = ''expression'' then bind_outcome (simp child) (\<lambda>c. Ok (var, c, adapters, body))
            else if r = ''block_stmt'' then bind_outcome (simp child) (\<lambda>b. Ok (var, coll, adapters, b))
            else if r = ''adapter_chain_opt'' then
              bind_outcome (flatten_iter_adapters simp child) (\<lambda>as. Ok (var, coll, adapters @ as, body))
            else Ok acc)))"

definition simplify_iter_stmt :: "simplifier \<Rightarrow> node option list \<Rightarrow> node outcome" where
  "simplify_iter_stmt simp cs =
     bind_outcome (fold_outcome (iter_child simp) ([], None, [], None) cs) (\<lambda>(var, coll, adapters, body).
       bind_outcome (needed coll) (\<lambda>c. bind_outcome (needed body) (\<lambda>b. Ok (Iter var c adapters b))))"

definition simplify_print_stmt :: "simplifier \<Rightarrow> node option list \<Rightarrow> node outcome" where
  "simplify_print_stmt simp cs = bind_outcome (needed_child simp 1 cs) (\<lambda>e. Ok (Print e))"

definition simplify_unsafe_stmt :: "simplifier \<Rightarrow> node option list \<Rightarrow> node option outcome" where
  "simplify_unsafe_stmt simp cs = (case filter (is_rule ''block_stmt'') cs of
       [] \<Rightarrow> Ok None | c # _ \<Rightarrow> bind_outcome (simp c) (\<lambda>b. Ok (Some (Unsafe b))))"

definition transaction_child ::
  "simplifier \<Rightarrow> region list \<times> node option \<Rightarrow> node option \<Rightarrow> (region list \<times> node option) outcome" where
  "transaction_child simp acc child =
     (if is_rule ''region_expr'' child \<or> is_rule ''region_expr_list'' child \<or> is_rule ''region_expr_list_tail'' child
      then Ok (collect_regions child (fst acc), snd acc)
      else if is_rule ''block_stmt'' child then bind_outcome (simp child) (\<lambda>b. Ok (fst acc, b))
      else Ok acc)"

definition simplify_transaction_stmt :: "simplifier \<Rightarrow> node option list \<Rightarrow> node outcome" where
  "simplify_transaction_stmt simp cs =
     bind_outcome (fold_outcome (transaction_child simp) ([], None) cs) (\<lambda>(rs, b). Ok (Transaction rs b))"

text \<open>The handlers of a \<open>handle\<close> statement; the key of an effect is set by a later pass.\<close>

type_synonym handler_acc = "string \<times> node parameter list \<times> node option"

definition handler_child :: "simplifier \<Rightarrow> handler_acc \<Rightarrow> node option \<Rightarrow> handler_acc outcome" where
  "handler_child simp acc child = (case acc of (name, ps, body) \<Rightarrow>
     (case leaf_of child of
        Some (t, v) \<Rightarrow> Ok (name_leaf name t v, ps, body)
      | None \<Rightarrow>
          if is_rule ''param_list_opt'' child then
            bind_outcome (flatten_params simp child) (\<lambda>more. Ok (name, ps @ more, body))
          else if is_rule ''block_stmt'' child then bind_outcome (simp child) (\<lambda>b. Ok (name, ps, b))
          else Ok acc))"

function flatten_handler_cases :: "simplifier \<Rightarrow> node option \<Rightarrow> node handler list outcome" where
  "flatten_handler_cases simp p = (case raw_of p of
       None \<Rightarrow> Ok []
     | Some (r, cs) \<Rightarrow>
         if r = ''EPSILON'' \<or> cs = [] then Ok []
         else if r = ''handler_list'' then
           fold_outcome (\<lambda>hs c. append_outcomes (Ok hs) (flatten_handler_cases simp c)) [] cs
         else if r = ''handler'' then
           bind_outcome (fold_outcome (handler_child simp) ([], [], None) cs) (\<lambda>(name, ps, body).
             Ok [Handler name [] ps body])
         else Ok [])"
  by pat_completeness auto
termination
  by (relation "measure (\<lambda>(simp, p). tree_size p)") (auto intro: tree_sizes)

definition handle_child ::
  "simplifier \<Rightarrow> node option \<times> node handler list \<Rightarrow> node option \<Rightarrow> (node option \<times> node handler list) outcome" where
  "handle_child simp acc child =
     (if is_rule ''expression'' child then bind_outcome (simp child) (\<lambda>e. Ok (e, snd acc))
      else if is_rule ''handler_list'' child then
        bind_outcome (flatten_handler_cases simp child) (\<lambda>hs. Ok (fst acc, snd acc @ hs))
      else Ok acc)"

definition simplify_handle_stmt :: "simplifier \<Rightarrow> node option list \<Rightarrow> node outcome" where
  "simplify_handle_stmt simp cs =
     bind_outcome (fold_outcome (handle_child simp) (None, []) cs) (\<lambda>(e, hs). Ok (Handle e hs))"

definition simplify_return_stmt :: "simplifier \<Rightarrow> node option list \<Rightarrow> node outcome" where
  "simplify_return_stmt simp cs =
     bind_outcome (if 1 < length cs then simp (cs ! 1) else Ok None) (\<lambda>v. Ok (Return v))"

section \<open>The dispatch\<close>

definition non_null :: "node outcome \<Rightarrow> node option outcome" where
  "non_null m = bind_outcome m (\<lambda>n. Ok (Some n))"

text \<open>The rules without a treatment of their own: a single child, or one before a semicolon, stands for the node.\<close>

definition is_semicolon :: "node option \<Rightarrow> bool" where
  "is_semicolon p = (case leaf_of p of Some (t, v) \<Rightarrow> v = '';'' | None \<Rightarrow> False)"

definition simplify_other :: "simplifier \<Rightarrow> string \<Rightarrow> node option list \<Rightarrow> node option outcome" where
  "simplify_other simp rule cs =
     (if length cs = 1 \<or> length cs = 2 \<and> is_semicolon (cs ! 1) then simp (cs ! 0)
      else bind_outcome (simplify_all simp cs) (\<lambda>ds. Ok (Some (Raw rule ds))))"

definition simplify_raw :: "simplifier \<Rightarrow> string \<Rightarrow> node option list \<Rightarrow> node option outcome" where
  "simplify_raw simp rule cs =
     (if rule = ''program'' \<or> rule = ''top_level_list'' \<or> rule = ''statement_list'' \<or> rule = ''block_stmt''
        then non_null (simplify_block_chain simp cs)
      else if rule = ''func_decl'' then non_null (simplify_func_decl simp cs)
      else if rule = ''export_decl'' then simplify_export_decl simp cs
      else if rule = ''struct_decl_no_semi'' then non_null (simplify_struct_decl simp cs)
      else if rule = ''enum_decl_no_semi'' then non_null (simplify_enum_decl cs)
      else if rule = ''interface_decl_no_semi'' then non_null (simplify_interface_decl simp cs)
      else if rule = ''effect_def_no_semi'' then non_null (simplify_effect_decl simp cs)
      else if rule = ''actor_decl_no_semi'' then non_null (simplify_actor_decl simp cs)
      else if rule = ''arrow_func'' then non_null (simplify_arrow_func simp cs)
      else if rule = ''var_decl_no_semi'' then non_null (simplify_var_decl_no_semi simp cs)
      else if rule = ''const_decl_no_semi'' then non_null (simplify_const_decl_no_semi simp cs)
      else if rule = ''type_alias_no_semi'' then non_null (simplify_type_alias_no_semi cs)
      else if rule = ''assignment_expr'' then simplify_assignment_expr simp cs
      else if rule = ''module_decl'' then Ok (Some (simplify_module_decl cs))
      else if rule = ''import_decl'' then non_null (simplify_import_decl cs)
      else if rule = ''if_stmt'' \<and> 5 \<le> length cs then non_null (simplify_if_stmt simp cs)
      else if rule = ''while_stmt'' \<and> 5 \<le> length cs then non_null (simplify_while_stmt simp cs)
      else if rule = ''iter_stmt'' then non_null (simplify_iter_stmt simp cs)
      else if rule = ''array_lit'' then non_null (simplify_array_lit simp cs)
      else if rule = ''map_lit'' then non_null (simplify_map_lit simp cs)
      else if rule = ''primary'' \<and> 2 \<le> length cs \<and> is_comptime_primary cs
        then non_null (simplify_primary_comptime simp cs)
      else if rule = ''print_stmt'' then non_null (simplify_print_stmt simp cs)
      else if rule = ''unsafe_stmt'' then simplify_unsafe_stmt simp cs
      else if rule = ''transaction_stmt'' then non_null (simplify_transaction_stmt simp cs)
      else if rule = ''handle_stmt'' then non_null (simplify_handle_stmt simp cs)
      else if rule = ''unary'' then simplify_unary simp cs
      else if rule = ''identifier_expr'' then non_null (simplify_identifier_expr simp cs)
      else if rule = ''return_stmt'' then non_null (simplify_return_stmt simp cs)
      else if rule = ''logic_or'' \<or> rule = ''logic_and'' \<or> rule = ''equality'' \<or> rule = ''relational''
        \<or> rule = ''additive'' \<or> rule = ''multiplicative'' then simplify_binary_chain simp cs
      else simplify_other simp rule cs)"

text \<open>\<open>Simplify\<close>: other nodes than leaves and inner nodes of the parse tree are returned as they are.\<close>

primrec simplify :: "nat \<Rightarrow> simplifier" where
  "simplify 0 p = Raise OutOfFuel"
| "simplify (Suc k) p =
     (case leaf_of p of
        Some (t, v) \<Rightarrow> non_null (simplify_leaf t v)
      | None \<Rightarrow> (case raw_of p of
          Some (r, cs) \<Rightarrow> simplify_raw (simplify k) r cs
        | None \<Rightarrow> Ok p))"

text \<open>The recursion goes into the tree, so the size of the tree is enough fuel.\<close>

definition build :: "node option \<Rightarrow> node outcome" where
  "build p = bind_outcome (simplify (tree_size p) p) (\<lambda>result.
     case result of
       None \<Rightarrow> Ok (Block [])
     | Some n \<Rightarrow> Ok (if is_block n then n else Block [Some n]))"

declare binary_tail.simps [simp del] apply_trailers.simps [simp del] block_chain.simps [simp del]
  flatten_entries.simps [simp del] flatten_handler_cases.simps [simp del]

end
