(* ===== verification/Agreement.thy ===== *)
theory Agreement
  imports Fragment
begin

text \<open>
  The code the bytecode generator emits for a program of the fragment does what the compile-time
  evaluator does: the same value is returned, the same exception raised, and the locals on the stack
  are the bindings of the evaluator at every statement.
\<close>

section \<open>Declaring, assigning and leaving\<close>

lemma update_slots:
  assumes "\<And>y i. (y, i) \<in> set s \<Longrightarrow> f i = h i"
  shows "AList.update x (h j) (map (\<lambda>(y, i). (y, f i)) s) = map (\<lambda>(y, i). (y, h i)) (AList.update x j s)"
  using assms by (induction s) auto

lemma update_snd: "set (map snd (AList.update x j s)) \<subseteq> insert j (snd ` set s)"
  by (induction s) auto

lemma update_distinct: "distinct (map snd s) \<Longrightarrow> j \<notin> snd ` set s \<Longrightarrow> distinct (map snd (AList.update x j s))"
proof (induction s)
  case (Cons p s)
  then show ?case using update_snd [of x j s] by (cases p) auto
qed simp

lemma table_ok_define:
  assumes ok: "table_ok t" and t: "scopes t = s # ss" and n: "next_index t < 255"
  shows "table_ok (t\<lparr>scopes := AList.update x (next_index t) s # ss, next_index := Suc (next_index t)\<rparr>)"
proof -
  let ?n = "next_index t"
  have dist: "distinct (map snd (concat (s # ss)))" and bound: "\<And>p. p \<in> set (concat (s # ss)) \<Longrightarrow> snd p < ?n"
    using ok by (simp_all add: table_ok_def t)
  have fresh: "?n \<notin> snd ` set (concat (s # ss))" using bound by fastforce
  have d: "snd ` set s \<inter> snd ` set (concat ss) = {}" "distinct (map snd s)" "distinct (map snd (concat ss))"
    "?n \<notin> snd ` set s" "?n \<notin> snd ` set (concat ss)"
    using dist fresh by auto
  have "A \<inter> C = {}" if "A \<subseteq> insert n B" "B \<inter> C = {}" "n \<notin> C" for A B C :: "nat set" and n
    using that by blast
  from this [OF update_snd [of x ?n s, unfolded set_map] d(1,5)]
  have "snd ` set (AList.update x ?n s) \<inter> snd ` set (concat ss) = {}" .
  then have "distinct (map snd (AList.update x ?n s) @ map snd (concat ss))"
    using update_distinct [OF d(2,4)] d(3) by simp
  then have d2: "distinct (map snd (concat (AList.update x ?n s # ss)))" by simp
  have b2: "snd p < Suc ?n" if "p \<in> set (concat (AList.update x ?n s # ss))" for p
  proof -
    from that have "snd p \<in> snd ` set (AList.update x ?n s) \<union> snd ` set (concat ss)" by auto
    then have "snd p \<in> insert ?n (snd ` set (concat (s # ss)))" using update_snd [of x ?n s] by auto
    moreover have "j < ?n" if "j \<in> snd ` set (concat (s # ss))" for j using that bound by auto
    ultimately show ?thesis by (metis insertE less_Suc_eq)
  qed
  show ?thesis
    unfolding table_ok_def using d2 b2 n by simp
qed

lemma agrees_define:
  assumes "agrees b S t (c # cs)" "length S = b + next_index t" "next_index t < 255" "scalar v"
  shows "\<exists>t'. define_symbol x t = (Ok (next_index t), t') \<and> agrees b (S @ [v]) t' (AList.update x v c # cs) \<and>
    tl (scopes t') = tl (scopes t) \<and> index_stack t' = index_stack t \<and> next_index t' = Suc (next_index t) \<and>
    scopes t' \<noteq> [] \<and> insert x (visible t) \<subseteq> visible t'"
proof -
  obtain ss rest where t: "scopes t = ss @ rest" "concat rest = []" "c # cs = slot_values b S ss"
    and slots: "\<And>s x i. s \<in> set ss \<Longrightarrow> (x, i) \<in> set s \<Longrightarrow> i < next_index t"
    and sc: "\<And>i. i < next_index t \<Longrightarrow> scalar (S ! (b + i))" and dist: "distinct (map snd (concat ss))"
    using assms(1) by (rule agreesE) blast
  from t(3) obtain s ss' where ss: "ss = s # ss'" by (cases ss) (simp_all add: slot_values_def)
  let ?n = "next_index t" and ?S = "S @ [v]"
  let ?t = "t\<lparr>scopes := AList.update x ?n s # ss' @ rest, next_index := Suc ?n\<rparr>"
  have val: "S ! (b + i) = ?S ! (b + i)" if "i < ?n" for i using that assms(2) by (simp add: nth_append)
  have c: "c = map (\<lambda>(y, i). (y, S ! (b + i))) s" and cs: "cs = slot_values b S ss'"
    using t(3) by (simp_all add: ss slot_values_def)
  have "v = ?S ! (b + ?n)" using assms(2) by (simp add: nth_append)
  then have "AList.update x v c = map (\<lambda>(y, i). (y, ?S ! (b + i))) (AList.update x ?n s)"
    using update_slots [of s "\<lambda>i. S ! (b + i)" "\<lambda>i. ?S ! (b + i)" x ?n] val slots [of s] unfolding c ss
    by auto
  moreover have "cs = slot_values b ?S ss'"
    unfolding cs using val slots by (intro slot_values_cong) (auto simp: ss)
  ultimately have "AList.update x v c # cs = slot_values b ?S (AList.update x ?n s # ss')"
    by (simp add: slot_values_def)
  moreover have "table_ok ?t"
    using assms(1,3) by (intro table_ok_define) (simp_all add: agrees_def t(1) ss)
  moreover have "scalar (?S ! (b + i))" if "i < Suc ?n" for i
  proof (cases "i = ?n")
    case True
    with assms(2,4) show ?thesis by (simp add: nth_append)
  next
    case False
    with that have "i < ?n" by simp
    from sc [OF this] val [OF this] show ?thesis by simp
  qed
  ultimately have "agrees b ?S ?t (AList.update x v c # cs)"
    using t(2) assms(2) unfolding agrees_def by (intro conjI exI [of _ "AList.update x ?n s # ss'"] exI [of _ rest]) auto
  moreover have "insert x (visible t) \<subseteq> visible ?t"
    by (auto simp: resolve_symbol_def t(1) ss update_conv' split: option.splits)
  moreover have "define_symbol x t = (Ok ?n, ?t)"
    using assms(3) by (simp add: define_symbol_def t(1) ss)
  ultimately show ?thesis by (auto simp: t(1) ss)
qed

lemma untouched: "i \<notin> snd ` set s \<Longrightarrow>
   map (\<lambda>(y, j). (y, S ! (b + j))) s = map (\<lambda>(y, j). (y, S[b + i := v] ! (b + j))) s"
  by (induction s) (auto simp: nth_list_update)

lemma update_other: "(x, i) \<in> set s \<Longrightarrow> distinct (map snd s) \<Longrightarrow> map_of s x = Some i \<Longrightarrow>
   b + i < length S \<Longrightarrow>
   AList.update x v (map (\<lambda>(y, j). (y, S ! (b + j))) s) = map (\<lambda>(y, j). (y, S[b + i := v] ! (b + j))) s"
proof (induction s)
  case (Cons p s)
  obtain y j where p: "p = (y, j)" by fastforce
  show ?case
  proof (cases "y = x")
    case True
    with Cons.prems p have j: "j = i" "i \<notin> snd ` set s" by auto
    from untouched [OF this(2)] True p j Cons.prems show ?thesis by simp
  next
    case False
    with Cons.prems p have "(x, i) \<in> set s" "j \<noteq> i" by (auto simp: rev_image_eqI)
    with Cons False p show ?thesis by (simp add: nth_list_update)
  qed
qed simp

lemma assign_slot_values:
  "resolve_in x ss = Some i \<Longrightarrow> distinct (map snd (concat ss)) \<Longrightarrow> b + i < length S \<Longrightarrow>
   assign_in x v (slot_values b S ss) = Some (slot_values b (S[b + i := v]) ss)"
proof (induction ss)
  case (Cons s ss)
  show ?case
  proof (cases "map_of s x")
    case None
    then have i: "resolve_in x ss = Some i" using Cons.prems by simp
    from resolve_in_slot [OF this] Cons.prems(2) have "i \<notin> snd ` set s" by (force simp: rev_image_eqI)
    from untouched [OF this, of S b v] Cons i None show ?thesis
      by (simp add: slot_values_def has_key_def map_of_values)
  next
    case (Some j)
    then have i: "map_of s x = Some i" using Cons.prems by simp
    from map_of_SomeD [OF this] have m: "(x, i) \<in> set s" .
    then have other: "i \<notin> snd ` set (concat ss)" using Cons.prems(2) by (force simp: rev_image_eqI)
    have "slot_values b S ss = slot_values b (S[b + i := v]) ss"
    proof (rule slot_values_cong)
      fix s y j
      assume "s \<in> set ss" "(y, j) \<in> set s"
      then have "(y, j) \<in> set (concat ss)" by auto
      from imageI [OF this, of snd] other have "j \<noteq> i" by auto
      then show "S ! (b + j) = S[b + i := v] ! (b + j)" by (simp add: nth_list_update)
    qed
    with update_other [OF m _ i Cons.prems(3)] Cons.prems i show ?thesis
      by (simp add: slot_values_def has_key_def map_of_values)
  qed
qed simp

lemma agrees_assign:
  assumes "agrees b S t bs" "resolve_symbol t x = Some i" "scalar v"
  shows "\<exists>bs'. assign_in x v bs = Some bs' \<and> agrees b (S[b + i := v]) t bs' \<and> length bs' = length bs"
proof -
  note l = agrees_lookup [OF assms(1,2)]
  obtain ss rest where t: "scopes t = ss @ rest" "concat rest = []" "bs = slot_values b S ss"
    and d: "distinct (map snd (concat ss))" and sc: "\<And>i. i < next_index t \<Longrightarrow> scalar (S ! (b + i))"
    using assms(1) by (rule agreesE) blast
  have "resolve_in x ss = Some i" using assms(2) t by (simp add: resolve_symbol_def resolve_in_append)
  from assign_slot_values [OF this d l(3)]
  have "assign_in x v bs = Some (slot_values b (S[b + i := v]) ss)" by (simp add: t(3))
  moreover have "agrees b (S[b + i := v]) t (slot_values b (S[b + i := v]) ss)"
    using assms(1,3) t(1,2) sc l(3) by (auto simp: agrees_def nth_list_update)
  ultimately show ?thesis by (simp add: t(3) slot_values_def)
qed

lemma agrees_enter:
  assumes "agrees b S t bs"
  shows "agrees b S (push_scope t) ([] # bs)"
proof -
  from assms obtain ss rest where "scopes t = ss @ rest" "concat rest = []" "bs = slot_values b S ss"
    unfolding agrees_def by blast
  then have "scopes (push_scope t) = ([] # ss) @ rest" "concat rest = []" "[] # bs = slot_values b S ([] # ss)"
    by (simp_all add: push_scope_def slot_values_def)
  then have "\<exists>ss rest. scopes (push_scope t) = ss @ rest \<and> concat rest = [] \<and> [] # bs = slot_values b S ss"
    by blast
  moreover have "table_ok (push_scope t)" using assms by (simp add: agrees_def table_ok_def push_scope_def)
  ultimately show ?thesis using assms unfolding agrees_def by (simp add: push_scope_def)
qed

lemma agrees_leave:
  assumes "agrees b S t' (c # cs)" "scopes t' = s # scopes t" "table_ok t" "next_index t \<le> next_index t'"
  shows "agrees b (take (b + next_index t) S) t cs"
proof -
  obtain ss rest where t: "scopes t' = ss @ rest" "concat rest = []" "c # cs = slot_values b S ss"
    and n: "b + next_index t' \<le> length S" and sc: "\<And>i. i < next_index t' \<Longrightarrow> scalar (S ! (b + i))"
    using assms(1) by (rule agreesE) blast
  from t(3) obtain s' ss' where ss: "ss = s' # ss'" by (cases ss) (simp_all add: slot_values_def)
  have scs: "scopes t = ss' @ rest" using t(1) assms(2) by (simp add: ss)
  have "cs = slot_values b S ss'" using t(3) by (simp add: ss slot_values_def)
  also have "\<dots> = slot_values b (take (b + next_index t) S) ss'"
  proof (rule slot_values_cong)
    fix s x i
    assume "s \<in> set ss'" "(x, i) \<in> set s"
    then have "(x, i) \<in> set (concat (scopes t))" by (auto simp: scs)
    with assms(3) have "snd (x, i) < next_index t" unfolding table_ok_def by blast
    then show "S ! (b + i) = take (b + next_index t) S ! (b + i)" by simp
  qed
  finally show ?thesis
    using assms(3,4) scs t(2) n sc by (auto simp: agrees_def)
qed

section \<open>Statements\<close>

definition limit_message :: string where
  "limit_message = ''comptime loop exceeded iteration limit''"

text \<open>Between statements the stack holds the locals and nothing else; \<open>q\<close> scopes of bindings are open.\<close>

definition boundary :: "host \<Rightarrow> nat \<Rightarrow> value list \<Rightarrow> symbol_table \<Rightarrow> eval_state \<Rightarrow> bool" where
  "boundary M q S t st \<longleftrightarrow> agrees (base_of M) S t (ev_bindings st) \<and> length S = base_of M + next_index t \<and>
     length (ev_bindings st) = q \<and> plain (ev_gen st)"

text \<open>
  The outcome of a statement: the locals go on agreeing, or the value to return is on top of the
  stack and a return instruction follows, or the exception is raised.
\<close>

definition runs_to :: "host \<Rightarrow> nat \<Rightarrow> nat \<Rightarrow> value list \<Rightarrow> nat \<Rightarrow> symbol_table \<Rightarrow> eval_result outcome \<Rightarrow>
    eval_state \<Rightarrow> bool" where
  "runs_to M q i S j t r st = (case r of
       Ok v \<Rightarrow> if snd v
         then scalar (fst v) \<and> (\<exists>j' S'. goes M i S j' (S' @ [fst v]) \<and>
           bytes_at (code_of M) j' [word_of_nat OP_RETURN] \<and> base_of M \<le> length S')
         else \<exists>S'. goes M i S j S' \<and> boundary M q S' t st
     | Raise (CppExc m) \<Rightarrow> m = limit_message \<or> fails M i S m
     | Raise _ \<Rightarrow> True)"

lemma runs_to_simps [simp]:
  "runs_to M q i S j t (Ok (v, True)) st = (scalar v \<and> (\<exists>j' S'. goes M i S j' (S' @ [v]) \<and>
     bytes_at (code_of M) j' [word_of_nat OP_RETURN] \<and> base_of M \<le> length S'))"
  "runs_to M q i S j t (Ok (v, False)) st = (\<exists>S'. goes M i S j S' \<and> boundary M q S' t st)"
  "runs_to M q i S j t (Raise (CppExc m)) st = (m = limit_message \<or> fails M i S m)"
  "runs_to M q i S j t (Raise OutOfFuel) st" "runs_to M q i S j t (Raise (Undefined m)) st"
  by (simp_all add: runs_to_def)

lemma runs_to_here: "boundary M q S t st \<Longrightarrow> \<not> snd v \<Longrightarrow> runs_to M q i S i t (Ok v) st"
  by (auto simp: runs_to_def intro!: exI [of _ S])

lemma goes_runs_to:
  assumes "goes M i S i' S'" "runs_to M q i' S' j t r st"
  shows "runs_to M q i S j t r st"
proof (cases r)
  case (Ok v)
  obtain u b where "v = (u, b)" by fastforce
  with Ok assms show ?thesis by (cases b) (auto intro: goes_trans)
next
  case (Raise e)
  with assms show ?thesis by (cases e) (auto intro: goes_fails)
qed

lemma runs_to_goes:
  assumes "runs_to M q i S j t r st" "\<And>S'. boundary M q S' t st \<Longrightarrow> goes M j S' l S'"
  shows "runs_to M q i S l t r st"
proof (cases r)
  case (Ok v)
  obtain u b where "v = (u, b)" by fastforce
  with Ok assms show ?thesis by (cases b) (auto intro: goes_trans)
next
  case (Raise e)
  with assms show ?thesis by (cases e) simp_all
qed

text \<open>The room the stack leaves above the locals.\<close>

definition roomy :: "nat \<Rightarrow> host \<Rightarrow> bool" where
  "roomy d M \<longleftrightarrow> base_of M + 256 + d \<le> STACK_MAX"

definition stmt_code :: "nat \<Rightarrow> nat \<Rightarrow> symbol_table \<Rightarrow> symbol_table \<Rightarrow> chunk \<Rightarrow> chunk \<Rightarrow>
    (nat \<Rightarrow> eval_result eval_proc) \<Rightarrow> bool" where
  "stmt_code d q t t' k k' m \<longleftrightarrow> (\<forall>M S ke st r st'.
     loaded M (size_of k) (size_of k') k' \<and> roomy d M \<and> boundary M q S t st \<and> m ke st = (r, st') \<longrightarrow>
     runs_to M q (size_of k) S (size_of k') t' r st')"

lemma stmt_codeI:
  assumes "\<And>M S ke st r st'. loaded M (size_of k) (size_of k') k' \<Longrightarrow> roomy d M \<Longrightarrow>
     boundary M q S t st \<Longrightarrow> m ke st = (r, st') \<Longrightarrow> runs_to M q (size_of k) S (size_of k') t' r st'"
  shows "stmt_code d q t t' k k' m"
  using assms unfolding stmt_code_def by blast

lemma stmt_codeD:
  "stmt_code d q t t' k k' m \<Longrightarrow> loaded M (size_of k) (size_of k') k' \<Longrightarrow> roomy d M \<Longrightarrow>
   boundary M q S t st \<Longrightarrow> m ke st = (r, st') \<Longrightarrow> runs_to M q (size_of k) S (size_of k') t' r st'"
  unfolding stmt_code_def by blast

lemma boundary_expr:
  assumes "boundary M q S t st" "roomy d M" "expr_code d t k k' e" "loaded M (size_of k) (size_of k') k'"
    "eval ke e st = (r, st')"
  shows "evaluates M (size_of k) S (size_of k') r"
proof -
  from assms(1) have "agrees (base_of M) S t (ev_bindings st)" and l: "length S = base_of M + next_index t"
    by (simp_all add: boundary_def)
  moreover from this have "next_index t < 256" by (simp add: agrees_def table_ok_def)
  ultimately show ?thesis
    using assms(2) l by (intro expr_codeD [OF assms(3,4) _ _ _ assms(5)]) (simp_all add: roomy_def)
qed

text \<open>What the generator does for a statement, and for the statements of a block.\<close>

definition stmt_ok :: "nat \<Rightarrow> string set \<Rightarrow> nat \<Rightarrow> node \<Rightarrow> bool" where
  "stmt_ok d V w n \<longleftrightarrow> (\<forall>rc kg k t g g'. plain g \<longrightarrow> V \<subseteq> visible t \<longrightarrow> table_ok t \<longrightarrow> next_index t + w \<le> 255 \<longrightarrow>
     pool_ok k \<longrightarrow> gen rc kg n (view k t g) = (Ok (), g') \<longrightarrow>
     (\<exists>k'. g' = view k' t g \<and> grows k k' \<and> (\<forall>q. stmt_code d q t t k k' (\<lambda>ke. eval ke n))))"

definition extends :: "symbol_table \<Rightarrow> symbol_table \<Rightarrow> bool" where
  "extends t t' \<longleftrightarrow> scopes t' \<noteq> [] \<and> tl (scopes t') = tl (scopes t) \<and> index_stack t' = index_stack t \<and>
     next_index t \<le> next_index t'"

definition stmts_ok :: "nat \<Rightarrow> string set \<Rightarrow> nat \<Rightarrow> node option list \<Rightarrow> bool" where
  "stmts_ok d V w ss \<longleftrightarrow> (\<forall>rc kg c k t g c' g'. plain g \<longrightarrow> V \<subseteq> visible t \<longrightarrow> table_ok t \<longrightarrow>
     next_index t + w \<le> 255 \<longrightarrow> c + w \<le> 255 \<longrightarrow> scopes t \<noteq> [] \<longrightarrow> pool_ok k \<longrightarrow>
     visit_statements (gen rc kg) c ss (view k t g) = (Ok c', g') \<longrightarrow>
     (\<exists>k' t'. g' = view k' t' g \<and> grows k k' \<and> extends t t' \<and> c' + next_index t = c + next_index t' \<and>
       (\<forall>q r0. \<not> snd r0 \<longrightarrow> stmt_code d (Suc q) t t' k k' (\<lambda>ke. eval_statements (eval ke) r0 ss))))"

text \<open>A statement's code starts where a fuel step of the evaluator does.\<close>

lemma stmt_code_eval:
  assumes "\<And>M S ke st r st'. loaded M (size_of k) (size_of k') k' \<Longrightarrow> roomy d M \<Longrightarrow>
     boundary M q S t st \<Longrightarrow> eval_node (eval ke) n st = (r, st') \<Longrightarrow>
     runs_to M q (size_of k) S (size_of k') t' r st'"
  shows "stmt_code d q t t' k k' (\<lambda>ke. eval ke n)"
proof (rule stmt_codeI)
  fix M S ke st r st'
  assume "loaded M (size_of k) (size_of k') k'" "roomy d M" "boundary M q S t st" "eval ke n st = (r, st')"
  then show "runs_to M q (size_of k) S (size_of k') t' r st'"
    using assms by (cases ke) auto
qed

subsection \<open>Return\<close>

text \<open>An optional expression, whose value is null when it is missing.\<close>

lemma gen_initial:
  assumes "\<And>e. v = Some e \<Longrightarrow> expr V d e" "plain g" "V \<subseteq> visible t" "pool_ok k"
    "visit_or_null (gen rc j) v (view k t g) = (Ok (), g1)"
  shows "\<exists>k1. g1 = view k1 t g \<and> grows k k1 \<and> (\<forall>q M S ke st r st'.
    loaded M (size_of k) (size_of k1) k1 \<longrightarrow> roomy d M \<longrightarrow> boundary M q S t st \<longrightarrow>
    eval_opt (eval ke) v st = (r, st') \<longrightarrow> evaluates M (size_of k) S (size_of k1) r \<and> st' = st)"
proof (cases v)
  case (Some e)
  from assms(5) have "gen rc j e (view k t g) = (Ok (), g1)" by (simp add: Some visit_or_null_def)
  from gen_expr [OF assms(1) [OF Some] assms(2,3) this assms(4)]
  obtain k1 where k1: "g1 = view k1 t g" "expr_code d t k k1 e" by blast
  have "st' = st" if "eval ke e st = (r, st')" for ke st r st'
    using eval_expr_pure [OF assms(1) [OF Some], of ke st] that by auto
  with k1 expr_code_grows [OF k1(2)] boundary_expr [OF _ _ k1(2)] show ?thesis
    unfolding Some eval_opt_def option.case by blast
next
  case None
  from None assms have "gen rc (Suc 0) (Leaf ''null'' []) (view k t g) = (Ok (), g1)"
    by (simp add: visit_or_null_def visit_node_def visit_leaf_def)
  from gen_literal [OF assms(2) _ this assms(4), of VNull "0"] obtain k1 where
    k1: "g1 = view k1 t g" "expr_code (Suc 0) t k k1 (Leaf ''null'' [])"
    by (auto simp: literal_value_def)
  have "evaluates M (size_of k) S (size_of k1) r \<and> st' = st"
    if l: "loaded M (size_of k) (size_of k1) k1" and m: "roomy d M" and b: "boundary M q S t st"
      and e: "eval_opt (eval ke) v st = (r, st')" for q M S ke st r st'
  proof -
    have r: "eval (Suc 0) (Leaf ''null'' []) st = (r, st')" "st' = st"
      using e by (simp_all add: None eval_opt_def eval_node_def)
    from b have "agrees (base_of M) S t (ev_bindings st)" "length S = base_of M + next_index t"
      by (simp_all add: boundary_def)
    moreover from this have "next_index t < 256" by (simp add: agrees_def table_ok_def)
    ultimately show ?thesis
      using m l r(2) by (intro conjI expr_codeD [OF k1(2) _ _ _ _ r(1)]) (simp_all add: roomy_def)
  qed
  with k1 expr_code_grows [OF k1(2)] show ?thesis by blast
qed

lemma stmt_ok_return:
  assumes "\<And>e. v = Some e \<Longrightarrow> expr V d e"
  shows "stmt_ok d V w (Return v)"
  unfolding stmt_ok_def
proof (intro allI impI)
  fix rc kg k t g g'
  assume p: "plain g" "V \<subseteq> visible t" "pool_ok k" and gen: "gen rc kg (Return v) (view k t g) = (Ok (), g')"
  obtain j where kg: "kg = Suc j" using gen by (cases kg) auto
  obtain g1 where g1: "visit_or_null (gen rc j) v (view k t g) = (Ok (), g1)"
    using gen kg by (auto simp: visit_node_def visit_return_def seqE_def elim!: bindE_eq_OkE)
  obtain k1 where k1: "visit_or_null (gen rc j) v (view k t g) = (Ok (), view k1 t g)" "grows k k1"
    "\<And>q M S ke st r st'. loaded M (size_of k) (size_of k1) k1 \<Longrightarrow> roomy d M \<Longrightarrow> boundary M q S t st \<Longrightarrow>
      eval_opt (eval ke) v st = (r, st') \<Longrightarrow> evaluates M (size_of k) S (size_of k1) r"
    using gen_initial [OF assms p g1] g1 by blast
  let ?bs = "[word_of_nat OP_RETURN] :: 8 word list"
  have "g' = view (add_code ?bs k1) t g"
    using gen return_view [OF p(1) k1(1)] by (simp add: kg visit_node_def)
  moreover have "grows k (add_code ?bs k1)" using k1(2) by (rule grows_trans) simp
  moreover have "stmt_code d q t t k (add_code ?bs k1) (\<lambda>ke. eval ke (Return v))" for q
  proof (rule stmt_code_eval)
    fix M S ke st r st'
    assume l: "loaded M (size_of k) (size_of (add_code ?bs k1)) (add_code ?bs k1)" and m: "roomy d M"
      and b: "boundary M q S t st" and e: "eval_node (eval ke) (Return v) st = (r, st')"
    note l1 = loaded_last [OF l k1(2)]
    obtain r1 st1 where r1: "eval_opt (eval ke) v st = (r1, st1)" by fastforce
    note ev = k1(3) [OF l1(1) m b r1]
    have base: "base_of M \<le> length S" using b by (simp add: boundary_def)
    show "runs_to M q (size_of k) S (size_of (add_code ?bs k1)) t r st'"
    proof (cases r1)
      case (Ok u)
      with e r1 have "r = Ok (fst u, True)" by (simp add: eval_node_def split: prod.splits)
      with ev Ok l1(2) base show ?thesis by auto
    next
      case (Raise x)
      with e r1 have "r = Raise x" by (simp add: eval_node_def)
      with ev Raise show ?thesis by (cases x) simp_all
    qed
  qed
  ultimately show "\<exists>k'. g' = view k' t g \<and> grows k k' \<and> (\<forall>q. stmt_code d q t t k k' (\<lambda>ke. eval ke (Return v)))"
    by blast
qed

subsection \<open>Conditions\<close>

lemma grows_first: "grows (add_code (w # bs) k) k' \<Longrightarrow> chunk_code k' ! size_of k = w"
  by (auto simp: grows_def prefix_def nth_append)

lemma loaded_jump:
  assumes "loaded M i j (patched (n + 1) k)" "i \<le> n" "n + 3 \<le> j" "n + 3 \<le> size_of k" "chunk_code k ! n = w"
  shows "bytes_at (code_of M) n [w, high_byte (size_of k - n - 3), low_byte (size_of k - n - 3)]"
proof -
  let ?k = "patched (n + 1) k" and ?d = "size_of k - n - 3"
  have l: "loaded M n (n + 3) ?k" using assms(1-3) by (rule loaded_part)
  have "size_of k < 65536" using assms(1) by (auto simp: loaded_def hosting_def)
  then have "(size_of k - (n + 1) - 2) mod 65536 = ?d" by simp
  then have c: "chunk_code ?k ! n = w" "chunk_code ?k ! (n + 1) = high_byte ?d" "chunk_code ?k ! (n + 2) = low_byte ?d"
    using assms(4,5) by (simp_all add: patched_def Let_def)
  show ?thesis
  proof (rule loaded_bytes [OF l])
    fix p
    assume "p < length [w, high_byte ?d, low_byte ?d]"
    then consider "p = 0" | "p = 1" | "p = 2" by (simp, linarith)
    then show "chunk_code ?k ! (n + p) = [w, high_byte ?d, low_byte ?d] ! p" using c by cases simp_all
  qed simp
qed

definition branches :: "host \<Rightarrow> nat \<Rightarrow> value list \<Rightarrow> nat \<Rightarrow> nat \<Rightarrow> bool outcome \<Rightarrow> bool" where
  "branches M i S yes no r = (case r of
       Ok b \<Rightarrow> goes M i S (if b then yes else no) S
     | Raise (CppExc m) \<Rightarrow> fails M i S m
     | Raise _ \<Rightarrow> True)"

lemma condition_branches:
  assumes "expr V d c" "expr_code d t k k1 c" "loaded M (size_of k) (size_of k1) k1"
    "bytes_at (code_of M) (size_of k1) [word_of_nat OP_JUMP_IF_FALSE, high_byte n, low_byte n]"
    "size_of k1 + 3 + n \<le> length (code_of M)" "boundary M q S t st" "roomy d M"
    "eval_condition (eval ke) c st = (r, st')"
  shows "st' = st \<and> branches M (size_of k) S (size_of k1 + 3) (size_of k1 + 3 + n) r"
proof -
  obtain rc where rc: "eval ke c st = (rc, st)" using eval_expr_pure [OF assms(1)] by blast
  note ev = boundary_expr [OF assms(6,7,2,3) rc]
  note h = loaded_hosting [OF assms(3)]
  have base: "base_of M \<le> length S" using assms(6) by (simp add: boundary_def)
  show ?thesis
  proof (cases rc)
    case (Raise e)
    with ev assms(8) rc show ?thesis by (cases e) (auto simp: eval_condition_def branches_def)
  next
    case (Ok v)
    with ev have g: "goes M (size_of k) S (size_of k1) (S @ [fst v])" by simp
    from Ok rc assms(8) have r: "r = as_bool (fst v)" "st' = st"
      by (auto simp: eval_condition_def split: prod.splits)
    show ?thesis
    proof (cases "as_bool (fst v)")
      case (Ok b)
      from goes_trans [OF g goes_branch [OF h assms(4,5) base this]] show ?thesis
        by (simp add: r Ok branches_def)
    next
      case (Raise e)
      with goes_fails [OF g fails_branch [OF h assms(4) base]] show ?thesis
        by (cases e) (simp_all add: r branches_def)
    qed
  qed
qed

subsection \<open>While\<close>

lemma while_runs:
  assumes cond: "\<And>S st r st'. boundary M q S t st \<Longrightarrow> eval_condition (eval ke) c st = (r, st') \<Longrightarrow>
      st' = st \<and> branches M i S yes no r"
    and body: "\<And>S st r st'. boundary M q S t st \<Longrightarrow> eval ke b st = (r, st') \<Longrightarrow> runs_to M q yes S back t r st'"
    and loop: "\<And>S. goes M back S i S"
  shows "boundary M q S t st \<Longrightarrow> eval_while (eval ke) c b left st = (r, st') \<Longrightarrow> runs_to M q i S no t r st'"
proof (induction left arbitrary: S st)
  case 0
  obtain rc sc where rc: "eval_condition (eval ke) c st = (rc, sc)" by fastforce
  from cond [OF 0(1) this] have c: "sc = st" "branches M i S yes no rc" by blast+
  show ?case
  proof (cases rc)
    case (Ok b)
    with c rc 0 show ?thesis
      by (cases b) (auto simp: branches_def limit_message_def)
  next
    case (Raise e)
    with c rc 0 show ?thesis by (cases e) (auto simp: branches_def)
  qed
next
  case (Suc left)
  obtain rc sc where rc: "eval_condition (eval ke) c st = (rc, sc)" by fastforce
  from cond [OF Suc.prems(1) this] have c: "sc = st" "branches M i S yes no rc" by blast+
  show ?case
  proof (cases rc)
    case (Raise e)
    with c rc Suc.prems show ?thesis by (cases e) (auto simp: branches_def)
  next
    case (Ok go)
    show ?thesis
    proof (cases go)
      case False
      with Ok c rc Suc.prems show ?thesis by (auto simp: branches_def)
    next
      case True
      with Ok c have g: "goes M i S yes S" by (simp add: branches_def)
      obtain rb sb where rb: "eval ke b st = (rb, sb)" by fastforce
      note br = body [OF Suc.prems(1) rb]
      have e: "eval_while (eval ke) c b (Suc left) st = (case rb of
          Ok v \<Rightarrow> if snd v then (Ok v, sb) else eval_while (eval ke) c b left sb | Raise e \<Rightarrow> (Raise e, sb))"
        using rc Ok c(1) True rb by (cases rb) simp_all
      have "runs_to M q yes S no t r st'"
      proof (cases rb)
        case (Raise x)
        with e Suc.prems br show ?thesis by (cases x) auto
      next
        case (Ok v)
        obtain u f where v: "v = (u, f)" by fastforce
        show ?thesis
        proof (cases f)
          case True
          with Ok v e Suc.prems br show ?thesis by auto
        next
          case False
          with br Ok v obtain S' where S': "goes M yes S back S'" "boundary M q S' t sb" by auto
          have "eval_while (eval ke) c b left sb = (r, st')" using e Suc.prems(2) Ok v False by simp
          from goes_runs_to [OF goes_trans [OF S'(1) loop] Suc.IH [OF S'(2) this]] show ?thesis .
        qed
      qed
      with g show ?thesis by (rule goes_runs_to)
    qed
  qed
qed

lemma stmt_ok_while:
  assumes "expr V d c" "stmt_ok d V w b"
  shows "stmt_ok d V w (WhileStatement c b)"
  unfolding stmt_ok_def
proof (intro allI impI)
  fix rc kg k t g g'
  assume p: "plain g" "V \<subseteq> visible t" "table_ok t" "next_index t + w \<le> 255" "pool_ok k"
    and gen: "gen rc kg (WhileStatement c b) (view k t g) = (Ok (), g')"
  obtain j where kg: "kg = Suc j" using gen by (cases kg) auto
  obtain g1 where g1: "gen rc j c (view k t g) = (Ok (), g1)"
    using gen p(1) by (auto simp: kg visit_node_def visit_while_def seqE_def elim!: bindE_eq_OkE)
  from gen_expr [OF assms(1) p(1,2) g1 p(5)] obtain k1 where k1: "g1 = view k1 t g" "expr_code d t k k1 c" by blast
  let ?kj = "add_code [word_of_nat OP_JUMP_IF_FALSE, low_byte 255, low_byte 255] k1"
  obtain g2 where g2: "gen rc j b (view ?kj t g) = (Ok (), g2)"
    using gen p(1) g1 by (auto simp: kg k1(1) visit_node_def visit_while_def seqE_def elim!: bindE_eq_OkE)
  have kj: "pool_ok ?kj" "grows k k1"
    using p(5) expr_code_grows [OF k1(2)] by (simp_all add: grows_def)
  from assms(2) p(1-4) kj(1) g2 obtain k2 where k2: "g2 = view k2 t g" "grows ?kj k2"
    "\<And>q. stmt_code d q t t ?kj k2 (\<lambda>ke. eval ke b)"
    unfolding stmt_ok_def by blast
  let ?off = "loop_offset (size_of k) k2"
  let ?kl = "add_code [word_of_nat OP_LOOP, high_byte ?off, low_byte ?off] k2"
  let ?k = "patched (size_of k1 + 1) ?kl"
  have "g' = view ?k t g"
    using gen p(1) g1 g2 by (simp add: kg k1(1) k2(1) visit_node_def visit_while_def)
  moreover have gk: "grows k ?k"
    using grows_trans [OF kj(2) grows_trans [OF grows_add grows_trans [OF k2(2) grows_add]]] grows_size [OF kj(2)]
    by (intro grows_patched) auto
  moreover have "stmt_code d q t t k ?k (\<lambda>ke. eval ke (WhileStatement c b))" for q
  proof (rule stmt_code_eval)
    fix M S ke st r st'
    assume l: "loaded M (size_of k) (size_of ?k) ?k" and m: "roomy d M" and bd: "boundary M q S t st"
      and e: "eval_node (eval ke) (WhileStatement c b) st = (r, st')"
    have s: "size_of k \<le> size_of k1" "size_of k1 + 3 \<le> size_of k2"
      using grows_size [OF kj(2)] grows_size [OF k2(2)] by simp_all
    let ?n = "size_of ?kl - size_of k1 - 3"
    from loaded_jump [OF l s(1) _ _ grows_first [OF grows_trans [OF k2(2) grows_add]]] s
    have jif: "bytes_at (code_of M) (size_of k1) [word_of_nat OP_JUMP_IF_FALSE, high_byte ?n, low_byte ?n]" by simp
    have lc: "loaded M (size_of k) (size_of k1) k1"
    proof -
      have "loaded M (size_of k) (size_of k1) ?kl"
        using s by (intro loaded_patched [OF loaded_part [OF l]]) simp_all
      then show ?thesis
        by (rule loaded_grows [OF _ grows_trans [OF grows_add grows_trans [OF k2(2) grows_add]]]) simp
    qed
    have ll: "loaded M (size_of ?kj) (size_of ?kl) ?kl"
      using s by (intro loaded_patched [OF loaded_part [OF l]]) simp_all
    note lb = loaded_last [OF ll k2(2)]
    have len: "size_of ?kl \<le> length (code_of M)" "length (code_of M) < 65536"
      using l by (simp_all add: loaded_def hosting_def)
    then have off: "?off = size_of k2 + 3 - size_of k" using s by (simp add: loop_offset_def)
    have loop: "goes M (size_of k2) S (size_of k) S" for S
      using goes_loop [OF loaded_hosting [OF l] lb(2), of S] s len by (simp add: off)
    have "runs_to M q (size_of k) S (size_of k1 + 3 + ?n) t r st'"
    proof (rule while_runs [OF _ _ loop bd])
      show "eval_while (eval ke) c b iteration_limit st = (r, st')" using e by (simp add: eval_node_def)
      fix S and st :: eval_state
      assume bd: "boundary M q S t st"
      show "st' = st \<and> branches M (size_of k) S (size_of k1 + 3) (size_of k1 + 3 + ?n) r"
        if "eval_condition (eval ke) c st = (r, st')" for r st'
        using len s by (intro condition_branches [OF assms(1) k1(2) lc jif _ bd m that]) simp
      show "runs_to M q (size_of k1 + 3) S (size_of k2) t r st'" if "eval ke b st = (r, st')" for r st'
        using stmt_codeD [OF k2(3) lb(1) m bd that] by (simp add: numeral_3_eq_3)
    qed
    then show "runs_to M q (size_of k) S (size_of ?k) t r st'" using s by (simp add: numeral_3_eq_3)
  qed
  ultimately show "\<exists>k'. g' = view k' t g \<and> grows k k' \<and>
      (\<forall>q. stmt_code d q t t k k' (\<lambda>ke. eval ke (WhileStatement c b)))"
    by blast
qed

subsection \<open>If\<close>

text \<open>What the evaluator makes of a conditional, given the pieces of the code.\<close>

lemma if_runs:
  assumes cond: "eval_condition (eval ke) c st = (rc, st1)" "st1 = st \<and> branches M i S yes no rc"
    and yes: "\<And>r st'. eval ke s st = (r, st') \<Longrightarrow> runs_to M q yes S j t r st'"
    and no: "\<And>r st'. eval_opt (eval ke) els st = (r, st') \<Longrightarrow> runs_to M q no S j t r st'"
    and eval: "eval_node (eval ke) (IfStatement c s els) st = (r, st')"
  shows "runs_to M q i S j t r st'"
proof (cases rc)
  case (Raise e)
  with cond eval show ?thesis by (cases e) (auto simp: eval_node_def branches_def)
next
  case (Ok b)
  with cond have g: "goes M i S (if b then yes else no) S" by (simp add: branches_def)
  from Ok cond eval have "(if b then eval ke s st else eval_opt (eval ke) els st) = (r, st')"
    by (simp add: eval_node_def split: if_splits)
  then show ?thesis using g yes no by (cases b) (auto intro: goes_runs_to)
qed

lemma stmt_ok_if_else:
  assumes "expr V d c" "stmt_ok d V w s" "stmt_ok d V w e"
  shows "stmt_ok d V w (IfStatement c s (Some e))"
  unfolding stmt_ok_def
proof (intro allI impI)
  fix rc kg k t g g'
  assume p: "plain g" "V \<subseteq> visible t" "table_ok t" "next_index t + w \<le> 255" "pool_ok k"
    and gen: "gen rc kg (IfStatement c s (Some e)) (view k t g) = (Ok (), g')"
  obtain j where kg: "kg = Suc j" using gen by (cases kg) auto
  note unfold_if = kg visit_node_def visit_if_def
  obtain g1 where g1: "gen rc j c (view k t g) = (Ok (), g1)"
    using gen p(1) by (auto simp: unfold_if seqE_def elim!: bindE_eq_OkE)
  from gen_expr [OF assms(1) p(1,2) g1 p(5)] obtain k1 where k1: "g1 = view k1 t g" "expr_code d t k k1 c" by blast
  let ?kj = "add_code [word_of_nat OP_JUMP_IF_FALSE, low_byte 255, low_byte 255] k1"
  obtain g2 where g2: "gen rc j s (view ?kj t g) = (Ok (), g2)"
    using gen p(1) g1 by (auto simp: k1(1) unfold_if seqE_def elim!: bindE_eq_OkE)
  have kj: "pool_ok ?kj" "grows k k1"
    using p(5) expr_code_grows [OF k1(2)] by (simp_all add: grows_def)
  from assms(2) p(1-4) kj(1) g2 obtain k2 where k2: "g2 = view k2 t g" "grows ?kj k2"
    "\<And>q. stmt_code d q t t ?kj k2 (\<lambda>ke. eval ke s)"
    unfolding stmt_ok_def by blast
  let ?ke = "add_code [word_of_nat OP_JUMP, low_byte 255, low_byte 255] k2"
  let ?kp = "patched (size_of k1 + 1) ?ke"
  obtain g3 where g3: "gen rc j e (view ?kp t g) = (Ok (), g3)"
    using gen p(1) g1 g2 by (auto simp: k1(1) k2(1) unfold_if seqE_def elim!: bindE_eq_OkE)
  have kp: "pool_ok ?kp" using k2(2) kj(1) by (simp add: grows_def)
  from assms(3) p(1-4) kp g3 obtain k3 where k3: "g3 = view k3 t g" "grows ?kp k3"
    "\<And>q. stmt_code d q t t ?kp k3 (\<lambda>ke. eval ke e)"
    unfolding stmt_ok_def by blast
  let ?k = "patched (size_of k2 + 1) k3"
  have s: "size_of k \<le> size_of k1" "size_of k1 + 3 \<le> size_of k2" "size_of k2 + 3 \<le> size_of k3"
    using grows_size [OF kj(2)] grows_size [OF k2(2)] grows_size [OF k3(2)] by simp_all
  note g12 = grows_trans [OF grows_add k2(2)]
  note g1e = grows_trans [OF g12 grows_add, of "[word_of_nat OP_JUMP, low_byte 255, low_byte 255]"]
  have gk: "grows k ?k"
    using grows_patched [OF grows_trans [OF kj(2) g1e], of "size_of k1 + 1"] k3(2) s
    by (intro grows_patched) (auto intro: grows_trans)
  have "g' = view ?k t g"
    using gen p(1) g1 g2 g3 by (simp add: k1(1) k2(1) k3(1) unfold_if)
  moreover have "stmt_code d q t t k ?k (\<lambda>ke. eval ke (IfStatement c s (Some e)))" for q
  proof (rule stmt_code_eval)
    fix M S ke st r st'
    assume l: "loaded M (size_of k) (size_of ?k) ?k" and m: "roomy d M" and bd: "boundary M q S t st"
      and ev: "eval_node (eval ke) (IfStatement c s (Some e)) st = (r, st')"
    have l3: "loaded M i j k3" if "size_of k \<le> i" "j \<le> size_of k3" "j \<le> size_of k2 + 1 \<or> size_of k2 + 3 \<le> i" for i j
      using that by (intro loaded_patched [OF loaded_part [OF l]]) auto
    have lp: "loaded M i j ?kp" if "size_of k \<le> i" "j \<le> size_of k2 + 1" for i j
      using that s by (intro loaded_grows [OF l3 k3(2)]) simp_all
    have le: "loaded M i j ?ke" if "size_of k \<le> i" "j \<le> size_of k2" "j \<le> size_of k1 + 1 \<or> size_of k1 + 3 \<le> i" for i j
      using that by (intro loaded_patched [OF lp]) auto
    have lc: "loaded M (size_of k) (size_of k1) k1" using s by (intro loaded_grows [OF le g1e]) simp_all
    have ls: "loaded M (size_of ?kj) (size_of k2) k2" using s by (intro loaded_grows [OF le grows_add]) simp_all
    have lo: "loaded M (size_of ?kp) (size_of k3) k3" using s by (intro l3) simp_all
    let ?n = "size_of ?ke - size_of k1 - 3" and ?m = "size_of k3 - size_of k2 - 3"
    have jif: "bytes_at (code_of M) (size_of k1) [word_of_nat OP_JUMP_IF_FALSE, high_byte ?n, low_byte ?n]"
      using s by (intro loaded_jump [OF lp [OF order_refl order_refl] _ _ _ grows_first [OF grows_trans [OF k2(2) grows_add]]]) simp_all
    have "chunk_code k3 ! size_of k2 = chunk_code ?kp ! size_of k2"
      using k3(2) by (auto simp: grows_def prefix_def nth_append)
    also have "\<dots> = word_of_nat OP_JUMP" using s by (simp add: patched_def Let_def nth_append)
    finally have jmp: "bytes_at (code_of M) (size_of k2) [word_of_nat OP_JUMP, high_byte ?m, low_byte ?m]"
      using s by (intro loaded_jump [OF l]) simp_all
    have len: "size_of k3 \<le> length (code_of M)" using l by (simp add: loaded_def)
    obtain rb st1 where cond: "eval_condition (eval ke) c st = (rb, st1)" by fastforce
    have br: "st1 = st \<and> branches M (size_of k) S (size_of k1 + 3) (size_of k1 + 3 + ?n) rb"
      using len s by (intro condition_branches [OF assms(1) k1(2) lc jif _ bd m cond]) simp
    show "runs_to M q (size_of k) S (size_of ?k) t r st'"
    proof (rule if_runs [OF cond br _ _ ev])
      show "runs_to M q (size_of k1 + 3) S (size_of ?k) t r st'" if "eval ke s st = (r, st')" for r st'
      proof (rule runs_to_goes)
        show "runs_to M q (size_of k1 + 3) S (size_of k2) t r st'"
          using stmt_codeD [OF k2(3) ls m bd that] by (simp add: numeral_3_eq_3)
        show "goes M (size_of k2) S' (size_of ?k) S'" for S'
          using goes_jump [OF loaded_hosting [OF l] jmp, of S'] len s by simp
      qed
      show "runs_to M q (size_of k1 + 3 + ?n) S (size_of ?k) t r st'"
        if "eval_opt (eval ke) (Some e) st = (r, st')" for r st'
        using stmt_codeD [OF k3(3) lo m bd, of ke r st'] that s by (simp add: eval_opt_def numeral_3_eq_3)
    qed
  qed
  ultimately show "\<exists>k'. g' = view k' t g \<and> grows k k' \<and>
      (\<forall>q. stmt_code d q t t k k' (\<lambda>ke. eval ke (IfStatement c s (Some e))))"
    using gk by blast
qed

lemma stmt_ok_if:
  assumes "expr V d c" "stmt_ok d V w s"
  shows "stmt_ok d V w (IfStatement c s None)"
  unfolding stmt_ok_def
proof (intro allI impI)
  fix rc kg k t g g'
  assume p: "plain g" "V \<subseteq> visible t" "table_ok t" "next_index t + w \<le> 255" "pool_ok k"
    and gen: "gen rc kg (IfStatement c s None) (view k t g) = (Ok (), g')"
  obtain j where kg: "kg = Suc j" using gen by (cases kg) auto
  note unfold_if = kg visit_node_def visit_if_def
  obtain g1 where g1: "gen rc j c (view k t g) = (Ok (), g1)"
    using gen p(1) by (auto simp: unfold_if seqE_def elim!: bindE_eq_OkE)
  from gen_expr [OF assms(1) p(1,2) g1 p(5)] obtain k1 where k1: "g1 = view k1 t g" "expr_code d t k k1 c" by blast
  let ?kj = "add_code [word_of_nat OP_JUMP_IF_FALSE, low_byte 255, low_byte 255] k1"
  obtain g2 where g2: "gen rc j s (view ?kj t g) = (Ok (), g2)"
    using gen p(1) g1 by (auto simp: k1(1) unfold_if seqE_def elim!: bindE_eq_OkE)
  have kj: "pool_ok ?kj" "grows k k1"
    using p(5) expr_code_grows [OF k1(2)] by (simp_all add: grows_def)
  from assms(2) p(1-4) kj(1) g2 obtain k2 where k2: "g2 = view k2 t g" "grows ?kj k2"
    "\<And>q. stmt_code d q t t ?kj k2 (\<lambda>ke. eval ke s)"
    unfolding stmt_ok_def by blast
  let ?k = "patched (size_of k1 + 1) k2"
  have s: "size_of k \<le> size_of k1" "size_of k1 + 3 \<le> size_of k2"
    using grows_size [OF kj(2)] grows_size [OF k2(2)] by simp_all
  have gk: "grows k ?k"
    using grows_trans [OF kj(2) grows_trans [OF grows_add k2(2)]] s by (intro grows_patched) simp_all
  have "g' = view ?k t g"
    using gen p(1) g1 g2 by (simp add: k1(1) k2(1) unfold_if)
  moreover have "stmt_code d q t t k ?k (\<lambda>ke. eval ke (IfStatement c s None))" for q
  proof (rule stmt_code_eval)
    fix M S ke st r st'
    assume l: "loaded M (size_of k) (size_of ?k) ?k" and m: "roomy d M" and bd: "boundary M q S t st"
      and ev: "eval_node (eval ke) (IfStatement c s None) st = (r, st')"
    have lk: "loaded M i j k2" if "size_of k \<le> i" "j \<le> size_of k2" "j \<le> size_of k1 + 1 \<or> size_of k1 + 3 \<le> i" for i j
      using that by (intro loaded_patched [OF loaded_part [OF l]]) auto
    have lc: "loaded M (size_of k) (size_of k1) k1"
      using s by (intro loaded_grows [OF lk grows_trans [OF grows_add k2(2)]]) simp_all
    have ls: "loaded M (size_of ?kj) (size_of k2) k2" using s by (intro lk) simp_all
    let ?n = "size_of k2 - size_of k1 - 3"
    have jif: "bytes_at (code_of M) (size_of k1) [word_of_nat OP_JUMP_IF_FALSE, high_byte ?n, low_byte ?n]"
      using s by (intro loaded_jump [OF l _ _ _ grows_first [OF k2(2)]]) simp_all
    have len: "size_of k2 \<le> length (code_of M)" using l by (simp add: loaded_def)
    obtain rb st1 where cond: "eval_condition (eval ke) c st = (rb, st1)" by fastforce
    have br: "st1 = st \<and> branches M (size_of k) S (size_of k1 + 3) (size_of k1 + 3 + ?n) rb"
      using len s by (intro condition_branches [OF assms(1) k1(2) lc jif _ bd m cond]) simp
    show "runs_to M q (size_of k) S (size_of ?k) t r st'"
    proof (rule if_runs [OF cond br _ _ ev])
      show "runs_to M q (size_of k1 + 3) S (size_of ?k) t r st'" if "eval ke s st = (r, st')" for r st'
        using stmt_codeD [OF k2(3) ls m bd that] by (simp add: numeral_3_eq_3)
      show "runs_to M q (size_of k1 + 3 + ?n) S (size_of ?k) t r st'"
        if "eval_opt (eval ke) None st = (r, st')" for r st'
        using that runs_to_here [OF bd, of "(VNull, False)"] s by (auto simp: eval_opt_def)
    qed
  qed
  ultimately show "\<exists>k'. g' = view k' t g \<and> grows k k' \<and>
      (\<forall>q. stmt_code d q t t k k' (\<lambda>ke. eval ke (IfStatement c s None)))"
    using gk by blast
qed

end
