(* ===== verification/Blocks.thy ===== *)
theory Blocks
  imports Agreement
begin

text \<open>
  Statement lists and blocks: declarations grow the table of locals, a block pops what it declared,
  and every statement of the fragment is compiled to code that does what the evaluator does.
\<close>

subsection \<open>The statements of a block\<close>

lemma stmts_okI:
  assumes "\<And>rc kg c k t g c' g'. plain g \<Longrightarrow> V \<subseteq> visible t \<Longrightarrow> table_ok t \<Longrightarrow> next_index t + w \<le> 255 \<Longrightarrow>
     c + w \<le> 255 \<Longrightarrow> scopes t \<noteq> [] \<Longrightarrow> pool_ok k \<Longrightarrow>
     visit_statements (gen rc kg) c ss (view k t g) = (Ok c', g') \<Longrightarrow>
     \<exists>k' t'. g' = view k' t' g \<and> grows k k' \<and> extends t t' \<and> c' + next_index t = c + next_index t' \<and>
       (\<forall>q r0. \<not> snd r0 \<longrightarrow> stmt_code d (Suc q) t t' k k' (\<lambda>ke. eval_statements (eval ke) r0 ss))"
  shows "stmts_ok d V w ss"
  using assms unfolding stmts_ok_def by blast

lemma stmts_okD:
  assumes "stmts_ok d V w ss" "plain g" "V \<subseteq> visible t" "table_ok t" "next_index t + w \<le> 255" "c + w \<le> 255"
    "scopes t \<noteq> []" "pool_ok k" "visit_statements (gen rc kg) c ss (view k t g) = (Ok c', g')"
  obtains k' t' where "g' = view k' t' g" "grows k k'" "extends t t'" "c' + next_index t = c + next_index t'"
    "\<And>q r0. \<not> snd r0 \<Longrightarrow> stmt_code d (Suc q) t t' k k' (\<lambda>ke. eval_statements (eval ke) r0 ss)"
  using assms unfolding stmts_ok_def by blast

lemma stmts_ok_nil: "stmts_ok d V w []"
proof (rule stmts_okI)
  fix rc kg c k t g c' g'
  assume "scopes t \<noteq> []" "visit_statements (gen rc kg) c [] (view k t g) = (Ok c', g')"
  moreover have "stmt_code d (Suc q) t t k k (\<lambda>ke. eval_statements (eval ke) r0 [])" if "\<not> snd r0" for q r0
    using that by (intro stmt_codeI) (auto intro: runs_to_here)
  ultimately show "\<exists>k' t'. g' = view k' t' g \<and> grows k k' \<and> extends t t' \<and> c' + next_index t = c + next_index t' \<and>
       (\<forall>q r0. \<not> snd r0 \<longrightarrow> stmt_code d (Suc q) t t' k k' (\<lambda>ke. eval_statements (eval ke) r0 []))"
    by (intro exI [of _ k] exI [of _ t]) (simp add: extends_def)
qed

lemma stmts_ok_null:
  assumes "stmts_ok d V w ss"
  shows "stmts_ok d V w (None # ss)"
proof (rule stmts_okI)
  fix rc kg c k t g c' g'
  assume "plain g" "V \<subseteq> visible t" "table_ok t" "next_index t + w \<le> 255" "c + w \<le> 255"
    "scopes t \<noteq> []" "pool_ok k" "visit_statements (gen rc kg) c (None # ss) (view k t g) = (Ok c', g')"
  then obtain k' t' where "g' = view k' t' g" "grows k k'" "extends t t'" "c' + next_index t = c + next_index t'"
    "\<And>q r0. \<not> snd r0 \<Longrightarrow> stmt_code d (Suc q) t t' k k' (\<lambda>ke. eval_statements (eval ke) r0 ss)"
    using stmts_okD [OF assms] by (metis visit_statements.simps(2))
  then show "\<exists>k' t'. g' = view k' t' g \<and> grows k k' \<and> extends t t' \<and> c' + next_index t = c + next_index t' \<and>
       (\<forall>q r0. \<not> snd r0 \<longrightarrow> stmt_code d (Suc q) t t' k k' (\<lambda>ke. eval_statements (eval ke) r0 (None # ss)))"
    by (intro exI [of _ k'] exI [of _ t']) simp
qed

text \<open>One statement and the rest: the code of both, one after the other.\<close>

lemma stmt_code_Cons:
  assumes "stmt_code d q t t1 k k1 (\<lambda>ke. eval ke s)" "grows k k1" "grows k1 k'"
    "\<And>r0. \<not> snd r0 \<Longrightarrow> stmt_code d q t1 t' k1 k' (\<lambda>ke. eval_statements (eval ke) r0 ss)"
  shows "stmt_code d q t t' k k' (\<lambda>ke. eval_statements (eval ke) r0 (Some s # ss))"
proof (rule stmt_codeI)
  fix M S ke st r st'
  assume l: "loaded M (size_of k) (size_of k') k'" and m: "roomy d M" and bd: "boundary M q S t st"
    and e: "eval_statements (eval ke) r0 (Some s # ss) st = (r, st')"
  note ls = loaded_split [OF l assms(2,3)]
  obtain r1 st1 where r1: "eval ke s st = (r1, st1)" by fastforce
  note run1 = stmt_codeD [OF assms(1) ls(1) m bd r1]
  show "runs_to M q (size_of k) S (size_of k') t' r st'"
  proof (cases r1)
    case (Raise x)
    with e r1 run1 show ?thesis by (cases x) auto
  next
    case (Ok v)
    obtain u f where v: "v = (u, f)" by fastforce
    show ?thesis
    proof (cases f)
      case True
      with Ok v e r1 run1 show ?thesis by auto
    next
      case False
      with run1 Ok v obtain S' where S': "goes M (size_of k) S (size_of k1) S'" "boundary M q S' t1 st1" by auto
      have "eval_statements (eval ke) v ss st1 = (r, st')" using e r1 Ok v False by simp
      from stmt_codeD [OF assms(4) ls(2) m S'(2) this] v False
      have "runs_to M q (size_of k1) S' (size_of k') t' r st'" by simp
      with S'(1) show ?thesis by (rule goes_runs_to)
    qed
  qed
qed

text \<open>
  The three kinds of statements of a block differ in the code of the head; \<open>t1\<close> is the table after it
  and \<open>n\<close> the number of variables it declares.
\<close>

lemma stmts_ok_head:
  assumes rest: "stmts_ok d V' w ss"
    and head: "\<And>rc kg k t g g'. plain g \<Longrightarrow> V \<subseteq> visible t \<Longrightarrow> table_ok t \<Longrightarrow> next_index t + w + n \<le> 255 \<Longrightarrow>
      scopes t \<noteq> [] \<Longrightarrow> pool_ok k \<Longrightarrow>
      seqE (gen rc kg s) (if should_pop_statement_result s then emit_op OP_POP else ret ()) (view k t g) = (Ok (), g') \<Longrightarrow>
      \<exists>k1 t1. g' = view k1 t1 g \<and> grows k k1 \<and> extends t t1 \<and> next_index t1 = next_index t + n \<and>
        table_ok t1 \<and> V' \<subseteq> visible t1 \<and> (\<forall>q. stmt_code d (Suc q) t t1 k k1 (\<lambda>ke. eval ke s))"
    and n: "n = (if is_var_decl s then 1 else 0)"
  shows "stmts_ok d V (w + n) (Some s # ss)"
proof (rule stmts_okI)
  fix rc kg c k t g c' g'
  assume p: "plain g" "V \<subseteq> visible t" "table_ok t" "next_index t + (w + n) \<le> 255" "c + (w + n) \<le> 255"
    "scopes t \<noteq> []" "pool_ok k" and gen: "visit_statements (gen rc kg) c (Some s # ss) (view k t g) = (Ok c', g')"
  obtain g1 where g1:
    "seqE (gen rc kg s) (if should_pop_statement_result s then emit_op OP_POP else ret ()) (view k t g) = (Ok (), g1)"
    "visit_statements (gen rc kg) (if is_var_decl s then (c + 1) mod 256 else c) ss g1 = (Ok c', g')"
    using gen by (auto simp: seqE_def bindE_assoc elim!: bindE_eq_OkE)
  obtain k1 t1 where k1: "g1 = view k1 t1 g" "grows k k1" "extends t t1" "next_index t1 = next_index t + n"
    "table_ok t1" "V' \<subseteq> visible t1" "\<And>q. stmt_code d (Suc q) t t1 k k1 (\<lambda>ke. eval ke s)"
    using head [OF p(1-3) _ p(6,7) g1(1)] p(4) by (auto simp: add.assoc)
  have c1: "(if is_var_decl s then (c + 1) mod 256 else c) = c + n" using p(5) by (cases "is_var_decl s") (simp_all add: n)
  have "pool_ok k1" using k1(2) p(7) by (simp add: grows_def)
  moreover have "scopes t1 \<noteq> []" using k1(3) by (simp add: extends_def)
  ultimately obtain k' t' where k': "g' = view k' t' g" "grows k1 k'" "extends t1 t'"
    "c' + next_index t1 = (c + n) + next_index t'"
    "\<And>q r0. \<not> snd r0 \<Longrightarrow> stmt_code d (Suc q) t1 t' k1 k' (\<lambda>ke. eval_statements (eval ke) r0 ss)"
    using stmts_okD [OF rest p(1) k1(6,5) _ _ _ _ g1(2) [unfolded k1(1) c1]] p(4,5) k1(4) by (auto simp: add.assoc)
  have "stmt_code d (Suc q) t t' k k' (\<lambda>ke. eval_statements (eval ke) r0 (Some s # ss))" for q r0
    by (rule stmt_code_Cons [OF k1(7,2) k'(2,5)])
  then show "\<exists>k' t'. g' = view k' t' g \<and> grows k k' \<and> extends t t' \<and> c' + next_index t = c + next_index t' \<and>
       (\<forall>q r0. \<not> snd r0 \<longrightarrow> stmt_code d (Suc q) t t' k k' (\<lambda>ke. eval_statements (eval ke) r0 (Some s # ss)))"
    using k'(1-4) k1(2-4) grows_trans [OF k1(2) k'(2)]
    by (intro exI [of _ k'] exI [of _ t']) (auto simp: extends_def)
qed

lemma extends_refl: "scopes t \<noteq> [] \<Longrightarrow> extends t t"
  by (simp add: extends_def)

lemma stmt_not_popped: "stmt d V w s \<Longrightarrow> \<not> should_pop_statement_result s \<and> \<not> is_var_decl s"
  by (erule stmt.cases) (simp_all add: should_pop_statement_result_def is_var_decl_def)

lemma expr_not_var: "expr V d e \<Longrightarrow> \<not> is_var_decl e"
  by (erule expr.cases) (auto simp: is_var_decl_def literal_value_def split: node.splits)

lemma stmts_ok_stmt:
  assumes "stmt_ok d V w s" "\<not> should_pop_statement_result s" "\<not> is_var_decl s" "stmts_ok d V w ss"
  shows "stmts_ok d V w (Some s # ss)"
proof -
  have "stmts_ok d V (w + 0) (Some s # ss)"
  proof (rule stmts_ok_head [OF assms(4)])
    show "0 = (if is_var_decl s then 1 else 0)" using assms(3) by simp
    fix rc kg k t g g'
    assume p: "plain g" "V \<subseteq> visible t" "table_ok t" "next_index t + w + 0 \<le> 255" "scopes t \<noteq> []" "pool_ok k"
      and gen: "seqE (gen rc kg s) (if should_pop_statement_result s then emit_op OP_POP else ret ()) (view k t g) = (Ok (), g')"
    from gen assms(2) have "gen rc kg s (view k t g) = (Ok (), g')"
      by (auto simp: seqE_def elim!: bindE_eq_OkE)
    with assms(1) p obtain k1 where "g' = view k1 t g" "grows k k1" "\<And>q. stmt_code d q t t k k1 (\<lambda>ke. eval ke s)"
      unfolding stmt_ok_def by (metis add_0_right)
    with p extends_refl show "\<exists>k1 t1. g' = view k1 t1 g \<and> grows k k1 \<and> extends t t1 \<and>
        next_index t1 = next_index t + 0 \<and> table_ok t1 \<and> V \<subseteq> visible t1 \<and>
        (\<forall>q. stmt_code d (Suc q) t t1 k k1 (\<lambda>ke. eval ke s))"
      by (intro exI [of _ k1] exI [of _ t]) simp
  qed
  then show ?thesis by simp
qed

text \<open>An expression is evaluated and its value taken off again.\<close>

lemma goes_popped:
  assumes "loaded M (size_of k) (size_of (add_code [word_of_nat OP_POP] k1)) (add_code [word_of_nat OP_POP] k1)"
    "grows k k1" "base_of M \<le> length S"
  shows "goes M (size_of k1) (S @ [v]) (size_of (add_code [word_of_nat OP_POP] k1)) S"
  using goes_pop [OF loaded_hosting [OF assms(1)] loaded_last(2) [OF assms(1,2)] assms(3)] by simp

lemma stmts_ok_expr:
  assumes "expr V d e" "should_pop_statement_result e" "stmts_ok d V w ss"
  shows "stmts_ok d V w (Some e # ss)"
proof -
  have "stmts_ok d V (w + 0) (Some e # ss)"
  proof (rule stmts_ok_head [OF assms(3)])
    show "0 = (if is_var_decl e then 1 else 0)" using expr_not_var [OF assms(1)] by simp
    fix rc kg k t g g'
    assume p: "plain g" "V \<subseteq> visible t" "table_ok t" "next_index t + w + 0 \<le> 255" "scopes t \<noteq> []" "pool_ok k"
      and gen: "seqE (gen rc kg e) (if should_pop_statement_result e then emit_op OP_POP else ret ()) (view k t g) = (Ok (), g')"
    obtain g1 where g1: "gen rc kg e (view k t g) = (Ok (), g1)" "emit_op OP_POP g1 = (Ok (), g')"
      using gen assms(2) by (auto simp: seqE_def elim!: bindE_eq_OkE)
    from gen_expr [OF assms(1) p(1,2) g1(1) p(6)] obtain k1 where k1: "g1 = view k1 t g" "expr_code d t k k1 e" by blast
    let ?k = "add_code [word_of_nat OP_POP] k1"
    note gk = expr_code_grows [OF k1(2)]
    have "stmt_code d q t t k ?k (\<lambda>ke. eval ke e)" for q
    proof (rule stmt_codeI)
      fix M S ke st r st'
      assume l: "loaded M (size_of k) (size_of ?k) ?k" and m: "roomy d M" and bd: "boundary M q S t st"
        and ev: "eval ke e st = (r, st')"
      have st': "st' = st" and f: "\<And>v b. r = Ok (v, b) \<Longrightarrow> \<not> b"
        using eval_expr_pure [OF assms(1), of ke st] ev by auto
      note e = boundary_expr [OF bd m k1(2) loaded_last(1) [OF l gk] ev]
      have base: "base_of M \<le> length S" using bd by (simp add: boundary_def)
      show "runs_to M q (size_of k) S (size_of ?k) t r st'"
      proof (cases r)
        case (Ok v)
        obtain u b where v: "v = (u, b)" by fastforce
        with e Ok have "goes M (size_of k) S (size_of k1) (S @ [u])" by simp
        from goes_trans [OF this goes_popped [OF l gk base]] f v Ok bd show ?thesis by (auto simp: st')
      next
        case (Raise x)
        with e show ?thesis by (cases x) simp_all
      qed
    qed
    with g1 k1 p gk grows_trans [OF gk grows_add] extends_refl
    show "\<exists>k1 t1. g' = view k1 t1 g \<and> grows k k1 \<and> extends t t1 \<and>
        next_index t1 = next_index t + 0 \<and> table_ok t1 \<and> V \<subseteq> visible t1 \<and>
        (\<forall>q. stmt_code d (Suc q) t t1 k k1 (\<lambda>ke. eval ke e))"
      by (intro exI [of _ ?k] exI [of _ t]) simp
  qed
  then show ?thesis by simp
qed

lemma stmts_ok_assign:
  assumes "x \<in> V" "x \<noteq> []" "expr V d e" "stmts_ok d V w ss"
  shows "stmts_ok d V w (Some (Assignment x None m None e None) # ss)"
proof -
  let ?s = "Assignment x None m None e None"
  have "stmts_ok d V (w + 0) (Some ?s # ss)"
  proof (rule stmts_ok_head [OF assms(4)])
    show "0 = (if is_var_decl ?s then 1 else 0)" by (simp add: is_var_decl_def)
    fix rc kg k t g g'
    assume p: "plain g" "V \<subseteq> visible t" "table_ok t" "next_index t + w + 0 \<le> 255" "scopes t \<noteq> []" "pool_ok k"
      and gen: "seqE (gen rc kg ?s) (if should_pop_statement_result ?s then emit_op OP_POP else ret ()) (view k t g) = (Ok (), g')"
    from assms(1) p(2) obtain i where i: "resolve_symbol t x = Some i" by auto
    have gs: "seqE (gen rc kg ?s) (emit_op OP_POP) (view k t g) = (Ok (), g')"
      using gen by (simp add: should_pop_statement_result_def)
    then obtain j where kg: "kg = Suc j" by (cases kg) (auto simp: seqE_def elim!: bindE_eq_OkE)
    obtain g1 where g1: "gen rc j e (view k t g) = (Ok (), g1)"
      using gs p(1) by (auto simp: kg seqE_def visit_node_def visit_assignment_def elim!: bindE_eq_OkE)
    from gen_expr [OF assms(3) p(1,2) g1(1) p(6)] obtain k1 where k1: "g1 = view k1 t g" "expr_code d t k k1 e" by blast
    let ?ks = "add_code [word_of_nat OP_SET_LOCAL, low_byte i] k1"
    let ?k = "add_code [word_of_nat OP_POP] ?ks"
    note gk = expr_code_grows [OF k1(2)]
    note gks = grows_trans [OF gk grows_add, of "[word_of_nat OP_SET_LOCAL, low_byte i]"]
    have g': "g' = view ?k t g"
      using gs p(1) g1 i by (simp add: kg k1(1) seqE_def visit_node_def visit_assignment_def)
    have "stmt_code d q t t k ?k (\<lambda>ke. eval ke ?s)" for q
    proof (rule stmt_code_eval)
      fix M S ke st r st'
      assume l: "loaded M (size_of k) (size_of ?k) ?k" and m: "roomy d M" and bd: "boundary M q S t st"
        and ev: "eval_node (eval ke) ?s st = (r, st')"
      note ls = loaded_last [OF loaded_last(1) [OF l gks] gk]
      obtain re where re: "eval ke e st = (re, st)" using eval_expr_pure [OF assms(3)] by blast
      note e = boundary_expr [OF bd m k1(2) ls(1) re]
      from bd have a: "agrees (base_of M) S t (ev_bindings st)" and len: "length S = base_of M + next_index t"
        and q: "length (ev_bindings st) = q" and pl: "plain (ev_gen st)" by (simp_all add: boundary_def)
      note sl = agrees_lookup [OF a i]
      show "runs_to M q (size_of k) S (size_of ?k) t r st'"
      proof (cases re)
        case (Raise y)
        with ev re e show ?thesis by (cases y) (auto simp: eval_node_def as_value_def)
      next
        case (Ok v)
        with e have v: "scalar (fst v)" "goes M (size_of k) S (size_of k1) (S @ [fst v])" by simp_all
        obtain bs where bs: "assign_in x (fst v) (ev_bindings st) = Some bs"
          "agrees (base_of M) (S[base_of M + i := fst v]) t bs" "length bs = q"
          using agrees_assign [OF a i v(1)] q by blast
        from ev re Ok bs(1) assms(2) have r: "r = Ok (fst v, False)" "st' = st\<lparr>ev_bindings := bs\<rparr>"
          by (auto simp: eval_node_def as_value_def assign_binding_def bindE_def seqE_def split: prod.splits)
        let ?S = "S[base_of M + i := fst v]"
        have "goes M (size_of k1) (S @ [fst v]) (size_of ?ks) (?S @ [fst v])"
          using goes_set_local [OF loaded_hosting [OF l] ls(2) sl(2), of S "fst v"] sl(3)
          by (simp add: list_update_append)
        also have "goes M (size_of ?ks) (?S @ [fst v]) (size_of ?k) ?S"
          using len by (intro goes_popped [OF l gks]) simp
        finally have "goes M (size_of k) S (size_of ?k) ?S" using v(2) goes_trans by blast
        moreover have "boundary M q ?S t st'" using bs len pl by (simp add: boundary_def r)
        ultimately show ?thesis by (auto simp: r(1))
      qed
    qed
    with g' p gks grows_trans [OF gks grows_add] extends_refl
    show "\<exists>k1 t1. g' = view k1 t1 g \<and> grows k k1 \<and> extends t t1 \<and>
        next_index t1 = next_index t + 0 \<and> table_ok t1 \<and> V \<subseteq> visible t1 \<and>
        (\<forall>q. stmt_code d (Suc q) t t1 k k1 (\<lambda>ke. eval ke ?s))"
      by (intro exI [of _ ?k] exI [of _ t]) simp
  qed
  then show ?thesis by simp
qed

lemma define_table:
  assumes "table_ok t" "scopes t \<noteq> []" "next_index t < 255"
  shows "\<exists>tt. define_symbol x t = (Ok (next_index t), tt) \<and> extends t tt \<and>
    next_index tt = Suc (next_index t) \<and> table_ok tt \<and> insert x (visible t) \<subseteq> visible tt"
proof -
  obtain s ss where t: "scopes t = s # ss" using assms(2) by (cases "scopes t") auto
  let ?t = "t\<lparr>scopes := AList.update x (next_index t) s # ss, next_index := Suc (next_index t)\<rparr>"
  have "define_symbol x t = (Ok (next_index t), ?t)"
    using assms(3) by (simp add: define_symbol_def t)
  moreover have "extends t ?t" by (simp add: extends_def t)
  moreover have "insert x (visible t) \<subseteq> visible ?t"
    by (auto simp: resolve_symbol_def t update_conv' split: option.splits)
  ultimately show ?thesis using table_ok_define [OF assms(1) t assms(3)] by auto
qed

lemma stmts_ok_var:
  assumes "\<And>e. init = Some e \<Longrightarrow> expr V d e" "stmts_ok d (insert x V) w ss"
  shows "stmts_ok d V (Suc w) (Some (VarDecl x ty init Default_Storage) # ss)"
proof -
  let ?s = "VarDecl x ty init Default_Storage"
  have "stmts_ok d V (w + 1) (Some ?s # ss)"
  proof (rule stmts_ok_head [OF assms(2)])
    show "1 = (if is_var_decl ?s then 1 else 0)" by (simp add: is_var_decl_def)
    fix rc kg k t g g'
    assume p: "plain g" "V \<subseteq> visible t" "table_ok t" "next_index t + w + 1 \<le> 255" "scopes t \<noteq> []" "pool_ok k"
      and gen: "seqE (gen rc kg ?s) (if should_pop_statement_result ?s then emit_op OP_POP else ret ()) (view k t g) = (Ok (), g')"
    have gs: "gen rc kg ?s (view k t g) = (Ok (), g')"
      using gen by (auto simp: should_pop_statement_result_def seqE_def elim!: bindE_eq_OkE)
    then obtain j where kg: "kg = Suc j" by (cases kg) auto
    obtain g1 where g1: "visit_or_null (gen rc j) init (view k t g) = (Ok (), g1)"
      using gs by (auto simp: kg visit_node_def visit_var_decl_def seqE_def elim!: bindE_eq_OkE)
    obtain k1 where k1: "g1 = view k1 t g" "grows k k1" "\<And>q M S ke st r st'.
      loaded M (size_of k) (size_of k1) k1 \<Longrightarrow> roomy d M \<Longrightarrow> boundary M q S t st \<Longrightarrow>
      eval_opt (eval ke) init st = (r, st') \<Longrightarrow> evaluates M (size_of k) S (size_of k1) r \<and> st' = st"
      using gen_initial [OF assms(1) p(1,2,6) g1] by blast
    obtain tt where tt: "define_symbol x t = (Ok (next_index t), tt)" "extends t tt"
      "next_index tt = Suc (next_index t)" "table_ok tt" "insert x (visible t) \<subseteq> visible tt"
      using define_table [OF p(3,5), of x] p(4) unfolding insert_subset by fastforce
    let ?k = "add_code [word_of_nat OP_SET_LOCAL, low_byte (next_index t)] k1"
    have g': "g' = view ?k tt g"
      using var_decl_view [OF p(1) _ g1 [unfolded k1(1)] tt(1), of ty] assms(1) expr_untyped gs
      by (auto simp: kg visit_node_def)
    have "stmt_code d (Suc q) t tt k ?k (\<lambda>ke. eval ke ?s)" for q
    proof (rule stmt_code_eval)
      fix M S ke st r st'
      assume l: "loaded M (size_of k) (size_of ?k) ?k" and m: "roomy d M" and bd: "boundary M (Suc q) S t st"
        and ev: "eval_node (eval ke) ?s st = (r, st')"
      note ls = loaded_last [OF l k1(2)]
      obtain ri si where ri: "eval_opt (eval ke) init st = (ri, si)" by fastforce
      from k1(3) [OF ls(1) m bd ri] have e: "evaluates M (size_of k) S (size_of k1) ri" and si: "si = st" by blast+
      from bd have a: "agrees (base_of M) S t (ev_bindings st)" and len: "length S = base_of M + next_index t"
        and q: "length (ev_bindings st) = Suc q" and pl: "plain (ev_gen st)" by (simp_all add: boundary_def)
      obtain c cs where bs: "ev_bindings st = c # cs" using q by (cases "ev_bindings st") auto
      show "runs_to M (Suc q) (size_of k) S (size_of ?k) tt r st'"
      proof (cases ri)
        case (Raise y)
        with ev ri e si show ?thesis by (cases y) (auto simp: eval_node_def eval_var_decl_def)
      next
        case (Ok v)
        with e have v: "scalar (fst v)" "goes M (size_of k) S (size_of k1) (S @ [fst v])" by simp_all
        from agrees_define [OF a [unfolded bs] len _ v(1), of x] p(4) tt(1)
        have a': "agrees (base_of M) (S @ [fst v]) tt (AList.update x (fst v) c # cs)" by auto
        have none: "infer_opt infer_struct init (ev_gen st) = (Ok None, ev_gen st)"
          using infer_view(1) [OF pl, of _ "chunk_of (ev_gen st)" "table_of (ev_gen st)"] assms(1) expr_untyped
          by (cases init) (auto simp: infer_opt_def view_self pl)
        from ev ri Ok bs si none have r: "r = Ok (fst v, False)"
          "st' = st\<lparr>ev_bindings := AList.update x (fst v) c # cs\<rparr>"
          by (auto simp: eval_node_def eval_var_decl_def assign_local_def on_gen_def bindE_def seqE_def split: prod.splits)
        have "goes M (size_of k1) (S @ [fst v]) (size_of ?k) (S @ [fst v])"
          using goes_set_local [OF loaded_hosting [OF l] ls(2), of S "fst v"] p(4) len
            list_update_length [of S "fst v" "[]" "fst v"] by simp
        with v(2) have "goes M (size_of k) S (size_of ?k) (S @ [fst v])" by (rule goes_trans)
        moreover have "boundary M (Suc q) (S @ [fst v]) tt st'"
          using a' len q pl tt(3) bs by (simp add: boundary_def r)
        ultimately show ?thesis by (auto simp: r(1))
      qed
    qed
    moreover have "insert x V \<subseteq> visible tt" using p(2) tt(5) by blast
    ultimately show "\<exists>k1 t1. g' = view k1 t1 g \<and> grows k k1 \<and> extends t t1 \<and>
        next_index t1 = next_index t + 1 \<and> table_ok t1 \<and> insert x V \<subseteq> visible t1 \<and>
        (\<forall>q. stmt_code d (Suc q) t t1 k k1 (\<lambda>ke. eval ke ?s))"
      using g' tt grows_trans [OF k1(2) grows_add]
      by (intro exI [of _ ?k] exI [of _ tt] conjI) (assumption | simp)+
  qed
  then show ?thesis by simp
qed

subsection \<open>Blocks\<close>

lemma emit_pops_view:
  assumes "plain g"
  shows "forE (replicate n ()) (\<lambda>_. emit_op OP_POP) (view k t g) =
    (Ok (), view (add_code (replicate n (word_of_nat OP_POP)) k) t g)"
proof (induction n arbitrary: k)
  case (Suc n)
  then show ?case by (simp add: emit_view(1) [OF assms] seqE_def bindE_def)
qed (simp add: add_code_def)

lemma goes_pops:
  assumes "hosting M" "bytes_at (code_of M) i (replicate n (word_of_nat OP_POP))"
    "length S = m + n" "base_of M \<le> m"
  shows "goes M i S (i + n) (take m S)"
  using assms(2,3)
proof (induction n arbitrary: i S)
  case (Suc n)
  then have "S \<noteq> []" by auto
  then have S: "S = butlast S @ [last S]" by simp
  have l: "length (butlast S) = m + n" using Suc.prems(2) by simp
  have b: "bytes_at (code_of M) i [word_of_nat OP_POP]"
    "bytes_at (code_of M) (i + 1) (replicate n (word_of_nat OP_POP))"
    using Suc.prems(1) by (auto simp: bytes_at_nth nth_Cons' split: if_splits)
  have "goes M i S (i + 1) (butlast S)"
    using goes_pop [OF assms(1) b(1), of "butlast S" "last S"] S l assms(4) by simp
  also have "goes M (i + 1) (butlast S) (i + 1 + n) (take m (butlast S))" by (rule Suc.IH [OF b(2) l])
  also have "take m (butlast S) = take m S" using Suc.prems(2) by (simp add: butlast_conv_take)
  finally show ?case by simp
qed simp

lemma stmt_ok_block:
  assumes "stmts_ok d V w ss"
  shows "stmt_ok d V w (Block ss)"
  unfolding stmt_ok_def
proof (intro allI impI)
  fix rc kg k t g g'
  assume p: "plain g" "V \<subseteq> visible t" "table_ok t" "next_index t + w \<le> 255" "pool_ok k"
    and gen: "gen rc kg (Block ss) (view k t g) = (Ok (), g')"
  obtain j where kg: "kg = Suc j" using gen by (cases kg) auto
  from gen have "visit_block (gen rc j) ss (view k t g) = (Ok (), g')"
    by (simp add: kg visit_node_def)
  then obtain n g1 where vs: "visit_statements (gen rc j) 0 ss (view k (push_scope t) (scoped g)) = (Ok n, g1)"
    and rest: "seqE (forE (replicate n ()) (\<lambda>_. emit_op OP_POP)) leave_scope g1 = (Ok (), g')"
    by (auto simp: visit_block_def seqE_def enter_scope_view [OF p(1)] elim!: bindE_eq_OkE)
  let ?t = "push_scope t"
  have t: "scopes ?t \<noteq> []" "next_index ?t = next_index t" "table_ok ?t" "V \<subseteq> visible ?t"
    using p(2,3) by (auto simp: push_scope_def table_ok_def resolve_symbol_def)
  have "next_index ?t + w \<le> 255" "0 + w \<le> 255" using p(4) t(2) by auto
  from stmts_okD [OF assms plain_scoped [OF p(1)] t(4,3) this t(1) p(5) vs]
  obtain k1 t1 where k1: "g1 = view k1 t1 (scoped g)" "grows k k1" "extends ?t t1" "n + next_index t = next_index t1"
    and code: "\<And>q r0. \<not> snd r0 \<Longrightarrow> stmt_code d (Suc q) ?t t1 k k1 (\<lambda>ke. eval_statements (eval ke) r0 ss)"
    using t(2) by auto
  have t1: "scopes t1 = hd (scopes t1) # scopes t" "index_stack t1 = next_index t # index_stack t"
    using k1(3) by (auto simp: extends_def push_scope_def neq_Nil_conv)
  have pop: "pop_scope t1 = (Ok (), t)"
    using t1 by (cases "scopes t1") (auto simp: pop_scope_def)
  let ?k = "add_code (replicate n (word_of_nat OP_POP)) k1"
  have "g' = view ?k t g"
    using rest leave_scope_view [OF p(1) pop, of ?k]
    by (simp add: k1(1) seqE_def bindE_def emit_pops_view [OF plain_scoped [OF p(1)]])
  moreover have "grows k ?k" using grows_trans [OF k1(2) grows_add] .
  moreover have "stmt_code d q t t k ?k (\<lambda>ke. eval ke (Block ss))" for q
  proof (rule stmt_code_eval)
    fix M S ke st r st'
    assume l: "loaded M (size_of k) (size_of ?k) ?k" and m: "roomy d M" and bd: "boundary M q S t st"
      and ev: "eval_node (eval ke) (Block ss) st = (r, st')"
    note ls = loaded_last [OF l k1(2)]
    let ?st = "st\<lparr>ev_bindings := [] # ev_bindings st, ev_structs := [] # ev_structs st\<rparr>"
    obtain s' where s': "eval_statements (eval ke) (VNull, False) ss ?st = (r, s')"
      "st' = s'\<lparr>ev_bindings := tl (ev_bindings s'), ev_structs := tl (ev_structs s')\<rparr>"
      using ev by (auto simp: eval_node_def with_scope_def split: prod.splits)
    from bd have "boundary M (Suc q) S ?t ?st"
      using agrees_enter by (auto simp: boundary_def t(2))
    from stmt_codeD [OF code ls(1) m this s'(1)]
    have run: "runs_to M (Suc q) (size_of k) S (size_of k1) t1 r s'" by simp
    show "runs_to M q (size_of k) S (size_of ?k) t r st'"
    proof (cases r)
      case (Raise e)
      with run show ?thesis by (cases e) auto
    next
      case (Ok v)
      obtain u b where v: "v = (u, b)" by fastforce
      show ?thesis
      proof (cases b)
        case True
        with run Ok v show ?thesis by auto
      next
        case False
        with run Ok v obtain S' where S': "goes M (size_of k) S (size_of k1) S'" "boundary M (Suc q) S' t1 s'"
          by auto
        let ?S = "take (base_of M + next_index t) S'"
        from S'(2) have a: "agrees (base_of M) S' t1 (ev_bindings s')" and len: "length S' = base_of M + next_index t1"
          and q: "length (ev_bindings s') = Suc q" and pl: "plain (ev_gen s')" by (simp_all add: boundary_def)
        obtain c cs where bs: "ev_bindings s' = c # cs" using q by (cases "ev_bindings s'") auto
        have "goes M (size_of k1) S' (size_of ?k) ?S"
          using goes_pops [OF loaded_hosting [OF l] ls(2), of S' "base_of M + next_index t"] len k1(4) by simp
        with S'(1) have "goes M (size_of k) S (size_of ?k) ?S" by (rule goes_trans)
        moreover have "boundary M q ?S t st'"
          using agrees_leave [OF a [unfolded bs] t1(1) p(3)] k1(4) len q pl bs by (simp add: boundary_def s'(2))
        ultimately show ?thesis using Ok v False by auto
      qed
    qed
  qed
  ultimately show "\<exists>k'. g' = view k' t g \<and> grows k k' \<and> (\<forall>q. stmt_code d q t t k k' (\<lambda>ke. eval ke (Block ss)))"
    by blast
qed

text \<open>Every statement of the fragment is compiled correctly.\<close>

lemma fragment_ok:
  shows "stmt d V w n \<Longrightarrow> stmt_ok d V w n" and "stmts d V w ss \<Longrightarrow> stmts_ok d V w ss"
proof (induction rule: stmt_stmts.inducts)
  case (stmt_if V c w s els)
  then show ?case using stmt_ok_if stmt_ok_if_else by (cases els) auto
next
  case (stmts_stmt V w s ss)
  then show ?case
    by (intro stmts_ok_stmt) (auto simp: should_pop_statement_result_def is_var_decl_def elim: stmt.cases)
qed (auto intro: stmt_ok_block stmt_ok_while stmt_ok_return stmts_ok_nil stmts_ok_null
  stmts_ok_stmt stmts_ok_expr stmts_ok_assign stmts_ok_var)

end
