(* ===== verification/Correctness.thy ===== *)
theory Correctness
  imports Blocks
begin

text \<open>
  Compiling a whole program and running it: the chunk of a program of the fragment, interpreted on a
  machine in any state, ends with the value the compile-time evaluator computes, or with the message
  of the exception the evaluator raises.
\<close>

section \<open>The chunk of a program\<close>

lemma plain_initial: "plain (initial_gen h a)"
  by (simp add: plain_def initial_gen_def top_level_context_def no_types_def plain_metadata_def
      empty_metadata_def contract_result_slot_def)

lemma initial_contexts: "gs_contexts (initial_gen h a) \<noteq> []"
  by (simp add: initial_gen_def)

lemma initial_view:
  obtains k t where "initial_gen h a = view k t (initial_gen h a)" "chunk_code k = []" "chunk_constants k = []"
    "concat (scopes t) = []" "next_index t = 0"
proof -
  let ?g = "initial_gen h a"
  have "view (chunk_of ?g) (table_of ?g) ?g = ?g" by (rule view_self) (simp add: initial_gen_def)
  moreover have "chunk_code (chunk_of ?g) = []" "chunk_constants (chunk_of ?g) = []"
    "concat (scopes (table_of ?g)) = []" "next_index (table_of ?g) = 0"
    by (simp_all add: initial_gen_def chunk_of_def table_of_def top_level_context_def new_function_def
        reset_table_def empty_chunk_def push_scope_def)
  ultimately show ?thesis by (metis that)
qed

lemma program_chunk:
  assumes "stmts d {} w ss" "w \<le> 255" "compile_program rc kg h a (Some (Block ss)) = (Ok c, g)"
  obtains k k1 t where "chunk_code k = []" "chunk_code c = chunk_code k1 @ [word_of_nat OP_RETURN]"
    "chunk_constants c = chunk_constants k1" "length (chunk_constants c) \<le> 65536"
    "concat (scopes t) = []" "next_index t = 0"
    "\<And>q. stmt_code d q t t k k1 (\<lambda>ke. eval ke (Block ss))"
proof -
  obtain k t where k: "initial_gen h a = view k t (initial_gen h a)" "chunk_code k = []" "chunk_constants k = []"
    and t: "concat (scopes t) = []" "next_index t = 0"
    by (rule initial_view)
  obtain g1 where g1: "gen rc kg (Block ss) (view k t (initial_gen h a)) = (Ok (), g1)"
    and rest: "seqE (emit_op OP_RETURN) (on_chunk (reads id)) g1 = (Ok c, g)"
    using assms(3) k(1) by (auto simp: compile_program_def compile_root_def visit_opt_def seqE_def elim!: bindE_eq_OkE)
  have "table_ok t" unfolding table_ok_def t by simp
  moreover have "stmt_ok d {} w (Block ss)" by (intro stmt_ok_block fragment_ok(2) assms(1))
  moreover have "next_index t + w \<le> 255" "pool_ok k" using assms(2) t k(3) by auto
  ultimately obtain k1 where k1: "g1 = view k1 t (initial_gen h a)" "grows k k1"
    "\<And>q. stmt_code d q t t k k1 (\<lambda>ke. eval ke (Block ss))"
    using g1 plain_initial unfolding stmt_ok_def by blast
  have "c = add_code [word_of_nat OP_RETURN] k1"
    using rest initial_contexts
    by (simp add: k1(1) seqE_def bindE_def plain_initial on_chunk_view reads_def)
  moreover have "pool_ok k1" using k1(2) k(3) by (simp add: grows_def)
  ultimately show ?thesis using that [OF k(2) _ _ _ t k1(3)] by simp
qed

section \<open>Running it\<close>

text \<open>The machine at the first instruction of a top-level chunk.\<close>

definition top_host :: "env \<Rightarrow> chunk \<Rightarrow> vm_state \<Rightarrow> host" where
  "top_host env c s = \<lparr>h_env = env, h_entry = 1,
     h_state = s\<lparr>stack := [], frames := [], txns := [], handlers := [], error_message := [],
       next_address := Suc (Suc (next_address s)),
       heap := (heap s)(next_address s \<mapsto> Obj_Function (top_level_function c),
         Suc (next_address s) \<mapsto> Obj_Closure (next_address s) [])\<rparr>,
     h_frame = \<lparr>frame_function = next_address s, frame_closure = Suc (next_address s), frame_ip = 0,
       frame_base = 1, frame_txn_base = 0, frame_handler_base = 0\<rparr>,
     h_callers = [], h_function = top_level_function c\<rparr>"

abbreviation callee_of :: "vm_state \<Rightarrow> value" where
  "callee_of s \<equiv> VRef K_Closure (Suc (next_address s))"

lemma top_host_simps [simp]:
  "h_env (top_host env c s) = env" "h_entry (top_host env c s) = 1" "base_of (top_host env c s) = 1"
  "h_callers (top_host env c s) = []" "h_function (top_host env c s) = top_level_function c"
  "fn_code (top_level_function c) = chunk_code c" "fn_constants (top_level_function c) = chunk_constants c"
  "error_message (place_at (top_host env c s) i S) = []" "txns (place_at (top_host env c s) i S) = []"
  "handlers (place_at (top_host env c s) i S) = []" "stack (place_at (top_host env c s) i S) = S"
  by (simp_all add: top_host_def place_at_def machine_at_def fn_code_def fn_constants_def top_level_function_def)

lemma interpret_chunk_runs:
  "interpret_chunk env n (Some c) s =
     (case run_loop env n 1 (place_at (top_host env c s) 0 [callee_of s]) of
        (Ok r, t) \<Rightarrow> if r = Exec_Success then (Ok True, t) else (Ok False, (unwound 0 t)\<lparr>handlers := []\<rparr>)
      | (Raise e, t) \<Rightarrow> (Raise e, t))"
  by (simp add: interpret_chunk_def seqE_def bindE_def clear_stack_def clear_error_def modify_def new_object_def
      push_value_room STACK_MAX_def push_frame_def FRAMES_MAX_def run_def reads_def top_host_def place_at_def
      machine_at_def unwind_transactions_apply clear_handlers_def ret_def split: outcome.split prod.split)

lemma top_hosting:
  assumes "extension env = (\<lambda>_. None)" "length (chunk_code c) < 65536" "length (chunk_constants c) \<le> 65536"
  shows "hosting (top_host env c s)"
  using assms by (simp add: hosting_def running_def top_host_def function_at_def fn_code_def fn_constants_def
      top_level_function_def)

lemma top_return:
  assumes "hosting (top_host env c s)" "bytes_at (chunk_code c) i [word_of_nat OP_RETURN]"
  shows "\<exists>t. last_turn env 1 (place_at (top_host env c s) i (cl # S)) (Ok (Some Exec_Success)) t \<and>
    stack t = [if S = [] then VNull else last S] \<and> error_message t = []"
proof -
  let ?M = "top_host env c s"
  let ?s = "place_at ?M (i + 1) (cl # S)"
  have r: "running env 1 (h_state ?M) (h_frame ?M) [] (top_level_function c)"
    using assms(1) by (simp add: hosting_def)
  have f: "fetch (chunk_code c) i = (OP_RETURN, Some 0, i + 1)"
    by (rule fetch_plain [OF assms(2)]) (simp_all add: operand_sizes)
  let ?t = "?s\<lparr>stack := [if S = [] then VNull else last S], handlers := [], frames := []\<rparr>"
  have h: "handle_return ?s = (Ok 0, ?t)"
    using handle_return_effect [of ?s "(h_frame ?M)\<lparr>frame_ip := i + 1\<rparr>" "[]" "[]" cl S]
    by (simp add: place_at_def STACK_MAX_def top_host_def machine_at_def)
  have "last_turn env 1 (place_at ?M i (cl # S)) (Ok (Some Exec_Success)) ?t"
    using turn_instruction [OF r _ f [folded top_host_simps(6)]] assms(2) h
    by (simp add: last_turn_def place_at_def execute_op_def after_dispatch_def bytes_at_Cons)
  then show ?thesis by (auto intro!: exI [of _ ?t])
qed

text \<open>The interpreter on a program of the fragment, from the outcome of the evaluator.\<close>

lemma program_runs:
  assumes "stmts d {} w ss" "w \<le> 255" "257 + d \<le> STACK_MAX"
    and "compile_program rc kg h a (Some (Block ss)) = (Ok c, g)"
    and "length (chunk_code c) < 65536" "extension env = (\<lambda>_. None)"
    and "plain (ev_gen st)" "ev_bindings st = []" "eval ke (Block ss) st = (r, st')"
  obtains j t where "hosting (top_host env c s)" "bytes_at (chunk_code c) j [word_of_nat OP_RETURN]" "next_index t = 0"
    "runs_to (top_host env c s) 0 0 [callee_of s] j t r st'"
proof -
  let ?M = "top_host env c s"
  obtain k k1 t where k: "chunk_code k = []" "chunk_code c = chunk_code k1 @ [word_of_nat OP_RETURN]"
    "chunk_constants c = chunk_constants k1" "length (chunk_constants c) \<le> 65536"
    and t: "concat (scopes t) = []" "next_index t = 0"
    and code: "\<And>q. stmt_code d q t t k k1 (\<lambda>ke. eval ke (Block ss))"
    by (rule program_chunk [OF assms(1,2,4)]) blast
  have M: "hosting ?M" using top_hosting [OF assms(6,5) k(4)] .
  then have l: "loaded ?M (size_of k) (size_of k1) k1"
    by (auto simp: loaded_def k nth_append)
  have m: "roomy d ?M" using assms(3) by (simp add: roomy_def)
  have "table_ok t" unfolding table_ok_def t by simp
  then have "agrees 1 [callee_of s] t []"
    using t by (auto simp: agrees_def slot_values_def)
  then have b: "boundary ?M 0 [callee_of s] t st"
    using assms(7,8) t by (simp add: boundary_def)
  have "runs_to ?M 0 0 [callee_of s] (size_of k1) t r st'"
    using stmt_codeD [OF code l m b assms(9)] by (simp add: k(1))
  moreover have "bytes_at (chunk_code c) (size_of k1) [word_of_nat OP_RETURN]"
    by (simp add: k(2) bytes_at_nth)
  ultimately show ?thesis using M t(2) that by blast
qed

lemma interpret_value:
  assumes "goes (top_host env c s) 0 [callee_of s] j (cl # S)"
    "hosting (top_host env c s)" "bytes_at (chunk_code c) j [word_of_nat OP_RETURN]"
  shows "\<exists>N t. stack t = [if S = [] then VNull else last S] \<and> error_message t = [] \<and>
    (\<forall>n \<ge> N. interpret_chunk env n (Some c) s = (Ok True, t))"
proof -
  obtain t where t: "last_turn env 1 (place_at (top_host env c s) j (cl # S)) (Ok (Some Exec_Success)) t"
    "stack t = [if S = [] then VNull else last S]" "error_message t = []"
    using top_return [OF assms(2,3)] by blast
  from assms(1) t(1) have "finishes env 1 (place_at (top_host env c s) 0 [callee_of s]) (Ok (Some Exec_Success)) t"
    unfolding goes_def finishes_def by auto
  from run_loop_finishes_ok [OF this] obtain N where
    "\<And>n. N \<le> n \<Longrightarrow> run_loop env n 1 (place_at (top_host env c s) 0 [callee_of s]) = (Ok Exec_Success, t)"
    by blast
  then have "\<forall>n \<ge> N. interpret_chunk env n (Some c) s = (Ok True, t)"
    by (simp add: interpret_chunk_runs)
  with t(2,3) show ?thesis by blast
qed

lemma interpret_exception:
  assumes "fails (top_host env c s) 0 [callee_of s] m"
  shows "\<exists>N t. error_message t = m \<and> (\<forall>n \<ge> N. interpret_chunk env n (Some c) s = (Ok False, t))"
proof -
  obtain j S where "finishes env 1 (place_at (top_host env c s) 0 [callee_of s]) (Raise (CppExc m))
      (place_at (top_host env c s) j S)"
    using assms by (auto simp: fails_def)
  from run_loop_finishes_exc [OF this] obtain N where
    "\<And>n. N \<le> n \<Longrightarrow> run_loop env n 1 (place_at (top_host env c s) 0 [callee_of s]) =
       (Ok Exec_RuntimeError, (place_at (top_host env c s) j S)\<lparr>error_message := m\<rparr>)"
    by (auto simp: raise_error_def modify_def)
  then have "\<forall>n \<ge> N. interpret_chunk env n (Some c) s =
     (Ok False, (unwound 0 ((place_at (top_host env c s) j S)\<lparr>error_message := m\<rparr>))\<lparr>handlers := []\<rparr>)"
    by (simp add: interpret_chunk_runs)
  then show ?thesis
    by (intro exI [of _ N] exI [of _ "(unwound 0 ((place_at (top_host env c s) j S)\<lparr>error_message := m\<rparr>))\<lparr>handlers := []\<rparr>"])
      simp
qed

section \<open>Values and exceptions\<close>



end
