(* ===== verification/Returns.thy ===== *)
theory Returns
  imports Correctness
begin

text \<open>
  The compile-time evaluator returns on every program of the fragment: nesting is bounded by the
  size of the tree, and a loop gives up after its iteration limit.
\<close>

section \<open>Evaluation within its fuel\<close>

definition scalars :: "(string \<times> value) list list \<Rightarrow> bool" where
  "scalars bs \<longleftrightarrow> (\<forall>b \<in> set bs. \<forall>x v. (x, v) \<in> set b \<longrightarrow> scalar v)"

definition tame :: "eval_state \<Rightarrow> bool" where
  "tame st \<longleftrightarrow> plain (ev_gen st) \<and> scalars (ev_bindings st)"

definition calm :: "('a \<Rightarrow> bool) \<Rightarrow> 'a eval_proc \<Rightarrow> bool" where
  "calm P m \<longleftrightarrow> (\<forall>st. tame st \<longrightarrow> tame (snd (m st)) \<and> fst (m st) \<noteq> Raise OutOfFuel \<and>
     (\<forall>v. fst (m st) = Ok v \<longrightarrow> P v))"

named_theorems calm_rules

lemma calmD: "calm P m \<Longrightarrow> tame st \<Longrightarrow> fst (m st) \<noteq> Raise OutOfFuel"
  by (simp add: calm_def)

lemma calm_ret [calm_rules]: "P v \<Longrightarrow> calm P (ret v)"
  by (simp add: calm_def)

lemma calm_throw [calm_rules]: "calm P (throw m)"
  by (simp add: calm_def)

lemma calm_lift: "r \<noteq> Raise OutOfFuel \<Longrightarrow> (\<And>v. r = Ok v \<Longrightarrow> P v) \<Longrightarrow> calm P (lift_out r)"
  by (simp add: calm_def)

lemma calm_bind [calm_rules]:
  assumes "calm P m" "\<And>v. P v \<Longrightarrow> calm Q (f v)"
  shows "calm Q (bindE m f)"
  unfolding calm_def
proof (intro allI impI)
  fix st :: eval_state
  assume st: "tame st"
  obtain r st' where m: "m st = (r, st')" by fastforce
  with assms(1) st have t: "tame st'" "r \<noteq> Raise OutOfFuel" "\<And>v. r = Ok v \<Longrightarrow> P v"
    unfolding calm_def by fastforce+
  show "tame (snd (bindE m f st)) \<and> fst (bindE m f st) \<noteq> Raise OutOfFuel \<and>
    (\<forall>v. fst (bindE m f st) = Ok v \<longrightarrow> Q v)"
  proof (cases r)
    case (Ok v)
    from assms(2) [OF t(3) [OF this]] t(1) show ?thesis by (simp add: bindE_def m Ok calm_def)
  next
    case (Raise e)
    with t(1,2) show ?thesis by (simp add: bindE_def m)
  qed
qed

lemma calm_seq [calm_rules]: "calm P m \<Longrightarrow> calm Q n \<Longrightarrow> calm Q (seqE m n)"
  unfolding seqE_def by (rule calm_bind)

lemma calm_reads: "calm (\<lambda>_. True) (reads f)"
  by (simp add: calm_def)

lemma calm_weaken: "calm P m \<Longrightarrow> (\<And>v. P v \<Longrightarrow> Q v) \<Longrightarrow> calm Q m"
  by (simp add: calm_def)

abbreviation plain_value :: "eval_result \<Rightarrow> bool" where
  "plain_value r \<equiv> scalar (fst r)"

section \<open>Bindings\<close>

lemma update_values: "(y, u) \<in> set (AList.update x v b) \<Longrightarrow> u = v \<or> (y, u) \<in> set b"
  by (induction b) (auto split: if_splits)

lemma scalars_simps [simp]:
  "scalars []" "scalars (b # bs) \<longleftrightarrow> (\<forall>x v. (x, v) \<in> set b \<longrightarrow> scalar v) \<and> scalars bs"
  by (simp_all add: scalars_def)

lemma scalars_tl: "scalars bs \<Longrightarrow> scalars (tl bs)"
  by (cases bs) simp_all

lemma scalars_update: "scalars (b # bs) \<Longrightarrow> scalar v \<Longrightarrow> scalars (AList.update x v b # bs)"
  using update_values [of _ _ x v b] by fastforce

lemma lookup_scalar: "scalars bs \<Longrightarrow> lookup_scopes x bs = Some v \<Longrightarrow> scalar v"
  by (induction bs) (auto split: option.splits dest!: map_of_SomeD)

lemma assign_in_scalar:
  "scalars bs \<Longrightarrow> scalar v \<Longrightarrow> assign_in x v bs = Some bs' \<Longrightarrow> scalars bs'"
proof (induction bs arbitrary: bs')
  case (Cons b bs)
  then show ?case using scalars_update [of b bs v x] by (auto split: if_splits)
qed simp

lemma calm_resolve: "calm scalar (resolve_binding x)"
  by (auto simp: calm_def tame_def resolve_binding_def lookup_scalar split: option.split)

lemma assign_local_tame: "scalar v \<Longrightarrow> tame st \<Longrightarrow> tame (snd (assign_local x v st))"
  using scalars_update [of "hd (ev_bindings st)" "tl (ev_bindings st)" v x]
  by (cases "ev_bindings st") (simp_all add: tame_def assign_local_def)

lemma calm_assign_local: "scalar v \<Longrightarrow> calm (\<lambda>_. True) (assign_local x v)"
  using assign_local_tame by (simp add: calm_def assign_local_def)

lemma calm_assign_binding: "scalar v \<Longrightarrow> calm (\<lambda>_. True) (assign_binding x v)"
  unfolding calm_def
proof (intro allI impI)
  fix st :: eval_state
  assume v: "scalar v" and st: "tame st"
  show "tame (snd (assign_binding x v st)) \<and> fst (assign_binding x v st) \<noteq> Raise OutOfFuel \<and>
    (\<forall>va. fst (assign_binding x v st) = Ok va \<longrightarrow> True)"
  proof (cases "assign_in x v (ev_bindings st)")
    case None
    with assign_local_tame [OF v st] show ?thesis by (simp add: assign_binding_def) (simp add: assign_local_def)
  next
    case (Some bs)
    from assign_in_scalar [OF _ v this] st show ?thesis by (simp add: assign_binding_def Some tame_def)
  qed
qed

lemma calm_scope: "calm P m \<Longrightarrow> calm P (with_scope m)"
  unfolding calm_def
proof (intro allI impI)
  fix st :: eval_state
  let ?s = "st\<lparr>ev_bindings := [] # ev_bindings st, ev_structs := [] # ev_structs st\<rparr>"
  assume m: "\<forall>st. tame st \<longrightarrow> tame (snd (m st)) \<and> fst (m st) \<noteq> Raise OutOfFuel \<and> (\<forall>v. fst (m st) = Ok v \<longrightarrow> P v)"
    and st: "tame st"
  obtain r s' where r: "m ?s = (r, s')" by fastforce
  have "tame ?s" using st by (simp add: tame_def)
  with m r have "tame s'" "r \<noteq> Raise OutOfFuel" "\<forall>v. r = Ok v \<longrightarrow> P v" by fastforce+
  then show "tame (snd (with_scope m st)) \<and> fst (with_scope m st) \<noteq> Raise OutOfFuel \<and>
      (\<forall>v. fst (with_scope m st) = Ok v \<longrightarrow> P v)"
    using scalars_tl by (simp add: with_scope_def r tame_def)
qed

section \<open>Expressions\<close>

lemma bind_outcome_fuel:
  "bind_outcome r f \<noteq> Raise OutOfFuel \<longleftrightarrow> r \<noteq> Raise OutOfFuel \<and> (\<forall>v. r = Ok v \<longrightarrow> f v \<noteq> Raise OutOfFuel)"
  by (cases r) auto

lemma as_bool_fuel: "as_bool v \<noteq> Raise OutOfFuel"
  by (cases v) (simp_all add: bad_variant_access_def)

lemma eval_unary_fuel: "eval_unary op v \<noteq> Raise OutOfFuel"
  by (simp add: eval_unary_def value_negate_def unary_arithmetic_def unary_logic_def bind_outcome_fuel
      as_bool_fuel split: option.split)

lemma to_string_fuel: "scalar v \<Longrightarrow> to_string h v \<noteq> Raise OutOfFuel"
  by (cases v) (simp_all add: to_string_def print_fuel_def scalar_def)

lemma binary_arithmetic_fuel: "(\<And>x y. f x y \<noteq> Raise OutOfFuel) \<Longrightarrow> binary_arithmetic f a b \<noteq> Raise OutOfFuel"
  by (auto simp: binary_arithmetic_def bind_outcome_fuel split: option.splits)

lemma cast_fuel: "as_int64 v \<noteq> Raise OutOfFuel"
  by (cases v) (simp_all add: bad_variant_access_def cast_int64_def split: option.split)

lemma integer_operation_fuel: "integer_operation z m f a b \<noteq> Raise OutOfFuel"
  by (auto simp: integer_operation_def bind_outcome_fuel cast_fuel)

lemma eval_binary_fuel: "scalar a \<Longrightarrow> scalar b \<Longrightarrow> eval_binary op h a b \<noteq> Raise OutOfFuel"
  by (simp add: eval_binary_def value_add_def value_subtract_def value_multiply_def value_divide_def
      value_divide_int_def value_modulo_def binary_logic_def bind_outcome_fuel as_bool_fuel to_string_fuel
      binary_arithmetic_fuel integer_operation_fuel)

lemma calm_as_value: "calm scalar m \<Longrightarrow> calm plain_value (as_value m)"
  unfolding as_value_def by (erule calm_bind) (simp add: calm_ret)

lemma expr_calm: "expr V d n \<Longrightarrow> size n < ke \<Longrightarrow> calm plain_value (eval ke n)"
proof (induction arbitrary: ke rule: expr.induct)
  case (expr_literal n v V d)
  then show ?case
    by (cases ke) (auto simp: eval_node_def literal_value_def fun_eq_iff split: node.splits if_splits intro!: calm_ret)
next
  case (expr_variable x V d)
  then show ?case
    by (cases ke) (simp_all add: eval_node_def calm_as_value calm_resolve del: split_paired_All)
next
  case (expr_unary op V d e)
  then obtain k where ke: "ke = Suc k" "size e < k" by (cases ke) auto
  have "calm scalar (lift_out (eval_unary op a))" if "scalar a" for a
    using that eval_unary_fuel eval_unary_scalar by (intro calm_lift) auto
  with expr_unary.IH [OF ke(2)] show ?case
    by (auto simp: ke(1) eval_node_def intro!: calm_as_value elim!: calm_bind)
next
  case (expr_binary op c V d l r)
  then obtain k where ke: "ke = Suc k" "size l < k" "size r < k" by (cases ke) auto
  have "calm scalar (bindE (eval_heap id) (\<lambda>h. lift_out (eval_binary op h a b)))" if "scalar a" "scalar b" for a b
    using that eval_binary_fuel eval_binary_scalar by (intro calm_bind [OF calm_reads] calm_lift) auto
  with expr_binary.IH(1) [OF ke(2)] expr_binary.IH(2) [OF ke(3)] show ?case
    by (auto simp: ke(1) eval_node_def intro!: calm_as_value elim!: calm_bind)
qed

section \<open>Statements\<close>

lemma calm_expr_opt:
  assumes "\<And>e. v = Some e \<Longrightarrow> expr V d e" "size_option size v \<le> ke"
  shows "calm plain_value (eval_opt (eval ke) v)"
  using assms expr_calm [of V d "the v" ke] by (cases v) (simp_all add: eval_opt_def calm_ret)

lemma calm_condition: "calm plain_value (ev c) \<Longrightarrow> calm (\<lambda>_. True) (eval_condition ev c)"
  unfolding eval_condition_def
  by (erule calm_bind) (auto intro!: calm_lift simp: as_bool_fuel)

lemma calm_branch:
  assumes "calm plain_value (ev c)" "\<And>b. calm Q (f b)"
  shows "calm Q (bindE (eval_condition ev c) f)"
  by (rule calm_bind [OF calm_condition [of ev c, OF assms(1)]]) (rule assms(2))

lemma calm_while:
  assumes "calm plain_value (ev c)" "calm plain_value (ev b)"
  shows "calm plain_value (eval_while ev c b left)"
proof (induction left)
  case 0
  show ?case
    by (auto intro!: calm_branch [of ev c, OF assms(1)] calm_ret calm_throw)
next
  case (Suc left)
  then show ?case
    by (auto intro!: calm_branch [of ev c, OF assms(1)] calm_bind [OF assms(2)] calm_ret)
qed

lemma calm_infer: "(\<And>e. init = Some e \<Longrightarrow> expr V d e) \<Longrightarrow> calm (\<lambda>t. t = None) (on_gen (infer_opt infer_struct init))"
  unfolding calm_def
proof (intro allI impI)
  fix st :: eval_state
  assume e: "\<And>e. init = Some e \<Longrightarrow> expr V d e" and st: "tame st"
  then have p: "plain (ev_gen st)" by (simp add: tame_def)
  then have "view (chunk_of (ev_gen st)) (table_of (ev_gen st)) (ev_gen st) = ev_gen st"
    using plain_contexts [OF p] by (metis list.simps(3) view_self)
  then have "infer_opt infer_struct init (ev_gen st) = (Ok None, ev_gen st)"
    using infer_view(1) [OF p expr_untyped [OF e]] by (cases init) (auto simp: infer_opt_def, metis)
  with st show "tame (snd (on_gen (infer_opt infer_struct init) st)) \<and>
      fst (on_gen (infer_opt infer_struct init) st) \<noteq> Raise OutOfFuel \<and>
      (\<forall>v. fst (on_gen (infer_opt infer_struct init) st) = Ok v \<longrightarrow> v = None)"
    by (simp add: on_gen_def tame_def)
qed

lemma fragment_calm:
  shows "stmt d V w n \<Longrightarrow> \<forall>ke. size n < ke \<longrightarrow> calm plain_value (eval ke n)"
    and "stmts d V w ss \<Longrightarrow> \<forall>ke r. size_list (size_option size) ss \<le> ke \<longrightarrow> scalar (fst r) \<longrightarrow>
      calm plain_value (eval_statements (eval ke) r ss)"
proof (induction rule: stmt_stmts.inducts)
  case (stmt_block V w ss)
  then show ?case
    by (auto simp: eval_node_def less_Suc_eq_le Suc_less_eq2 intro!: calm_scope)
next
  case (stmt_if V c w s els)
  show ?case
  proof (intro allI impI)
    fix ke assume "size (IfStatement c s els) < ke"
    then obtain k where k: "ke = Suc k" "size c < k" "size s < k" "size_option size els \<le> k"
      by (cases ke) auto
    have "calm plain_value (eval_opt (eval k) els)"
      using stmt_if.IH k(4) by (cases els) (auto simp: eval_opt_def calm_ret)
    with stmt_if.IH k(3) show "calm plain_value (eval ke (IfStatement c s els))"
      by (auto simp: k(1) eval_node_def intro!: calm_branch [of "eval k" c, OF expr_calm [OF stmt_if(1) k(2)]])
  qed
next
  case (stmt_while V c w s)
  show ?case
  proof (intro allI impI)
    fix ke assume "size (WhileStatement c s) < ke"
    then obtain k where k: "ke = Suc k" "size c < k" "size s < k" by (cases ke) auto
    with stmt_while.IH calm_while [of "eval k" c s, OF expr_calm [OF stmt_while(1) k(2)]]
    show "calm plain_value (eval ke (WhileStatement c s))"
      by (simp add: eval_node_def)
  qed
next
  case (stmt_return v V w)
  show ?case
  proof (intro allI impI)
    fix ke assume "size (Return v) < ke"
    then obtain k where k: "ke = Suc k" "size_option size v \<le> k" by (cases ke) auto
    from calm_expr_opt [OF stmt_return k(2)] show "calm plain_value (eval ke (Return v))"
      by (auto simp: k(1) eval_node_def intro: calm_ret elim!: calm_bind)
  qed
next
  case (stmts_nil V w)
  show ?case using calm_ret [of plain_value] by (auto simp del: ret_apply)
next
  case (stmts_null V w ss)
  then show ?case by simp
next
  case (stmts_stmt V w s ss)
  then show ?case by (auto intro!: calm_bind [of plain_value] calm_ret)
next
  case (stmts_expr V e w ss)
  then show ?case
    by (auto intro!: calm_bind [OF expr_calm [OF stmts_expr(1)]] calm_ret)
next
  case (stmts_assign x V e w ss m)
  show ?case
  proof (intro allI impI)
    fix ke and r :: eval_result
    let ?s = "Assignment x None m None e None"
    assume k: "size_list (size_option size) (Some ?s # ss) \<le> ke" and "scalar (fst r)"
    then obtain k where ke: "ke = Suc k" "size e < k" by (cases ke) auto
    have "calm plain_value (eval ke ?s)"
      using stmts_assign(2)
      by (auto simp: ke(1) eval_node_def intro!: calm_as_value calm_bind [OF expr_calm [OF stmts_assign(3) ke(2)]]
          calm_seq [OF calm_assign_binding] calm_ret)
    with stmts_assign.IH k show "calm plain_value (eval_statements (eval ke) r (Some ?s # ss))"
      by (auto intro!: calm_bind [of plain_value] calm_ret)
  qed
next
  case (stmts_var init V x w ss ty)
  show ?case
  proof (intro allI impI)
    fix ke and r :: eval_result
    let ?s = "VarDecl x ty init Default_Storage"
    assume k: "size_list (size_option size) (Some ?s # ss) \<le> ke" and "scalar (fst r)"
    then obtain k where ke: "ke = Suc k" "size_option size init \<le> k" by (cases ke) auto
    have "calm plain_value (eval ke ?s)"
      using calm_infer [of init V d, OF stmts_var(1)] calm_assign_local
      by (auto simp: ke(1) eval_node_def eval_var_decl_def intro!: calm_bind [OF calm_expr_opt [OF stmts_var(1) ke(2)]]
          calm_seq [of "\<lambda>_. True"] calm_bind [of "\<lambda>t. t = None"] calm_ret)
    with stmts_var.IH k show "calm plain_value (eval_statements (eval ke) r (Some ?s # ss))"
      by (auto intro!: calm_bind [of plain_value] calm_ret)
  qed
qed

text \<open>C27: on a program of the fragment the compile-time evaluator always returns: a fuel above the size of
  the tree is enough, however many rounds its loops would make.\<close>
theorem evaluation_returns:
  assumes "stmts d {} w ss" "plain (ev_gen st)" "ev_bindings st = []" "size (Block ss) < ke"
  shows "fst (eval ke (Block ss) st) \<noteq> Raise OutOfFuel"
proof (rule calmD)
  show "calm plain_value (eval ke (Block ss))"
    using fragment_calm(1) [OF stmt_block [OF assms(1)]] assms(4) by blast
  show "tame st" using assms(2,3) by (simp add: tame_def)
qed

end
