(* ===== verification/Applied.thy ===== *)
theory Applied
  imports Compiler Evaluator
begin

text \<open>
  Code equations of the generator's and the evaluator's procedures once they are applied to a state,
  so that evaluation never unfolds a procedure that is only passed on.
\<close>

declare
  on_chunk_def [THEN fun_cong, code]
  on_symbols_def [THEN fun_cong, code]
  update_meta_def [THEN fun_cong, code]
  emit_op_def [THEN fun_cong, code]
  emit_byte_def [THEN fun_cong, code]
  emit_operand_def [THEN fun_cong, code]
  emit_constant_def [THEN fun_cong, code]
  add_string_def [THEN fun_cong, code]
  code_size_def [THEN fun_cong, code]
  emit_named_def [THEN fun_cong, code]
  emit_jump_def [THEN fun_cong, code]
  patch_jump_def [THEN fun_cong, code]
  emit_slot_def [THEN fun_cong, code]
  find_place_def [THEN fun_cong, code]
  emit_get_variable_def [THEN fun_cong, code]
  emit_set_variable_def [THEN fun_cong, code]
  emit_binary_op_def [THEN fun_cong, code]
  emit_contract_assertion_def [THEN fun_cong, code]
  emit_upvalue_def [THEN fun_cong, code]
  emit_function_object_def [THEN fun_cong, code]
  register_function_signature_def [THEN fun_cong, code]
  ensure_struct_def [THEN fun_cong, code]
  ensure_actor_def [THEN fun_cong, code]
  ensure_interface_def [THEN fun_cong, code]
  ensure_member_def [THEN fun_cong, code]
  or_else_def [THEN fun_cong, code]
  infer_struct_def [THEN fun_cong, code]
  infer_opt_def [THEN fun_cong, code]
  resolve_field_def [THEN fun_cong, code]
  infer_actor_def [THEN fun_cong, code]
  resolve_struct_method_def [THEN fun_cong, code]
  resolve_actor_method_def [THEN fun_cong, code]
  is_actor_query_def [THEN fun_cong, code]
  infer_enum_def [THEN fun_cong, code]
  is_enum_tag_def [THEN fun_cong, code]
  normalize_interface_def [THEN fun_cong, code]
  infer_interface_def [THEN fun_cong, code]
  resolve_effect_operation_def [THEN fun_cong, code]
  resolve_handler_key_def [THEN fun_cong, code]
  visit_opt_def [THEN fun_cong, code]
  visit_or_null_def [THEN fun_cong, code]
  declare_symbol_def [THEN fun_cong, code]
  declare_slot_def [THEN fun_cong, code]
  declare_param_def [THEN fun_cong, code]
  push_function_def [THEN fun_cong, code]
  declare_result_slot_def [THEN fun_cong, code]
  emit_contracts_def [THEN fun_cong, code]
  enter_contracts_def [THEN fun_cong, code]
  leave_contracts_def [THEN fun_cong, code]
  emit_body_def [THEN fun_cong, code]
  compile_function_body_def [THEN fun_cong, code]
  define_global_def [THEN fun_cong, code]
  visit_function_decl_def [THEN fun_cong, code]
  visit_function_expr_def [THEN fun_cong, code]
  compile_method_def [THEN fun_cong, code]
  visit_unary_def [THEN fun_cong, code]
  visit_binary_def [THEN fun_cong, code]
  publish_variable_def [THEN fun_cong, code]
  explicit_name_def [THEN fun_cong, code]
  record_type_def [THEN fun_cong, code]
  bind_struct_def [THEN fun_cong, code]
  bind_enum_def [THEN fun_cong, code]
  bind_actor_def [THEN fun_cong, code]
  bind_interface_def [THEN fun_cong, code]
  record_enum_def [THEN fun_cong, code]
  record_interface_def [THEN fun_cong, code]
  visit_var_decl_def [THEN fun_cong, code]
  visit_interface_decl_def [THEN fun_cong, code]
  visit_effect_decl_def [THEN fun_cong, code]
  visit_enum_decl_def [THEN fun_cong, code]
  compile_actor_method_def [THEN fun_cong, code]
  visit_actor_decl_def [THEN fun_cong, code]
  compile_invariant_def [THEN fun_cong, code]
  compile_struct_method_def [THEN fun_cong, code]
  visit_struct_decl_def [THEN fun_cong, code]
  emit_address_of_def [THEN fun_cong, code]
  emit_call_argument_def [THEN fun_cong, code]
  emit_call_arguments_def [THEN fun_cong, code]
  emit_context_arguments_def [THEN fun_cong, code]
  build_struct_call_def [THEN fun_cong, code]
  build_enum_call_def [THEN fun_cong, code]
  build_actor_call_def [THEN fun_cong, code]
  try_constructor_def [THEN fun_cong, code]
  try_direct_constructor_def [THEN fun_cong, code]
  struct_method_call_def [THEN fun_cong, code]
  actor_method_call_def [THEN fun_cong, code]
  try_member_call_def [THEN fun_cong, code]
  emit_missing_defaults_def [THEN fun_cong, code]
  emit_plain_call_def [THEN fun_cong, code]
  emit_resume_def [THEN fun_cong, code]
  visit_call_def [THEN fun_cong, code]
  visit_member_access_def [THEN fun_cong, code]
  refresh_interface_def [THEN fun_cong, code]
  visit_assignment_def [THEN fun_cong, code]
  enter_scope_def [THEN fun_cong, code]
  leave_scope_def [THEN fun_cong, code]
  visit_block_def [THEN fun_cong, code]
  visit_if_def [THEN fun_cong, code]
  emit_loop_def [THEN fun_cong, code]
  visit_while_def [THEN fun_cong, code]
  visit_go_def [THEN fun_cong, code]
  visit_await_def [THEN fun_cong, code]
  visit_import_def [THEN fun_cong, code]
  emit_result_checks_def [THEN fun_cong, code]
  emit_invariant_check_def [THEN fun_cong, code]
  visit_return_def [THEN fun_cong, code]
  visit_transaction_def [THEN fun_cong, code]
  handler_key_of_def [THEN fun_cong, code]
  compile_handler_def [THEN fun_cong, code]
  visit_handle_def [THEN fun_cong, code]
  visit_array_def [THEN fun_cong, code]
  visit_map_def [THEN fun_cong, code]
  visit_index_def [THEN fun_cong, code]
  emit_adapter_def [THEN fun_cong, code]
  patch_byte_def [THEN fun_cong, code]
  emit_iter_loop_def [THEN fun_cong, code]
  visit_iter_def [THEN fun_cong, code]
  visit_leaf_def [THEN fun_cong, code]
  import_alias_def [THEN fun_cong, code]
  register_comptime_function_def [THEN fun_cong, code]
  evaluate_comptime_def [THEN fun_cong, code]
  visit_comptime_def [THEN fun_cong, code]
  visit_node_def [THEN fun_cong, code]
  compile_root_def [THEN fun_cong, code]
  assign_local_def [THEN fun_cong, code]
  bind_struct_type_def [THEN fun_cong, code]
  allocate_value_def [THEN fun_cong, code]
  eval_field_index_def [THEN fun_cong, code]
  eval_member_def [THEN fun_cong, code]
  eval_index_def [THEN fun_cong, code]
  eval_function_def [THEN fun_cong, code]
  eval_construct_def [THEN fun_cong, code]
  eval_call_def [THEN fun_cong, code]
  eval_opt_def [THEN fun_cong, code]
  eval_condition_def [THEN fun_cong, code]
  eval_var_decl_def [THEN fun_cong, code]
  as_value_def [THEN fun_cong, code]
  eval_node_def [THEN fun_cong, code]

lemmas visit_statements_applied [code] = visit_statements.simps [THEN fun_cong]
lemmas handled_effects_applied [code] = handled_effects.simps [THEN fun_cong]
lemmas gen_applied [code] = gen.simps [THEN fun_cong]
lemmas eval_list_applied [code] = eval_list.simps [THEN fun_cong]
lemmas bind_arguments_applied [code] = bind_arguments.simps [THEN fun_cong]
lemmas eval_statements_applied [code] = eval_statements.simps [THEN fun_cong]
lemmas eval_while_applied [code] = eval_while.simps [THEN fun_cong]
lemmas eval_applied [code] = eval.simps [THEN fun_cong]
lemmas infer_struct_chain_applied [code] = infer_struct_chain.simps [THEN fun_cong]

text \<open>Arithmetic modulo the widths of bytes and operands is computed on binary integers.\<close>

lemma width_code [code_unfold]:
  "n mod nat_of_num k = nat (int n mod numeral k)" "n div nat_of_num k = nat (int n div numeral k)"
  "nat_of_num k < n \<longleftrightarrow> numeral k < int n" "n < nat_of_num k \<longleftrightarrow> int n < numeral k"
  by (simp_all add: nat_of_num_numeral nat_mod_distrib nat_div_distrib)

end
