(* ===== verification/CompiledPrograms.thy ===== *)
theory CompiledPrograms
  imports Returns Applied
begin

text \<open>Concrete programs of the fragment, compiled, run and evaluated at compile time.\<close>

section \<open>A loop\<close>

definition toggle_program :: "node option list" where
  "toggle_program = [Some (VarDecl ''x'' [] (Some (Leaf ''true'' [])) Default_Storage),
     Some (WhileStatement (Identifier ''x'')
       (Block [Some (Assignment ''x'' None [] None (UnaryExpr ''!'' (Identifier ''x'')) None)])),
     Some (Return (Some (Identifier ''x'')))]"

lemma toggle_fragment: "stmts 1 {} 1 toggle_program"
proof -
  have t: "expr V 1 (Leaf ''true'' [])" for V
    using expr_literal [of "Leaf ''true'' []" "VBool True" V 0] by (simp add: literal_value_def)
  have x: "expr {''x''} 1 (Identifier ''x'')"
    using expr_variable [of "''x''" "{''x''}" 0] by simp
  have n: "expr {''x''} 1 (UnaryExpr ''!'' (Identifier ''x''))"
    using x by (intro expr_unary) auto
  have b: "stmt 1 {''x''} 0 (Block [Some (Assignment ''x'' None [] None (UnaryExpr ''!'' (Identifier ''x'')) None)])"
    using n by (intro stmt_block stmts_assign stmts_nil) auto
  have "stmts 1 {''x''} 0 [Some (WhileStatement (Identifier ''x'')
      (Block [Some (Assignment ''x'' None [] None (UnaryExpr ''!'' (Identifier ''x'')) None)])),
     Some (Return (Some (Identifier ''x'')))]"
    using b x by (intro stmts_stmt stmt_while stmt_return stmts_nil) auto
  then show ?thesis
    unfolding toggle_program_def One_nat_def using t by (intro stmts_var) auto
qed

definition bare_env :: env where
  "bare_env = \<lparr>native_body = (\<lambda>_ _ _ _. ret VNull), extension = (\<lambda>_. None), await_query = (\<lambda>_ _. throw [])\<rparr>"

definition fresh_eval :: eval_state where
  "fresh_eval = \<lparr>ev_gen = initial_gen (\<lambda>_. None) 1, ev_bindings = [], ev_structs = []\<rparr>"

lemma fresh_eval_simps: "plain (ev_gen fresh_eval)" "ev_bindings fresh_eval = []"
  by (simp_all add: fresh_eval_def plain_initial)

lemma compiles_case:
  "(case compile_program rc k h a p of (Ok c, g) \<Rightarrow> length (chunk_code c) < 65536 | _ \<Rightarrow> False) \<Longrightarrow>
   \<exists>c g. compile_program rc k h a p = (Ok c, g) \<and> length (chunk_code c) < 65536"
  by (auto split: prod.splits outcome.splits)

lemma toggle_compiles: "case compile_program (\<lambda>_. throw []) 9 (\<lambda>_. None) 1 (Some (Block toggle_program)) of
    (Ok c, g) \<Rightarrow> length (chunk_code c) < 65536 | _ \<Rightarrow> False"
  by code_simp

lemma toggle_value: "fst (eval 9 (Block toggle_program) fresh_eval) = Ok (VBool False, True)"
  by code_simp


theorem evaluation_returns_witness:
  "fst (eval (Suc (size (Block toggle_program))) (Block toggle_program) fresh_eval) \<noteq> Raise OutOfFuel"
  by (rule evaluation_returns [OF toggle_fragment fresh_eval_simps]) simp

section \<open>A type error\<close>

definition negate_program :: "node option list" where
  "negate_program = [Some (Return (Some (UnaryExpr ''-'' (StringLiteral ''s''))))]"

lemma negate_fragment: "stmts 1 {} 1 negate_program"
proof -
  have "expr {} 1 (StringLiteral ''s'')"
    using expr_literal [of "StringLiteral ''s''" "VString (Some ''s'')" "{}" 0] by (simp add: literal_value_def)
  then have "expr {} 1 (UnaryExpr ''-'' (StringLiteral ''s''))" by (intro expr_unary) auto
  then show ?thesis unfolding negate_program_def by (intro stmts_stmt stmt_return stmts_nil) auto
qed

lemma negate_compiles: "case compile_program (\<lambda>_. throw []) 9 (\<lambda>_. None) 1 (Some (Block negate_program)) of
    (Ok c, g) \<Rightarrow> length (chunk_code c) < 65536 | _ \<Rightarrow> False"
  by code_simp

lemma negate_raises: "fst (eval 9 (Block negate_program) fresh_eval) =
    Raise (CppExc ''Unary arithmetic not supported for type: string'')"
  by code_simp


end
